(* ===== verification/Prelude.thy ===== *)
theory Prelude
  imports Main "HOL-Library.Word" "HOL-Library.Code_Target_Numeral"
begin

text \<open>
  The shared vocabulary of the development: names for the machine integers of the
  kernel, little-endian field access into byte arrays, half-open windows of a
  memory function, and the generic list, option and word lemmas the component
  theories share.  Machine addresses and \<^verbatim>\<open>usize\<close> indices are natural numbers,
  because every index of the code is compared with a bound before it is used;
  values whose wrap-around or bit pattern matters keep their width as words.
\<close>

unbundle bit_operations_syntax

section \<open>Machine types\<close>

type_synonym u8 = "8 word"
type_synonym u16 = "16 word"
type_synonym u32 = "32 word"
type_synonym u64 = "64 word"

text \<open>
  \<open>wf_simps\<close> collects the definitions of the well-formedness predicates of the
  components and \<open>op_simps\<close> the facts that let the simplifier run their operations.
\<close>

named_theorems wf_simps
named_theorems op_simps

section \<open>Lists and options\<close>

lemma nth_list_update_if:
  "i < length xs \<Longrightarrow> xs[j := v] ! i = (if i = j then v else xs ! i)"
  by auto

lemma all_nth_update:
  assumes "\<forall>i < length xs. P i (xs ! i)" "j < length xs \<Longrightarrow> P j v"
  shows "\<forall>i < length (xs[j := v]). P i (xs[j := v] ! i)"
proof (intro allI impI)
  fix i assume "i < length (xs[j := v])"
  with assms show "P i (xs[j := v] ! i)" by (cases "i = j") auto
qed

lemma take_drop_split: "take n xs @ take m (drop n xs) = take (n + m) xs"
  by (simp add: take_add)

text \<open>The first index below a bound that satisfies a predicate: a \<^verbatim>\<open>for\<close> loop with a \<^verbatim>\<open>return\<close>.\<close>

definition find_index :: "(nat \<Rightarrow> bool) \<Rightarrow> nat \<Rightarrow> nat option" where
  "find_index P n = find P [0..<n]"

lemma find_index_Some_iff:
  "find_index P n = Some i \<longleftrightarrow> i < n \<and> P i \<and> (\<forall>j < i. \<not> P j)"
  by (auto simp: find_index_def find_Some_iff)

lemma find_index_None_iff: "find_index P n = None \<longleftrightarrow> (\<forall>i < n. \<not> P i)"
  by (auto simp: find_index_def find_None_iff)

lemma find_index_SomeD:
  "find_index P n = Some i \<Longrightarrow> i < n"
  "find_index P n = Some i \<Longrightarrow> P i"
  by (auto simp: find_index_Some_iff)

section \<open>Words\<close>

lemma unat_and_not_mask: "unat (w AND NOT (mask n) :: 'a::len word) = unat w div 2 ^ n * 2 ^ n"
proof -
  have "unat (w AND NOT (mask n)) = push_bit n (drop_bit n (unat w))"
    by (rule bit_eqI) (auto simp: bit_simps dest: bit_imp_le_length)
  then show ?thesis by (simp add: push_bit_eq_mult drop_bit_eq_div)
qed

lemma unat_of_nat_small: "n < 2 ^ LENGTH('a) \<Longrightarrow> unat (of_nat n :: 'a::len word) = n"
  by (simp add: unsigned_of_nat take_bit_nat_eq_self)

lemma word_test_bit: "w AND push_bit n 1 \<noteq> 0 \<longleftrightarrow> bit (w :: 'a::len word) n"
  by (simp add: bit_iff_and_push_bit_not_eq_0)

section \<open>Byte-addressed memory, little-endian\<close>

type_synonym memory = "nat \<Rightarrow> u8"

primrec read_le :: "nat \<Rightarrow> memory \<Rightarrow> nat \<Rightarrow> 'a::len word" where
  "read_le 0 mem a = 0"
| "read_le (Suc n) mem a = ucast (mem a) OR push_bit 8 (read_le n mem (a + 1))"

definition write_le :: "nat \<Rightarrow> 'a::len word \<Rightarrow> nat \<Rightarrow> memory \<Rightarrow> memory" where
  "write_le n w a mem = (\<lambda>x. if a \<le> x \<and> x < a + n then ucast (drop_bit (8 * (x - a)) w) else mem x)"

abbreviation read_u64 :: "memory \<Rightarrow> nat \<Rightarrow> u64" where "read_u64 \<equiv> read_le 8"
abbreviation write_u64 :: "u64 \<Rightarrow> nat \<Rightarrow> memory \<Rightarrow> memory" where "write_u64 \<equiv> write_le 8"

lemma bit_read_le:
  "bit (read_le n mem a :: 'a::len word) k \<longleftrightarrow>
     k < LENGTH('a) \<and> k < 8 * n \<and> bit (mem (a + k div 8)) (k mod 8)"
proof (induction n arbitrary: a k)
  case (Suc n)
  show ?case
  proof (cases "k < 8")
    case True
    then show ?thesis by (auto simp: bit_simps)
  next
    case False
    have "\<not> bit (mem a) k" using False bit_imp_le_length [of "mem a" k] by auto
    moreover have "k div 8 = Suc ((k - 8) div 8)" "k mod 8 = (k - 8) mod 8"
      using False by (simp_all add: le_div_geq le_mod_geq)
    ultimately show ?thesis
      using False Suc [of "a + 1" "k - 8"] by (auto simp: bit_simps)
  qed
qed simp

lemma read_write_le_same:
  assumes "LENGTH('a) \<le> 8 * n"
  shows "read_le n (write_le n w a mem) a = (w :: 'a::len word)"
proof (rule bit_word_eqI)
  fix k assume k: "k < LENGTH('a)"
  then have "k div 8 < n" using assms by linarith
  then show "bit (read_le n (write_le n w a mem) a :: 'a word) k \<longleftrightarrow> bit w k"
    using k assms by (auto simp: bit_read_le write_le_def bit_simps)
qed

lemma read_write_le_disjoint:
  assumes "a + n \<le> b \<or> b + m \<le> a"
  shows "read_le n (write_le m w b mem) a = (read_le n mem a :: 'a::len word)"
proof (rule bit_word_eqI)
  fix k assume "k < LENGTH('a)"
  have "write_le m w b mem (a + k div 8) = mem (a + k div 8)" if "k < 8 * n"
    using that assms by (auto simp: write_le_def)
  then show "bit (read_le n (write_le m w b mem) a :: 'a word) k \<longleftrightarrow> bit (read_le n mem a :: 'a word) k"
    by (auto simp: bit_read_le)
qed

lemma read_le_cong:
  assumes "\<And>x. a \<le> x \<Longrightarrow> x < a + n \<Longrightarrow> mem x = mem' x"
  shows "read_le n mem a = read_le n mem' a"
  using assms by (induction n arbitrary: a) auto

lemma read_le_zero: "(\<And>x. a \<le> x \<Longrightarrow> x < a + n \<Longrightarrow> mem x = 0) \<Longrightarrow> read_le n mem a = 0"
  by (induction n arbitrary: a) auto

end
