(* ===== verification/Page.thy ===== *)
theory Page
  imports Prelude
begin

text \<open>
  The bitmap page allocator of \<^verbatim>\<open>kernel/src/memory/page.rs\<close>.  One bit per 4 KiB page,
  1 = free; \<^verbatim>\<open>alloc_pages\<close> scans for the first run of \<open>count\<close> free pages, clears
  their bits and zeroes them.  Physical memory is a function from byte addresses to
  bytes; the kernel reaches it through a linear mapping, so the zeroing through
  \<^verbatim>\<open>phys_to_virt(addr)\<close> is a write at \<open>addr\<close>.  The linker symbol \<^verbatim>\<open>__kernel_end\<close>
  is an argument of the initialisation.
\<close>

section \<open>State and operations\<close>

definition PAGE_SIZE :: nat where "PAGE_SIZE = 4096"
definition MAX_RAM_END :: nat where "MAX_RAM_END = 0x440000000"
definition MAX_PAGES :: nat where "MAX_PAGES = (MAX_RAM_END - 0x40000000) div PAGE_SIZE"
definition BITMAP_BYTES :: nat where "BITMAP_BYTES = (MAX_PAGES + 7) div 8"

record PageState =
  BITMAP :: "u8 list"
  PAGE_BASE :: nat
  NUM_PAGES :: nat
  RAM_TOP :: nat
  PMEM :: "nat \<Rightarrow> u8"

definition page_align_up :: "nat \<Rightarrow> nat" where
  "page_align_up addr = (addr + PAGE_SIZE - 1) div PAGE_SIZE * PAGE_SIZE"

definition bitmap_test :: "u8 list \<Rightarrow> nat \<Rightarrow> bool" where
  "bitmap_test bm i \<longleftrightarrow> bm ! (i div 8) AND push_bit (i mod 8) 1 \<noteq> 0"

definition bitmap_set :: "nat \<Rightarrow> u8 list \<Rightarrow> u8 list" where
  "bitmap_set i bm = bm[i div 8 := bm ! (i div 8) OR push_bit (i mod 8) 1]"

definition bitmap_clear :: "nat \<Rightarrow> u8 list \<Rightarrow> u8 list" where
  "bitmap_clear i bm = bm[i div 8 := bm ! (i div 8) AND NOT (push_bit (i mod 8) 1)]"

text \<open>
  \<^verbatim>\<open>ram_end - base\<close> underflows when no RAM is left above the kernel image; the
  initialisation then does not return (arithmetic panic, or an index panic in its loop).
\<close>

definition page_init :: "nat \<Rightarrow> nat \<Rightarrow> 'a PageState_scheme \<Rightarrow> 'a PageState_scheme option" where
  "page_init kernel_end ram_end0 s =
    (let ram_end = min ram_end0 MAX_RAM_END;
         base = page_align_up kernel_end
     in if ram_end < base then None
        else let num_pages = (ram_end - base) div PAGE_SIZE
             in Some (s\<lparr>PAGE_BASE := base, NUM_PAGES := num_pages, RAM_TOP := ram_end,
                        BITMAP := fold bitmap_set [0..<num_pages] (BITMAP s)\<rparr>))"

text \<open>The scan of \<^verbatim>\<open>alloc_pages\<close>, over the indices still to visit.\<close>

fun alloc_scan :: "(nat \<Rightarrow> bool) \<Rightarrow> nat \<Rightarrow> nat \<Rightarrow> nat \<Rightarrow> nat list \<Rightarrow> nat option" where
  "alloc_scan free count consecutive start_idx [] = None"
| "alloc_scan free count consecutive start_idx (i # is) =
    (if free i then
       let start_idx = (if consecutive = 0 then i else start_idx);
           consecutive = consecutive + 1
       in if consecutive = count then Some start_idx
          else alloc_scan free count consecutive start_idx is
     else alloc_scan free count 0 start_idx is)"

definition zero_range :: "nat \<Rightarrow> nat \<Rightarrow> (nat \<Rightarrow> u8) \<Rightarrow> nat \<Rightarrow> u8" where
  "zero_range addr n mem = (\<lambda>a. if addr \<le> a \<and> a < addr + n then 0 else mem a)"

definition alloc_pages :: "nat \<Rightarrow> 'a PageState_scheme \<Rightarrow> 'a PageState_scheme \<times> nat option" where
  "alloc_pages count s =
    (if count = 0 then (s, None)
     else case alloc_scan (bitmap_test (BITMAP s)) count 0 0 [0..<NUM_PAGES s] of
            None \<Rightarrow> (s, None)
          | Some start_idx \<Rightarrow>
              let addr = PAGE_BASE s + start_idx * PAGE_SIZE
              in (s\<lparr>BITMAP := fold bitmap_clear [start_idx..<start_idx + count] (BITMAP s),
                    PMEM := zero_range addr (count * PAGE_SIZE) (PMEM s)\<rparr>, Some addr))"

definition alloc_page :: "'a PageState_scheme \<Rightarrow> 'a PageState_scheme \<times> nat option" where
  "alloc_page s = alloc_pages 1 s"

definition free_page :: "nat \<Rightarrow> 'a PageState_scheme \<Rightarrow> 'a PageState_scheme" where
  "free_page addr s =
    (if addr < PAGE_BASE s \<or> addr \<ge> RAM_TOP s then s
     else if addr AND (PAGE_SIZE - 1) \<noteq> 0 then s
     else let index = (addr - PAGE_BASE s) div PAGE_SIZE
          in if index < NUM_PAGES s then s\<lparr>BITMAP := bitmap_set index (BITMAP s)\<rparr> else s)"

definition release_pages :: "nat \<Rightarrow> nat \<Rightarrow> 'a PageState_scheme \<Rightarrow> 'a PageState_scheme" where
  "release_pages base count s = fold (\<lambda>i. free_page (base + i * PAGE_SIZE)) [0..<count] s"

definition free_pages :: "'a PageState_scheme \<Rightarrow> nat" where
  "free_pages s = fold (\<lambda>i n. if bitmap_test (BITMAP s) i then n + 1 else n) [0..<NUM_PAGES s] 0"

definition used_pages :: "'a PageState_scheme \<Rightarrow> nat" where
  "used_pages s = NUM_PAGES s - free_pages s"

definition total_pages :: "'a PageState_scheme \<Rightarrow> nat" where
  "total_pages s = NUM_PAGES s"

section \<open>Bitmap lemmas\<close>

lemma length_bitmap_set [simp]: "length (bitmap_set i bm) = length bm"
  by (simp add: bitmap_set_def)

lemma length_bitmap_clear [simp]: "length (bitmap_clear i bm) = length bm"
  by (simp add: bitmap_clear_def)

lemma bit_index_split: "i div 8 = j div 8 \<and> i mod 8 = j mod 8 \<longleftrightarrow> i = (j :: nat)"
  by (metis div_mult_mod_eq)

lemma bitmap_test_bit: "bitmap_test bm i \<longleftrightarrow> bit (bm ! (i div 8)) (i mod 8)"
  unfolding bitmap_test_def by (rule word_test_bit)

lemma bitmap_test_set:
  assumes "i < 8 * length bm"
  shows "bitmap_test (bitmap_set i bm) j \<longleftrightarrow> j = i \<or> bitmap_test bm j"
proof -
  have "i div 8 < length bm" using assms by linarith
  then show ?thesis
    using bit_index_split [of i j]
    by (auto simp: bitmap_test_bit bitmap_set_def nth_list_update bit_simps)
qed

lemma bitmap_test_clear:
  assumes "i < 8 * length bm"
  shows "bitmap_test (bitmap_clear i bm) j \<longleftrightarrow> j \<noteq> i \<and> bitmap_test bm j"
proof -
  have "i div 8 < length bm" using assms by linarith
  then show ?thesis
    using bit_index_split [of i j]
    by (auto simp: bitmap_test_bit bitmap_clear_def nth_list_update bit_simps)
qed

lemma length_fold_bitmap [simp]:
  "length (fold bitmap_set is bm) = length bm" "length (fold bitmap_clear is bm) = length bm"
  by (induction "is" arbitrary: bm) auto

lemma bitmap_test_fold_set:
  "(\<forall>i \<in> set is. i < 8 * length bm) \<Longrightarrow>
   bitmap_test (fold bitmap_set is bm) j \<longleftrightarrow> j \<in> set is \<or> bitmap_test bm j"
  by (induction "is" arbitrary: bm) (auto simp: bitmap_test_set)

lemma bitmap_test_fold_clear:
  "(\<forall>i \<in> set is. i < 8 * length bm) \<Longrightarrow>
   bitmap_test (fold bitmap_clear is bm) j \<longleftrightarrow> j \<notin> set is \<and> bitmap_test bm j"
  by (induction "is" arbitrary: bm) (auto simp: bitmap_test_clear)

section \<open>The scan finds the first run\<close>

definition free_run :: "(nat \<Rightarrow> bool) \<Rightarrow> nat \<Rightarrow> nat \<Rightarrow> bool" where
  "free_run free count k \<longleftrightarrow> (\<forall>j. k \<le> j \<and> j < k + count \<longrightarrow> free j)"

definition first_run :: "(nat \<Rightarrow> bool) \<Rightarrow> nat \<Rightarrow> nat \<Rightarrow> nat option \<Rightarrow> bool" where
  "first_run free count n r \<longleftrightarrow>
     (case r of
        None \<Rightarrow> \<forall>k. k + count \<le> n \<longrightarrow> \<not> free_run free count k
      | Some k \<Rightarrow> k + count \<le> n \<and> free_run free count k \<and> (\<forall>k' < k. \<not> free_run free count k'))"

lemma alloc_scan_first_run:
  assumes "c < count" "c \<le> i" "i \<le> n" "c > 0 \<longrightarrow> st = i - c"
    and "\<forall>j. i - c \<le> j \<and> j < i \<longrightarrow> free j" "c < i \<longrightarrow> \<not> free (i - c - 1)"
    and "\<forall>k. k + count \<le> i \<longrightarrow> \<not> free_run free count k"
  shows "first_run free count n (alloc_scan free count c st [i..<n])"
  using assms
proof (induction "n - i" arbitrary: i c st)
  case 0
  then show ?case by (auto simp: first_run_def)
next
  case (Suc d)
  then have i: "i < n" and split: "[i..<n] = i # [Suc i..<n]" by (auto simp: upt_rec)
  show ?case
  proof (cases "free i")
    case False
    have "first_run free count n (alloc_scan free count 0 st [Suc i..<n])"
    proof (rule Suc.hyps(1))
      show "\<forall>k. k + count \<le> Suc i \<longrightarrow> \<not> free_run free count k"
      proof (intro allI impI)
        fix k assume k: "k + count \<le> Suc i"
        show "\<not> free_run free count k"
        proof (cases "k + count \<le> i")
          case False
          with k \<open>\<not> free i\<close> Suc.prems(1) show ?thesis by (auto simp: free_run_def intro!: exI [of _ i])
        qed (use Suc.prems in blast)
      qed
    qed (use Suc i False in auto)
    with False split show ?thesis by simp
  next
    case True
    define st' where "st' = (if c = 0 then i else st)"
    have st': "st' = Suc i - Suc c" using Suc.prems by (auto simp: st'_def)
    have run: "free j" if "Suc i - Suc c \<le> j" "j < Suc i" for j
      using that True Suc.prems(5) by (cases "j = i") auto
    show ?thesis
    proof (cases "Suc c = count")
      case eq: True
      have "\<not> free_run free count k" if "k < st'" for k
        using that Suc.prems(2,7) st' eq by auto
      moreover have "st' + count \<le> n" using st' eq Suc.prems i by auto
      moreover have "free_run free count st'"
        using run st' eq Suc.prems(2) by (auto simp: free_run_def)
      ultimately show ?thesis using True split eq by (simp add: st'_def [symmetric] first_run_def)
    next
      case neq: False
      have "first_run free count n (alloc_scan free count (Suc c) st' [Suc i..<n])"
      proof (rule Suc.hyps(1))
        show "\<forall>k. k + count \<le> Suc i \<longrightarrow> \<not> free_run free count k"
        proof (intro allI impI)
          fix k assume k: "k + count \<le> Suc i"
          show "\<not> free_run free count k"
          proof (cases "k + count \<le> i")
            case False
            with k neq Suc.prems(1,2) have "c < i" "k \<le> i - c - 1" "i - c - 1 < k + count" by auto
            with Suc.prems(6) show ?thesis by (auto simp: free_run_def)
          qed (use Suc.prems in blast)
        qed
      qed (use Suc i neq run st' in auto)
      with True split neq show ?thesis by (simp add: st'_def [symmetric])
    qed
  qed
qed

lemma alloc_scan_spec:
  "0 < count \<Longrightarrow> first_run free count n (alloc_scan free count 0 st [0..<n])"
  by (rule alloc_scan_first_run) (auto simp: free_run_def)

section \<open>Well-formedness and the set of free frames\<close>

definition page_wf :: "'a PageState_scheme \<Rightarrow> bool" where
  "page_wf s \<longleftrightarrow> NUM_PAGES s \<le> 8 * length (BITMAP s) \<and> PAGE_SIZE dvd PAGE_BASE s
     \<and> PAGE_BASE s + NUM_PAGES s * PAGE_SIZE \<le> RAM_TOP s"

definition page_is_free :: "'a PageState_scheme \<Rightarrow> nat \<Rightarrow> bool" where
  "page_is_free s i \<longleftrightarrow> i < NUM_PAGES s \<and> bitmap_test (BITMAP s) i"

definition free_frames :: "'a PageState_scheme \<Rightarrow> nat set" where
  "free_frames s = {PAGE_BASE s + i * PAGE_SIZE | i. page_is_free s i}"

definition frames :: "nat \<Rightarrow> nat \<Rightarrow> nat set" where
  "frames addr count = (\<lambda>k. addr + k * PAGE_SIZE) ` {..<count}"

lemma PAGE_SIZE_pos [simp]: "0 < PAGE_SIZE" "PAGE_SIZE \<noteq> 0" by (simp_all add: PAGE_SIZE_def)

lemma alloc_pages_Some:
  assumes "page_wf s" "alloc_pages count s = (s', Some addr)"
  obtains k where "0 < count" "addr = PAGE_BASE s + k * PAGE_SIZE" "k + count \<le> NUM_PAGES s"
    "\<forall>j. k \<le> j \<and> j < k + count \<longrightarrow> page_is_free s j"
    "\<forall>j. page_is_free s' j \<longleftrightarrow> page_is_free s j \<and> \<not> (k \<le> j \<and> j < k + count)"
    "s' = s\<lparr>BITMAP := BITMAP s', PMEM := zero_range addr (count * PAGE_SIZE) (PMEM s)\<rparr>"
    "length (BITMAP s') = length (BITMAP s)"
proof -
  have pos: "0 < count" using assms(2) by (cases count) (auto simp: alloc_pages_def)
  obtain k where
    sc: "alloc_scan (bitmap_test (BITMAP s)) count 0 0 [0..<NUM_PAGES s] = Some k"
    using assms(2) pos
    by (cases "alloc_scan (bitmap_test (BITMAP s)) count 0 0 [0..<NUM_PAGES s]")
      (auto simp: alloc_pages_def)
  then have addr: "addr = PAGE_BASE s + k * PAGE_SIZE"
    and s': "s' = s\<lparr>BITMAP := fold bitmap_clear [k..<k + count] (BITMAP s),
                   PMEM := zero_range addr (count * PAGE_SIZE) (PMEM s)\<rparr>"
    using assms(2) pos by (auto simp: alloc_pages_def Let_def)
  have "first_run (bitmap_test (BITMAP s)) count (NUM_PAGES s) (Some k)"
    using alloc_scan_spec [OF pos, of "bitmap_test (BITMAP s)" "NUM_PAGES s" 0] sc by simp
  then have le: "k + count \<le> NUM_PAGES s"
    and fr: "\<forall>j. k \<le> j \<and> j < k + count \<longrightarrow> bitmap_test (BITMAP s) j"
    by (auto simp: first_run_def free_run_def)
  have "\<forall>i \<in> set [k..<k + count]. i < 8 * length (BITMAP s)"
    using le assms(1) by (auto simp: page_wf_def)
  then have "page_is_free s' j \<longleftrightarrow> page_is_free s j \<and> \<not> (k \<le> j \<and> j < k + count)" for j
    using s' by (auto simp: page_is_free_def bitmap_test_fold_clear)
  with pos addr le fr s' show thesis
    by (intro that [of k]) (auto simp: page_is_free_def)
qed

lemma alloc_pages_None: "alloc_pages count s = (s', None) \<Longrightarrow> s' = s"
  by (auto simp: alloc_pages_def Let_def split: if_splits option.splits)

lemma alloc_pages_wf: "page_wf s \<Longrightarrow> page_wf (fst (alloc_pages count s))"
  by (auto simp: alloc_pages_def page_wf_def Let_def split: option.splits)

lemma frames_index: "frames (b + k * PAGE_SIZE) n = {b + i * PAGE_SIZE | i. k \<le> i \<and> i < k + n}"
proof -
  have "{i. k \<le> i \<and> i < k + n} = (+) k ` {..<n}"
    by (auto simp: image_iff Bex_def) (metis le_iff_add nat_add_left_cancel_less)
  then have "{b + i * PAGE_SIZE | i. k \<le> i \<and> i < k + n} = (\<lambda>i. b + i * PAGE_SIZE) ` (+) k ` {..<n}"
    by (simp only: setcompr_eq_image)
  then show ?thesis by (simp add: frames_def image_image algebra_simps)
qed

lemma alloc_pages_frames:
  assumes "page_wf s" "alloc_pages count s = (s', Some addr)"
  shows "frames addr count \<subseteq> free_frames s" "free_frames s' = free_frames s - frames addr count"
proof -
  obtain k where k: "0 < count" "addr = PAGE_BASE s + k * PAGE_SIZE" "k + count \<le> NUM_PAGES s"
    "\<forall>j. k \<le> j \<and> j < k + count \<longrightarrow> page_is_free s j"
    "\<forall>j. page_is_free s' j \<longleftrightarrow> page_is_free s j \<and> \<not> (k \<le> j \<and> j < k + count)"
    "s' = s\<lparr>BITMAP := BITMAP s', PMEM := zero_range addr (count * PAGE_SIZE) (PMEM s)\<rparr>"
    "length (BITMAP s') = length (BITMAP s)"
    by (rule alloc_pages_Some [OF assms]) blast
  have b: "PAGE_BASE s' = PAGE_BASE s" by (subst k(6)) simp
  show "frames addr count \<subseteq> free_frames s"
    using k(2,4) by (auto simp: frames_index free_frames_def)
  let ?f = "\<lambda>i. PAGE_BASE s + i * PAGE_SIZE"
  have inj: "inj ?f" by (auto simp: inj_def)
  have "{i. page_is_free s' i} = {i. page_is_free s i} - {i. k \<le> i \<and> i < k + count}"
    using k(5) by blast
  then show "free_frames s' = free_frames s - frames addr count"
    unfolding k(2) frames_index free_frames_def b setcompr_eq_image
    by (simp only: image_set_diff [OF inj])
qed


definition managed_frames :: "'a PageState_scheme \<Rightarrow> nat set" where
  "managed_frames s = {PAGE_BASE s + i * PAGE_SIZE | i. i < NUM_PAGES s}"

lemma page_offset_mask: "addr AND (PAGE_SIZE - Suc 0) = addr mod PAGE_SIZE"
proof -
  have "PAGE_SIZE - Suc 0 = mask 12" by (simp add: PAGE_SIZE_def mask_eq_exp_minus_1)
  then have "addr AND (PAGE_SIZE - Suc 0) = take_bit 12 addr" by (simp only: take_bit_eq_mask)
  then show ?thesis by (simp add: take_bit_eq_mod PAGE_SIZE_def)
qed

lemma free_page_managed:
  assumes "page_wf s"
  shows "free_page addr s =
    (if addr \<in> managed_frames s
     then s\<lparr>BITMAP := bitmap_set ((addr - PAGE_BASE s) div PAGE_SIZE) (BITMAP s)\<rparr> else s)"
proof (cases "addr \<in> managed_frames s")
  case True
  then obtain i where i: "addr = PAGE_BASE s + i * PAGE_SIZE" "i < NUM_PAGES s"
    by (auto simp: managed_frames_def)
  have "PAGE_SIZE dvd addr" using assms i by (auto simp: page_wf_def)
  moreover have "i * PAGE_SIZE < NUM_PAGES s * PAGE_SIZE" using i by simp
  then have "addr < RAM_TOP s" using assms i unfolding page_wf_def by linarith
  ultimately show ?thesis
    using i True by (simp add: free_page_def page_offset_mask Let_def)
next
  case False
  have "addr \<in> managed_frames s"
    if "PAGE_BASE s \<le> addr" "addr mod PAGE_SIZE = 0" "(addr - PAGE_BASE s) div PAGE_SIZE < NUM_PAGES s"
  proof -
    have "PAGE_SIZE dvd addr - PAGE_BASE s"
      using that assms by (auto simp: page_wf_def dvd_diff_nat mod_eq_0_iff_dvd)
    then have "addr = PAGE_BASE s + (addr - PAGE_BASE s) div PAGE_SIZE * PAGE_SIZE"
      using that by simp
    with that(3) show ?thesis by (auto simp: managed_frames_def)
  qed
  with False show ?thesis by (auto simp: free_page_def page_offset_mask Let_def)
qed

lemma free_page_frames:
  assumes "page_wf s"
  shows "free_frames (free_page addr s) = free_frames s \<union> ({addr} \<inter> managed_frames s)"
    and "managed_frames (free_page addr s) = managed_frames s"
    and "page_wf (free_page addr s)"
proof -
  show "managed_frames (free_page addr s) = managed_frames s" "page_wf (free_page addr s)"
    using assms by (auto simp: free_page_managed managed_frames_def page_wf_def)
  show "free_frames (free_page addr s) = free_frames s \<union> ({addr} \<inter> managed_frames s)"
  proof (cases "addr \<in> managed_frames s")
    case True
    then obtain i where i: "addr = PAGE_BASE s + i * PAGE_SIZE" "i < NUM_PAGES s"
      by (auto simp: managed_frames_def)
    moreover have "i < 8 * length (BITMAP s)" using i assms by (simp add: page_wf_def)
    ultimately show ?thesis
      using True assms by (auto simp: free_page_managed free_frames_def page_is_free_def bitmap_test_set)
  qed (simp add: free_page_managed assms)
qed

lemma release_pages_frames:
  assumes "page_wf s"
  shows "free_frames (release_pages a n s) = free_frames s \<union> (frames a n \<inter> managed_frames s)
     \<and> managed_frames (release_pages a n s) = managed_frames s \<and> page_wf (release_pages a n s)"
proof (induction n)
  case 0
  then show ?case using assms by (simp add: release_pages_def frames_def)
next
  case (Suc n)
  have "release_pages a (Suc n) s = free_page (a + n * PAGE_SIZE) (release_pages a n s)"
    by (simp add: release_pages_def)
  moreover have "frames a (Suc n) = insert (a + n * PAGE_SIZE) (frames a n)"
    by (simp add: frames_def lessThan_Suc)
  ultimately show ?case
    using Suc.IH free_page_frames [of "release_pages a n s" "a + n * PAGE_SIZE"] by auto
qed

lemma alloc_pages_managed:
  "managed_frames (fst (alloc_pages count s)) = managed_frames s"
  by (auto simp: alloc_pages_def managed_frames_def Let_def split: option.splits)

lemma free_frames_managed: "free_frames s \<subseteq> managed_frames s"
  by (auto simp: free_frames_def managed_frames_def page_is_free_def)

section \<open>The allocator interface and its clients\<close>

text \<open>
  What the scheduler, the page tables and the ELF loader rely on: a block given out
  was free, is no longer free, and comes back by a release.  A ledger of the blocks that
  are out is kept by the client; every run of requests and releases of blocks of the ledger
  keeps them pairwise disjoint and disjoint from the free frames.
\<close>

datatype alloc_op = Alloc nat | Release nat

fun ledger_step ::
  "(nat \<Rightarrow> 's \<Rightarrow> 's \<times> nat option) \<Rightarrow> (nat \<Rightarrow> nat \<Rightarrow> 's \<Rightarrow> 's) \<Rightarrow> alloc_op \<Rightarrow>
   's \<times> (nat \<times> nat) list \<Rightarrow> 's \<times> (nat \<times> nat) list" where
  "ledger_step alloc release (Alloc n) (s, live) =
     (case alloc n s of (s', None) \<Rightarrow> (s', live) | (s', Some a) \<Rightarrow> (s', (a, n) # live))"
| "ledger_step alloc release (Release i) (s, live) =
     (if i < length live then (case live ! i of (a, n) \<Rightarrow> (release a n s, take i live @ drop (Suc i) live))
      else (s, live))"

definition ledger_run ::
  "(nat \<Rightarrow> 's \<Rightarrow> 's \<times> nat option) \<Rightarrow> (nat \<Rightarrow> nat \<Rightarrow> 's \<Rightarrow> 's) \<Rightarrow> alloc_op list \<Rightarrow>
   's \<times> (nat \<times> nat) list \<Rightarrow> 's \<times> (nat \<times> nat) list" where
  "ledger_run alloc release cs sl = fold (ledger_step alloc release) cs sl"

locale frame_allocator =
  fixes alloc :: "nat \<Rightarrow> 's \<Rightarrow> 's \<times> nat option"
    and release :: "nat \<Rightarrow> nat \<Rightarrow> 's \<Rightarrow> 's"
    and wf :: "'s \<Rightarrow> bool"
    and free :: "'s \<Rightarrow> nat set"
    and managed :: "'s \<Rightarrow> nat set"
    and blk :: "nat \<Rightarrow> nat \<Rightarrow> nat set"
  assumes alloc_some: "wf s \<Longrightarrow> alloc n s = (s', Some a) \<Longrightarrow>
        blk a n \<subseteq> free s \<and> free s' = free s - blk a n \<and> managed s' = managed s \<and> wf s'"
    and alloc_none: "alloc n s = (s', None) \<Longrightarrow> s' = s"
    and release_free: "wf s \<Longrightarrow> free (release a n s) = free s \<union> (blk a n \<inter> managed s)
        \<and> managed (release a n s) = managed s \<and> wf (release a n s)"
    and free_managed: "free s \<subseteq> managed s"
begin

definition ledger_ok :: "'s \<times> (nat \<times> nat) list \<Rightarrow> bool" where
  "ledger_ok sl \<longleftrightarrow> (case sl of (s, live) \<Rightarrow>
     wf s \<and> sorted_wrt (\<lambda>(a, n) (b, m). blk a n \<inter> blk b m = {}) live \<and>
     (\<forall>(a, n) \<in> set live. blk a n \<inter> free s = {} \<and> blk a n \<subseteq> managed s))"

lemma alloc_release_free:
  assumes "wf s" "alloc n s = (s', Some a)"
  shows "free (release a n s') = free s"
  using alloc_some [OF assms] release_free [of s' a n] free_managed [of s] by auto

lemma ledger_step_ok:
  assumes "ledger_ok sl"
  shows "ledger_ok (ledger_step alloc release c sl)"
proof -
  obtain s live where sl: "sl = (s, live)" by (cases sl)
  with assms have w: "wf s" and d: "sorted_wrt (\<lambda>(a, n) (b, m). blk a n \<inter> blk b m = {}) live"
    and f: "\<forall>(a, n) \<in> set live. blk a n \<inter> free s = {} \<and> blk a n \<subseteq> managed s"
    by (auto simp: ledger_ok_def)
  show ?thesis
  proof (cases c)
    case (Alloc n)
    show ?thesis
    proof (cases "alloc n s")
      case (Pair s' r)
      then show ?thesis
      proof (cases r)
        case None
        then show ?thesis using Pair Alloc alloc_none [of n s s'] assms sl by auto
      next
        case (Some a)
        with Pair alloc_some [OF w, of n s' a] have
          a: "blk a n \<subseteq> free s" "free s' = free s - blk a n" "managed s' = managed s" "wf s'" by auto
        have x: "\<forall>(b, m) \<in> set live. blk a n \<inter> blk b m = {}" using f a(1) by fast
        have y: "\<forall>(b, m) \<in> set live. blk b m \<inter> free s' = {} \<and> blk b m \<subseteq> managed s'"
          using f unfolding a(2,3) by fast
        have z: "blk a n \<inter> free s' = {}" "blk a n \<subseteq> managed s'"
          using a free_managed [of s] by auto
        have "ledger_ok (s', (a, n) # live)"
          using d a(4) x y z unfolding ledger_ok_def by simp
        with Some Pair Alloc sl show ?thesis by simp
      qed
    qed
  next
    case (Release i)
    show ?thesis
    proof (cases "i < length live")
      case True
      obtain a n where an: "live ! i = (a, n)" by (cases "live ! i")
      obtain pre post where l: "live = pre @ (a, n) # post"
        and rest: "take i live = pre" "drop (Suc i) live = post"
        using True an by (metis id_take_nth_drop)
      have "sorted_wrt (\<lambda>(a, n) (b, m). blk a n \<inter> blk b m = {}) (pre @ post)"
        and "\<forall>(b, m) \<in> set (pre @ post). blk b m \<inter> blk a n = {}"
        using d unfolding l by (auto simp: sorted_wrt_append)
      moreover have "\<forall>(b, m) \<in> set (pre @ post). blk b m \<inter> free s = {} \<and> blk b m \<subseteq> managed s"
        using f unfolding l by auto
      ultimately have "ledger_ok (release a n s, pre @ post)"
        using release_free [OF w, of a n] by (fastforce simp: ledger_ok_def)
      then show ?thesis using Release True an sl rest by simp
    qed (use Release assms sl in simp)
  qed
qed

lemma ledger_run_ok: "ledger_ok sl \<Longrightarrow> ledger_ok (ledger_run alloc release cs sl)"
  unfolding ledger_run_def by (induction cs arbitrary: sl) (simp_all add: ledger_step_ok)

end


interpretation pa: frame_allocator alloc_pages release_pages page_wf free_frames managed_frames frames
proof unfold_locales
  fix n s s' a
  assume w: "page_wf s" and a: "alloc_pages n s = (s', Some a)"
  show "frames a n \<subseteq> free_frames s \<and> free_frames s' = free_frames s - frames a n
      \<and> managed_frames s' = managed_frames s \<and> page_wf s'"
    using alloc_pages_frames [OF w a] alloc_pages_managed [of n s] alloc_pages_wf [OF w, of n] a by simp
qed (fact alloc_pages_None release_pages_frames free_frames_managed)+

lemma free_pages_card: "free_pages s = card {i. page_is_free s i}"
proof -
  have "fold (\<lambda>i n. if P i then n + 1 else n) [0..<m] 0 = card {i. i < m \<and> P i}" for P m
  proof (induction m)
    case (Suc m)
    have "{i. i < Suc m \<and> P i} = {i. i < m \<and> P i} \<union> (if P m then {m} else {})"
      by (auto simp: less_Suc_eq)
    with Suc show ?case by simp
  qed simp
  then show ?thesis by (simp add: free_pages_def page_is_free_def)
qed

lemma page_is_free_finite [simp]: "finite {i. page_is_free s i}"
  by (rule finite_subset [of _ "{..<NUM_PAGES s}"]) (auto simp: page_is_free_def)

lemma free_pages_le: "free_pages s \<le> NUM_PAGES s"
proof -
  have "card {i. page_is_free s i} \<le> card {..<NUM_PAGES s}"
    by (rule card_mono) (auto simp: page_is_free_def)
  then show ?thesis by (simp add: free_pages_card)
qed

lemma alloc_pages_count:
  assumes "page_wf s" "alloc_pages n s = (s', Some a)"
  shows "free_pages s = free_pages s' + n" "NUM_PAGES s' = NUM_PAGES s"
proof -
  obtain k where k: "0 < n" "a = PAGE_BASE s + k * PAGE_SIZE" "k + n \<le> NUM_PAGES s"
    "\<forall>j. k \<le> j \<and> j < k + n \<longrightarrow> page_is_free s j"
    "\<forall>j. page_is_free s' j \<longleftrightarrow> page_is_free s j \<and> \<not> (k \<le> j \<and> j < k + n)"
    "s' = s\<lparr>BITMAP := BITMAP s', PMEM := zero_range a (n * PAGE_SIZE) (PMEM s)\<rparr>"
    "length (BITMAP s') = length (BITMAP s)"
    by (rule alloc_pages_Some [OF assms]) blast
  have e: "{i. page_is_free s i} = {i. page_is_free s' i} \<union> {k..<k + n}" using k(4,5) by auto
  have "{i. page_is_free s' i} \<inter> {k..<k + n} = {}" using k(5) by auto
  then show "free_pages s = free_pages s' + n"
    unfolding free_pages_card e by (subst card_Un_disjoint) auto
  show "NUM_PAGES s' = NUM_PAGES s" by (subst k(6)) simp
qed

lemma alloc_page_success:
  assumes "page_wf s" "0 < free_pages s"
  obtains s' a where "alloc_pages 1 s = (s', Some a)"
proof (cases "snd (alloc_pages 1 s)")
  case None
  obtain i where i: "page_is_free s i" using assms(2) by (auto simp: free_pages_card card_gt_0_iff)
  have "alloc_scan (bitmap_test (BITMAP s)) 1 0 0 [0..<NUM_PAGES s] = None"
    using None by (auto simp: alloc_pages_def Let_def split: option.splits)
  with alloc_scan_spec [of 1 "bitmap_test (BITMAP s)" "NUM_PAGES s" 0]
  have "\<not> free_run (bitmap_test (BITMAP s)) 1 i"
    using i by (auto simp: first_run_def page_is_free_def)
  then show thesis using i by (auto simp: free_run_def page_is_free_def less_Suc_eq_le)
next
  case (Some a)
  then show thesis using that [of "fst (alloc_pages 1 s)" a] by (metis prod.collapse)
qed

lemma alloc_pages_run_success:
  assumes "0 < n" "\<forall>j. k \<le> j \<and> j < k + n \<longrightarrow> page_is_free s j"
  obtains s' a where "alloc_pages n s = (s', Some a)"
proof (cases "alloc_scan (bitmap_test (BITMAP s)) n 0 0 [0..<NUM_PAGES s]")
  case None
  have "page_is_free s (k + n - 1)" using assms by auto
  then have "k + n \<le> NUM_PAGES s" using assms(1) unfolding page_is_free_def by linarith
  moreover have "free_run (bitmap_test (BITMAP s)) n k" using assms(2) by (auto simp: free_run_def page_is_free_def)
  ultimately have False
    using alloc_scan_spec [OF assms(1), of "bitmap_test (BITMAP s)" "NUM_PAGES s" 0] None
    by (auto simp: first_run_def)
  then show thesis ..
next
  case (Some i)
  then show thesis using that assms(1) by (simp add: alloc_pages_def Let_def)
qed

lemma page_align_up_word:
  assumes "addr + 4095 < 2 ^ 64"
  shows "unat ((of_nat addr + 4095) AND NOT 4095 :: u64) = page_align_up addr"
proof -
  have "(4095 :: u64) = mask 12" by (simp add: mask_eq_exp_minus_1)
  moreover have "unat (of_nat (addr + 4095) :: u64) = addr + 4095"
    using assms by (intro unat_of_nat_small) simp
  then have "unat (of_nat addr + 4095 :: u64) = addr + 4095" by simp
  ultimately show ?thesis
    using unat_and_not_mask [of "of_nat addr + 4095 :: u64" 12]
    by (simp add: page_align_up_def PAGE_SIZE_def add.commute)
qed

lemma page_align_up_ge: "addr \<le> page_align_up addr" "PAGE_SIZE dvd page_align_up addr"
proof -
  have "(addr + 4095) div 4096 * 4096 \<ge> addr" by linarith
  then show "addr \<le> page_align_up addr" by (simp add: page_align_up_def PAGE_SIZE_def)
qed (simp add: page_align_up_def)

section \<open>Properties\<close>

text \<open>
  C7. Allocation: \<^verbatim>\<open>alloc_pages(n)\<close> returns the first run of \<open>n\<close> free pages that exists and
  fails, changing nothing, exactly when \<open>n\<close> is 0 or no such run exists.  On success the
  pages of the run, and only those, stop being free; the returned block reads as zero and no
  other byte of physical memory changes.
\<close>

theorem alloc_pages_correct:
  assumes "page_wf s"
  shows "case alloc_pages n s of
      (s', None) \<Rightarrow> s' = s \<and> (n = 0 \<or> (\<forall>k. k + n \<le> NUM_PAGES s \<longrightarrow> (\<exists>j. k \<le> j \<and> j < k + n \<and> \<not> page_is_free s j)))
    | (s', Some a) \<Rightarrow> \<exists>k. a = PAGE_BASE s + k * PAGE_SIZE \<and> k + n \<le> NUM_PAGES s \<and> page_wf s'
        \<and> (\<forall>j. k \<le> j \<and> j < k + n \<longrightarrow> page_is_free s j)
        \<and> (\<forall>k' < k. \<exists>j. k' \<le> j \<and> j < k' + n \<and> \<not> page_is_free s j)
        \<and> (\<forall>j. page_is_free s' j \<longleftrightarrow> page_is_free s j \<and> \<not> (k \<le> j \<and> j < k + n))
        \<and> (\<forall>x. PMEM s' x = (if a \<le> x \<and> x < a + n * PAGE_SIZE then 0 else PMEM s x))"
proof -
  have fr: "0 < n \<Longrightarrow> first_run (bitmap_test (BITMAP s)) n (NUM_PAGES s)
      (alloc_scan (bitmap_test (BITMAP s)) n 0 0 [0..<NUM_PAGES s])"
    by (rule alloc_scan_spec)
  obtain s' r where sr: "alloc_pages n s = (s', r)" by (cases "alloc_pages n s")
  show ?thesis
  proof (cases r)
    case None
    then have "s' = s" using sr alloc_pages_None by blast
    moreover have "alloc_scan (bitmap_test (BITMAP s)) n 0 0 [0..<NUM_PAGES s] = None" if "n \<noteq> 0"
      using that sr None by (auto simp: alloc_pages_def Let_def split: option.splits)
    ultimately show ?thesis
      using sr None fr by (cases "n = 0") (auto simp: first_run_def free_run_def page_is_free_def)
  next
    case (Some a)
    with sr have al: "alloc_pages n s = (s', Some a)" by simp
    obtain k where k: "0 < n" "a = PAGE_BASE s + k * PAGE_SIZE" "k + n \<le> NUM_PAGES s"
      "\<forall>j. k \<le> j \<and> j < k + n \<longrightarrow> page_is_free s j"
      "\<forall>j. page_is_free s' j \<longleftrightarrow> page_is_free s j \<and> \<not> (k \<le> j \<and> j < k + n)"
      "s' = s\<lparr>BITMAP := BITMAP s', PMEM := zero_range a (n * PAGE_SIZE) (PMEM s)\<rparr>"
      "length (BITMAP s') = length (BITMAP s)"
      by (rule alloc_pages_Some [OF assms al]) blast
    have "alloc_scan (bitmap_test (BITMAP s)) n 0 0 [0..<NUM_PAGES s] = Some k"
      using al k(1,2) by (auto simp: alloc_pages_def Let_def split: option.splits)
    with fr [OF k(1)] have "\<forall>k' < k. \<exists>j. k' \<le> j \<and> j < k' + n \<and> \<not> page_is_free s j"
      by (auto simp: first_run_def free_run_def page_is_free_def)
    moreover have "page_wf s'" using alloc_pages_wf [OF assms, of n] al by simp
    moreover have "PMEM s' = zero_range a (n * PAGE_SIZE) (PMEM s)" by (subst k(6)) simp
    ultimately show ?thesis using al k(2-5) by (auto simp: zero_range_def intro!: exI [of _ k])
  qed
qed

definition page_example :: PageState where
  "page_example = \<lparr>BITMAP = [0b10110111], PAGE_BASE = 0x41000000, NUM_PAGES = 8,
     RAM_TOP = 0x41008000, PMEM = (\<lambda>_. 7)\<rparr>"

lemma page_example_wf: "page_wf page_example"
  by (simp add: page_wf_def page_example_def PAGE_SIZE_def)

theorem alloc_pages_correct_witness:
  "page_wf page_example \<and> snd (alloc_pages 2 page_example) = Some 0x41000000
   \<and> snd (alloc_pages 4 page_example) = None
   \<and> (\<exists>j. 1 \<le> j \<and> j < 1 + 4 \<and> \<not> page_is_free page_example j)"
proof -
  have r: "snd (alloc_pages 2 page_example) = Some 0x41000000"
    "snd (alloc_pages 4 page_example) = None" by code_simp+
  then obtain s' where "alloc_pages 4 page_example = (s', None)"
    by (metis prod.collapse)
  with alloc_pages_correct [OF page_example_wf, of 4] r
  have "\<forall>k. k + 4 \<le> NUM_PAGES page_example \<longrightarrow>
      (\<exists>j. k \<le> j \<and> j < k + 4 \<and> \<not> page_is_free page_example j)" by simp
  moreover have "1 + 4 \<le> NUM_PAGES page_example" by code_simp
  ultimately show ?thesis using r page_example_wf by blast
qed

text \<open>
  C6. No page is given out twice: start from any well-formed allocator and run any sequence of
  allocations and releases of blocks that are out.  The blocks that are out at the end are
  pairwise disjoint, lie in managed memory, and share no frame with the free frames.
\<close>

theorem live_blocks_disjoint:
  assumes "page_wf s" "ledger_run alloc_pages release_pages cs (s, []) = (s', live)"
  shows "sorted_wrt (\<lambda>(a, n) (b, m). frames a n \<inter> frames b m = {}) live
     \<and> (\<forall>(a, n) \<in> set live. frames a n \<inter> free_frames s' = {} \<and> frames a n \<subseteq> managed_frames s')
     \<and> page_wf s'"
proof -
  have "pa.ledger_ok (s, [])" using assms(1) by (simp add: pa.ledger_ok_def)
  from pa.ledger_run_ok [OF this, of cs] show ?thesis
    unfolding assms(2) pa.ledger_ok_def by simp
qed

theorem live_blocks_disjoint_witness:
  "\<exists>s'. ledger_run alloc_pages release_pages [Alloc 2, Alloc 1, Release 1, Alloc 1, Alloc 2]
          (page_example, [])
        = (s', [(0x41004000, 2), (0x41000000, 1), (0x41002000, 1)])
      \<and> frames 0x41004000 2 \<inter> free_frames s' = {}"
proof -
  have "snd (ledger_run alloc_pages release_pages [Alloc 2, Alloc 1, Release 1, Alloc 1, Alloc 2]
          (page_example, [])) = [(0x41004000, 2), (0x41000000, 1), (0x41002000, 1)]"
    by code_simp
  then obtain s' where r: "ledger_run alloc_pages release_pages
      [Alloc 2, Alloc 1, Release 1, Alloc 1, Alloc 2] (page_example, [])
        = (s', [(0x41004000, 2), (0x41000000, 1), (0x41002000, 1)])"
    by (metis prod.collapse)
  with live_blocks_disjoint [OF page_example_wf r] show ?thesis by simp
qed

text \<open>
  Accounting and round trip: a successful allocation of \<open>n\<close> pages lowers the count of
  free pages by \<open>n\<close> and raises the count of used pages by \<open>n\<close>; releasing the block makes
  exactly the frames free that were free before.
\<close>

theorem alloc_release_accounting:
  assumes "page_wf s" "alloc_pages n s = (s', Some a)"
  shows "free_pages s = free_pages s' + n \<and> used_pages s' = used_pages s + n
     \<and> free_frames (release_pages a n s') = free_frames s"
  using alloc_pages_count [OF assms] free_pages_le [of s] pa.alloc_release_free [OF assms]
  by (simp add: used_pages_def)

theorem alloc_release_accounting_witness:
  "\<exists>s'. alloc_pages 2 page_example = (s', Some 0x41000000) \<and> free_pages s' = 4
     \<and> free_frames (release_pages 0x41000000 2 s') = free_frames page_example"
proof -
  have "snd (alloc_pages 2 page_example) = Some 0x41000000" by code_simp
  then obtain s' where r: "alloc_pages 2 page_example = (s', Some 0x41000000)"
    by (metis prod.collapse)
  have "free_pages page_example = 6" by code_simp
  with alloc_release_accounting [OF page_example_wf r] r show ?thesis by simp
qed

text \<open>
  Initialisation: with the kernel image at or above the start of RAM and the zeroed
  bitmap of its declared size, \<^verbatim>\<open>init\<close> yields a well-formed allocator in which every
  managed page is free, every managed byte lies above the kernel image and below the clamped
  end of RAM, and the page count fits the bitmap.
\<close>

theorem page_init_correct:
  assumes "0x40000000 \<le> kernel_end" "length (BITMAP s) = BITMAP_BYTES"
    and "page_init kernel_end ram_end s = Some s'"
  shows "page_wf s' \<and> NUM_PAGES s' \<le> MAX_PAGES \<and> free_pages s' = NUM_PAGES s' \<and> used_pages s' = 0
     \<and> (\<forall>i < NUM_PAGES s'. kernel_end \<le> PAGE_BASE s' + i * PAGE_SIZE
          \<and> PAGE_BASE s' + i * PAGE_SIZE + PAGE_SIZE \<le> min ram_end MAX_RAM_END)"
proof -
  define n where "n = (min ram_end MAX_RAM_END - page_align_up kernel_end) div PAGE_SIZE"
  from assms(3) have le: "page_align_up kernel_end \<le> min ram_end MAX_RAM_END"
    and s': "s' = s\<lparr>PAGE_BASE := page_align_up kernel_end, NUM_PAGES := n,
      RAM_TOP := min ram_end MAX_RAM_END, BITMAP := fold bitmap_set [0..<n] (BITMAP s)\<rparr>"
    by (auto simp: page_init_def Let_def n_def split: if_splits)
  have "n \<le> (MAX_RAM_END - 0x40000000) div PAGE_SIZE"
    unfolding n_def using page_align_up_ge(1) [of kernel_end] assms(1) by (intro div_le_mono) auto
  then have max: "n \<le> MAX_PAGES" by (simp add: MAX_PAGES_def)
  then have fit: "n \<le> 8 * length (BITMAP s)" using assms(2) by (simp add: BITMAP_BYTES_def)
  have "n * PAGE_SIZE \<le> min ram_end MAX_RAM_END - page_align_up kernel_end"
    by (simp add: n_def)
  then have top: "page_align_up kernel_end + n * PAGE_SIZE \<le> min ram_end MAX_RAM_END"
    using le by linarith
  have "{i. page_is_free s' i} = {..<n}"
    using fit by (auto simp: page_is_free_def s' bitmap_test_fold_set)
  then have "free_pages s' = n" by (simp add: free_pages_card)
  moreover have "page_align_up kernel_end + i * PAGE_SIZE + PAGE_SIZE \<le> min ram_end MAX_RAM_END"
    if "i < n" for i
  proof -
    have "Suc i * PAGE_SIZE \<le> n * PAGE_SIZE" using that by (intro mult_le_mono1) simp
    with top show ?thesis by simp
  qed
  ultimately show ?thesis
    using max fit top page_align_up_ge [of kernel_end]
    by (auto simp: s' page_wf_def used_pages_def)
qed

theorem page_init_correct_witness:
  "\<exists>s'. page_init 0x43fff1001 0x440000000
        \<lparr>BITMAP = replicate BITMAP_BYTES 0, PAGE_BASE = 0, NUM_PAGES = 0, RAM_TOP = 0, PMEM = (\<lambda>_. 0)\<rparr>
      = Some s' \<and> NUM_PAGES s' = 0xE \<and> free_pages s' = 0xE"
proof -
  let ?z = "\<lparr>BITMAP = replicate BITMAP_BYTES 0, PAGE_BASE = 0, NUM_PAGES = 0, RAM_TOP = 0,
    PMEM = (\<lambda>_. 0)\<rparr>"
  obtain s' where r: "page_init 0x43fff1001 0x440000000 ?z = Some s'" and n: "NUM_PAGES s' = 0xE"
    by (simp add: page_init_def page_align_up_def PAGE_SIZE_def MAX_RAM_END_def)
  show ?thesis using page_init_correct [OF _ _ r] r n by simp
qed

end
