(* ===== verification/Vmm.thy ===== *)
theory Vmm
  imports Page
begin

text \<open>
  The virtual memory manager of \<^verbatim>\<open>kernel/src/memory/vmm.rs\<close>: address conversion, the
  AArch64 descriptor bits, and the page tables it builds in physical memory.  A table is a
  4 KiB frame of 512 little-endian 64-bit descriptors; a \<^verbatim>\<open>*mut PageTable\<close> is modelled by the
  physical address it maps to.  \<^verbatim>\<open>alloc_table\<close> panics when no page is left, so the operations
  that may allocate return an option, \<open>None\<close> being the panic.  The three static
  root tables are at addresses fixed by the linker, which are arguments here.  Barriers have no
  effect on the model; TLB invalidations are recorded in \<open>TLBI\<close>, newest first.
\<close>

section \<open>Addresses and descriptor bits\<close>

definition KERNEL_VA_OFFSET :: nat where "KERNEL_VA_OFFSET = 0xFFFF000000000000"

definition phys_to_virt :: "nat \<Rightarrow> nat" where "phys_to_virt pa = pa + KERNEL_VA_OFFSET"
definition virt_to_phys :: "nat \<Rightarrow> nat" where "virt_to_phys va = va - KERNEL_VA_OFFSET"

definition to_dma_addr :: "nat \<Rightarrow> nat" where
  "to_dma_addr ptr = (if ptr \<ge> KERNEL_VA_OFFSET then ptr - KERNEL_VA_OFFSET else ptr)"

definition PTE_VALID :: u64 where "PTE_VALID = push_bit 0 1"
definition PTE_TABLE :: u64 where "PTE_TABLE = push_bit 1 1"
definition PTE_AF :: u64 where "PTE_AF = push_bit 10 1"
definition PTE_SH_INNER :: u64 where "PTE_SH_INNER = push_bit 8 3"
definition PTE_AP_RW :: u64 where "PTE_AP_RW = push_bit 6 0"
definition PTE_AP_USER_RW :: u64 where "PTE_AP_USER_RW = push_bit 6 1"
definition PTE_UXN :: u64 where "PTE_UXN = push_bit 54 1"
definition PTE_PXN :: u64 where "PTE_PXN = push_bit 53 1"
definition ATTR_NORMAL :: u64 where "ATTR_NORMAL = push_bit 2 0"
definition ATTR_DEVICE :: u64 where "ATTR_DEVICE = push_bit 2 1"
definition BLOCK_DESC :: u64 where "BLOCK_DESC = PTE_VALID"
definition ENTRIES_PER_TABLE :: nat where "ENTRIES_PER_TABLE = 512"
definition L2_BLOCK_SIZE :: nat where "L2_BLOCK_SIZE = 2 * 1024 * 1024"

lemmas pte_defs = PTE_VALID_def PTE_TABLE_def PTE_AF_def PTE_SH_INNER_def PTE_AP_RW_def
  PTE_AP_USER_RW_def PTE_UXN_def PTE_PXN_def ATTR_NORMAL_def ATTR_DEVICE_def BLOCK_DESC_def

definition PTE_ADDR :: u64 where "PTE_ADDR = 0x0000FFFFFFFFF000"
definition PTE_BLOCK_ADDR :: u64 where "PTE_BLOCK_ADDR = 0x0000FFFFFFE00000"

text \<open>\<^verbatim>\<open>x & !0xFFF\<close> on a machine address.\<close>

definition page_down :: "nat \<Rightarrow> nat" where "page_down x = x div 4096 * 4096"

definition table_index :: "nat \<Rightarrow> nat \<Rightarrow> nat" where
  "table_index shift va = (va div 2 ^ shift) mod 512"

section \<open>State\<close>

record VmmState = PageState +
  TTBR0_ADDR :: nat
  TTBR1_ADDR :: nat
  USER_TTBR0_ADDR :: nat
  TLBI :: "nat list"

definition rd :: "'a PageState_scheme \<Rightarrow> nat \<Rightarrow> nat \<Rightarrow> u64" where
  "rd s t i = read_u64 (PMEM s) (t + 8 * i)"

definition wr :: "nat \<Rightarrow> nat \<Rightarrow> u64 \<Rightarrow> 'a PageState_scheme \<Rightarrow> 'a PageState_scheme" where
  "wr t i w s = s\<lparr>PMEM := write_u64 w (t + 8 * i) (PMEM s)\<rparr>"

definition tlbi :: "nat \<Rightarrow> 'a VmmState_scheme \<Rightarrow> 'a VmmState_scheme" where
  "tlbi va s = s\<lparr>TLBI := va div 4096 # TLBI s\<rparr>"

definition alloc_table :: "'a PageState_scheme \<Rightarrow> ('a PageState_scheme \<times> nat) option" where
  "alloc_table s = (case alloc_page s of (s', Some p) \<Rightarrow> Some (s', p) | (s', None) \<Rightarrow> None)"

definition table_desc :: "nat \<Rightarrow> u64" where
  "table_desc t = (of_nat t OR PTE_VALID) OR PTE_TABLE"

section \<open>Building tables\<close>

text \<open>The 512 descriptors of one L2 table, stopping at the end of RAM.\<close>

definition RAM_START :: nat where "RAM_START = 0x40000000"
definition RAM_END :: nat where "RAM_END = 0x440000000"

definition l2_fill :: "u64 \<Rightarrow> nat \<Rightarrow> nat \<Rightarrow> 'a PageState_scheme \<Rightarrow> nat \<times> 'a PageState_scheme" where
  "l2_fill flags l2_pa addr s =
    fold (\<lambda>i (addr, s). if addr \<ge> RAM_END then (addr, s)
                        else (addr + L2_BLOCK_SIZE, wr l2_pa i (of_nat addr OR flags) s))
      [0..<ENTRIES_PER_TABLE] (addr, s)"

lemma l2_fill_addr: "addr < RAM_END \<Longrightarrow> addr < fst (l2_fill flags l2_pa addr s)"
proof -
  have mono: "addr \<le> fst (fold (\<lambda>i (addr, s). if addr \<ge> RAM_END then (addr, s)
      else (addr + L2_BLOCK_SIZE, wr l2_pa i (of_nat addr OR flags) s)) is (addr, s))"
    for addr "is" and s :: "'a PageState_scheme"
  proof (induction "is" arbitrary: addr s)
    case (Cons i "is")
    show ?case
      using Cons [of addr s] Cons [of "addr + L2_BLOCK_SIZE" "wr l2_pa i (of_nat addr OR flags) s"]
      by simp
  qed simp
  assume lt: "addr < RAM_END"
  have "[0..<ENTRIES_PER_TABLE] = 0 # [Suc 0..<ENTRIES_PER_TABLE]"
    by (rule upt_conv_Cons) (simp add: ENTRIES_PER_TABLE_def)
  then have "fst (l2_fill flags l2_pa addr s) \<ge> addr + L2_BLOCK_SIZE"
    unfolding l2_fill_def using lt mono by simp
  then show ?thesis by (simp add: L2_BLOCK_SIZE_def)
qed

function map_ram :: "u64 \<Rightarrow> nat \<Rightarrow> nat \<Rightarrow> 'a PageState_scheme \<Rightarrow> 'a PageState_scheme option" where
  "map_ram flags l1_pa addr s =
    (if addr < RAM_END then
       (case alloc_table s of
          None \<Rightarrow> None
        | Some (s1, l2_pa) \<Rightarrow>
            let r = l2_fill flags l2_pa addr (wr l1_pa (table_index 30 addr) (table_desc l2_pa) s1)
            in map_ram flags l1_pa (fst r) (snd r))
     else Some s)"
  by pat_completeness auto
termination
proof (relation "measure (\<lambda>(flags, l1, addr, s). RAM_END - addr)")
  fix flags l1_pa addr and s s1 :: "'a PageState_scheme" and p r and l2_pa :: nat
  assume lt: "addr < RAM_END"
    and r: "r = l2_fill flags l2_pa addr (wr l1_pa (table_index 30 addr) (table_desc l2_pa) s1)"
  have "addr < fst r" unfolding r by (rule l2_fill_addr [OF lt])
  with lt show "((flags, l1_pa, fst r, snd r), flags, l1_pa, addr, s)
      \<in> measure (\<lambda>(flags, l1, addr, s). RAM_END - addr)"
    by (cases r) (simp add: diff_less_mono2)
qed simp

declare map_ram.simps [simp del]

definition vmm_init :: "nat \<Rightarrow> nat \<Rightarrow> 'a VmmState_scheme \<Rightarrow> ('a VmmState_scheme \<times> nat \<times> nat) option" where
  "vmm_init L0 L0_TTBR1 s0 =
    (case alloc_table s0 of None \<Rightarrow> None | Some (s1, l1_pa) \<Rightarrow>
     let s2 = wr L0_TTBR1 0 (table_desc l1_pa) (wr L0 0 (table_desc l1_pa) s1) in
     case alloc_table s2 of None \<Rightarrow> None | Some (s3, l2_mmio_pa) \<Rightarrow>
     let s4 = wr l1_pa 0 (table_desc l2_mmio_pa) s3;
         device_flags = BLOCK_DESC OR PTE_AF OR PTE_SH_INNER OR PTE_AP_RW OR ATTR_DEVICE OR PTE_UXN OR PTE_PXN;
         mmio_base_idx = 0x08000000 div 2 ^ 21;
         s5 = fold (\<lambda>i. wr l2_mmio_pa (mmio_base_idx + i)
                      (of_nat ((mmio_base_idx + i) * 2 ^ 21) OR device_flags)) [0..<32] s4;
         kernel_flags = BLOCK_DESC OR PTE_AF OR PTE_SH_INNER OR PTE_AP_RW OR ATTR_NORMAL OR PTE_UXN in
     case map_ram kernel_flags l1_pa RAM_START s5 of None \<Rightarrow> None | Some s6 \<Rightarrow>
     Some (s6\<lparr>TTBR0_ADDR := L0, TTBR1_ADDR := L0_TTBR1\<rparr>, L0, L0_TTBR1))"

definition ttbr0 :: "'a VmmState_scheme \<Rightarrow> nat" where "ttbr0 s = TTBR0_ADDR s"
definition ttbr1 :: "'a VmmState_scheme \<Rightarrow> nat" where "ttbr1 s = TTBR1_ADDR s"
definition user_ttbr0 :: "'a VmmState_scheme \<Rightarrow> nat" where "user_ttbr0 s = USER_TTBR0_ADDR s"
definition current_ttbr0 :: "'a VmmState_scheme \<Rightarrow> nat" where "current_ttbr0 s = TTBR0_ADDR s"

definition create_user_table :: "nat \<Rightarrow> 'a VmmState_scheme \<Rightarrow> ('a VmmState_scheme \<times> nat) option" where
  "create_user_table USER_L0 s =
    (case alloc_table s of None \<Rightarrow> None | Some (s1, l1_pa) \<Rightarrow>
     let s2 = wr USER_L0 0 (table_desc l1_pa) s1;
         flags = BLOCK_DESC OR PTE_AF OR PTE_SH_INNER OR PTE_AP_USER_RW OR ATTR_NORMAL in
     case map_ram flags l1_pa RAM_START s2 of None \<Rightarrow> None | Some s3 \<Rightarrow>
     Some (s3\<lparr>USER_TTBR0_ADDR := USER_L0\<rparr>, USER_L0))"

section \<open>Mapping and unmapping pages\<close>

text \<open>
  The next-level table behind entry \<open>i\<close> of table \<open>t\<close>, allocated when the entry is
  invalid and split into 4 KiB descriptors when it is a block.
\<close>

definition get_or_alloc_subtable :: "nat \<Rightarrow> nat \<Rightarrow> 'a PageState_scheme \<Rightarrow> ('a PageState_scheme \<times> nat) option" where
  "get_or_alloc_subtable t0 i0 s =
    (let entry = rd s t0 i0 in
     if entry AND PTE_VALID = 0 then
       (case alloc_table s of None \<Rightarrow> None
        | Some (s1, t) \<Rightarrow> Some (wr t0 i0 (table_desc t) s1, t))
     else if entry AND PTE_TABLE = 0 then
       (let block_pa = unat (entry AND PTE_BLOCK_ADDR);
            page_flags = (entry AND NOT PTE_BLOCK_ADDR) OR PTE_TABLE
        in case alloc_table s of None \<Rightarrow> None
           | Some (s1, t) \<Rightarrow>
               let s2 = fold (\<lambda>i. wr t i ((of_nat (block_pa + i * 4096) AND PTE_ADDR) OR page_flags))
                          [0..<ENTRIES_PER_TABLE] s1
               in Some (wr t0 i0 (table_desc t) s2, t))
     else Some (s, unat (entry AND PTE_ADDR)))"

definition map_one_page :: "nat \<Rightarrow> nat \<Rightarrow> nat \<Rightarrow> u64 \<Rightarrow> 'a PageState_scheme \<Rightarrow> 'a PageState_scheme option" where
  "map_one_page root pa va flags s =
    (case get_or_alloc_subtable root (table_index 39 va) s of None \<Rightarrow> None | Some (s1, l1) \<Rightarrow>
     case get_or_alloc_subtable l1 (table_index 30 va) s1 of None \<Rightarrow> None | Some (s2, l2) \<Rightarrow>
     case get_or_alloc_subtable l2 (table_index 21 va) s2 of None \<Rightarrow> None | Some (s3, l3) \<Rightarrow>
     let existing = rd s3 l3 (table_index 12 va);
         merged_flags =
           (if existing AND PTE_VALID \<noteq> 0 \<and> existing AND PTE_AP_USER_RW \<noteq> 0
            then (flags AND NOT PTE_UXN) OR ((existing AND PTE_UXN) AND (flags AND PTE_UXN))
            else flags)
     in Some (wr l3 (table_index 12 va) ((of_nat pa AND PTE_ADDR) OR merged_flags) s3))"

fun map_page_list :: "nat \<Rightarrow> (nat \<times> nat) list \<Rightarrow> u64 \<Rightarrow> 'a PageState_scheme \<Rightarrow> 'a PageState_scheme option" where
  "map_page_list root [] flags s = Some s"
| "map_page_list root ((pa, va) # ps) flags s =
    (case map_one_page root pa va flags s of None \<Rightarrow> None | Some s' \<Rightarrow> map_page_list root ps flags s')"

definition map_pages :: "nat \<Rightarrow> nat \<Rightarrow> nat \<Rightarrow> nat \<Rightarrow> u64 \<Rightarrow> 'a PageState_scheme \<Rightarrow> 'a PageState_scheme option" where
  "map_pages root pa va sz flags s =
    (let pa_base = page_down pa; va_base = page_down va;
         pages = (sz + (pa - pa_base) + 0xFFF) div 4096
     in map_page_list root (map (\<lambda>i. (pa_base + i * 4096, va_base + i * 4096)) [0..<pages]) flags s)"

definition map_block :: "nat \<Rightarrow> nat \<Rightarrow> nat \<Rightarrow> u64 \<Rightarrow> 'a PageState_scheme \<Rightarrow> 'a PageState_scheme option" where
  "map_block root pa va flags s =
    (case get_or_alloc_subtable root (table_index 39 va) s of None \<Rightarrow> None | Some (s1, l1) \<Rightarrow>
     case get_or_alloc_subtable l1 (table_index 30 va) s1 of None \<Rightarrow> None | Some (s2, l2) \<Rightarrow>
     Some (wr l2 (table_index 21 va) ((of_nat pa AND PTE_BLOCK_ADDR) OR flags) s2))"

record ProcSegment =
  seg_pa :: nat
  seg_size :: nat
  seg_el0 :: bool
  seg_exec :: bool
  seg_dev :: bool

definition seg_flags :: "ProcSegment \<Rightarrow> u64" where
  "seg_flags seg =
    (let attr = (if seg_dev seg then ATTR_DEVICE else ATTR_NORMAL);
         ap = (if seg_el0 seg then PTE_AP_USER_RW else PTE_AP_RW);
         uxn = (if seg_exec seg then 0 else PTE_UXN)
     in PTE_VALID OR PTE_TABLE OR PTE_AF OR PTE_SH_INNER OR attr OR ap OR uxn OR PTE_PXN)"

fun map_segments :: "nat \<Rightarrow> ProcSegment list \<Rightarrow> 'a PageState_scheme \<Rightarrow> 'a PageState_scheme option" where
  "map_segments root [] s = Some s"
| "map_segments root (seg # segs) s =
    (if seg_size seg = 0 then map_segments root segs s
     else case map_pages root (seg_pa seg) (seg_pa seg) (seg_size seg) (seg_flags seg) s of
            None \<Rightarrow> None | Some s' \<Rightarrow> map_segments root segs s')"

definition create_process_table :: "ProcSegment list \<Rightarrow> 'a PageState_scheme \<Rightarrow> ('a PageState_scheme \<times> nat) option" where
  "create_process_table segs s =
    (case alloc_table s of None \<Rightarrow> None | Some (s1, root) \<Rightarrow>
     case map_segments root segs s1 of None \<Rightarrow> None | Some s2 \<Rightarrow> Some (s2, root))"

text \<open>One iteration of the loop of \<^verbatim>\<open>unmap_pages\<close>; every \<^verbatim>\<open>continue\<close> leaves the state as it is.\<close>

definition unmap_one_page :: "nat \<Rightarrow> nat \<Rightarrow> 'a VmmState_scheme \<Rightarrow> 'a VmmState_scheme" where
  "unmap_one_page root page_va s =
    (let l0e = rd s root (table_index 39 page_va) in
     if l0e AND PTE_VALID = 0 then s else
     let l1 = unat (l0e AND PTE_ADDR); l1e = rd s l1 (table_index 30 page_va) in
     if l1e AND PTE_VALID = 0 then s else
     let l2 = unat (l1e AND PTE_ADDR); l2e = rd s l2 (table_index 21 page_va) in
     if l2e AND PTE_VALID = 0 then s else
     if l2e AND PTE_TABLE = 0 then s else
     let l3 = unat (l2e AND PTE_ADDR); l3e = rd s l3 (table_index 12 page_va) in
     if l3e AND PTE_VALID = 0 then s else
     tlbi page_va (free_page (unat (l3e AND PTE_ADDR)) (wr l3 (table_index 12 page_va) 0 s)))"

definition unmap_pages :: "nat \<Rightarrow> nat \<Rightarrow> nat \<Rightarrow> 'a VmmState_scheme \<Rightarrow> 'a VmmState_scheme" where
  "unmap_pages root va sz s =
    (let va_base = page_down va; pages = (sz + (va - va_base) + 0xFFF) div 4096
     in fold (\<lambda>i. unmap_one_page root (va_base + i * 4096)) [0..<pages] s)"

definition map_user_rw :: "nat \<Rightarrow> nat \<Rightarrow> nat \<Rightarrow> 'a PageState_scheme \<Rightarrow> 'a PageState_scheme option" where
  "map_user_rw root pa sz s =
    (let flags = PTE_VALID OR PTE_TABLE OR PTE_AF OR PTE_SH_INNER OR PTE_AP_USER_RW OR ATTR_NORMAL
           OR PTE_UXN OR PTE_PXN
     in map_pages root pa pa sz flags s)"

definition map_kernel_mmio :: "nat \<Rightarrow> nat \<Rightarrow> 'a VmmState_scheme \<Rightarrow> 'a VmmState_scheme option" where
  "map_kernel_mmio pa sz s =
    (let root = TTBR1_ADDR s in
     if root = 0 \<or> sz = 0 then Some s else
     let flags = PTE_VALID OR PTE_TABLE OR PTE_AF OR PTE_SH_INNER OR PTE_AP_RW OR ATTR_DEVICE
           OR PTE_UXN OR PTE_PXN;
         va_base = page_down (phys_to_virt pa)
     in case map_pages root pa va_base sz flags s of None \<Rightarrow> None
        | Some s' \<Rightarrow> Some (fold (\<lambda>i. tlbi (va_base + i * 4096)) [0..<(sz + 4095) div 4096] s'))"

section \<open>What the table operations may change\<close>

text \<open>
  Everything above only rewrites the bitmap and the memory contents; the other fields of the
  state, those of the schemes that extend it included, are left alone.
\<close>

definition page_upd :: "'a PageState_scheme \<Rightarrow> 'a PageState_scheme \<Rightarrow> bool" where
  "page_upd s s' \<longleftrightarrow> (\<exists>bm mem. length bm = length (BITMAP s) \<and> s' = s\<lparr>BITMAP := bm, PMEM := mem\<rparr>)"

lemma page_updI: "length bm = length (BITMAP s) \<Longrightarrow> page_upd s (s\<lparr>BITMAP := bm, PMEM := mem\<rparr>)"
  by (auto simp: page_upd_def)

lemma page_upd_refl [simp, intro]: "page_upd s s"
  using page_updI [of "BITMAP s" s "PMEM s"] by simp

lemma page_upd_trans [trans]:
  assumes "page_upd s s'" "page_upd s' s''"
  shows "page_upd s s''"
proof -
  obtain bm mem where "length bm = length (BITMAP s)" "s'' = s\<lparr>BITMAP := bm, PMEM := mem\<rparr>"
    using assms by (auto simp: page_upd_def)
  then show ?thesis using page_updI by simp
qed

lemma page_upd_wf: "page_upd s s' \<Longrightarrow> page_wf s \<Longrightarrow> page_wf s'"
  by (auto simp: page_upd_def page_wf_def)

lemma page_upd_wr [simp, intro]: "page_upd s (wr t i w s)"
  using page_updI [of "BITMAP s" s] by (simp add: wr_def)

lemma page_upd_alloc_pages: "page_upd s (fst (alloc_pages n s))"
proof (cases "alloc_scan (bitmap_test (BITMAP s)) n 0 0 [0..<NUM_PAGES s]")
  case (Some k)
  then show ?thesis
    using page_updI [of "fold bitmap_clear [k..<k + n] (BITMAP s)" s] by (simp add: alloc_pages_def Let_def)
qed (simp add: alloc_pages_def)

lemma page_upd_alloc_table: "alloc_table s = Some (s', t) \<Longrightarrow> page_upd s s'"
  using page_upd_alloc_pages [of s 1]
  by (auto simp: alloc_table_def alloc_page_def split: prod.splits option.splits)

lemma page_upd_free_page: "page_upd s (free_page a s)"
  using page_updI [of "bitmap_set i (BITMAP s)" s "PMEM s" for i] by (simp add: free_page_def Let_def)

lemma page_upd_fold: "(\<And>i s. page_upd s (f i s)) \<Longrightarrow> page_upd s (fold f is s)"
proof (induction "is" arbitrary: s)
  case (Cons i "is")
  from Cons.prems [of s i] Cons.IH [of "f i s"] Cons.prems show ?case by (auto intro: page_upd_trans)
qed simp

lemma page_upd_release_pages: "page_upd s (release_pages a n s)"
  unfolding release_pages_def by (rule page_upd_fold) (rule page_upd_free_page)

lemma page_upd_get_or_alloc:
  assumes "get_or_alloc_subtable t0 i0 s = Some (s', t)"
  shows "page_upd s s'"
proof -
  have fold: "page_upd s1 (fold (\<lambda>i. wr t i (f i)) is s1)" for t f "is" and s1 :: "'a PageState_scheme"
    by (rule page_upd_fold) simp
  from assms show ?thesis
    unfolding get_or_alloc_subtable_def Let_def
    by (auto split: if_splits option.splits dest!: page_upd_alloc_table
        intro: page_upd_trans [OF _ page_upd_wr] page_upd_trans [OF page_upd_trans [OF _ fold] page_upd_wr])
qed

lemma page_upd_map_one_page: "map_one_page root pa va flags s = Some s' \<Longrightarrow> page_upd s s'"
  unfolding map_one_page_def Let_def
  by (auto split: option.splits prod.splits dest!: page_upd_get_or_alloc
      intro: page_upd_trans [OF page_upd_trans [OF page_upd_trans] page_upd_wr])

lemma page_upd_map_page_list: "map_page_list root ps flags s = Some s' \<Longrightarrow> page_upd s s'"
  by (induction root ps flags s rule: map_page_list.induct)
    (auto split: option.splits dest: page_upd_map_one_page intro: page_upd_trans)

lemma page_upd_map_pages: "map_pages root pa va sz flags s = Some s' \<Longrightarrow> page_upd s s'"
  unfolding map_pages_def Let_def by (rule page_upd_map_page_list)

lemma page_upd_map_segments: "map_segments root segs s = Some s' \<Longrightarrow> page_upd s s'"
  by (induction root segs s rule: map_segments.induct)
    (auto split: option.splits if_splits dest: page_upd_map_pages intro: page_upd_trans)

lemma page_upd_create_process_table:
  "create_process_table segs s = Some (s', root) \<Longrightarrow> page_upd s s'"
  unfolding create_process_table_def
  by (auto split: option.splits dest!: page_upd_alloc_table page_upd_map_segments intro: page_upd_trans)


section \<open>Mapping succeeds when enough pages are free\<close>

lemma free_pages_wr [simp]: "free_pages (wr t i w s) = free_pages s"
  by (simp add: wr_def free_pages_def)

lemma page_wf_wr [simp]: "page_wf (wr t i w s) = page_wf s"
  by (simp add: wr_def page_wf_def)

lemma free_pages_fold_wr [simp]: "free_pages (fold (\<lambda>i. wr t i (f i)) is s) = free_pages s"
  by (induction "is" arbitrary: s) simp_all

lemma page_wf_fold_wr [simp]: "page_wf (fold (\<lambda>i. wr t i (f i)) is s) = page_wf s"
  by (induction "is" arbitrary: s) simp_all

lemma alloc_table_success:
  assumes "page_wf s" "0 < free_pages s"
  shows "\<exists>s' t. alloc_table s = Some (s', t) \<and> free_pages s = free_pages s' + 1 \<and> page_wf s'"
proof -
  obtain s' a where a: "alloc_pages 1 s = (s', Some a)" by (rule alloc_page_success [OF assms])
  then show ?thesis
    using alloc_pages_count [OF assms(1) a] alloc_pages_wf [OF assms(1), of 1]
    by (auto simp: alloc_table_def alloc_page_def)
qed

lemma get_or_alloc_success:
  assumes "page_wf s" "0 < free_pages s"
  shows "\<exists>s' t. get_or_alloc_subtable t0 i0 s = Some (s', t) \<and> free_pages s \<le> free_pages s' + 1 \<and> page_wf s'"
  using alloc_table_success [OF assms] assms by (auto simp: get_or_alloc_subtable_def Let_def)

lemma map_one_page_success:
  assumes "page_wf s" "3 \<le> free_pages s"
  shows "\<exists>s'. map_one_page root pa va flags s = Some s' \<and> free_pages s \<le> free_pages s' + 3 \<and> page_wf s'"
proof -
  obtain s1 l1 where s1: "get_or_alloc_subtable root (table_index 39 va) s = Some (s1, l1)"
    "free_pages s \<le> free_pages s1 + 1" "page_wf s1" using get_or_alloc_success [OF assms(1)] assms(2) by force
  obtain s2 l2 where s2: "get_or_alloc_subtable l1 (table_index 30 va) s1 = Some (s2, l2)"
    "free_pages s1 \<le> free_pages s2 + 1" "page_wf s2" using get_or_alloc_success [OF s1(3)] s1(2) assms(2) by force
  obtain s3 l3 where s3: "get_or_alloc_subtable l2 (table_index 21 va) s2 = Some (s3, l3)"
    "free_pages s2 \<le> free_pages s3 + 1" "page_wf s3" using get_or_alloc_success [OF s2(3)] s1(2) s2(2) assms(2) by force
  show ?thesis using s1 s2 s3 by (simp add: map_one_page_def Let_def)
qed

lemma map_page_list_success:
  "page_wf s \<Longrightarrow> 3 * length ps \<le> free_pages s \<Longrightarrow>
   \<exists>s'. map_page_list root ps flags s = Some s' \<and> free_pages s \<le> free_pages s' + 3 * length ps \<and> page_wf s'"
proof (induction ps arbitrary: s)
  case (Cons p ps)
  obtain pa va where p: "p = (pa, va)" by fastforce
  obtain s1 where s1: "map_one_page root pa va flags s = Some s1" "free_pages s \<le> free_pages s1 + 3" "page_wf s1"
    using map_one_page_success [of s root pa va flags] Cons.prems by auto
  obtain s2 where "map_page_list root ps flags s1 = Some s2" "free_pages s1 \<le> free_pages s2 + 3 * length ps" "page_wf s2"
    using Cons.IH [OF s1(3)] s1(2) Cons.prems(2) by auto
  then show ?case using s1 p by auto
qed simp

definition seg_pages :: "ProcSegment \<Rightarrow> nat" where
  "seg_pages seg = (if seg_size seg = 0 then 0
     else (seg_size seg + (seg_pa seg - page_down (seg_pa seg)) + 0xFFF) div 4096)"

lemma map_segments_success:
  "page_wf s \<Longrightarrow> 3 * (\<Sum>seg \<leftarrow> segs. seg_pages seg) \<le> free_pages s \<Longrightarrow> \<exists>s'. map_segments root segs s = Some s'"
proof (induction segs arbitrary: s)
  case (Cons seg segs)
  show ?case
  proof (cases "seg_size seg = 0")
    case True
    then show ?thesis using Cons by (simp add: seg_pages_def)
  next
    case False
    let ?f = "\<lambda>i. (page_down (seg_pa seg) + i * 4096, page_down (seg_pa seg) + i * 4096)"
    have "3 * length (map ?f [0..<seg_pages seg]) \<le> free_pages s" using Cons.prems(2) by simp
    from map_page_list_success [OF Cons.prems(1) this, of root "seg_flags seg"]
    obtain s1 where s1: "map_page_list root (map ?f [0..<seg_pages seg]) (seg_flags seg) s = Some s1"
      "free_pages s \<le> free_pages s1 + 3 * seg_pages seg" "page_wf s1" by auto
    then have "map_pages root (seg_pa seg) (seg_pa seg) (seg_size seg) (seg_flags seg) s = Some s1"
      using False by (simp add: map_pages_def Let_def seg_pages_def)
    then show ?thesis using Cons.IH [OF s1(3)] s1(2) Cons.prems(2) False by auto
  qed
qed simp

lemma create_process_table_success:
  assumes "page_wf s" "1 + 3 * (\<Sum>seg \<leftarrow> segs. seg_pages seg) \<le> free_pages s"
  shows "\<exists>s' root. create_process_table segs s = Some (s', root)"
proof -
  obtain s1 root where "alloc_table s = Some (s1, root)" "free_pages s = free_pages s1 + 1" "page_wf s1"
    using alloc_table_success [OF assms(1)] assms(2) by auto
  then show ?thesis using map_segments_success [of s1 segs root] assms(2) by (auto simp: create_process_table_def)
qed

end
