(* ===== verification/Fifo.thy ===== *)
theory Fifo
  imports Prelude
begin

text \<open>
  First-in-first-out buffers.  Three components keep one: the mailbox of a task
  (\<^verbatim>\<open>ipc/mod.rs\<close>), the kernel pipe (\<^verbatim>\<open>fs/mod.rs\<close>) and the two byte rings of
  a TCP connection (\<^verbatim>\<open>net/tcp.rs\<close>).  All of them are an array, a read index, a write
  index and a count.  This theory gives the contents of such an array as a list
  (\<open>ring_window\<close>), the interfaces they promise, and the consequences for whole
  sequences of operations, proved once for all of them.
\<close>

section \<open>The contents of a circular array\<close>

definition ring_window :: "'a list \<Rightarrow> nat \<Rightarrow> nat \<Rightarrow> 'a list" where
  "ring_window buf h n = map (\<lambda>i. buf ! ((h + i) mod length buf)) [0..<n]"

lemma length_ring_window [simp]: "length (ring_window buf h n) = n"
  by (simp add: ring_window_def)

lemma ring_window_0 [simp]: "ring_window buf h 0 = []"
  by (simp add: ring_window_def)

lemma ring_window_nth [simp]:
  "i < n \<Longrightarrow> ring_window buf h n ! i = buf ! ((h + i) mod length buf)"
  by (simp add: ring_window_def)

lemma ring_slot_distinct:
  assumes "i < n" "j < n" "(h + i) mod n = (h + j) mod (n :: nat)"
  shows "i = j"
proof -
  have "i = j" if "i \<le> j" "j < n" "(h + i) mod n = (h + j) mod n" for i j
  proof -
    have "(h + j) - (h + i) = j - i" by simp
    moreover have "n dvd (h + j) - (h + i)"
      using that by (intro mod_eq_dvd_iff_nat [THEN iffD1]) auto
    ultimately have "n dvd j - i" by simp
    then show "i = j" using that by (auto dest: dvd_imp_le)
  qed
  from this [of i j] this [of j i] assms show ?thesis by (cases "i \<le> j") auto
qed

lemma ring_window_write:
  assumes "n < length buf"
  shows "ring_window (buf[(h + n) mod length buf := x]) h (Suc n) = ring_window buf h n @ [x]"
proof (rule nth_equalityI)
  fix i assume "i < length (ring_window (buf[(h + n) mod length buf := x]) h (Suc n))"
  then have i: "i < Suc n" by simp
  have pos: "0 < length buf" using assms by linarith
  show "ring_window (buf[(h + n) mod length buf := x]) h (Suc n) ! i
      = (ring_window buf h n @ [x]) ! i"
  proof (cases "i = n")
    case True
    then show ?thesis using pos by (simp add: nth_append)
  next
    case False
    with i assms have "(h + n) mod length buf \<noteq> (h + i) mod length buf"
      using ring_slot_distinct [of n "length buf" i h] by auto
    with False i show ?thesis by (simp add: nth_append)
  qed
qed simp

lemma ring_window_Suc:
  assumes "0 < length buf"
  shows "ring_window buf h (Suc n)
       = buf ! (h mod length buf) # ring_window buf ((h + 1) mod length buf) n"
proof -
  have "buf ! ((h + Suc i) mod length buf)
      = buf ! (((h + 1) mod length buf + i) mod length buf)" for i
    by (simp add: mod_simps)
  then show ?thesis
    unfolding ring_window_def by (simp add: upt_rec [of 0 "Suc n"] map_Suc_upt [symmetric] del: upt_Suc)
qed

lemma ring_window_clear:
  assumes "n < length buf"
  shows "ring_window (buf[h mod length buf := x]) ((h + 1) mod length buf) n
       = ring_window buf ((h + 1) mod length buf) n"
proof (rule nth_equalityI)
  fix i assume "i < length (ring_window (buf[h mod length buf := x]) ((h + 1) mod length buf) n)"
  then have i: "i < n" by simp
  have "h mod length buf \<noteq> (h + Suc i) mod length buf"
    using ring_slot_distinct [of 0 "length buf" "Suc i" h] i assms by force
  with i show "ring_window (buf[h mod length buf := x]) ((h + 1) mod length buf) n ! i
             = ring_window buf ((h + 1) mod length buf) n ! i"
    by (simp add: mod_simps)
qed simp

lemma ring_window_drop:
  "k \<le> n \<Longrightarrow> ring_window buf ((h + k) mod length buf) (n - k) = drop k (ring_window buf h n)"
  by (rule nth_equalityI) (auto simp: mod_simps add.assoc)

lemma ring_window_take: "k \<le> n \<Longrightarrow> ring_window buf h k = take k (ring_window buf h n)"
  by (rule nth_equalityI) auto

section \<open>The loops that fill and drain a circular array\<close>

fun ring_put :: "nat \<Rightarrow> 'a list \<Rightarrow> nat \<Rightarrow> 'a list \<Rightarrow> 'a list \<times> nat" where
  "ring_put m buf w [] = (buf, w)"
| "ring_put m buf w (x # xs) = ring_put m (buf[w := x]) ((w + 1) mod m) xs"

primrec ring_get :: "nat \<Rightarrow> 'a list \<Rightarrow> nat \<Rightarrow> nat \<Rightarrow> 'a list \<times> nat" where
  "ring_get m buf r 0 = ([], r)"
| "ring_get m buf r (Suc n) = (let (xs, r') = ring_get m buf ((r + 1) mod m) n in (buf ! r # xs, r'))"

text \<open>The read index, the write index and the count of a well-formed array agree.\<close>

definition ring_ok :: "nat \<Rightarrow> 'a list \<Rightarrow> nat \<Rightarrow> nat \<Rightarrow> nat \<Rightarrow> bool" where
  "ring_ok m buf r w n \<longleftrightarrow> length buf = m \<and> r < m \<and> n \<le> m \<and> w = (r + n) mod m"

lemma ring_put_ok:
  assumes "ring_ok m buf r w n" "n + length xs \<le> m"
  shows "ring_ok m (fst (ring_put m buf w xs)) r (snd (ring_put m buf w xs)) (n + length xs) \<and>
    ring_window (fst (ring_put m buf w xs)) r (n + length xs) = ring_window buf r n @ xs"
  using assms
proof (induction xs arbitrary: buf w n)
  case (Cons x xs)
  let ?b = "buf[w := x]"
  have ok: "ring_ok m ?b r ((w + 1) mod m) (Suc n)" using Cons.prems by (auto simp: ring_ok_def mod_simps)
  have "ring_window ?b r (Suc n) = ring_window buf r n @ [x]"
    using ring_window_write [of n buf r x] Cons.prems by (auto simp: ring_ok_def)
  then show ?case using Cons.IH [OF ok] Cons.prems(2) by simp
qed simp

lemma ring_get_eq: "r < length buf \<Longrightarrow> ring_get (length buf) buf r n = (ring_window buf r n, (r + n) mod length buf)"
proof (induction n arbitrary: r)
  case (Suc n)
  have "0 < length buf" using Suc.prems by linarith
  then have "(r + 1) mod length buf < length buf" by (rule mod_less_divisor)
  from Suc.IH [OF this] Suc.prems show ?case
    using ring_window_Suc [OF \<open>0 < length buf\<close>, of r n] by (simp add: mod_simps)
qed simp

lemma ring_get_ok:
  assumes "ring_ok m buf r w n" "k \<le> n"
  shows "fst (ring_get m buf r k) = take k (ring_window buf r n) \<and>
    ring_ok m buf (snd (ring_get m buf r k)) w (n - k) \<and>
    ring_window buf (snd (ring_get m buf r k)) (n - k) = drop k (ring_window buf r n)"
proof -
  have b: "length buf = m" "r < m" using assms(1) by (auto simp: ring_ok_def)
  then have g: "ring_get m buf r k = (ring_window buf r k, (r + k) mod m)" using ring_get_eq [of r buf k] by simp
  have "((r + k) mod m + (n - k)) mod m = (r + k + (n - k)) mod m" by (rule mod_add_left_eq)
  also have "r + k + (n - k) = r + n" using assms(2) by simp
  finally have "((r + k) mod m + (n - k)) mod m = (r + n) mod m" .
  then have "ring_ok m buf ((r + k) mod m) w (n - k)" using assms b by (auto simp: ring_ok_def)
  then show ?thesis
    using ring_window_take [OF assms(2), of buf r] ring_window_drop [OF assms(2), of buf r] b g by simp
qed

section \<open>Runs of operations\<close>

text \<open>
  A run of operations, with everything that was accepted and everything that was
  delivered on the way; a queue operation is a push (\<open>Some x\<close>) or a pop (\<open>None\<close>), a
  stream operation a write (\<open>Inl xs\<close>) or a read of at most \<open>n\<close> bytes (\<open>Inr n\<close>).
\<close>

fun fifo_run :: "('op \<Rightarrow> 'q \<Rightarrow> 'q \<times> 'a list \<times> 'a list) \<Rightarrow> 'op list \<Rightarrow> 'q \<Rightarrow> 'q \<times> 'a list \<times> 'a list" where
  "fifo_run step [] q = (q, [], [])"
| "fifo_run step (c # cs) q =
     (let (q1, acc1, del1) = step c q; (q2, acc2, del2) = fifo_run step cs q1
      in (q2, acc1 @ acc2, del1 @ del2))"

fun queue_step ::
  "('a \<Rightarrow> 'q \<Rightarrow> 'q option) \<Rightarrow> ('q \<Rightarrow> ('a \<times> 'q) option) \<Rightarrow> 'a option \<Rightarrow> 'q \<Rightarrow> 'q \<times> 'a list \<times> 'a list" where
  "queue_step push pop (Some x) q = (case push x q of None \<Rightarrow> (q, [], []) | Some q' \<Rightarrow> (q', [x], []))"
| "queue_step push pop None q = (case pop q of None \<Rightarrow> (q, [], []) | Some (x, q') \<Rightarrow> (q', [], [x]))"

fun stream_step ::
  "('a list \<Rightarrow> 'q \<Rightarrow> 'q \<times> nat) \<Rightarrow> (nat \<Rightarrow> 'q \<Rightarrow> 'q \<times> 'a list) \<Rightarrow> 'a list + nat \<Rightarrow> 'q \<Rightarrow> 'q \<times> 'a list \<times> 'a list" where
  "stream_step put get (Inl xs) q = (let (q', n) = put xs q in (q', take n xs, []))"
| "stream_step put get (Inr n) q = (let (q', ys) = get n q in (q', [], ys))"

section \<open>Interfaces\<close>

text \<open>
  The most general law: an operation takes the list \<open>acc\<close> in and gives the list
  \<open>del\<close> out, and what was inside followed by what came in is what went out
  followed by what stays inside.  Nothing is lost, duplicated or reordered.
\<close>

locale fifo_machine =
  fixes step :: "'op \<Rightarrow> 'q \<Rightarrow> 'q \<times> 'a list \<times> 'a list"
    and wf :: "'q \<Rightarrow> bool"
    and contents :: "'q \<Rightarrow> 'a list"
    and cap :: nat
  assumes step_wf: "wf q \<Longrightarrow> step c q = (q', acc, del) \<Longrightarrow> wf q'"
    and step_fifo: "wf q \<Longrightarrow> step c q = (q', acc, del) \<Longrightarrow> contents q @ acc = del @ contents q'"
    and wf_bounded: "wf q \<Longrightarrow> length (contents q) \<le> cap"
begin

lemma run_wf: "wf q \<Longrightarrow> fifo_run step cs q = (q', acc, del) \<Longrightarrow> wf q'"
proof (induction cs arbitrary: q acc del)
  case (Cons c cs)
  obtain q1 a1 d1 where s: "step c q = (q1, a1, d1)" by (cases "step c q") auto
  obtain a2 d2 where "fifo_run step cs q1 = (q', a2, d2)"
    using Cons.prems s by (auto split: prod.splits)
  then show ?case using Cons.IH step_wf [OF Cons.prems(1) s] by blast
qed simp

lemma run_fifo:
  "wf q \<Longrightarrow> fifo_run step cs q = (q', acc, del) \<Longrightarrow> contents q @ acc = del @ contents q'"
proof (induction cs arbitrary: q acc del)
  case (Cons c cs)
  obtain q1 a1 d1 where s: "step c q = (q1, a1, d1)" by (cases "step c q") auto
  obtain a2 d2 where r: "fifo_run step cs q1 = (q', a2, d2)" and ad: "acc = a1 @ a2" "del = d1 @ d2"
    using Cons.prems s by (auto split: prod.splits)
  have "contents q1 @ a2 = d2 @ contents q'"
    using Cons.IH [OF step_wf [OF Cons.prems(1) s] r] .
  moreover have "contents q @ a1 = d1 @ contents q1"
    using step_fifo [OF Cons.prems(1) s] .
  ultimately show ?case by (metis ad append.assoc)
qed simp

lemma run_bounded:
  "wf q \<Longrightarrow> fifo_run step cs q = (q', acc, del) \<Longrightarrow> length (contents q') \<le> cap"
  using run_wf wf_bounded by blast

end

text \<open>A bounded queue of single items: what the mailbox promises its scheduler.\<close>

locale bounded_queue =
  fixes empty :: 'q
    and push :: "'a \<Rightarrow> 'q \<Rightarrow> 'q option"
    and pop :: "'q \<Rightarrow> ('a \<times> 'q) option"
    and wf :: "'q \<Rightarrow> bool"
    and contents :: "'q \<Rightarrow> 'a list"
    and cap :: nat
  assumes wf_empty: "wf empty" and contents_empty: "contents empty = []"
    and push_full: "wf q \<Longrightarrow> push x q = None \<longleftrightarrow> length (contents q) = cap"
    and push_ok: "wf q \<Longrightarrow> push x q = Some q' \<Longrightarrow> wf q' \<and> contents q' = contents q @ [x]"
    and pop_none: "wf q \<Longrightarrow> pop q = None \<longleftrightarrow> contents q = []"
    and pop_ok: "wf q \<Longrightarrow> pop q = Some (x, q') \<Longrightarrow> wf q' \<and> contents q = x # contents q'"
    and contents_cap: "wf q \<Longrightarrow> length (contents q) \<le> cap"
begin

lemma push_then_pop_empty:
  assumes "wf q" "contents q = []" "0 < cap"
  shows "\<exists>q1 q2. push x q = Some q1 \<and> pop q1 = Some (x, q2) \<and> contents q2 = []"
proof -
  obtain q1 where q1: "push x q = Some q1"
    using push_full [OF assms(1), of x] assms by (cases "push x q") auto
  then have w: "wf q1" "contents q1 = [x]" using push_ok assms by force+
  then obtain y q2 where p: "pop q1 = Some (y, q2)"
    using pop_none [OF w(1)] by (cases "pop q1") auto
  with pop_ok [OF w(1) p] w q1 show ?thesis by auto
qed

end

sublocale bounded_queue \<subseteq> fm: fifo_machine "queue_step push pop" wf contents cap
proof unfold_locales
  fix q c q' acc del
  assume w: "wf q" and s: "queue_step push pop c q = (q', acc, del)"
  have "wf q' \<and> contents q @ acc = del @ contents q'"
  proof (cases c)
    case None
    with s w show ?thesis by (auto split: option.splits dest: pop_ok)
  next
    case (Some x)
    with s w show ?thesis by (auto split: option.splits dest: push_ok)
  qed
  then show "wf q'" and "contents q @ acc = del @ contents q'" by auto
qed (rule contents_cap)

text \<open>
  A bounded byte stream: writes accept a prefix of what is offered, reads deliver
  the oldest bytes.  This is what the kernel pipe and the TCP rings promise.
\<close>

locale byte_stream =
  fixes put :: "'a list \<Rightarrow> 'q \<Rightarrow> 'q \<times> nat"
    and get :: "nat \<Rightarrow> 'q \<Rightarrow> 'q \<times> 'a list"
    and wf :: "'q \<Rightarrow> bool"
    and contents :: "'q \<Rightarrow> 'a list"
    and cap :: nat
  assumes write_wf: "wf q \<Longrightarrow> wf (fst (put xs q))"
    and write_count: "wf q \<Longrightarrow> snd (put xs q) = min (length xs) (cap - length (contents q))"
    and write_contents:
      "wf q \<Longrightarrow> contents (fst (put xs q)) = contents q @ take (cap - length (contents q)) xs"
    and read_wf: "wf q \<Longrightarrow> wf (fst (get n q))"
    and read_data: "wf q \<Longrightarrow> snd (get n q) = take n (contents q)"
    and read_contents: "wf q \<Longrightarrow> contents (fst (get n q)) = drop n (contents q)"
    and stream_cap: "wf q \<Longrightarrow> length (contents q) \<le> cap"
begin

lemma write_read_roundtrip:
  assumes "wf q" "contents q = []" "length xs \<le> cap"
  shows "snd (get (length xs) (fst (put xs q))) = xs"
    and "contents (fst (get (length xs) (fst (put xs q)))) = []"
  using assms by (auto simp: read_data read_contents write_wf write_contents)

end

sublocale byte_stream \<subseteq> sm: fifo_machine "stream_step put get" wf contents cap
proof unfold_locales
  fix q c q' acc del
  assume w: "wf q" and s: "stream_step put get c q = (q', acc, del)"
  show "wf q'"
  proof (cases c)
    case (Inl xs)
    then show ?thesis using s write_wf [OF w, of xs] by (auto split: prod.splits)
  next
    case (Inr n)
    then show ?thesis using s read_wf [OF w, of n] by (auto split: prod.splits)
  qed
  show "contents q @ acc = del @ contents q'"
  proof (cases c)
    case (Inl xs)
    then show ?thesis
      using s write_contents [OF w, of xs] write_count [OF w, of xs]
      by (auto split: prod.splits simp: min_def)
  next
    case (Inr n)
    then show ?thesis
      using s read_data [OF w, of n] read_contents [OF w, of n] by (auto split: prod.splits)
  qed
qed (rule stream_cap)

end
