(* ===== verification/Ipc.thy ===== *)
theory Ipc
  imports Fifo
begin

text \<open>
  The message and the mailbox of \<^verbatim>\<open>kernel/src/ipc/mod.rs\<close>: a circular buffer of eight
  optional messages with a read index, a write index and a count.  The mailbox is
  shown to be a bounded queue (\<open>mb\<close>), from which the behaviour of every sequence
  of pushes and pops follows.
\<close>

section \<open>The mailbox\<close>

record Message =
  sender :: nat
  data :: "u8 list"

definition MAILBOX_CAPACITY :: nat where
  [simp]: "MAILBOX_CAPACITY = 8"

record Mailbox =
  buffer :: "Message option list"
  head :: nat
  tail :: nat
  mcount :: nat

definition Mailbox_new :: Mailbox where
  "Mailbox_new = \<lparr>buffer = replicate MAILBOX_CAPACITY None, head = 0, tail = 0, mcount = 0\<rparr>"

definition Mailbox_push :: "Message \<Rightarrow> Mailbox \<Rightarrow> Mailbox option" where
  "Mailbox_push msg m =
    (if mcount m \<ge> MAILBOX_CAPACITY then None
     else Some (m\<lparr>buffer := (buffer m)[tail m := Some msg],
                  tail := (tail m + 1) mod MAILBOX_CAPACITY,
                  mcount := mcount m + 1\<rparr>))"

definition Mailbox_pop :: "Mailbox \<Rightarrow> Mailbox \<times> Message option" where
  "Mailbox_pop m =
    (if mcount m = 0 then (m, None)
     else (m\<lparr>buffer := (buffer m)[head m := None],
             head := (head m + 1) mod MAILBOX_CAPACITY,
             mcount := mcount m - 1\<rparr>, buffer m ! head m))"

definition Mailbox_is_empty :: "Mailbox \<Rightarrow> bool" where
  "Mailbox_is_empty m \<longleftrightarrow> mcount m = 0"

definition Mailbox_is_full :: "Mailbox \<Rightarrow> bool" where
  "Mailbox_is_full m \<longleftrightarrow> mcount m \<ge> MAILBOX_CAPACITY"

section \<open>Well-formedness and contents\<close>

definition Mailbox_wf :: "Mailbox \<Rightarrow> bool" where
  "Mailbox_wf m \<longleftrightarrow>
     length (buffer m) = MAILBOX_CAPACITY \<and> head m < MAILBOX_CAPACITY \<and>
     mcount m \<le> MAILBOX_CAPACITY \<and>
     tail m = (head m + mcount m) mod MAILBOX_CAPACITY \<and>
     None \<notin> set (ring_window (buffer m) (head m) (mcount m))"

definition Mailbox_contents :: "Mailbox \<Rightarrow> Message list" where
  "Mailbox_contents m = map the (ring_window (buffer m) (head m) (mcount m))"

definition Mailbox_pop_item :: "Mailbox \<Rightarrow> (Message \<times> Mailbox) option" where
  "Mailbox_pop_item m = (case Mailbox_pop m of (m', r) \<Rightarrow> map_option (\<lambda>x. (x, m')) r)"

lemma Mailbox_push_wf:
  assumes "Mailbox_wf m" "Mailbox_push msg m = Some m'"
  shows "Mailbox_wf m'" "Mailbox_contents m' = Mailbox_contents m @ [msg]"
proof -
  have c: "mcount m < length (buffer m)"
    and t: "tail m = (head m + mcount m) mod length (buffer m)"
    using assms by (auto simp: Mailbox_wf_def Mailbox_push_def split: if_splits)
  have "ring_window ((buffer m)[tail m := Some msg]) (head m) (Suc (mcount m))
      = ring_window (buffer m) (head m) (mcount m) @ [Some msg]"
    using ring_window_write [OF c] t by simp
  then show "Mailbox_wf m'" "Mailbox_contents m' = Mailbox_contents m @ [msg]"
    using assms c t
    by (auto simp: Mailbox_wf_def Mailbox_contents_def Mailbox_push_def mod_Suc_eq split: if_splits)
qed

lemma Mailbox_pop_nonempty:
  assumes "Mailbox_wf m" "mcount m = Suc n"
  shows "\<exists>x. snd (Mailbox_pop m) = Some x \<and> Mailbox_contents m = x # Mailbox_contents (fst (Mailbox_pop m))"
    and "Mailbox_wf (fst (Mailbox_pop m))"
proof -
  have l: "length (buffer m) = 8" "head m < 8" "n < length (buffer m)"
    using assms by (auto simp: Mailbox_wf_def)
  have s: "ring_window (buffer m) (head m) (Suc n)
     = buffer m ! head m # ring_window (buffer m) ((head m + 1) mod 8) n"
    using ring_window_Suc [of "buffer m" "head m" n] l by simp
  have k: "ring_window ((buffer m)[head m := None]) ((head m + 1) mod 8) n
     = ring_window (buffer m) ((head m + 1) mod 8) n"
    using ring_window_clear [OF l(3), of "head m" None] l by simp
  show "\<exists>x. snd (Mailbox_pop m) = Some x \<and> Mailbox_contents m = x # Mailbox_contents (fst (Mailbox_pop m))"
    using assms s k by (auto simp: Mailbox_pop_def Mailbox_contents_def Mailbox_wf_def)
  have "(head m + Suc n) mod 8 = ((head m + 1) mod 8 + n) mod 8"
    by (simp add: mod_add_left_eq)
  then show "Mailbox_wf (fst (Mailbox_pop m))"
    using assms s k l by (simp add: Mailbox_pop_def Mailbox_wf_def)
qed

interpretation mb: bounded_queue Mailbox_new Mailbox_push Mailbox_pop_item Mailbox_wf
  Mailbox_contents MAILBOX_CAPACITY
proof unfold_locales
  show "Mailbox_wf Mailbox_new" "Mailbox_contents Mailbox_new = []"
    by (simp_all add: Mailbox_wf_def Mailbox_new_def Mailbox_contents_def)
next
  fix q :: Mailbox assume w: "Mailbox_wf q"
  show "length (Mailbox_contents q) \<le> MAILBOX_CAPACITY"
    using w by (simp add: Mailbox_contents_def Mailbox_wf_def)
  show "(Mailbox_push x q = None) = (length (Mailbox_contents q) = MAILBOX_CAPACITY)" for x
    using w by (auto simp: Mailbox_push_def Mailbox_contents_def Mailbox_wf_def)
  show "(Mailbox_pop_item q = None) = (Mailbox_contents q = [])"
  proof (cases "mcount q")
    case 0
    then show ?thesis by (simp add: Mailbox_pop_item_def Mailbox_pop_def Mailbox_contents_def)
  next
    case (Suc n)
    then show ?thesis using Mailbox_pop_nonempty [OF w Suc]
      by (auto simp: Mailbox_pop_item_def split: prod.splits)
  qed
  show "Mailbox_wf q' \<and> Mailbox_contents q = x # Mailbox_contents q'"
    if "Mailbox_pop_item q = Some (x, q')" for x q'
  proof (cases "mcount q")
    case 0
    then show ?thesis using that by (simp add: Mailbox_pop_item_def Mailbox_pop_def)
  next
    case (Suc n)
    then show ?thesis using Mailbox_pop_nonempty [OF w Suc] that
      by (auto simp: Mailbox_pop_item_def split: prod.splits)
  qed
  show "Mailbox_wf q' \<and> Mailbox_contents q' = Mailbox_contents q @ [x]"
    if "Mailbox_push x q = Some q'" for x q'
    using Mailbox_push_wf [OF w that] by simp
qed

section \<open>Properties\<close>

text \<open>
  C16. Mailbox delivery: for every sequence of pushes and pops on a new mailbox, the
  messages accepted are exactly the messages delivered, in order, followed by those still
  queued; the mailbox never holds more than its eight slots and stays well formed.
\<close>

theorem mailbox_delivery:
  assumes "fifo_run (queue_step Mailbox_push Mailbox_pop_item) cs Mailbox_new = (m, acc, del)"
  shows "acc = del @ Mailbox_contents m \<and> length (Mailbox_contents m) \<le> MAILBOX_CAPACITY \<and> Mailbox_wf m"
  using mb.fm.run_fifo [OF mb.wf_empty assms] mb.fm.run_bounded [OF mb.wf_empty assms]
    mb.fm.run_wf [OF mb.wf_empty assms] by (simp add: mb.contents_empty)

definition msg_example :: "nat \<Rightarrow> Message" where
  "msg_example i = \<lparr>sender = i, data = replicate 32 (of_nat i)\<rparr>"

theorem mailbox_delivery_witness:
  "\<exists>m. fifo_run (queue_step Mailbox_push Mailbox_pop_item)
         [Some (msg_example 1), Some (msg_example 2), None, None, None] Mailbox_new
       = (m, [msg_example 1, msg_example 2], [msg_example 1, msg_example 2])
     \<and> Mailbox_contents m = []"
proof -
  have "snd (fifo_run (queue_step Mailbox_push Mailbox_pop_item)
         [Some (msg_example 1), Some (msg_example 2), None, None, None] Mailbox_new)
       = ([msg_example 1, msg_example 2], [msg_example 1, msg_example 2])"
    by code_simp
  then obtain m where m: "fifo_run (queue_step Mailbox_push Mailbox_pop_item)
         [Some (msg_example 1), Some (msg_example 2), None, None, None] Mailbox_new
       = (m, [msg_example 1, msg_example 2], [msg_example 1, msg_example 2])"
    by (metis prod.collapse)
  from mailbox_delivery [OF m] m show ?thesis by simp
qed

end
