(* ===== verification/Task.thy ===== *)
theory Task
  imports Vmm Ipc
begin

text \<open>
  The task control block of \<^verbatim>\<open>kernel/src/process/task.rs\<close>: the states and privileges, the trap
  frame a context switch restores, and the two constructors.  Both constructors write a trap
  frame at the top of the new kernel stack; the stack is addressed through the kernel's linear
  mapping, so a kernel pointer \<open>p\<close> is the physical address \<open>to_dma_addr p\<close>.
\<close>

datatype TaskState = Ready | Running | Blocked | Dead

datatype TaskPrivilege = Kernel | User

definition NAME_LEN :: nat where "NAME_LEN = 16"

record TrapFrame =
  regs :: "u64 list"
  elr :: u64
  spsr :: u64
  sp_el0 :: u64
  frame_pad :: u64

definition TRAP_FRAME_SIZE :: nat where "TRAP_FRAME_SIZE = 288"

definition frame_words :: "TrapFrame \<Rightarrow> u64 list" where
  "frame_words fr = regs fr @ [elr fr, spsr fr, sp_el0 fr, frame_pad fr]"

text \<open>The frame is a \<^verbatim>\<open>repr(C)\<close> struct of 35 consecutive 64-bit words.\<close>

definition write_frame :: "nat \<Rightarrow> TrapFrame \<Rightarrow> memory \<Rightarrow> memory" where
  "write_frame sp fr mem =
    fold (\<lambda>i. write_u64 (frame_words fr ! i) (to_dma_addr sp + 8 * i)) [0..<length (frame_words fr)] mem"

definition frame_word :: "memory \<Rightarrow> nat \<Rightarrow> nat \<Rightarrow> u64" where
  "frame_word mem sp i = read_u64 mem (to_dma_addr sp + 8 * i)"

record Task =
  t_tid :: nat
  t_name :: "u8 list"
  t_state :: TaskState
  t_sp :: nat
  t_stack_base :: nat
  t_stack_size :: nat
  t_mailbox :: Mailbox
  t_privilege :: TaskPrivilege
  t_capabilities :: u64
  t_ttbr0 :: nat
  t_exit_code :: u32
  t_wait_tid :: "nat option"
  t_user_va_base :: nat
  t_user_va_top :: nat
  t_user_stack_base :: nat
  t_user_stack_top :: nat
  t_priority :: u8
  t_ticks_remaining :: u8
  t_ticks_used :: u64
  t_cpu_pin :: "nat option"
  t_syscall_filter :: "u64 list"
  t_pending_signals :: u32
  t_signal_mask :: u32
  t_signal_handler :: nat

text \<open>
  The name buffer holds at most 15 bytes followed by zeroes.
\<close>

definition name_buf :: "u8 list \<Rightarrow> u8 list" where
  "name_buf nm = take (NAME_LEN - 1) nm @ replicate (NAME_LEN - min (length nm) (NAME_LEN - 1)) 0"

definition frame_sp :: "nat \<Rightarrow> nat \<Rightarrow> nat" where
  "frame_sp stack_base stack_size =
    (phys_to_virt stack_base + stack_size) div 16 * 16 - TRAP_FRAME_SIZE"

text \<open>\<^verbatim>\<open>Task::new\<close>: a kernel task (EL1h, SPSR = 5) with every capability.\<close>

definition Task_new ::
  "nat \<Rightarrow> u8 list \<Rightarrow> nat \<Rightarrow> nat \<Rightarrow> nat \<Rightarrow> 'a VmmState_scheme \<Rightarrow> 'a VmmState_scheme \<times> Task" where
  "Task_new tid nm entry stack_base stack_size s =
    (let sp = frame_sp stack_base stack_size;
         fr = \<lparr>regs = replicate 31 0, elr = of_nat entry, spsr = 5, sp_el0 = 0, frame_pad = 0\<rparr>
     in (s\<lparr>PMEM := write_frame sp fr (PMEM s)\<rparr>,
         \<lparr>t_tid = tid, t_name = name_buf nm, t_state = Ready, t_sp = sp,
          t_stack_base = stack_base, t_stack_size = stack_size, t_mailbox = Mailbox_new,
          t_privilege = Kernel, t_capabilities = NOT 0, t_ttbr0 = ttbr0 s, t_exit_code = 0,
          t_wait_tid = None, t_user_va_base = 0, t_user_va_top = 0, t_user_stack_base = 0,
          t_user_stack_top = 0, t_priority = 1, t_ticks_remaining = 1, t_ticks_used = 0,
          t_cpu_pin = None, t_syscall_filter = [NOT 0, NOT 0], t_pending_signals = 0,
          t_signal_mask = 0, t_signal_handler = 0\<rparr>))"

text \<open>\<^verbatim>\<open>Task::new_user\<close>: a user task (EL0t, SPSR = 0) with the given capabilities and table.\<close>

definition Task_new_user ::
  "nat \<Rightarrow> u8 list \<Rightarrow> nat \<Rightarrow> nat \<Rightarrow> nat \<Rightarrow> nat \<Rightarrow> u64 \<Rightarrow> nat \<Rightarrow> nat \<Rightarrow> nat \<Rightarrow> nat \<Rightarrow> nat \<Rightarrow>
   'a VmmState_scheme \<Rightarrow> 'a VmmState_scheme \<times> Task" where
  "Task_new_user tid nm entry kernel_stack_base kernel_stack_size user_sp caps table
      user_va_base user_va_top user_stack_base user_stack_top s =
    (let sp = frame_sp kernel_stack_base kernel_stack_size;
         fr = \<lparr>regs = replicate 31 0, elr = of_nat entry, spsr = 0, sp_el0 = of_nat user_sp,
               frame_pad = 0\<rparr>
     in (s\<lparr>PMEM := write_frame sp fr (PMEM s)\<rparr>,
         \<lparr>t_tid = tid, t_name = name_buf nm, t_state = Ready, t_sp = sp,
          t_stack_base = kernel_stack_base, t_stack_size = kernel_stack_size,
          t_mailbox = Mailbox_new, t_privilege = User, t_capabilities = caps, t_ttbr0 = table,
          t_exit_code = 0, t_wait_tid = None, t_user_va_base = user_va_base,
          t_user_va_top = user_va_top, t_user_stack_base = user_stack_base,
          t_user_stack_top = user_stack_top, t_priority = 1, t_ticks_remaining = 1,
          t_ticks_used = 0, t_cpu_pin = None, t_syscall_filter = [NOT 0, NOT 0],
          t_pending_signals = 0, t_signal_mask = 0, t_signal_handler = 0\<rparr>))"

definition name_str :: "Task \<Rightarrow> u8 list" where
  "name_str t = takeWhile (\<lambda>b. b \<noteq> 0) (t_name t)"

section \<open>The frame a new task starts from\<close>

lemma length_name_buf [simp]: "length (name_buf nm) = NAME_LEN"
  by (simp add: name_buf_def NAME_LEN_def)

lemma write_words_outside:
  "(\<And>i. i \<in> set is \<Longrightarrow> x < a + 8 * i \<or> a + 8 * i + 8 \<le> x) \<Longrightarrow>
   fold (\<lambda>i. write_u64 (f i) (a + 8 * i)) is mem x = mem x"
proof (induction "is" arbitrary: mem)
  case (Cons j js)
  have "write_u64 (f j) (a + 8 * j) mem x = mem x"
    using Cons.prems [of j] by (auto simp: write_le_def)
  then show ?case using Cons by simp
qed simp

lemma read_write_words:
  assumes "distinct is" "i \<in> set is"
  shows "read_u64 (fold (\<lambda>i. write_u64 (f i) (a + 8 * i)) is mem) (a + 8 * i) = f i"
  using assms
proof (induction "is" arbitrary: mem)
  case (Cons j js)
  show ?case
  proof (cases "i = j")
    case True
    have "read_u64 (fold (\<lambda>i. write_u64 (f i) (a + 8 * i)) js (write_u64 (f j) (a + 8 * j) mem)) (a + 8 * i)
        = read_u64 (write_u64 (f j) (a + 8 * j) mem) (a + 8 * i)"
    proof (rule read_le_cong)
      fix x assume x: "a + 8 * i \<le> x" "x < a + 8 * i + 8"
      show "fold (\<lambda>i. write_u64 (f i) (a + 8 * i)) js (write_u64 (f j) (a + 8 * j) mem) x
          = write_u64 (f j) (a + 8 * j) mem x"
      proof (rule write_words_outside)
        fix k assume "k \<in> set js"
        then have "k \<noteq> i" using Cons.prems True by auto
        then show "x < a + 8 * k \<or> a + 8 * k + 8 \<le> x" using x by linarith
      qed
    qed
    then show ?thesis using True by (simp add: read_write_le_same)
  qed (use Cons in simp)
qed simp

lemma frame_word_write_frame:
  "i < length (frame_words fr) \<Longrightarrow> frame_word (write_frame sp fr mem) sp i = frame_words fr ! i"
  unfolding frame_word_def write_frame_def
  by (rule read_write_words) auto

lemma write_frame_outside:
  assumes "x < to_dma_addr sp \<or> to_dma_addr sp + 8 * length (frame_words fr) \<le> x"
  shows "write_frame sp fr mem x = mem x"
  unfolding write_frame_def using assms by (intro write_words_outside) auto

lemma frame_sp_phys:
  assumes "16 dvd stack_base" "16 dvd stack_size" "TRAP_FRAME_SIZE \<le> stack_size"
  shows "to_dma_addr (frame_sp stack_base stack_size) = stack_base + stack_size - TRAP_FRAME_SIZE"
proof -
  have "16 dvd KERNEL_VA_OFFSET" by (simp add: KERNEL_VA_OFFSET_def)
  then have "(phys_to_virt stack_base + stack_size) div 16 * 16 = phys_to_virt stack_base + stack_size"
    using assms by (simp add: phys_to_virt_def)
  then show ?thesis using assms(3) by (simp add: frame_sp_def to_dma_addr_def phys_to_virt_def)
qed

end
