(* ===== verification/Scheduler.thy ===== *)
theory Scheduler
  imports Task
begin

text \<open>
  The SMP scheduler of \<^verbatim>\<open>kernel/src/process/scheduler.rs\<close>.  Every entry point takes
  \<^verbatim>\<open>SCHED_LOCK\<close> with interrupts masked for its whole body, so each one is an atomic step of
  the state \<open>SchedState\<close>, and an execution of several CPUs is a sequence of these steps.
  \<open>HW_TTBR0\<close> is the \<^verbatim>\<open>ttbr0_el1\<close> register of each CPU.  The argument \<open>cpu\<close> is the
  value \<^verbatim>\<open>get_cpu_id()\<close> reads on the calling CPU.  Stack and table allocation happen before
  the lock in the user-task constructors and are part of the same step here.
\<close>

section \<open>State\<close>

definition MAX_TASKS :: nat where [simp]: "MAX_TASKS = 16"
definition NO_TASK :: nat where [simp]: "NO_TASK = MAX_TASKS"
definition MAX_CPUS :: nat where [simp]: "MAX_CPUS = 4"
definition TASK_STACK_PAGES :: nat where "TASK_STACK_PAGES = 256"
definition TASK_STACK_SIZE :: nat where "TASK_STACK_SIZE = TASK_STACK_PAGES * PAGE_SIZE"
definition USER_STACK_PAGES :: nat where "USER_STACK_PAGES = 64"
definition USER_STACK_SIZE :: nat where "USER_STACK_SIZE = USER_STACK_PAGES * PAGE_SIZE"

record SchedState = VmmState +
  TASKS :: "Task option list"
  CURRENT :: "nat list"
  CURRENT_TTBR0 :: "nat list"
  NEXT_TID :: nat
  ACTIVE :: bool
  TOTAL_TICKS :: nat
  IDLE_TICKS :: nat
  HW_TTBR0 :: "nat list"

text \<open>
  The error strings of the constructors; \<open>TablePanic\<close> is the panic of
  \<^verbatim>\<open>create_process_table\<close> when no page is left for a page table.
\<close>

datatype SpawnError = PoolFull | NoKernelStack | NoUserStack | TablePanic

definition cpu_index :: "nat \<Rightarrow> nat" where
  "cpu_index cpu = min cpu (MAX_CPUS - 1)"

definition task_at :: "'a SchedState_scheme \<Rightarrow> nat \<Rightarrow> Task option" where
  "task_at s i = (if i < MAX_TASKS then TASKS s ! i else None)"

definition upd_task :: "nat \<Rightarrow> (Task \<Rightarrow> Task) \<Rightarrow> 'a SchedState_scheme \<Rightarrow> 'a SchedState_scheme" where
  "upd_task i f s = s\<lparr>TASKS := (TASKS s)[i := map_option f (TASKS s ! i)]\<rparr>"

definition set_task :: "nat \<Rightarrow> Task \<Rightarrow> 'a SchedState_scheme \<Rightarrow> 'a SchedState_scheme" where
  "set_task i t s = s\<lparr>TASKS := (TASKS s)[i := Some t]\<rparr>"

text \<open>The first free slot, and the first slot with a given TID, of the \<^verbatim>\<open>for\<close> loops.\<close>

definition free_slot :: "'a SchedState_scheme \<Rightarrow> nat option" where
  "free_slot s = find_index (\<lambda>i. TASKS s ! i = None) MAX_TASKS"

definition has_tid :: "nat \<Rightarrow> Task option \<Rightarrow> bool" where
  "has_tid tid ot = (case ot of None \<Rightarrow> False | Some t \<Rightarrow> t_tid t = tid)"

definition slot_of :: "nat \<Rightarrow> 'a SchedState_scheme \<Rightarrow> nat option" where
  "slot_of tid s = find_index (\<lambda>i. has_tid tid (TASKS s ! i)) MAX_TASKS"

section \<open>Initialisation and spawning\<close>

definition idle_task :: "nat \<Rightarrow> nat \<Rightarrow> nat \<Rightarrow> Task" where
  "idle_task tid cpu_id table =
    \<lparr>t_tid = tid, t_name = [105, 100, 108, 101, 48 + of_nat cpu_id] @ replicate 11 0,
     t_state = Running, t_sp = 0, t_stack_base = 0, t_stack_size = 0, t_mailbox = Mailbox_new,
     t_privilege = Kernel, t_capabilities = NOT 0, t_ttbr0 = table, t_exit_code = 0,
     t_wait_tid = None, t_user_va_base = 0, t_user_va_top = 0, t_user_stack_base = 0,
     t_user_stack_top = 0, t_priority = 1, t_ticks_remaining = 1, t_ticks_used = 0,
     t_cpu_pin = Some cpu_id, t_syscall_filter = [NOT 0, NOT 0], t_pending_signals = 0,
     t_signal_mask = 0, t_signal_handler = 0\<rparr>"

definition sched_init :: "'a SchedState_scheme \<Rightarrow> 'a SchedState_scheme" where
  "sched_init s =
    (let tid = NEXT_TID s in
     (set_task 0 (idle_task tid 0 (ttbr0 s)) s)\<lparr>NEXT_TID := tid + 1, CURRENT := (CURRENT s)[0 := 0]\<rparr>)"

definition secondary_idle_init :: "nat \<Rightarrow> 'a SchedState_scheme \<Rightarrow> 'a SchedState_scheme" where
  "secondary_idle_init cpu_id s =
    (if cpu_id = 0 \<or> cpu_id \<ge> MAX_CPUS then s
     else case free_slot s of
            None \<Rightarrow> s
          | Some slot \<Rightarrow>
              let tid = NEXT_TID s in
              (set_task slot (idle_task tid cpu_id (ttbr0 s)) s)
                \<lparr>NEXT_TID := tid + 1, CURRENT := (CURRENT s)[cpu_id := slot]\<rparr>)"

definition spawn :: "u8 list \<Rightarrow> nat \<Rightarrow> 'a SchedState_scheme \<Rightarrow> 'a SchedState_scheme \<times> (SpawnError + nat)" where
  "spawn nm entry s =
    (case free_slot s of
       None \<Rightarrow> (s, Inl PoolFull)
     | Some slot \<Rightarrow>
         (case alloc_pages TASK_STACK_PAGES s of
            (s1, None) \<Rightarrow> (s1, Inl NoKernelStack)
          | (s1, Some stack_base) \<Rightarrow>
              let tid = NEXT_TID s1;
                  (s2, t) = Task_new tid nm entry stack_base TASK_STACK_SIZE s1
              in ((set_task slot t s2)\<lparr>NEXT_TID := tid + 1, ACTIVE := True\<rparr>, Inr tid)))"

text \<open>
  The virtual range of the segments a user task may touch; \<^verbatim>\<open>usize::MAX\<close> marks "none".
\<close>

definition USIZE_MAX :: nat where "USIZE_MAX = 2 ^ 64 - 1"

definition seg_range :: "ProcSegment list \<Rightarrow> nat \<times> nat" where
  "seg_range segs =
    (let (b, t) = fold (\<lambda>sg (va_base, va_top).
           if seg_el0 sg \<and> seg_size sg > 0
           then (min va_base (seg_pa sg), max va_top (seg_pa sg + seg_size sg)) else (va_base, va_top))
         segs (USIZE_MAX, 0)
     in (if b = USIZE_MAX then 0 else b, t))"

definition stack_segment :: "nat \<Rightarrow> ProcSegment" where
  "stack_segment user_stack =
    \<lparr>seg_pa = user_stack, seg_size = USER_STACK_SIZE, seg_el0 = True, seg_exec = False, seg_dev = False\<rparr>"

definition spawn_user_entry_with_segs ::
  "u8 list \<Rightarrow> nat \<Rightarrow> u64 \<Rightarrow> ProcSegment list \<Rightarrow> 'a SchedState_scheme \<Rightarrow> 'a SchedState_scheme \<times> (SpawnError + nat)" where
  "spawn_user_entry_with_segs nm entry caps segs s =
    (case alloc_pages TASK_STACK_PAGES s of
       (s1, None) \<Rightarrow> (s1, Inl NoKernelStack)
     | (s1, Some kernel_stack) \<Rightarrow>
    (case alloc_pages USER_STACK_PAGES s1 of
       (s2, None) \<Rightarrow> (s2, Inl NoUserStack)
     | (s2, Some user_stack) \<Rightarrow>
    (case create_process_table (take 17 segs @ [stack_segment user_stack]) s2 of
       None \<Rightarrow> (s2, Inl TablePanic)
     | Some (s3, table) \<Rightarrow>
    (case free_slot s3 of
       None \<Rightarrow> (s3, Inl PoolFull)
     | Some slot \<Rightarrow>
         let tid = NEXT_TID s3;
             (va_base, va_top) = seg_range segs;
             (s4, t) = Task_new_user tid nm entry kernel_stack TASK_STACK_SIZE
                         (user_stack + USER_STACK_SIZE) caps table va_base va_top
                         user_stack (user_stack + USER_STACK_SIZE) s3
         in ((set_task slot t s4)\<lparr>NEXT_TID := tid + 1, ACTIVE := True\<rparr>, Inr tid)))))"

definition spawn_user_entry where
  "spawn_user_entry nm entry caps s = spawn_user_entry_with_segs nm entry caps [] s"

definition spawn_user where
  "spawn_user nm entry caps s = spawn_user_entry nm entry caps s"

definition spawn_user_thread ::
  "u8 list \<Rightarrow> nat \<Rightarrow> nat \<Rightarrow> u64 \<Rightarrow> nat \<Rightarrow> 'a SchedState_scheme \<Rightarrow> 'a SchedState_scheme \<times> (SpawnError + nat)" where
  "spawn_user_thread nm entry user_sp caps table s =
    (case alloc_pages TASK_STACK_PAGES s of
       (s1, None) \<Rightarrow> (s1, Inl NoKernelStack)
     | (s1, Some kernel_stack) \<Rightarrow>
    (case free_slot s1 of
       None \<Rightarrow> (s1, Inl PoolFull)
     | Some slot \<Rightarrow>
         let tid = NEXT_TID s1;
             (s2, t) = Task_new_user tid nm entry kernel_stack TASK_STACK_SIZE user_sp caps table
                         0 0 0 0 s1
         in ((set_task slot t s2)\<lparr>NEXT_TID := tid + 1, ACTIVE := True\<rparr>, Inr tid)))"

section \<open>The tick: schedule_next\<close>

text \<open>
  The slots a scan visits: from the slot after \<open>start\<close> round to the one before it.
\<close>

definition rr_order :: "nat \<Rightarrow> nat list" where
  "rr_order start = map (\<lambda>k. (start + k) mod MAX_TASKS) [1..<MAX_TASKS]"

definition slot_sat :: "(Task \<Rightarrow> bool) \<Rightarrow> Task option list \<Rightarrow> nat \<Rightarrow> bool" where
  "slot_sat P ts i = (case ts ! i of None \<Rightarrow> False | Some t \<Rightarrow> P t)"

definition pinned_here :: "nat \<Rightarrow> Task \<Rightarrow> bool" where
  "pinned_here cpu t \<longleftrightarrow> t_state t = Ready \<and> t_stack_base t \<noteq> 0 \<and> t_cpu_pin t = Some cpu"

definition migratable :: "Task \<Rightarrow> bool" where
  "migratable t \<longleftrightarrow> t_state t = Ready \<and> t_stack_base t \<noteq> 0 \<and> t_cpu_pin t = None"

definition eligible :: "nat \<Rightarrow> Task \<Rightarrow> bool" where
  "eligible cpu t \<longleftrightarrow> t_state t = Ready \<and> (t_cpu_pin t = None \<or> t_cpu_pin t = Some cpu)"

text \<open>The three phases of the work-stealing round robin.\<close>

definition sched_pick :: "nat \<Rightarrow> nat \<Rightarrow> Task option list \<Rightarrow> nat option" where
  "sched_pick cpu start ts =
    (case find (slot_sat (pinned_here cpu) ts) (rr_order start) of
       Some i \<Rightarrow> Some i
     | None \<Rightarrow>
    (case find (slot_sat migratable ts) (rr_order start) of
       Some i \<Rightarrow> Some i
     | None \<Rightarrow> find (slot_sat (eligible cpu) ts) (rr_order start)))"

text \<open>
  Saving the stack pointer and charging the tick: the updated task and whether its quantum
  expired.
\<close>

definition charge_tick :: "nat \<Rightarrow> Task \<Rightarrow> Task \<times> bool" where
  "charge_tick current_sp t =
    (let t1 = t\<lparr>t_sp := current_sp, t_ticks_used := t_ticks_used t + 1\<rparr> in
     if t_ticks_remaining t > 1 then (t1\<lparr>t_ticks_remaining := t_ticks_remaining t - 1\<rparr>, False)
     else (t1\<lparr>t_state := (if t_state t = Running then Ready else t_state t)\<rparr>, True))"

definition reset_quantum :: "Task \<Rightarrow> Task" where
  "reset_quantum t = t\<lparr>t_ticks_remaining := max (t_priority t) 1\<rparr>"

definition page_range :: "nat \<Rightarrow> nat \<Rightarrow> nat list" where
  "page_range lo hi = map (\<lambda>k. page_down lo + k * 4096) [0..<(page_down (hi + 0xFFF) - page_down lo) div 4096]"

text \<open>Installing the address space of the next task (lines 549 to 583).\<close>

definition switch_ttbr0 :: "nat \<Rightarrow> Task \<Rightarrow> 'a SchedState_scheme \<Rightarrow> 'a SchedState_scheme" where
  "switch_ttbr0 cpu next s =
    (if t_ttbr0 next \<noteq> 0 \<and> t_ttbr0 next \<noteq> CURRENT_TTBR0 s ! cpu then
       let s1 = s\<lparr>CURRENT_TTBR0 := (CURRENT_TTBR0 s)[cpu := t_ttbr0 next],
                  HW_TTBR0 := (HW_TTBR0 s)[cpu := t_ttbr0 next]\<rparr>;
           s2 = fold tlbi (page_range (t_user_va_base next) (t_user_va_top next)) s1
       in if t_user_stack_base next < t_user_stack_top next
          then fold tlbi (page_range (t_user_stack_base next) (t_user_stack_top next)) s2
          else s2
     else s)"

definition sched_switch :: "nat \<Rightarrow> nat \<Rightarrow> nat \<Rightarrow> bool \<Rightarrow> nat \<Rightarrow> 'a SchedState_scheme \<Rightarrow> 'a SchedState_scheme \<times> nat" where
  "sched_switch cpu cur_slot idx quantum_expired current_sp s =
    (let s1 = (if quantum_expired then upd_task cur_slot reset_quantum s else s);
         s2 = s1\<lparr>CURRENT := (CURRENT s1)[cpu := idx]\<rparr>
     in case TASKS s2 ! idx of
          None \<Rightarrow> (s2, current_sp)
        | Some next \<Rightarrow>
            (switch_ttbr0 cpu next (upd_task idx (\<lambda>t. reset_quantum (t\<lparr>t_state := Running\<rparr>)) s2), t_sp next))"

definition schedule_next :: "nat \<Rightarrow> nat \<Rightarrow> 'a SchedState_scheme \<Rightarrow> 'a SchedState_scheme \<times> nat" where
  "schedule_next cpu_id current_sp s =
    (let cpu = cpu_index cpu_id in
     if \<not> ACTIVE s then (s, current_sp) else
     let s1 = s\<lparr>TOTAL_TICKS := TOTAL_TICKS s + 1\<rparr>; cur_slot = CURRENT s1 ! cpu in
     if cur_slot = NO_TASK then (s1, current_sp) else
     let is_idle = (case TASKS s1 ! cur_slot of None \<Rightarrow> True | Some t \<Rightarrow> t_stack_base t = 0);
         s2 = (if is_idle then s1\<lparr>IDLE_TICKS := IDLE_TICKS s1 + 1\<rparr> else s1);
         expired = (case TASKS s2 ! cur_slot of None \<Rightarrow> False | Some t \<Rightarrow> snd (charge_tick current_sp t));
         keep = (case TASKS s2 ! cur_slot of None \<Rightarrow> False
                 | Some t \<Rightarrow> t_ticks_remaining t > 1 \<and> t_state t = Running);
         s3 = upd_task cur_slot (\<lambda>t. fst (charge_tick current_sp t)) s2
     in if keep then (s3, current_sp)
        else case sched_pick cpu cur_slot (TASKS s3) of
               None \<Rightarrow> (upd_task cur_slot (\<lambda>t. reset_quantum (t\<lparr>t_state := Running\<rparr>)) s3, current_sp)
             | Some idx \<Rightarrow> sched_switch cpu cur_slot idx expired current_sp s3)"

section \<open>Accessors and updates of one task\<close>

definition current_slot :: "nat \<Rightarrow> 'a SchedState_scheme \<Rightarrow> nat" where
  "current_slot cpu_id s = CURRENT s ! cpu_index cpu_id"

definition current_task :: "nat \<Rightarrow> 'a SchedState_scheme \<Rightarrow> Task option" where
  "current_task cpu_id s = task_at s (current_slot cpu_id s)"

definition current_task_ttbr0 :: "nat \<Rightarrow> 'a SchedState_scheme \<Rightarrow> nat" where
  "current_task_ttbr0 cpu_id s = (case current_task cpu_id s of None \<Rightarrow> 0 | Some t \<Rightarrow> t_ttbr0 t)"

definition current_tid :: "nat \<Rightarrow> 'a SchedState_scheme \<Rightarrow> nat" where
  "current_tid cpu_id s = (case current_task cpu_id s of None \<Rightarrow> 0 | Some t \<Rightarrow> t_tid t)"

definition current_caps :: "nat \<Rightarrow> 'a SchedState_scheme \<Rightarrow> u64" where
  "current_caps cpu_id s = (case current_task cpu_id s of None \<Rightarrow> 0 | Some t \<Rightarrow> t_capabilities t)"

definition current_syscall_filter :: "nat \<Rightarrow> 'a SchedState_scheme \<Rightarrow> u64 list" where
  "current_syscall_filter cpu_id s =
    (case current_task cpu_id s of None \<Rightarrow> [NOT 0, NOT 0] | Some t \<Rightarrow> t_syscall_filter t)"

definition current_signal_handler :: "nat \<Rightarrow> 'a SchedState_scheme \<Rightarrow> nat" where
  "current_signal_handler cpu_id s = (case current_task cpu_id s of None \<Rightarrow> 0 | Some t \<Rightarrow> t_signal_handler t)"

text \<open>
  Most of the other entry points look a task up by TID and read or update it, or update the
  task of the calling CPU.
\<close>

definition get_by_tid :: "nat \<Rightarrow> (Task \<Rightarrow> 'b) \<Rightarrow> 'a SchedState_scheme \<Rightarrow> 'b option" where
  "get_by_tid tid f s = (case slot_of tid s of None \<Rightarrow> None | Some i \<Rightarrow> map_option f (TASKS s ! i))"

definition upd_by_tid :: "nat \<Rightarrow> (Task \<Rightarrow> Task) \<Rightarrow> 'a SchedState_scheme \<Rightarrow> 'a SchedState_scheme \<times> bool" where
  "upd_by_tid tid f s = (case slot_of tid s of None \<Rightarrow> (s, False) | Some i \<Rightarrow> (upd_task i f s, True))"

definition upd_current :: "nat \<Rightarrow> (Task \<Rightarrow> Task) \<Rightarrow> 'a SchedState_scheme \<Rightarrow> 'a SchedState_scheme" where
  "upd_current cpu_id f s =
    (if current_slot cpu_id s < MAX_TASKS then upd_task (current_slot cpu_id s) f s else s)"

definition get_task_caps :: "nat \<Rightarrow> 'a SchedState_scheme \<Rightarrow> u64 option" where
  "get_task_caps tid s = get_by_tid tid t_capabilities s"

definition set_task_caps :: "nat \<Rightarrow> u64 \<Rightarrow> 'a SchedState_scheme \<Rightarrow> 'a SchedState_scheme \<times> bool" where
  "set_task_caps tid new_caps s = upd_by_tid tid (\<lambda>t. t\<lparr>t_capabilities := new_caps\<rparr>) s"

definition get_task_syscall_filter :: "nat \<Rightarrow> 'a SchedState_scheme \<Rightarrow> u64 list option" where
  "get_task_syscall_filter tid s = get_by_tid tid t_syscall_filter s"

definition set_task_syscall_filter :: "nat \<Rightarrow> u64 list \<Rightarrow> 'a SchedState_scheme \<Rightarrow> 'a SchedState_scheme \<times> bool" where
  "set_task_syscall_filter tid flt s = upd_by_tid tid (\<lambda>t. t\<lparr>t_syscall_filter := flt\<rparr>) s"

definition wake_blocked :: "Task \<Rightarrow> Task" where
  "wake_blocked t = (if t_state t = Blocked then t\<lparr>t_state := Ready\<rparr> else t)"

definition send_signal :: "nat \<Rightarrow> nat \<Rightarrow> 'a SchedState_scheme \<Rightarrow> 'a SchedState_scheme \<times> bool" where
  "send_signal tid sig s =
    (if sig \<ge> 32 then (s, False)
     else upd_by_tid tid
       (\<lambda>t. wake_blocked (t\<lparr>t_pending_signals := t_pending_signals t OR push_bit sig 1\<rparr>)) s)"

definition set_signal_handler :: "nat \<Rightarrow> nat \<Rightarrow> u32 \<Rightarrow> 'a SchedState_scheme \<Rightarrow> 'a SchedState_scheme" where
  "set_signal_handler cpu_id handler msk s =
    upd_current cpu_id (\<lambda>t. t\<lparr>t_signal_handler := handler, t_signal_mask := msk\<rparr>) s"

text \<open>\<^verbatim>\<open>u32::trailing_zeros\<close>: the index of the lowest set bit, 32 for zero.\<close>

definition trailing_zeros32 :: "u32 \<Rightarrow> nat" where
  "trailing_zeros32 w = (case find (bit w) [0..<32] of None \<Rightarrow> 32 | Some i \<Rightarrow> i)"

definition pop_pending_signal :: "nat \<Rightarrow> 'a SchedState_scheme \<Rightarrow> 'a SchedState_scheme \<times> nat option" where
  "pop_pending_signal cpu_id s =
    (case current_task cpu_id s of
       None \<Rightarrow> (s, None)
     | Some t \<Rightarrow>
         let deliverable = t_pending_signals t AND NOT (t_signal_mask t) in
         if deliverable \<noteq> 0 then
           let sig = trailing_zeros32 deliverable in
           (upd_current cpu_id (\<lambda>t. t\<lparr>t_pending_signals := t_pending_signals t AND NOT (push_bit sig 1)\<rparr>) s,
            Some sig)
         else (s, None))"

definition swap_signal_mask :: "nat \<Rightarrow> u32 \<Rightarrow> 'a SchedState_scheme \<Rightarrow> 'a SchedState_scheme \<times> u32" where
  "swap_signal_mask cpu_id new_mask s =
    (case current_task cpu_id s of
       None \<Rightarrow> (s, 0)
     | Some t \<Rightarrow> (upd_current cpu_id (\<lambda>t. t\<lparr>t_signal_mask := new_mask\<rparr>) s, t_signal_mask t))"

section \<open>Messages, exit and wait\<close>

definition send_message :: "nat \<Rightarrow> Message \<Rightarrow> 'a SchedState_scheme \<Rightarrow> 'a SchedState_scheme \<times> bool" where
  "send_message target_tid msg s =
    (case slot_of target_tid s of
       None \<Rightarrow> (s, False)
     | Some i \<Rightarrow>
         (case TASKS s ! i of
            None \<Rightarrow> (s, False)
          | Some t \<Rightarrow>
              (case Mailbox_push msg (t_mailbox t) of
                 None \<Rightarrow> (s, False)
               | Some m \<Rightarrow> (set_task i (wake_blocked (t\<lparr>t_mailbox := m\<rparr>)) s, True))))"

definition recv_message :: "nat \<Rightarrow> 'a SchedState_scheme \<Rightarrow> 'a SchedState_scheme \<times> Message option" where
  "recv_message cpu_id s =
    (case current_task cpu_id s of
       None \<Rightarrow> (s, None)
     | Some t \<Rightarrow>
         (case Mailbox_pop (t_mailbox t) of
            (m, Some msg) \<Rightarrow> (upd_current cpu_id (\<lambda>t. t\<lparr>t_mailbox := m\<rparr>) s, Some msg)
          | (m, None) \<Rightarrow> (upd_current cpu_id (\<lambda>t. t\<lparr>t_mailbox := m, t_state := Blocked\<rparr>) s, None)))"

definition try_recv_message :: "nat \<Rightarrow> 'a SchedState_scheme \<Rightarrow> 'a SchedState_scheme \<times> Message option" where
  "try_recv_message cpu_id s =
    (case current_task cpu_id s of
       None \<Rightarrow> (s, None)
     | Some t \<Rightarrow>
         (case Mailbox_pop (t_mailbox t) of
            (m, r) \<Rightarrow> (upd_current cpu_id (\<lambda>t. t\<lparr>t_mailbox := m\<rparr>) s, r)))"

definition yield_cpu :: "nat \<Rightarrow> 'a SchedState_scheme \<Rightarrow> 'a SchedState_scheme" where
  "yield_cpu cpu_id s = upd_current cpu_id (\<lambda>t. t\<lparr>t_state := Ready\<rparr>) s"

definition wake_waiter :: "Task \<Rightarrow> Task" where
  "wake_waiter t = t\<lparr>t_wait_tid := None, t_state := Ready\<rparr>"

definition waits_for :: "nat \<Rightarrow> Task option \<Rightarrow> bool" where
  "waits_for tid ot = (case ot of None \<Rightarrow> False | Some t \<Rightarrow> t_wait_tid t = Some tid)"

text \<open>
  \<^verbatim>\<open>exit_task\<close> writes the exit code, sign-extended to 64 bits, to \<open>x0\<close> of each waiter's
  saved frame; \<^verbatim>\<open>force_exit\<close> does not.
\<close>

definition wake_waiter_at :: "nat \<Rightarrow> u32 \<Rightarrow> nat \<Rightarrow> 'a SchedState_scheme \<Rightarrow> 'a SchedState_scheme" where
  "wake_waiter_at my_tid code i s =
    (case TASKS s ! i of
       None \<Rightarrow> s
     | Some t \<Rightarrow>
         if t_wait_tid t = Some my_tid
         then (set_task i (wake_waiter t) s)\<lparr>PMEM := write_u64 (scast code) (to_dma_addr (t_sp t)) (PMEM s)\<rparr>
         else s)"

definition exit_task :: "nat \<Rightarrow> u32 \<Rightarrow> 'a SchedState_scheme \<Rightarrow> 'a SchedState_scheme" where
  "exit_task cpu_id code s =
    (let my_tid = current_tid cpu_id s;
         s1 = upd_current cpu_id (\<lambda>t. t\<lparr>t_state := Dead, t_exit_code := code\<rparr>) s
     in fold (wake_waiter_at my_tid code) [0..<MAX_TASKS] s1)"

definition force_exit :: "nat \<Rightarrow> u32 \<Rightarrow> 'a SchedState_scheme \<Rightarrow> 'a SchedState_scheme \<times> bool" where
  "force_exit tid code s =
    (case slot_of tid s of
       None \<Rightarrow> (s, False)
     | Some i \<Rightarrow>
         let s1 = upd_task i (\<lambda>t. t\<lparr>t_state := Dead, t_exit_code := code\<rparr>) s
         in (s1\<lparr>TASKS := map (\<lambda>ot. if waits_for tid ot then map_option wake_waiter ot else ot) (TASKS s1)\<rparr>,
             True))"

definition wait_for_tid :: "nat \<Rightarrow> nat \<Rightarrow> 'a SchedState_scheme \<Rightarrow> 'a SchedState_scheme \<times> u32 option" where
  "wait_for_tid cpu_id target_tid s =
    (case slot_of target_tid s of
       None \<Rightarrow> (s, Some (- 1))
     | Some i \<Rightarrow>
         (case TASKS s ! i of
            None \<Rightarrow> (s, Some (- 1))
          | Some t \<Rightarrow>
              if t_state t = Dead then
                let s1 = s\<lparr>TASKS := (TASKS s)[i := None]\<rparr>
                in (if t_stack_base t \<noteq> 0 \<and> t_stack_size t \<noteq> 0
                    then release_pages (t_stack_base t) (t_stack_size t div PAGE_SIZE) s1 else s1,
                    Some (t_exit_code t))
              else (upd_current cpu_id (\<lambda>t. t\<lparr>t_state := Blocked, t_wait_tid := Some target_tid\<rparr>) s, None)))"

section \<open>Affinity, priority and statistics\<close>

definition set_affinity :: "nat \<Rightarrow> nat \<Rightarrow> 'a SchedState_scheme \<Rightarrow> 'a SchedState_scheme \<times> bool" where
  "set_affinity tid cpu s =
    upd_by_tid tid (\<lambda>t. t\<lparr>t_cpu_pin := (if cpu < MAX_CPUS then Some cpu else None)\<rparr>) s"

definition set_task_priority :: "nat \<Rightarrow> u8 \<Rightarrow> 'a SchedState_scheme \<Rightarrow> 'a SchedState_scheme" where
  "set_task_priority tid priority s = fst (upd_by_tid tid (\<lambda>t. t\<lparr>t_priority := min (max priority 1) 8\<rparr>) s)"

definition task_ticks :: "nat \<Rightarrow> 'a SchedState_scheme \<Rightarrow> u64 \<times> u8" where
  "task_ticks tid s = (case get_by_tid tid (\<lambda>t. (t_ticks_used t, t_priority t)) s of None \<Rightarrow> (0, 1) | Some r \<Rightarrow> r)"

record TaskRecord =
  rec_tid :: u64
  rec_caps :: u64
  rec_name :: "u8 list"
  rec_pad :: u64

definition list_tasks :: "nat \<Rightarrow> 'a SchedState_scheme \<Rightarrow> TaskRecord list" where
  "list_tasks out_len s =
    take out_len (map (\<lambda>t. \<lparr>rec_tid = of_nat (t_tid t), rec_caps = t_capabilities t,
                            rec_name = t_name t, rec_pad = 0\<rparr>)
      (map the (filter (\<lambda>ot. ot \<noteq> None) (TASKS s))))"

definition task_count :: "'a SchedState_scheme \<Rightarrow> nat" where
  "task_count s = length (filter (\<lambda>ot. ot \<noteq> None) (TASKS s))"

definition idle_ticks :: "'a SchedState_scheme \<Rightarrow> nat" where "idle_ticks s = IDLE_TICKS s"
definition total_ticks :: "'a SchedState_scheme \<Rightarrow> nat" where "total_ticks s = TOTAL_TICKS s"

end
