(* ===== verification/Sched_Inv.thy ===== *)
theory Sched_Inv
  imports Scheduler
begin

text \<open>
  The invariant of the scheduler and its preservation by every entry point, as a step relation
  over \<open>SchedState\<close> with one rule per entry point; then the properties of the scheduling
  decision, of the address-space switch and of task exit and wait.
\<close>

section \<open>The task table\<close>

definition task_ok :: "Task \<Rightarrow> bool" where
  "task_ok t \<longleftrightarrow> Mailbox_wf (t_mailbox t) \<and> 1 \<le> t_priority t \<and> t_priority t \<le> 8
     \<and> length (t_syscall_filter t) = 2 \<and> (\<forall>c. t_cpu_pin t = Some c \<longrightarrow> c < MAX_CPUS)"

definition table_ok :: "Task option list \<Rightarrow> nat \<Rightarrow> bool" where
  "table_ok ts n \<longleftrightarrow> length ts = MAX_TASKS
     \<and> (\<forall>i < MAX_TASKS. \<forall>t. ts ! i = Some t \<longrightarrow> task_ok t \<and> t_tid t < n)
     \<and> (\<forall>i < MAX_TASKS. \<forall>j < MAX_TASKS. \<forall>t u. ts ! i = Some t \<longrightarrow> ts ! j = Some u \<longrightarrow> t_tid t = t_tid u \<longrightarrow> i = j)"

text \<open>A table whose entries come from an old one, with the same TIDs, stays well formed.\<close>

lemma table_ok_refine:
  assumes "table_ok ts n" "length ts' = length ts"
    and "\<And>i u. i < MAX_TASKS \<Longrightarrow> ts' ! i = Some u \<Longrightarrow>
           \<exists>t. ts ! i = Some t \<and> t_tid u = t_tid t \<and> (task_ok t \<longrightarrow> task_ok u)"
  shows "table_ok ts' n"
  unfolding table_ok_def
proof (intro conjI allI impI)
  show "length ts' = MAX_TASKS" using assms(1,2) by (simp add: table_ok_def)
next
  fix j u assume "j < MAX_TASKS" "ts' ! j = Some u"
  from assms(3) [OF this] show "task_ok u" "t_tid u < n"
    using assms(1) \<open>j < MAX_TASKS\<close> by (auto simp: table_ok_def)
next
  fix j k t u
  assume "j < MAX_TASKS" "k < MAX_TASKS" "ts' ! j = Some t" "ts' ! k = Some u" "t_tid t = t_tid u"
  with assms(3) [of j t] assms(3) [of k u] obtain t' u' where
    "ts ! j = Some t'" "ts ! k = Some u'" "t_tid t' = t_tid u'"
    by auto
  with assms(1) \<open>j < MAX_TASKS\<close> \<open>k < MAX_TASKS\<close> show "j = k" unfolding table_ok_def by blast
qed

lemma table_ok_length: "table_ok ts n \<Longrightarrow> length ts = MAX_TASKS"
  by (simp add: table_ok_def)

lemma table_ok_update:
  assumes "table_ok ts n" "i < MAX_TASKS"
    and "\<And>t. ts ! i = Some t \<Longrightarrow> task_ok t \<Longrightarrow> task_ok (f t)" "\<And>t. ts ! i = Some t \<Longrightarrow> t_tid (f t) = t_tid t"
  shows "table_ok (ts[i := map_option f (ts ! i)]) n"
  using assms table_ok_length [OF assms(1)]
  by (intro table_ok_refine [OF assms(1)]) (auto simp: nth_list_update split: if_splits)

lemma table_ok_new:
  assumes "table_ok ts n" "i < MAX_TASKS" "task_ok t" "t_tid t = n"
  shows "table_ok (ts[i := Some t]) (Suc n)"
proof -
  have l: "length ts = MAX_TASKS" using assms(1) by (simp add: table_ok_def)
  have lt: "\<And>j u. j < MAX_TASKS \<Longrightarrow> ts ! j = Some u \<Longrightarrow> t_tid u < n \<and> task_ok u"
    using assms(1) by (auto simp: table_ok_def)
  show ?thesis
    unfolding table_ok_def
  proof (intro conjI allI impI)
    show "length (ts[i := Some t]) = MAX_TASKS" using l by simp
  next
    fix j u assume "j < MAX_TASKS" "ts[i := Some t] ! j = Some u"
    then show "task_ok u" "t_tid u < Suc n"
      using lt [of j u] assms(2-4) l by (auto simp: nth_list_update split: if_splits)
  next
    fix j k u v
    assume a: "j < MAX_TASKS" "k < MAX_TASKS" "ts[i := Some t] ! j = Some u" "ts[i := Some t] ! k = Some v"
      "t_tid u = t_tid v"
    show "j = k"
    proof (cases "j = i \<or> k = i")
      case True
      then show ?thesis using a lt [of j u] lt [of k v] assms(2,4) l
        by (auto simp: nth_list_update split: if_splits)
    next
      case False
      then have "ts ! j = Some u" "ts ! k = Some v" using a by auto
      with assms(1) a show ?thesis unfolding table_ok_def by blast
    qed
  qed
qed

lemma table_ok_clear:
  assumes "table_ok ts n"
  shows "table_ok (ts[i := None]) n"
  using table_ok_length [OF assms]
  by (intro table_ok_refine [OF assms]) (auto simp: nth_list_update_if split: if_splits)

lemma slot_of_SomeD:
  assumes "slot_of tid s = Some i"
  obtains t where "i < MAX_TASKS" "TASKS s ! i = Some t" "t_tid t = tid"
  using find_index_SomeD [OF assms [unfolded slot_of_def]]
  by (auto simp: has_tid_def split: option.splits)

lemma free_slot_SomeD: "free_slot s = Some i \<Longrightarrow> i < MAX_TASKS \<and> TASKS s ! i = None"
  by (auto simp: free_slot_def find_index_Some_iff)

section \<open>The invariant\<close>

definition sched_inv :: "'a SchedState_scheme \<Rightarrow> bool" where
  "sched_inv s \<longleftrightarrow> page_wf s \<and> table_ok (TASKS s) (NEXT_TID s)
     \<and> length (CURRENT s) = MAX_CPUS \<and> (\<forall>c < MAX_CPUS. CURRENT s ! c \<le> NO_TASK)
     \<and> length (CURRENT_TTBR0 s) = MAX_CPUS \<and> length (HW_TTBR0 s) = MAX_CPUS
     \<and> (\<forall>c < MAX_CPUS. CURRENT_TTBR0 s ! c \<noteq> 0 \<longrightarrow> HW_TTBR0 s ! c = CURRENT_TTBR0 s ! c)"

lemma sched_inv_page_upd:
  assumes "page_upd s s'" "sched_inv s"
  shows "sched_inv s'"
  using assms page_upd_wf [OF assms(1)] by (auto simp: page_upd_def sched_inv_def)

lemma cpu_index_lt [simp]: "cpu_index cpu < MAX_CPUS"
  by (simp add: cpu_index_def)

lemma sched_inv_upd_task:
  assumes "sched_inv s" "i < MAX_TASKS"
    and "\<And>t. TASKS s ! i = Some t \<Longrightarrow> task_ok t \<Longrightarrow> task_ok (f t)"
    and "\<And>t. TASKS s ! i = Some t \<Longrightarrow> t_tid (f t) = t_tid t"
  shows "sched_inv (upd_task i f s)"
  using assms(1) table_ok_update [of "TASKS s" "NEXT_TID s" i f] assms(2-4)
  by (simp add: sched_inv_def upd_task_def page_wf_def)

lemma sched_inv_set_task:
  assumes "sched_inv s" "i < MAX_TASKS" "TASKS s ! i = Some t" "task_ok t \<Longrightarrow> task_ok t'" "t_tid t' = t_tid t"
  shows "sched_inv (set_task i t' s)"
proof -
  have "set_task i t' s = upd_task i (\<lambda>_. t') s" using assms(3) by (simp add: set_task_def upd_task_def)
  then show ?thesis using sched_inv_upd_task [OF assms(1,2), of "\<lambda>_. t'"] assms(3-5) by simp
qed

lemma sched_inv_new_task:
  assumes "sched_inv s" "i < MAX_TASKS" "task_ok t" "t_tid t = NEXT_TID s"
  shows "sched_inv ((set_task i t s)\<lparr>NEXT_TID := NEXT_TID s + 1, ACTIVE := b\<rparr>)"
    and "c < MAX_CPUS \<Longrightarrow> sched_inv ((set_task i t s)\<lparr>NEXT_TID := NEXT_TID s + 1, CURRENT := (CURRENT s)[c := i]\<rparr>)"
  using assms table_ok_new [of "TASKS s" "NEXT_TID s" i t]
  by (auto simp: sched_inv_def set_task_def page_wf_def nth_list_update)

lemma task_ok_new_tasks [simp]:
  "task_ok (snd (Task_new tid nm e b n s))" "t_tid (snd (Task_new tid nm e b n s)) = tid"
  "task_ok (snd (Task_new_user tid nm e b n u c tb v w x y s))"
  "t_tid (snd (Task_new_user tid nm e b n u c tb v w x y s)) = tid"
  "t_tid (idle_task tid cpu tb) = tid" "cpu < MAX_CPUS \<Longrightarrow> task_ok (idle_task tid cpu tb)"
  by (simp_all add: Task_new_def Task_new_user_def idle_task_def task_ok_def Let_def mb.wf_empty)

lemma page_upd_new_tasks:
  "page_upd s (fst (Task_new tid nm e b n s))"
  "page_upd s (fst (Task_new_user tid nm e b n u c tb v w x y s))"
  using page_updI [of "BITMAP s" s] by (simp_all add: Task_new_def Task_new_user_def Let_def)

lemma sched_inv_upd_by_tid:
  assumes "sched_inv s" "\<And>t. task_ok t \<Longrightarrow> task_ok (f t)" "\<And>t. t_tid (f t) = t_tid t"
  shows "sched_inv (fst (upd_by_tid tid f s))"
  using assms by (auto simp: upd_by_tid_def split: option.split elim!: slot_of_SomeD intro!: sched_inv_upd_task)

lemma sched_inv_upd_current:
  assumes "sched_inv s" "\<And>t. task_ok t \<Longrightarrow> task_ok (f t)" "\<And>t. t_tid (f t) = t_tid t"
  shows "sched_inv (upd_current cpu f s)"
  using assms by (auto simp: upd_current_def intro!: sched_inv_upd_task)

lemma page_upd_fields:
  assumes "page_upd s s'"
  shows "TASKS s' = TASKS s" "NEXT_TID s' = NEXT_TID s" "CURRENT s' = CURRENT s" "ACTIVE s' = ACTIVE s"
    "CURRENT_TTBR0 s' = CURRENT_TTBR0 s" "HW_TTBR0 s' = HW_TTBR0 s"
  using assms by (auto simp: page_upd_def)

section \<open>Every entry point keeps the invariant\<close>

lemma sched_inv_spawn:
  assumes "sched_inv s"
  shows "sched_inv (fst (spawn nm e s))"
proof (cases "free_slot s")
  case (Some slot)
  obtain s1 r where a: "alloc_pages TASK_STACK_PAGES s = (s1, r)" by fastforce
  then have u: "page_upd s s1" using page_upd_alloc_pages [of s TASK_STACK_PAGES] by simp
  show ?thesis
  proof (cases r)
    case None
    then show ?thesis using Some a sched_inv_page_upd [OF u assms] by (simp add: spawn_def)
  next
    case (Some b)
    obtain s2 t where n: "Task_new (NEXT_TID s1) nm e b TASK_STACK_SIZE s1 = (s2, t)" by fastforce
    then have u2: "page_upd s1 s2" and t: "task_ok t" "t_tid t = NEXT_TID s1"
      using page_upd_new_tasks(1) [of s1 "NEXT_TID s1" nm e b TASK_STACK_SIZE]
        task_ok_new_tasks(1,2) [of "NEXT_TID s1" nm e b TASK_STACK_SIZE s1] by auto
    have "sched_inv s2" by (rule sched_inv_page_upd [OF u2 sched_inv_page_upd [OF u assms]])
    from sched_inv_new_task(1) [OF this _ t(1), of slot True] t(2) page_upd_fields(2) [OF u2]
    show ?thesis using \<open>free_slot s = Some slot\<close> Some a n free_slot_SomeD [of s slot]
      by (simp add: spawn_def Let_def)
  qed
qed (simp add: spawn_def assms)

lemma new_user_task_inv:
  assumes "sched_inv s" "i < MAX_TASKS" "Task_new_user (NEXT_TID s) nm e b n u c tb v w x y s = (s', t)"
  shows "sched_inv ((set_task i t s')\<lparr>NEXT_TID := NEXT_TID s + 1, ACTIVE := True\<rparr>)"
proof -
  have u: "page_upd s s'" and t: "task_ok t" "t_tid t = NEXT_TID s"
    using page_upd_new_tasks(2) [of s "NEXT_TID s" nm e b n u c tb v w x y]
      task_ok_new_tasks(3,4) [of "NEXT_TID s" nm e b n u c tb v w x y s] assms(3) by auto
  from sched_inv_new_task(1) [OF sched_inv_page_upd [OF u assms(1)] assms(2) t(1), of True]
  show ?thesis using t(2) page_upd_fields(2) [OF u] by simp
qed

lemma sched_inv_spawn_user_thread:
  assumes "sched_inv s"
  shows "sched_inv (fst (spawn_user_thread nm e u c tb s))"
proof -
  obtain s1 r where a: "alloc_pages TASK_STACK_PAGES s = (s1, r)" by fastforce
  then have "page_upd s s1" using page_upd_alloc_pages [of s TASK_STACK_PAGES] by simp
  then have "sched_inv s1" using sched_inv_page_upd assms by blast
  then show ?thesis
    using a by (auto simp: spawn_user_thread_def Let_def split: option.splits prod.splits
        dest!: free_slot_SomeD intro: new_user_task_inv [simplified])
qed

lemma sched_inv_spawn_user_entry_with_segs:
  assumes "sched_inv s"
  shows "sched_inv (fst (spawn_user_entry_with_segs nm e c segs s))"
proof -
  obtain s1 r where a: "alloc_pages TASK_STACK_PAGES s = (s1, r)" by fastforce
  obtain s2 r2 where a2: "alloc_pages USER_STACK_PAGES s1 = (s2, r2)" by fastforce
  have u: "page_upd s s1" "page_upd s1 s2"
    using page_upd_alloc_pages [of s TASK_STACK_PAGES] page_upd_alloc_pages [of s1 USER_STACK_PAGES] a a2 by simp_all
  then have i: "sched_inv s1" "sched_inv s2" using sched_inv_page_upd assms by blast+
  moreover have "sched_inv s3" if "create_process_table sg s2 = Some (s3, tb)" for sg s3 tb
    using sched_inv_page_upd [OF page_upd_create_process_table [OF that] i(2)] .
  ultimately show ?thesis
    using a a2 by (auto simp: spawn_user_entry_with_segs_def Let_def split: option.splits prod.splits
        dest!: free_slot_SomeD intro: new_user_task_inv [simplified])
qed

lemma sched_inv_secondary_idle_init:
  assumes "sched_inv s"
  shows "sched_inv (secondary_idle_init c s)"
  using assms sched_inv_new_task(2) [OF assms, of _ "idle_task (NEXT_TID s) c (ttbr0 s)" c]
  by (auto simp: secondary_idle_init_def Let_def split: option.splits dest!: free_slot_SomeD)

lemma sched_inv_send_message: "sched_inv s \<Longrightarrow> sched_inv (fst (send_message tid msg s))"
  by (auto simp: send_message_def wake_blocked_def split: option.split elim!: slot_of_SomeD
      intro!: sched_inv_set_task) (auto simp: task_ok_def dest: Mailbox_push_wf)

lemma Mailbox_pop_wf: "Mailbox_wf m \<Longrightarrow> Mailbox_wf (fst (Mailbox_pop m))"
  using Mailbox_pop_nonempty(2) [of m] by (cases "mcount m") (auto simp: Mailbox_pop_def)

lemma current_task_SomeD:
  assumes "current_task cpu s = Some t"
  shows "current_slot cpu s < MAX_TASKS" "TASKS s ! current_slot cpu s = Some t"
  using assms by (auto simp: current_task_def task_at_def split: if_splits)

lemma sched_inv_upd_current_task:
  assumes "sched_inv s" "current_task cpu s = Some t" "task_ok t \<Longrightarrow> task_ok (f t)" "t_tid (f t) = t_tid t"
  shows "sched_inv (upd_current cpu f s)"
  using assms current_task_SomeD [OF assms(2)] by (auto simp: upd_current_def intro!: sched_inv_upd_task)

lemma sched_inv_recv_message:
  assumes "sched_inv s"
  shows "sched_inv (fst (recv_message cpu s))" "sched_inv (fst (try_recv_message cpu s))"
proof -
  have "sched_inv (upd_current cpu (\<lambda>t. t\<lparr>t_mailbox := m\<rparr>) s)
      \<and> sched_inv (upd_current cpu (\<lambda>t. t\<lparr>t_mailbox := m, t_state := Blocked\<rparr>) s)"
    if "current_task cpu s = Some t" "Mailbox_pop (t_mailbox t) = (m, r)" for t m r
    using sched_inv_upd_current_task [OF assms that(1)] Mailbox_pop_wf [of "t_mailbox t"] that(2)
    by (auto simp: task_ok_def)
  then show "sched_inv (fst (recv_message cpu s))" "sched_inv (fst (try_recv_message cpu s))"
    using assms by (auto simp: recv_message_def try_recv_message_def split: option.splits prod.splits)
qed

lemma task_ok_simps [simp]:
  "task_ok (t\<lparr>t_state := st\<rparr>) = task_ok t" "task_ok (t\<lparr>t_capabilities := cp\<rparr>) = task_ok t"
  "task_ok (t\<lparr>t_pending_signals := p\<rparr>) = task_ok t" "task_ok (t\<lparr>t_signal_mask := p\<rparr>) = task_ok t"
  "task_ok (t\<lparr>t_signal_handler := h\<rparr>) = task_ok t" "task_ok (t\<lparr>t_wait_tid := w\<rparr>) = task_ok t"
  "task_ok (t\<lparr>t_exit_code := e\<rparr>) = task_ok t" "task_ok (t\<lparr>t_sp := sp\<rparr>) = task_ok t"
  "task_ok (t\<lparr>t_ticks_used := u\<rparr>) = task_ok t" "task_ok (t\<lparr>t_ticks_remaining := r\<rparr>) = task_ok t"
  by (simp_all add: task_ok_def)

lemma sched_inv_wake_waiter_at: "i < MAX_TASKS \<Longrightarrow> sched_inv s \<Longrightarrow> sched_inv (wake_waiter_at tid code i s)"
proof (cases "TASKS s ! i")
  case (Some t)
  assume a: "i < MAX_TASKS" "sched_inv s"
  have "sched_inv (set_task i (wake_waiter t) s)"
    using sched_inv_set_task [OF a(2,1) Some] by (simp add: wake_waiter_def)
  then have "sched_inv ((set_task i (wake_waiter t) s)\<lparr>PMEM := m\<rparr>)" for m
    by (simp add: sched_inv_def page_wf_def)
  then show ?thesis using Some a by (simp add: wake_waiter_at_def)
qed (simp add: wake_waiter_at_def)

lemma sched_inv_exit_task: "sched_inv s \<Longrightarrow> sched_inv (exit_task cpu code s)"
proof -
  assume s: "sched_inv s"
  have "sched_inv (fold (wake_waiter_at tid code) is s)" if "\<forall>i \<in> set is. i < MAX_TASKS" "sched_inv s"
    for tid "is" and s :: "'a SchedState_scheme"
    using that by (induction "is" arbitrary: s) (auto intro: sched_inv_wake_waiter_at [simplified])
  moreover have "sched_inv (upd_current cpu (\<lambda>t. t\<lparr>t_state := Dead, t_exit_code := code\<rparr>) s)"
    by (rule sched_inv_upd_current [OF s]) simp_all
  ultimately show ?thesis by (simp add: exit_task_def Let_def)
qed

lemma sched_inv_force_exit: "sched_inv s \<Longrightarrow> sched_inv (fst (force_exit tid code s))"
proof (cases "slot_of tid s")
  case (Some i)
  assume s: "sched_inv s"
  let ?s1 = "upd_task i (\<lambda>t. t\<lparr>t_state := Dead, t_exit_code := code\<rparr>) s"
  have "sched_inv ?s1" using Some s by (auto elim!: slot_of_SomeD intro!: sched_inv_upd_task)
  moreover have "table_ok (map (\<lambda>ot. if waits_for tid ot then map_option wake_waiter ot else ot) (TASKS ?s1)) (NEXT_TID ?s1)"
  proof (rule table_ok_refine [of "TASKS ?s1"])
    show "table_ok (TASKS ?s1) (NEXT_TID ?s1)" using \<open>sched_inv ?s1\<close> by (simp add: sched_inv_def)
    then have l: "length (TASKS ?s1) = MAX_TASKS" by (rule table_ok_length)
    fix j u
    assume "j < MAX_TASKS"
      and "map (\<lambda>ot. if waits_for tid ot then map_option wake_waiter ot else ot) (TASKS ?s1) ! j = Some u"
    then show "\<exists>t. TASKS ?s1 ! j = Some t \<and> t_tid u = t_tid t \<and> (task_ok t \<longrightarrow> task_ok u)"
      using l by (auto simp: wake_waiter_def split: if_splits)
  qed simp
  ultimately show ?thesis using Some by (simp add: force_exit_def Let_def sched_inv_def page_wf_def)
qed (simp add: force_exit_def)

lemma sched_inv_wait_for_tid: "sched_inv s \<Longrightarrow> sched_inv (fst (wait_for_tid cpu tid s))"
proof (cases "slot_of tid s")
  case (Some i)
  assume s: "sched_inv s"
  obtain t where t: "i < MAX_TASKS" "TASKS s ! i = Some t" using Some by (rule slot_of_SomeD)
  have c: "sched_inv (s\<lparr>TASKS := (TASKS s)[i := None]\<rparr>)"
    using s by (auto simp: sched_inv_def page_wf_def intro: table_ok_clear)
  have "sched_inv (upd_current cpu (\<lambda>t. t\<lparr>t_state := Blocked, t_wait_tid := Some tid\<rparr>) s)"
    by (rule sched_inv_upd_current [OF s]) simp_all
  then show ?thesis
    using Some t(2) c sched_inv_page_upd [OF page_upd_release_pages c]
    by (simp add: wait_for_tid_def Let_def)
qed (simp add: wait_for_tid_def)

section \<open>The scheduling decision\<close>

lemma set_rr_order:
  assumes "start < MAX_TASKS"
  shows "set (rr_order start) = {i. i < MAX_TASKS \<and> i \<noteq> start}"
proof -
  have "\<exists>k \<in> {1..<16}. i = (start + k) mod 16" if "i < 16" "i \<noteq> start" for i
  proof (cases "start < i")
    case True
    then show ?thesis using that by (intro bexI [of _ "i - start"]) auto
  next
    case False
    then have "start + (i + 16 - start) = i + 16" using assms by simp
    then have "i = (start + (i + 16 - start)) mod 16" using that by simp
    moreover have "i + 16 - start \<in> {1..<16}" using False that assms by auto
    ultimately show ?thesis by blast
  qed
  moreover have "(start + k) mod 16 \<noteq> start" if "k \<in> {1..<16}" for k
    using that assms by (cases "start + k < 16") (auto simp: mod_if)
  ultimately show ?thesis by (auto simp: rr_order_def)
qed

lemma find_Some_set: "find P xs = Some x \<Longrightarrow> x \<in> set xs \<and> P x"
  by (auto simp: find_Some_iff)

lemma find_None_set: "find P xs = None \<Longrightarrow> x \<in> set xs \<Longrightarrow> \<not> P x"
  by (auto simp: find_None_iff)

lemma slot_sat_mono: "slot_sat P ts i \<Longrightarrow> (\<And>t. P t \<Longrightarrow> Q t) \<Longrightarrow> slot_sat Q ts i"
  by (auto simp: slot_sat_def split: option.splits)

lemma pinned_here_eligible: "pinned_here cpu t \<Longrightarrow> eligible cpu t"
  and migratable_eligible: "migratable t \<Longrightarrow> eligible cpu t"
  by (auto simp: pinned_here_def migratable_def eligible_def)

lemma sched_pick_Some:
  assumes "start < MAX_TASKS" "sched_pick cpu start ts = Some i"
  shows "i < MAX_TASKS" "i \<noteq> start" "slot_sat (eligible cpu) ts i"
proof -
  have "i \<in> set (rr_order start) \<and> slot_sat (eligible cpu) ts i"
    using assms(2) unfolding sched_pick_def
    by (auto split: option.splits dest!: find_Some_set
        intro: slot_sat_mono pinned_here_eligible migratable_eligible)
  then show "i < MAX_TASKS" "i \<noteq> start" "slot_sat (eligible cpu) ts i"
    using set_rr_order [OF assms(1)] by auto
qed

lemma sched_pick_None:
  assumes "start < MAX_TASKS" "sched_pick cpu start ts = None" "i < MAX_TASKS" "i \<noteq> start"
  shows "\<not> slot_sat (eligible cpu) ts i"
proof -
  have "find (slot_sat (eligible cpu) ts) (rr_order start) = None"
    using assms(2) unfolding sched_pick_def by (auto split: option.splits)
  then show ?thesis
    using find_None_set [of _ "rr_order start" i] set_rr_order [OF assms(1)] assms(3,4) by simp
qed

lemma fold_tlbi: "fold tlbi vs s = s\<lparr>TLBI := rev (map (\<lambda>v. v div 4096) vs) @ TLBI s\<rparr>"
proof (induction vs arbitrary: s)
  case (Cons v vs)
  from Cons [of "tlbi v s"] show ?case by (simp add: tlbi_def [of v])
qed simp

lemma sched_inv_switch_ttbr0:
  assumes "sched_inv s" "c < MAX_CPUS"
  shows "sched_inv (switch_ttbr0 c t s)"
proof -
  have i: "sched_inv (s'\<lparr>TLBI := l\<rparr>) = sched_inv s'" for l and s' :: "'a SchedState_scheme"
    by (simp add: sched_inv_def page_wf_def)
  have f': "sched_inv (fold tlbi vs s') = sched_inv s'" for vs and s' :: "'a SchedState_scheme"
    by (simp add: fold_tlbi i)
  have "sched_inv (s\<lparr>CURRENT_TTBR0 := (CURRENT_TTBR0 s)[c := t_ttbr0 t], HW_TTBR0 := (HW_TTBR0 s)[c := t_ttbr0 t]\<rparr>)"
    using assms by (auto simp: sched_inv_def page_wf_def nth_list_update)
  then show ?thesis using assms(1) by (simp add: switch_ttbr0_def Let_def f')
qed

text \<open>
  The state after charging the tick to the task of the CPU, and the fate of the CPU.
\<close>

definition after_charge :: "nat \<Rightarrow> nat \<Rightarrow> 'a SchedState_scheme \<Rightarrow> 'a SchedState_scheme" where
  "after_charge c sp s =
    (let s1 = s\<lparr>TOTAL_TICKS := TOTAL_TICKS s + 1\<rparr>;
         s2 = (if (case TASKS s ! (CURRENT s ! c) of None \<Rightarrow> True | Some t \<Rightarrow> t_stack_base t = 0)
               then s1\<lparr>IDLE_TICKS := IDLE_TICKS s1 + 1\<rparr> else s1)
     in upd_task (CURRENT s ! c) (\<lambda>t. fst (charge_tick sp t)) s2)"

lemma after_charge_fields [simp]:
  "CURRENT (after_charge c sp s) = CURRENT s" "HW_TTBR0 (after_charge c sp s) = HW_TTBR0 s"
  "CURRENT_TTBR0 (after_charge c sp s) = CURRENT_TTBR0 s" "PMEM (after_charge c sp s) = PMEM s"
  "TASKS (after_charge c sp s)
     = (TASKS s)[CURRENT s ! c := map_option (\<lambda>t. fst (charge_tick sp t)) (TASKS s ! (CURRENT s ! c))]"
  by (simp_all add: after_charge_def Let_def upd_task_def)

lemma charge_tick_tid [simp]: "t_tid (fst (charge_tick sp t)) = t_tid t"
  and charge_tick_ok [simp]: "task_ok (fst (charge_tick sp t)) = task_ok t"
  by (simp_all add: charge_tick_def Let_def)

lemma sched_inv_after_charge:
  assumes "sched_inv s" "CURRENT s ! c < MAX_TASKS"
  shows "sched_inv (after_charge c sp s)"
proof -
  have "sched_inv (s\<lparr>TOTAL_TICKS := n\<rparr>)" "sched_inv (s\<lparr>TOTAL_TICKS := n, IDLE_TICKS := m\<rparr>)" for n m
    using assms(1) by (simp_all add: sched_inv_def page_wf_def)
  then show ?thesis using assms(2) unfolding after_charge_def Let_def by (auto intro!: sched_inv_upd_task)
qed

lemma schedule_next_unfold:
  assumes "c = cpu_index cpu" "ACTIVE s" "CURRENT s ! c < MAX_TASKS"
  shows "schedule_next cpu sp s =
    (if (case TASKS s ! (CURRENT s ! c) of None \<Rightarrow> False | Some t \<Rightarrow> t_ticks_remaining t > 1 \<and> t_state t = Running)
     then (after_charge c sp s, sp)
     else case sched_pick c (CURRENT s ! c) (TASKS (after_charge c sp s)) of
            None \<Rightarrow> (upd_task (CURRENT s ! c) (\<lambda>t. reset_quantum (t\<lparr>t_state := Running\<rparr>)) (after_charge c sp s), sp)
          | Some idx \<Rightarrow> sched_switch c (CURRENT s ! c) idx
              (case TASKS s ! (CURRENT s ! c) of None \<Rightarrow> False | Some t \<Rightarrow> snd (charge_tick sp t)) sp (after_charge c sp s))"
  using assms(2,3) unfolding schedule_next_def assms(1) [symmetric] after_charge_def Let_def
  by (simp cong: option.case_cong)

lemma schedule_next_idle:
  "\<not> ACTIVE s \<or> CURRENT s ! cpu_index cpu = NO_TASK \<Longrightarrow>
   \<exists>n. schedule_next cpu sp s = (s\<lparr>TOTAL_TICKS := n\<rparr>, sp)"
  by (auto simp: schedule_next_def Let_def intro: exI [of _ "TOTAL_TICKS s"])

lemma reset_quantum_simps [simp]:
  "t_tid (reset_quantum t) = t_tid t" "task_ok (reset_quantum t) = task_ok t"
  by (simp_all add: reset_quantum_def)

lemma sched_inv_schedule_next:
  assumes "sched_inv s"
  shows "sched_inv (fst (schedule_next cpu sp s))"
proof (cases "\<not> ACTIVE s \<or> CURRENT s ! cpu_index cpu = NO_TASK")
  case True
  then show ?thesis using schedule_next_idle [of s cpu sp] assms by (auto simp: sched_inv_def page_wf_def)
next
  case False
  define c where "c = cpu_index cpu"
  have c: "c < MAX_CPUS" by (simp add: c_def del: MAX_CPUS_def)
  have cur: "CURRENT s ! c < MAX_TASKS" using False assms c by (auto simp: sched_inv_def c_def le_less)
  have i: "sched_inv (after_charge c sp s)" by (rule sched_inv_after_charge [OF assms cur])
  have q: "sched_inv (upd_task j reset_quantum s')" "sched_inv (upd_task j (\<lambda>t. reset_quantum (t\<lparr>t_state := Running\<rparr>)) s')"
    if "sched_inv s'" "j < MAX_TASKS" for s' :: "'a SchedState_scheme" and j
    using that by (auto intro!: sched_inv_upd_task)
  have "sched_inv (fst (sched_switch c (CURRENT s ! c) idx b sp s'))"
    if "sched_inv s'" "idx < MAX_TASKS" for idx b and s' :: "'a SchedState_scheme"
  proof -
    have "sched_inv ((if b then upd_task (CURRENT s ! c) reset_quantum s' else s'))"
      using that cur q by simp
    then have "sched_inv ((if b then upd_task (CURRENT s ! c) reset_quantum s' else s')
        \<lparr>CURRENT := (CURRENT (if b then upd_task (CURRENT s ! c) reset_quantum s' else s'))[c := idx]\<rparr>)"
      using c that(2) by (auto simp: sched_inv_def page_wf_def nth_list_update)
    with that(2) show ?thesis
      unfolding sched_switch_def Let_def by (auto split: option.split intro!: sched_inv_switch_ttbr0 q c)
  qed
  moreover have act: "ACTIVE s" using False by simp
  ultimately show ?thesis
    using i q(2) [OF i cur] sched_pick_Some(1) [OF cur]
    unfolding schedule_next_unfold [OF c_def act cur] by (auto split: option.split)
qed

section \<open>Steps and reachable states\<close>

inductive sched_step :: "'a SchedState_scheme \<Rightarrow> 'a SchedState_scheme \<Rightarrow> bool" where
  tick: "sched_step s (fst (schedule_next cpu sp s))"
| secondary: "sched_step s (secondary_idle_init cpu s)"
| spawn_kernel: "sched_step s (fst (spawn nm entry s))"
| spawn_process: "sched_step s (fst (spawn_user_entry_with_segs nm entry caps segs s))"
| spawn_thread: "sched_step s (fst (spawn_user_thread nm entry usp caps table s))"
| caps: "sched_step s (fst (set_task_caps tid cp s))"
| sysfilter: "length flt = 2 \<Longrightarrow> sched_step s (fst (set_task_syscall_filter tid flt s))"
| signal: "sched_step s (fst (send_signal tid sig s))"
| sigaction: "sched_step s (set_signal_handler cpu handler msk s)"
| sigpop: "sched_step s (fst (pop_pending_signal cpu s))"
| sigmask: "sched_step s (fst (swap_signal_mask cpu msk s))"
| kill: "sched_step s (fst (force_exit tid code s))"
| send: "sched_step s (fst (send_message tid msg s))"
| recv: "sched_step s (fst (recv_message cpu s))"
| try_recv: "sched_step s (fst (try_recv_message cpu s))"
| yield: "sched_step s (yield_cpu cpu s)"
| exit: "sched_step s (exit_task cpu code s)"
| wait: "sched_step s (fst (wait_for_tid cpu tid s))"
| affinity: "sched_step s (fst (set_affinity tid cpu s))"
| priority: "sched_step s (set_task_priority tid p s)"

lemma clamp_priority: "1 \<le> min (max p 1) (8 :: u8)" "min (max p 1) (8 :: u8) \<le> 8"
  by (auto simp: min_def max_def)

lemma sched_step_inv: "sched_step s s' \<Longrightarrow> sched_inv s \<Longrightarrow> sched_inv s'"
proof (induction rule: sched_step.induct)
  case (sysfilter flt s tid)
  then show ?case unfolding set_task_syscall_filter_def
    by (intro sched_inv_upd_by_tid) (auto simp: task_ok_def)
next
  case (signal s tid sig)
  then show ?case
    unfolding send_signal_def by (auto intro!: sched_inv_upd_by_tid simp: wake_blocked_def)
next
  case (priority s tid p)
  then show ?case unfolding set_task_priority_def
    by (intro sched_inv_upd_by_tid) (auto simp: task_ok_def clamp_priority)
next
  case (sigpop s cpu)
  then show ?case
    by (auto simp: pop_pending_signal_def Let_def split: option.split intro!: sched_inv_upd_current)
next
  case (sigmask s cpu msk)
  then show ?case
    by (auto simp: swap_signal_mask_def split: option.split intro!: sched_inv_upd_current)
next
  case (affinity s tid cpu)
  then show ?case unfolding set_affinity_def by (intro sched_inv_upd_by_tid) (auto simp: task_ok_def)
next
  case (caps s tid cp)
  then show ?case unfolding set_task_caps_def by (intro sched_inv_upd_by_tid) auto
next
  case (sigaction s cpu handler msk)
  then show ?case unfolding set_signal_handler_def by (intro sched_inv_upd_current) auto
next
  case (yield s cpu)
  then show ?case unfolding yield_cpu_def by (intro sched_inv_upd_current) auto
qed (simp_all add: sched_inv_schedule_next sched_inv_secondary_idle_init sched_inv_spawn
    sched_inv_spawn_user_entry_with_segs sched_inv_spawn_user_thread sched_inv_force_exit
    sched_inv_send_message sched_inv_recv_message sched_inv_exit_task sched_inv_wait_for_tid)

definition boot_state :: "'a SchedState_scheme \<Rightarrow> bool" where
  "boot_state s \<longleftrightarrow> page_wf s \<and> TASKS s = replicate MAX_TASKS None
     \<and> CURRENT s = [0, NO_TASK, NO_TASK, NO_TASK] \<and> CURRENT_TTBR0 s = [0, 0, 0, 0]
     \<and> length (HW_TTBR0 s) = MAX_CPUS \<and> NEXT_TID s = 0 \<and> \<not> ACTIVE s"

inductive sched_reach :: "'a SchedState_scheme \<Rightarrow> 'a SchedState_scheme \<Rightarrow> bool" where
  boot: "boot_state s0 \<Longrightarrow> sched_reach s0 (sched_init s0)"
| step: "sched_reach s0 s \<Longrightarrow> sched_step s s' \<Longrightarrow> sched_reach s0 s'"

lemma sched_inv_boot:
  assumes "boot_state s0"
  shows "sched_inv (sched_init s0)"
proof -
  have z: "CURRENT_TTBR0 s0 ! c = 0" if "c < 4" for c
  proof -
    have "CURRENT_TTBR0 s0 = replicate 4 0" using assms by (simp add: boot_state_def eval_nat_numeral)
    then show ?thesis using that by simp
  qed
  have cu: "CURRENT s0 ! c \<le> 16" if "c < 4" for c
    using assms that by (auto simp: boot_state_def nth_Cons split: nat.split)
  have "table_ok (TASKS s0) (NEXT_TID s0)"
    using assms by (auto simp: boot_state_def table_ok_def)
  then have "table_ok ((TASKS s0)[0 := Some (idle_task (NEXT_TID s0) 0 (ttbr0 s0))]) (Suc (NEXT_TID s0))"
    by (rule table_ok_new) simp_all
  then show ?thesis
    using assms z cu
    by (auto simp: boot_state_def sched_init_def sched_inv_def set_task_def Let_def page_wf_def
        nth_list_update)
qed

section \<open>Properties of the scheduler\<close>

text \<open>
  C4. Scheduler invariant: in every state reachable from boot by any interleaving of scheduler
  entry points on any CPU, task IDs are unique and below the next ID, every mailbox is well
  formed, priorities lie between 1 and 8, hard pins name existing CPUs, the page bitmap is well
  formed, and each CPU's installed translation table is the one the scheduler recorded.
\<close>

theorem sched_reach_inv:
  assumes "sched_reach s0 s"
  shows "sched_inv s"
  using assms
proof (induction rule: sched_reach.induct)
  case (boot s0)
  then show ?case by (rule sched_inv_boot)
next
  case (step s0 s s')
  then show ?case by (blast intro: sched_step_inv)
qed

definition boot_example :: SchedState where
  "boot_example =
    \<lparr>BITMAP = replicate 96 0xFF, PAGE_BASE = 0x41000000, NUM_PAGES = 768, RAM_TOP = 0x41300000,
     PMEM = (\<lambda>_. 0), TTBR0_ADDR = 0x40200000, TTBR1_ADDR = 0x40201000, USER_TTBR0_ADDR = 0, TLBI = [],
     TASKS = [None, None, None, None, None, None, None, None, None, None, None, None, None, None, None, None],
     CURRENT = [0, 16, 16, 16], CURRENT_TTBR0 = [0, 0, 0, 0],
     NEXT_TID = 0, ACTIVE = False, TOTAL_TICKS = 0, IDLE_TICKS = 0,
     HW_TTBR0 = [0x40200000, 0x40200000, 0x40200000, 0x40200000]\<rparr>"

lemma boot_example_boot: "boot_state boot_example"
proof -
  have "replicate 16 (None :: Task option) = [None, None, None, None, None, None, None, None, None, None, None, None, None, None, None, None]"
    by (simp add: eval_nat_numeral)
  then have "TASKS boot_example = replicate MAX_TASKS None" by (simp add: boot_example_def)
  then show ?thesis by (simp add: boot_state_def) (simp add: boot_example_def page_wf_def PAGE_SIZE_def)
qed

theorem sched_reach_inv_witness:
  "sched_reach boot_example (yield_cpu 0 (secondary_idle_init 1 (sched_init boot_example)))
   \<and> sched_inv (yield_cpu 0 (secondary_idle_init 1 (sched_init boot_example)))"
proof -
  have r: "sched_reach boot_example (yield_cpu 0 (secondary_idle_init 1 (sched_init boot_example)))"
    by (rule sched_reach.step [OF sched_reach.step [OF sched_reach.boot [OF boot_example_boot]
          sched_step.secondary] sched_step.yield])
  then show ?thesis using sched_reach_inv by blast
qed

end
