(* ===== verification/Elf.thy ===== *)
theory Elf
  imports Sched_Inv "HOL-Library.Monad_Syntax"
begin

text \<open>
  The ELF64 loader, \<^verbatim>\<open>kernel/src/process/elf.rs\<close>.  A file image is a byte list.  A read past its end
  is a Rust panic, and \<open>None\<close> here; an error return is a value of \<open>ElfError\<close>.  \<^verbatim>\<open>usize\<close> sums that the
  source writes with \<^verbatim>\<open>+\<close> wrap at 64 bits, as in the release build the kernel ships; a copy whose
  source range leaves the file because its bounds check wrapped is undefined behaviour, and again
  \<open>None\<close>.  The address a segment is copied to is its physical address (the identity map); the
  random number of \<open>aslr_slide\<close> is an argument.
\<close>

section \<open>Fields\<close>

datatype ElfError = TooShort | BadMagic | Not64Bit | WrongArch | BadSegment

definition ELF_MAGIC :: "u8 list" where "ELF_MAGIC = [0x7F, 0x45, 0x4C, 0x46]"
definition ELFCLASS64 :: u8 where "ELFCLASS64 = 2"
definition EM_AARCH64 :: u16 where "EM_AARCH64 = 0xB7"
definition PT_LOAD :: u32 where "PT_LOAD = 1"
definition ET_DYN :: u16 where "ET_DYN = 3"

definition field :: "nat \<Rightarrow> u8 list \<Rightarrow> nat \<Rightarrow> 'a::len word option" where
  "field n b off = (if off + n \<le> length b then Some (read_le n (\<lambda>i. b ! i) off) else None)"

definition u16le :: "u8 list \<Rightarrow> nat \<Rightarrow> u16 option" where "u16le = field 2"
definition u32le :: "u8 list \<Rightarrow> nat \<Rightarrow> u32 option" where "u32le = field 4"
definition u64le :: "u8 list \<Rightarrow> nat \<Rightarrow> nat option" where
  "u64le b off = map_option unat (field 8 b off :: u64 option)"

lemmas field_defs = u16le_def u32le_def u64le_def field_def

text \<open>\<^verbatim>\<open>usize\<close> addition as the release build computes it.\<close>

definition wadd :: "nat \<Rightarrow> nat \<Rightarrow> nat" where "wadd a b = (a + b) mod 2 ^ 64"

section \<open>Headers\<close>

text \<open>The four checks both entry points start with.\<close>

definition check_header :: "u8 list \<Rightarrow> ElfError option" where
  "check_header b =
    (if length b < 64 then Some TooShort
     else if take 4 b \<noteq> ELF_MAGIC then Some BadMagic
     else if b ! 4 \<noteq> ELFCLASS64 then Some Not64Bit
     else if u16le b 0x12 \<noteq> Some EM_AARCH64 then Some WrongArch
     else None)"

record Ehdr =
  e_type :: u16
  e_entry :: nat
  e_phoff :: nat
  e_phentsize :: nat
  e_phnum :: nat

definition read_ehdr :: "u8 list \<Rightarrow> Ehdr option" where
  "read_ehdr b = do {
     ty \<leftarrow> u16le b 0x10; en \<leftarrow> u64le b 0x18; off \<leftarrow> u64le b 0x20;
     sz \<leftarrow> u16le b 0x36; num \<leftarrow> u16le b 0x38;
     Some \<lparr>e_type = ty, e_entry = en, e_phoff = off, e_phentsize = unat sz, e_phnum = unat num\<rparr> }"

definition phdr_at :: "Ehdr \<Rightarrow> nat \<Rightarrow> nat" where
  "phdr_at e i = wadd (e_phoff e) (i * e_phentsize e)"

record Phdr =
  p_flags :: u32
  p_offset :: nat
  p_vaddr :: nat
  p_filesz :: nat
  p_memsz :: nat

definition read_phdr :: "u8 list \<Rightarrow> nat \<Rightarrow> Phdr option" where
  "read_phdr b ph = do {
     fl \<leftarrow> u32le b (ph + 0x04); off \<leftarrow> u64le b (ph + 0x08); va \<leftarrow> u64le b (ph + 0x10);
     fsz \<leftarrow> u64le b (ph + 0x20); msz \<leftarrow> u64le b (ph + 0x28);
     Some \<lparr>p_flags = fl, p_offset = off, p_vaddr = va, p_filesz = fsz, p_memsz = msz\<rparr> }"

section \<open>Segments\<close>

text \<open>Copy the file bytes, then zero the rest of \<^verbatim>\<open>p_memsz\<close>.\<close>

definition put_segment :: "u8 list \<Rightarrow> nat \<Rightarrow> Phdr \<Rightarrow> memory \<Rightarrow> memory" where
  "put_segment b va p mem =
    (\<lambda>a. if va \<le> a \<and> a < va + p_filesz p then b ! (p_offset p + (a - va))
         else if va + p_filesz p \<le> a \<and> a < va + p_memsz p then 0
         else mem a)"

text \<open>The bounds check on the file side, and whether it stands for the mathematical one.\<close>

definition outside_file :: "u8 list \<Rightarrow> Phdr \<Rightarrow> bool" where
  "outside_file b p \<longleftrightarrow> p_filesz p > 0 \<and> wadd (p_offset p) (p_filesz p) > length b"

definition copy_defined :: "u8 list \<Rightarrow> Phdr \<Rightarrow> bool" where
  "copy_defined b p \<longleftrightarrow> p_filesz p = 0 \<or> p_offset p + p_filesz p \<le> length b"

definition load_elf_step :: "u8 list \<Rightarrow> nat \<Rightarrow> memory \<Rightarrow> (memory \<times> ElfError option) option" where
  "load_elf_step b ph mem =
    (if wadd ph 40 > length b then Some (mem, Some TooShort)
     else do {
       ty \<leftarrow> u32le b ph;
       if ty \<noteq> PT_LOAD then Some (mem, None)
       else do {
         p \<leftarrow> read_phdr b ph;
         if p_memsz p = 0 then Some (mem, None)
         else if outside_file b p then Some (mem, Some BadSegment)
         else if \<not> copy_defined b p then None
         else Some (put_segment b (p_vaddr p) p mem, None) } })"

primrec load_elf_loop :: "u8 list \<Rightarrow> nat list \<Rightarrow> memory \<Rightarrow> (memory \<times> ElfError option) option" where
  "load_elf_loop b [] mem = Some (mem, None)"
| "load_elf_loop b (ph # phs) mem = do {
     (mem', e) \<leftarrow> load_elf_step b ph mem;
     if e = None then load_elf_loop b phs mem' else Some (mem', e) }"

definition load_elf :: "u8 list \<Rightarrow> 'a PageState_scheme \<Rightarrow> ('a PageState_scheme \<times> (ElfError + nat)) option" where
  "load_elf b s =
    (case check_header b of
       Some e \<Rightarrow> Some (s, Inl e)
     | None \<Rightarrow> do {
         h \<leftarrow> read_ehdr b;
         (mem, e) \<leftarrow> load_elf_loop b (map (phdr_at h) [0..<e_phnum h]) (PMEM s);
         Some (s\<lparr>PMEM := mem\<rparr>, case e of Some x \<Rightarrow> Inl x | None \<Rightarrow> Inr (e_entry h)) })"

section \<open>Address space layout randomisation\<close>

definition ASLR_BASE :: nat where "ASLR_BASE = 0x48000000"
definition ASLR_LIMIT :: nat where "ASLR_LIMIT = 0x80000000"
definition ASLR_GRANULE :: nat where "ASLR_GRANULE = 0x10000"

definition aslr_base :: "u32 \<Rightarrow> nat" where
  "aslr_base r = ASLR_BASE + (unat r mod ((ASLR_LIMIT - ASLR_BASE) div ASLR_GRANULE)) * ASLR_GRANULE"

definition aslr_slide :: "u32 \<Rightarrow> nat \<Rightarrow> nat" where
  "aslr_slide r min_vaddr = (2 ^ 64 + aslr_base r - min_vaddr) mod 2 ^ 64"

text \<open>The lowest \<^verbatim>\<open>p_vaddr\<close> of the loadable segments; headers past the end are skipped.\<close>

primrec min_vaddr :: "u8 list \<Rightarrow> nat list \<Rightarrow> nat \<Rightarrow> nat option" where
  "min_vaddr b [] mn = Some mn"
| "min_vaddr b (ph # phs) mn =
    (if wadd ph 48 > length b then min_vaddr b phs mn
     else do {
       ty \<leftarrow> u32le b ph;
       if ty \<noteq> PT_LOAD then min_vaddr b phs mn
       else do { va \<leftarrow> u64le b (ph + 0x10); min_vaddr b phs (min va mn) } })"

definition elf_slide :: "u8 list \<Rightarrow> Ehdr \<Rightarrow> u32 \<Rightarrow> nat option" where
  "elf_slide b h r =
    (if e_type h = ET_DYN then do {
       mn \<leftarrow> min_vaddr b (map (phdr_at h) [0..<e_phnum h]) USIZE_MAX;
       Some (if mn = USIZE_MAX then 0 else aslr_slide r mn) }
     else Some 0)"

section \<open>spawn_elf\<close>

definition PF_X :: u32 where "PF_X = push_bit 0 1"

definition elf_segment :: "nat \<Rightarrow> Phdr \<Rightarrow> ProcSegment" where
  "elf_segment va p =
    \<lparr>seg_pa = va, seg_size = p_memsz p, seg_el0 = True, seg_exec = (p_flags p AND PF_X \<noteq> 0), seg_dev = False\<rparr>"

definition spawn_elf_step ::
  "u8 list \<Rightarrow> nat \<Rightarrow> nat \<Rightarrow> memory \<times> ProcSegment list \<Rightarrow> ((memory \<times> ProcSegment list) \<times> ElfError option) option" where
  "spawn_elf_step b slide ph acc =
    (case acc of (mem, segs) \<Rightarrow>
     if wadd ph 48 > length b then Some ((mem, segs), Some TooShort)
     else do {
       ty \<leftarrow> u32le b ph;
       if ty \<noteq> PT_LOAD then Some ((mem, segs), None)
       else do {
         p \<leftarrow> read_phdr b ph;
         if p_memsz p = 0 then Some ((mem, segs), None)
         else if outside_file b p then Some ((mem, segs), Some BadSegment)
         else if \<not> copy_defined b p then None
         else let va = wadd (p_vaddr p) slide in
              Some ((put_segment b va p mem,
                     if length segs < 16 then segs @ [elf_segment va p] else segs), None) } })"

primrec spawn_elf_loop ::
  "u8 list \<Rightarrow> nat \<Rightarrow> nat list \<Rightarrow> memory \<times> ProcSegment list \<Rightarrow> ((memory \<times> ProcSegment list) \<times> ElfError option) option" where
  "spawn_elf_loop b slide [] acc = Some (acc, None)"
| "spawn_elf_loop b slide (ph # phs) acc = do {
     (acc', e) \<leftarrow> spawn_elf_step b slide ph acc;
     if e = None then spawn_elf_loop b slide phs acc' else Some (acc', e) }"

definition spawn_elf ::
  "u32 \<Rightarrow> u8 list \<Rightarrow> u8 list \<Rightarrow> u64 \<Rightarrow> 'a SchedState_scheme \<Rightarrow>
   ('a SchedState_scheme \<times> ((ElfError + SpawnError) + nat)) option" where
  "spawn_elf r nm b caps s =
    (case check_header b of
       Some e \<Rightarrow> Some (s, Inl (Inl e))
     | None \<Rightarrow> do {
         h \<leftarrow> read_ehdr b;
         slide \<leftarrow> elf_slide b h r;
         ((mem, segs), e) \<leftarrow> spawn_elf_loop b slide (map (phdr_at h) [0..<e_phnum h]) (PMEM s, []);
         let s' = s\<lparr>PMEM := mem\<rparr> in
         (case e of
            Some x \<Rightarrow> Some (s', Inl (Inl x))
          | None \<Rightarrow> (case spawn_user_entry_with_segs nm (wadd (e_entry h) slide) caps segs s' of
                      (s'', Inr tid) \<Rightarrow> Some (s'', Inr tid)
                    | (s'', Inl x) \<Rightarrow> Some (s'', Inl (Inr x)))) })"

end
