(* ===== verification/Utf8.thy ===== *)
theory Utf8
  imports Prelude
begin

text \<open>
  The two readings of bytes as text that the kernel takes from the Rust standard library:
  \<^verbatim>\<open>core::str::from_utf8\<close>, which accepts the well-formed sequences of UTF-8, and
  \<^verbatim>\<open>String::from_utf8_lossy\<close>, which replaces each maximal ill-formed piece by U+FFFD.
\<close>

definition utf8_cont :: "u8 \<Rightarrow> bool" where "utf8_cont b \<longleftrightarrow> 0x80 \<le> b \<and> b \<le> 0xBF"

text \<open>The second byte of a three- or four-byte sequence excludes overlong forms, surrogates and values past U+10FFFF.\<close>

definition utf8_second :: "u8 \<Rightarrow> u8 \<Rightarrow> bool" where
  "utf8_second b c \<longleftrightarrow> utf8_cont c \<and> (b = 0xE0 \<longrightarrow> 0xA0 \<le> c) \<and> (b = 0xED \<longrightarrow> c \<le> 0x9F) \<and>
     (b = 0xF0 \<longrightarrow> 0x90 \<le> c) \<and> (b = 0xF4 \<longrightarrow> c \<le> 0x8F)"

text \<open>How many continuation bytes a lead byte announces; \<open>None\<close> when it cannot start a sequence.\<close>

definition utf8_tail :: "u8 \<Rightarrow> nat option" where
  "utf8_tail b =
    (if b < 0x80 then Some 0
     else if 0xC2 \<le> b \<and> b \<le> 0xDF then Some 1
     else if 0xE0 \<le> b \<and> b \<le> 0xEF then Some 2
     else if 0xF0 \<le> b \<and> b \<le> 0xF4 then Some 3
     else None)"

text \<open>The length of the longest prefix of the announced continuation bytes that is present and in range.\<close>

definition utf8_conts :: "nat \<Rightarrow> u8 list \<Rightarrow> nat" where
  "utf8_conts n cs = length (takeWhile utf8_cont (take n cs))"

definition utf8_present :: "u8 \<Rightarrow> nat \<Rightarrow> u8 list \<Rightarrow> nat" where
  "utf8_present b n cs =
    (case cs of [] \<Rightarrow> 0 | c # _ \<Rightarrow> if n = 0 \<or> \<not> utf8_second b c then 0 else utf8_conts n cs)"

lemma utf8_conts_le: "utf8_conts n cs \<le> n" "utf8_conts n cs \<le> length cs"
  using length_takeWhile_le [of utf8_cont "take n cs"] by (simp_all add: utf8_conts_def)

lemma utf8_present_le: "utf8_present b n cs \<le> n" "utf8_present b n cs \<le> length cs"
  using utf8_conts_le [of n cs] by (auto simp: utf8_present_def split: list.splits)

function utf8_valid :: "u8 list \<Rightarrow> bool" where
  "utf8_valid [] = True"
| "utf8_valid (b # cs) =
    (case utf8_tail b of
       None \<Rightarrow> False
     | Some n \<Rightarrow> utf8_present b n cs = n \<and> utf8_valid (drop n cs))"
  by pat_completeness auto
termination by (relation "measure length") auto

definition REPLACEMENT :: "u8 list" where "REPLACEMENT = [0xEF, 0xBF, 0xBD]"

function utf8_lossy :: "u8 list \<Rightarrow> u8 list" where
  "utf8_lossy [] = []"
| "utf8_lossy (b # cs) =
    (case utf8_tail b of
       None \<Rightarrow> REPLACEMENT @ utf8_lossy cs
     | Some n \<Rightarrow>
         let k = utf8_present b n cs in
         if k = n then b # take n cs @ utf8_lossy (drop n cs) else REPLACEMENT @ utf8_lossy (drop k cs))"
  by pat_completeness auto
termination by (relation "measure length") auto

lemma utf8_lossy_valid: "utf8_valid bs \<Longrightarrow> utf8_lossy bs = bs"
proof (induction bs rule: utf8_valid.induct)
  case (2 b cs)
  then show ?case by (auto split: option.splits)
qed simp

end
