(* ===== verification/Syscall.thy ===== *)
theory Syscall
  imports Elf Utf8
begin

text \<open>
  The system call layer: \<^verbatim>\<open>kernel/src/syscall/mod.rs\<close> (the numbers, the per-task allowlist, the
  capability gate and the handlers for messages, tasks, memory, capabilities and signals) and the
  synchronous exception handler of \<^verbatim>\<open>kernel/src/arch/aarch64/exceptions.rs\<close> that calls it.

  User memory is identity mapped, so a user pointer is the physical address it names and a
  kernel pointer is translated by \<open>to_dma_addr\<close>; faults on unmapped user pointers are not part of
  the model.  Console output has no effect here.  The handlers of the file system, the network
  stack, the drivers, the WebAssembly runtime and the heap have their own state; they are the
  argument \<open>svc\<close>, a record of functions, and the gate in front of them is modelled here.
\<close>

section \<open>Numbers and capabilities\<close>

definition SYS_SEND :: nat where "SYS_SEND = 1"
definition SYS_RECV :: nat where "SYS_RECV = 2"
definition SYS_YIELD :: nat where "SYS_YIELD = 3"
definition SYS_EXIT :: nat where "SYS_EXIT = 4"
definition SYS_AI_CALL :: nat where "SYS_AI_CALL = 5"
definition SYS_BLK_READ :: nat where "SYS_BLK_READ = 6"
definition SYS_BLK_WRITE :: nat where "SYS_BLK_WRITE = 7"
definition SYS_LOG :: nat where "SYS_LOG = 8"
definition SYS_MALLOC :: nat where "SYS_MALLOC = 9"
definition SYS_FREE :: nat where "SYS_FREE = 10"
definition SYS_REALLOC :: nat where "SYS_REALLOC = 11"
definition SYS_ALIGNED_ALLOC :: nat where "SYS_ALIGNED_ALLOC = 12"
definition SYS_EXEC :: nat where "SYS_EXEC = 13"
definition SYS_NET_SEND :: nat where "SYS_NET_SEND = 14"
definition SYS_NET_RECV :: nat where "SYS_NET_RECV = 15"
definition SYS_OPEN :: nat where "SYS_OPEN = 16"
definition SYS_READ_FD :: nat where "SYS_READ_FD = 17"
definition SYS_WRITE_FD :: nat where "SYS_WRITE_FD = 18"
definition SYS_CLOSE :: nat where "SYS_CLOSE = 19"
definition SYS_READDIR :: nat where "SYS_READDIR = 20"
definition SYS_WAIT :: nat where "SYS_WAIT = 21"
definition SYS_WASM_LOAD :: nat where "SYS_WASM_LOAD = 22"
definition SYS_MMAP :: nat where "SYS_MMAP = 23"
definition SYS_MUNMAP :: nat where "SYS_MUNMAP = 24"
definition SYS_KREAD :: nat where "SYS_KREAD = 25"
definition SYS_FB_INFO :: nat where "SYS_FB_INFO = 26"
definition SYS_FB_MAP :: nat where "SYS_FB_MAP = 27"
definition SYS_FB_FLUSH :: nat where "SYS_FB_FLUSH = 28"
definition SYS_INPUT_POLL :: nat where "SYS_INPUT_POLL = 29"
definition SYS_TRY_RECV :: nat where "SYS_TRY_RECV = 30"
definition SYS_GET_RTC :: nat where "SYS_GET_RTC = 31"
definition SYS_GET_STATS :: nat where "SYS_GET_STATS = 32"
definition SYS_GET_IP :: nat where "SYS_GET_IP = 33"
definition SYS_PING :: nat where "SYS_PING = 34"
definition SYS_HTTP_GET :: nat where "SYS_HTTP_GET = 35"
definition SYS_HTTPS_GET :: nat where "SYS_HTTPS_GET = 36"
definition SYS_HTTPS_POST :: nat where "SYS_HTTPS_POST = 50"
definition SYS_DNS_RESOLVE :: nat where "SYS_DNS_RESOLVE = 37"
definition SYS_CREATE :: nat where "SYS_CREATE = 38"
definition SYS_PIPE :: nat where "SYS_PIPE = 45"
definition SYS_SURF_CREATE :: nat where "SYS_SURF_CREATE = 40"
definition SYS_SURF_DESTROY :: nat where "SYS_SURF_DESTROY = 41"
definition SYS_SURF_MAP :: nat where "SYS_SURF_MAP = 42"
definition SYS_SURF_FLUSH :: nat where "SYS_SURF_FLUSH = 43"
definition SYS_SURF_MOVE :: nat where "SYS_SURF_MOVE = 44"
definition SYS_SET_PRIORITY :: nat where "SYS_SET_PRIORITY = 50"
definition SYS_WASM_EXEC :: nat where "SYS_WASM_EXEC = 51"
definition SYS_CAP_GRANT :: nat where "SYS_CAP_GRANT = 52"
definition SYS_CAP_REVOKE :: nat where "SYS_CAP_REVOKE = 53"
definition SYS_CAP_QUERY :: nat where "SYS_CAP_QUERY = 54"
definition SYS_LIST_TASKS :: nat where "SYS_LIST_TASKS = 55"
definition SYS_TCP_CONNECT :: nat where "SYS_TCP_CONNECT = 60"
definition SYS_TCP_LISTEN :: nat where "SYS_TCP_LISTEN = 61"
definition SYS_TCP_ACCEPT :: nat where "SYS_TCP_ACCEPT = 62"
definition SYS_TCP_WRITE :: nat where "SYS_TCP_WRITE = 63"
definition SYS_TCP_READ :: nat where "SYS_TCP_READ = 64"
definition SYS_TCP_WAIT_READABLE :: nat where "SYS_TCP_WAIT_READABLE = 65"
definition SYS_TCP_CLOSE :: nat where "SYS_TCP_CLOSE = 66"
definition SYS_SURF_RESIZE :: nat where "SYS_SURF_RESIZE = 67"
definition SYS_SURF_RAISE :: nat where "SYS_SURF_RAISE = 68"
definition SYS_SURF_LOWER :: nat where "SYS_SURF_LOWER = 69"
definition SYS_SURF_DIRTY :: nat where "SYS_SURF_DIRTY = 70"
definition SYS_SPEAK :: nat where "SYS_SPEAK = 71"
definition SYS_FILTER_SET :: nat where "SYS_FILTER_SET = 72"
definition SYS_FILTER_GET :: nat where "SYS_FILTER_GET = 73"
definition SYS_CONFIG_GET :: nat where "SYS_CONFIG_GET = 74"
definition SYS_CONFIG_SET :: nat where "SYS_CONFIG_SET = 75"
definition SYS_ATOMIC_WRITE :: nat where "SYS_ATOMIC_WRITE = 76"
definition SYS_UNLINK :: nat where "SYS_UNLINK = 77"
definition SYS_RENAME :: nat where "SYS_RENAME = 78"
definition SYS_CLONE :: nat where "SYS_CLONE = 83"
definition SYS_SIGACTION :: nat where "SYS_SIGACTION = 79"
definition SYS_KILL :: nat where "SYS_KILL = 80"
definition SYS_SIGRETURN :: nat where "SYS_SIGRETURN = 81"
definition SYS_SIGMASK :: nat where "SYS_SIGMASK = 82"
definition SIGKILL :: nat where "SIGKILL = 1"
definition NUMENOR_TID :: nat where "NUMENOR_TID = 1"

lemmas sys_numbers = SYS_SEND_def SYS_RECV_def SYS_YIELD_def SYS_EXIT_def SYS_AI_CALL_def
  SYS_BLK_READ_def SYS_BLK_WRITE_def SYS_LOG_def SYS_MALLOC_def SYS_FREE_def SYS_REALLOC_def
  SYS_ALIGNED_ALLOC_def SYS_EXEC_def SYS_NET_SEND_def SYS_NET_RECV_def SYS_OPEN_def SYS_READ_FD_def
  SYS_WRITE_FD_def SYS_CLOSE_def SYS_READDIR_def SYS_WAIT_def SYS_WASM_LOAD_def SYS_MMAP_def
  SYS_MUNMAP_def SYS_KREAD_def SYS_FB_INFO_def SYS_FB_MAP_def SYS_FB_FLUSH_def SYS_INPUT_POLL_def
  SYS_TRY_RECV_def SYS_GET_RTC_def SYS_GET_STATS_def SYS_GET_IP_def SYS_PING_def SYS_HTTP_GET_def
  SYS_HTTPS_GET_def SYS_HTTPS_POST_def SYS_DNS_RESOLVE_def SYS_CREATE_def SYS_PIPE_def
  SYS_SURF_CREATE_def SYS_SURF_DESTROY_def SYS_SURF_MAP_def SYS_SURF_FLUSH_def SYS_SURF_MOVE_def
  SYS_SET_PRIORITY_def SYS_WASM_EXEC_def SYS_CAP_GRANT_def SYS_CAP_REVOKE_def SYS_CAP_QUERY_def
  SYS_LIST_TASKS_def SYS_TCP_CONNECT_def SYS_TCP_LISTEN_def SYS_TCP_ACCEPT_def SYS_TCP_WRITE_def
  SYS_TCP_READ_def SYS_TCP_WAIT_READABLE_def SYS_TCP_CLOSE_def SYS_SURF_RESIZE_def
  SYS_SURF_RAISE_def SYS_SURF_LOWER_def SYS_SURF_DIRTY_def SYS_SPEAK_def SYS_FILTER_SET_def
  SYS_FILTER_GET_def SYS_CONFIG_GET_def SYS_CONFIG_SET_def SYS_ATOMIC_WRITE_def SYS_UNLINK_def
  SYS_RENAME_def SYS_CLONE_def SYS_SIGACTION_def SYS_KILL_def SYS_SIGRETURN_def SYS_SIGMASK_def

definition CAP_SEND :: u64 where "CAP_SEND = push_bit 0 1"
definition CAP_RECV :: u64 where "CAP_RECV = push_bit 1 1"
definition CAP_BLK :: u64 where "CAP_BLK = push_bit 2 1"
definition CAP_AI :: u64 where "CAP_AI = push_bit 3 1"
definition CAP_LOG :: u64 where "CAP_LOG = push_bit 4 1"
definition CAP_MEM :: u64 where "CAP_MEM = push_bit 5 1"
definition CAP_NET :: u64 where "CAP_NET = push_bit 6 1"
definition CAP_ALL :: u64 where "CAP_ALL = NOT 0"
definition CAP_USER_DEFAULT :: u64 where
  "CAP_USER_DEFAULT = CAP_SEND OR CAP_RECV OR CAP_LOG OR CAP_MEM OR CAP_AI OR CAP_NET"

lemmas cap_defs = CAP_SEND_def CAP_RECV_def CAP_BLK_def CAP_AI_def CAP_LOG_def CAP_MEM_def CAP_NET_def
  CAP_ALL_def CAP_USER_DEFAULT_def

section \<open>Messages in memory\<close>

text \<open>\<^verbatim>\<open>repr(C) struct Message\<close>: the sender in eight bytes, then 32 bytes of payload.\<close>

definition read_message :: "memory \<Rightarrow> nat \<Rightarrow> Message" where
  "read_message mem p =
    \<lparr>sender = unat (read_u64 mem (to_dma_addr p)), data = map (\<lambda>i. mem (to_dma_addr p + 8 + i)) [0..<32]\<rparr>"

definition write_message :: "nat \<Rightarrow> Message \<Rightarrow> memory \<Rightarrow> memory" where
  "write_message p msg mem =
    (let a = to_dma_addr p in
     (\<lambda>x. if a + 8 \<le> x \<and> x < a + 40 then data msg ! (x - a - 8) else write_u64 (of_nat (sender msg)) a mem x))"

definition copy_bytes :: "nat \<Rightarrow> nat \<Rightarrow> nat \<Rightarrow> memory \<Rightarrow> memory" where
  "copy_bytes src dst n mem =
    (\<lambda>x. if to_dma_addr dst \<le> x \<and> x < to_dma_addr dst + n
          then mem (to_dma_addr src + (x - to_dma_addr dst)) else mem x)"

definition write_bytes_at :: "nat \<Rightarrow> u8 list \<Rightarrow> memory \<Rightarrow> memory" where
  "write_bytes_at p bs mem =
    (\<lambda>x. if to_dma_addr p \<le> x \<and> x < to_dma_addr p + length bs then bs ! (x - to_dma_addr p) else mem x)"

definition le_bytes :: "nat \<Rightarrow> 'a::len word \<Rightarrow> u8 list" where
  "le_bytes n w = map (\<lambda>i. ucast (drop_bit (8 * i) w)) [0..<n]"

section \<open>Handlers\<close>

definition sys_send :: "nat \<Rightarrow> nat \<Rightarrow> nat \<Rightarrow> 'a SchedState_scheme \<Rightarrow> 'a SchedState_scheme \<times> int" where
  "sys_send cpu target_tid msg_ptr s =
    (if msg_ptr = 0 then (s, -1) else
     let msg = read_message (PMEM s) msg_ptr;
         caps = current_caps cpu s;
         allowed = (if target_tid = 0 then False
                    else if target_tid = 1 then caps AND CAP_AI \<noteq> 0
                    else caps AND CAP_SEND \<noteq> 0)
     in if caps \<noteq> CAP_ALL \<and> \<not> allowed then (s, -13)
        else case send_message target_tid (msg\<lparr>sender := current_tid cpu s\<rparr>) s of
               (s', True) \<Rightarrow> (s', 0) | (s', False) \<Rightarrow> (s', -2))"

definition sys_recv :: "nat \<Rightarrow> nat \<Rightarrow> 'a SchedState_scheme \<Rightarrow> 'a SchedState_scheme \<times> int" where
  "sys_recv cpu msg_ptr s =
    (if msg_ptr = 0 then (s, -1) else
     case recv_message cpu s of
       (s', Some msg) \<Rightarrow> (s'\<lparr>PMEM := write_message msg_ptr msg (PMEM s')\<rparr>, 0)
     | (s', None) \<Rightarrow> (s', 1))"

definition sys_try_recv :: "nat \<Rightarrow> nat \<Rightarrow> 'a SchedState_scheme \<Rightarrow> 'a SchedState_scheme \<times> int" where
  "sys_try_recv cpu msg_ptr s =
    (if msg_ptr = 0 then (s, -1) else
     case try_recv_message cpu s of
       (s', Some msg) \<Rightarrow> (s'\<lparr>PMEM := write_message msg_ptr msg (PMEM s')\<rparr>, 0)
     | (s', None) \<Rightarrow> (s', 1))"

definition sys_yield :: "nat \<Rightarrow> 'a SchedState_scheme \<Rightarrow> 'a SchedState_scheme \<times> int" where
  "sys_yield cpu s = (yield_cpu cpu s, 0)"

definition sys_exit :: "nat \<Rightarrow> u32 \<Rightarrow> 'a SchedState_scheme \<Rightarrow> 'a SchedState_scheme \<times> int" where
  "sys_exit cpu code s = (exit_task cpu code s, 0)"

definition sys_wait :: "nat \<Rightarrow> nat \<Rightarrow> 'a SchedState_scheme \<Rightarrow> 'a SchedState_scheme \<times> int" where
  "sys_wait cpu target_tid s =
    (case wait_for_tid cpu target_tid s of (s', Some code) \<Rightarrow> (s', sint code) | (s', None) \<Rightarrow> (s', 0))"

text \<open>\<^verbatim>\<open>AiMessage::to_bytes\<close> of \<^verbatim>\<open>numenor/src/ipc.rs\<close>: three little-endian words and eight zero bytes.\<close>

definition AiMessage_to_bytes :: "u64 \<Rightarrow> u64 \<Rightarrow> u64 \<Rightarrow> u8 list" where
  "AiMessage_to_bytes op arg1 arg2 = le_bytes 8 op @ le_bytes 8 arg1 @ le_bytes 8 arg2 @ replicate 8 0"

definition AiMessage_from_bytes :: "u8 list \<Rightarrow> u64 \<times> u64 \<times> u64" where
  "AiMessage_from_bytes bs =
    (read_le 8 (\<lambda>i. bs ! i) 0, read_le 8 (\<lambda>i. bs ! i) 8, read_le 8 (\<lambda>i. bs ! i) 16)"

definition sys_ai_call :: "nat \<Rightarrow> nat \<Rightarrow> nat \<Rightarrow> nat \<Rightarrow> 'a SchedState_scheme \<Rightarrow> 'a SchedState_scheme \<times> int" where
  "sys_ai_call cpu op arg1 arg2 s =
    (case send_message NUMENOR_TID
       \<lparr>sender = current_tid cpu s, data = AiMessage_to_bytes (of_nat op) (of_nat arg1) (of_nat arg2)\<rparr> s of
       (s', True) \<Rightarrow> (s', 0) | (s', False) \<Rightarrow> (s', -1))"

definition sys_kread :: "nat \<Rightarrow> nat \<Rightarrow> nat \<Rightarrow> 'a SchedState_scheme \<Rightarrow> 'a SchedState_scheme \<times> int" where
  "sys_kread k_ptr u_ptr len s =
    (if k_ptr < KERNEL_VA_OFFSET \<or> u_ptr = 0 \<or> len = 0 then (s, -1)
     else let n = min len 4096 in (s\<lparr>PMEM := copy_bytes k_ptr u_ptr n (PMEM s)\<rparr>, int n))"

text \<open>\<^verbatim>\<open>sys_mmap\<close>; \<open>None\<close> is the panic of the page-table allocation.\<close>

definition sys_mmap :: "nat \<Rightarrow> nat \<Rightarrow> 'a SchedState_scheme \<Rightarrow> ('a SchedState_scheme \<times> int) option" where
  "sys_mmap cpu sz s =
    (if sz = 0 then Some (s, -1) else
     let pages = wadd sz 0xFFF div 4096 in
     case alloc_pages pages s of
       (s1, None) \<Rightarrow> Some (s1, -12)
     | (s1, Some pa) \<Rightarrow>
         let s2 = s1\<lparr>PMEM := zero_range pa (pages * 4096) (PMEM s1)\<rparr>;
             table = current_task_ttbr0 cpu s2
         in if table \<noteq> 0
            then (case map_user_rw table pa sz s2 of None \<Rightarrow> None | Some s3 \<Rightarrow> Some (s3, int pa))
            else Some (s2, int pa))"

definition sys_munmap :: "nat \<Rightarrow> nat \<Rightarrow> nat \<Rightarrow> 'a SchedState_scheme \<Rightarrow> 'a SchedState_scheme \<times> int" where
  "sys_munmap cpu va sz s =
    (if va = 0 \<or> sz = 0 then (s, -1) else
     let table = current_task_ttbr0 cpu s in
     if table = 0 then (s, -1) else (unmap_pages table va sz s, 0))"

definition sys_cap_grant :: "nat \<Rightarrow> nat \<Rightarrow> u64 \<Rightarrow> 'a SchedState_scheme \<Rightarrow> 'a SchedState_scheme \<times> int" where
  "sys_cap_grant cpu tid cap_bits s =
    (let safe_bits = cap_bits AND current_caps cpu s in
     case get_task_caps tid s of
       None \<Rightarrow> (s, -1)
     | Some existing \<Rightarrow>
         (case set_task_caps tid (existing OR safe_bits) s of (s', True) \<Rightarrow> (s', 0) | (s', False) \<Rightarrow> (s', -1)))"

definition sys_cap_revoke :: "nat \<Rightarrow> u64 \<Rightarrow> 'a SchedState_scheme \<Rightarrow> 'a SchedState_scheme \<times> int" where
  "sys_cap_revoke tid cap_bits s =
    (case get_task_caps tid s of
       None \<Rightarrow> (s, -1)
     | Some existing \<Rightarrow>
         (case set_task_caps tid (existing AND NOT cap_bits) s of (s', True) \<Rightarrow> (s', 0) | (s', False) \<Rightarrow> (s', -1)))"

definition sys_cap_query :: "nat \<Rightarrow> 'a SchedState_scheme \<Rightarrow> 'a SchedState_scheme \<times> int" where
  "sys_cap_query tid s = (case get_task_caps tid s of Some c \<Rightarrow> (s, sint c) | None \<Rightarrow> (s, -1))"

text \<open>\<^verbatim>\<open>TaskRecord\<close> is 40 bytes: TID, capabilities, 16 name bytes, padding.\<close>

definition task_record_bytes :: "TaskRecord \<Rightarrow> u8 list" where
  "task_record_bytes r = le_bytes 8 (rec_tid r) @ le_bytes 8 (rec_caps r) @ rec_name r @ le_bytes 8 (rec_pad r)"

definition sys_list_tasks :: "nat \<Rightarrow> nat \<Rightarrow> 'a SchedState_scheme \<Rightarrow> 'a SchedState_scheme \<times> int" where
  "sys_list_tasks out_ptr max_entries s =
    (if out_ptr = 0 \<or> max_entries = 0 then (s, 0)
     else let rs = list_tasks max_entries s
          in (s\<lparr>PMEM := write_bytes_at out_ptr (concat (map task_record_bytes rs)) (PMEM s)\<rparr>, int (length rs)))"

definition sys_get_stats :: "nat \<Rightarrow> 'a SchedState_scheme \<Rightarrow> 'a SchedState_scheme \<times> int" where
  "sys_get_stats out_ptr s =
    (if out_ptr = 0 then (s, -1) else
     let free_mb = (of_nat (free_pages s * 4096 div (1024 * 1024)) :: u32);
         total_mb = (of_nat (total_pages s * 4096 div (1024 * 1024)) :: u32);
         idle = idle_ticks s; total = total_ticks s;
         cpu_pct = (if total > 0 then of_nat ((total - idle) * 100 div total) else 0 :: u32);
         task_cnt = (of_nat (task_count s) :: u32)
     in (s\<lparr>PMEM := write_bytes_at out_ptr
            (le_bytes 4 free_mb @ le_bytes 4 total_mb @ le_bytes 4 cpu_pct @ le_bytes 4 task_cnt) (PMEM s)\<rparr>, 0))"

definition sys_set_priority :: "nat \<Rightarrow> nat \<Rightarrow> 'a SchedState_scheme \<Rightarrow> 'a SchedState_scheme \<times> int" where
  "sys_set_priority tid priority s = (set_task_priority tid (of_nat (min priority 8)) s, 0)"

definition sys_sigaction :: "nat \<Rightarrow> nat \<Rightarrow> u32 \<Rightarrow> 'a SchedState_scheme \<Rightarrow> 'a SchedState_scheme \<times> int" where
  "sys_sigaction cpu handler_va msk s = (set_signal_handler cpu handler_va msk s, 0)"

definition sys_kill :: "nat \<Rightarrow> u32 \<Rightarrow> 'a SchedState_scheme \<Rightarrow> 'a SchedState_scheme \<times> int" where
  "sys_kill tid sig s =
    (if unat sig \<ge> 32 then (s, -1)
     else if unat sig = SIGKILL then (fst (force_exit tid (- 1) s), 0)
     else case send_signal tid (unat sig) s of (s', True) \<Rightarrow> (s', 0) | (s', False) \<Rightarrow> (s', -1))"

definition sys_sigreturn :: "'a SchedState_scheme \<Rightarrow> 'a SchedState_scheme \<times> int" where
  "sys_sigreturn s = (s, 0)"

definition sys_sigmask :: "nat \<Rightarrow> u32 \<Rightarrow> 'a SchedState_scheme \<Rightarrow> 'a SchedState_scheme \<times> int" where
  "sys_sigmask cpu new_mask s = (case swap_signal_mask cpu new_mask s of (s', old) \<Rightarrow> (s', uint old))"

text \<open>The name of a cloned thread: \<^verbatim>\<open>"thread"\<close>.\<close>

definition thread_name :: "u8 list" where "thread_name = [116, 104, 114, 101, 97, 100]"

definition sys_clone :: "nat \<Rightarrow> nat \<Rightarrow> nat \<Rightarrow> u64 \<Rightarrow> 'a SchedState_scheme \<Rightarrow> 'a SchedState_scheme \<times> int" where
  "sys_clone cpu entry_va stack_top caps s =
    (if entry_va = 0 then (s, -1) else
     let effective_caps = caps AND current_caps cpu s;
         parent_ttbr0 = current_task_ttbr0 cpu s
     in if parent_ttbr0 = 0 then (s, -1)
        else case spawn_user_thread thread_name entry_va stack_top effective_caps parent_ttbr0 s of
               (s', Inr tid) \<Rightarrow> (s', int tid) | (s', Inl e) \<Rightarrow> (s', -1))"

definition sys_filter_set :: "nat \<Rightarrow> u64 \<Rightarrow> u64 \<Rightarrow> 'a SchedState_scheme \<Rightarrow> 'a SchedState_scheme \<times> int" where
  "sys_filter_set tid lo hi s =
    (case set_task_syscall_filter tid [lo, hi] s of (s', True) \<Rightarrow> (s', 0) | (s', False) \<Rightarrow> (s', -1))"

definition sys_filter_get :: "nat \<Rightarrow> nat \<Rightarrow> 'a SchedState_scheme \<Rightarrow> 'a SchedState_scheme \<times> int" where
  "sys_filter_get tid out_ptr s =
    (if out_ptr = 0 then (s, -1) else
     case get_task_syscall_filter tid s of
       Some f \<Rightarrow> (s\<lparr>PMEM := write_u64 (f ! 1) (to_dma_addr out_ptr + 8)
                           (write_u64 (f ! 0) (to_dma_addr out_ptr) (PMEM s))\<rparr>, 0)
     | None \<Rightarrow> (s, -1))"

text \<open>
  What the handlers of other subsystems do: \<open>svc_other\<close> stands for the arms whose subsystem has its
  own state (by system call number and arguments), the others for the file read of \<^verbatim>\<open>fat32\<close> (the empty
  list when there is no such file), the release of its buffer and the random source of \<^verbatim>\<open>csprng\<close>.
\<close>

record 'a Services =
  svc_other :: "nat \<Rightarrow> nat list \<Rightarrow> 'a \<Rightarrow> ('a \<times> int) option"
  svc_read_file :: "u8 list \<Rightarrow> 'a \<Rightarrow> 'a \<times> u8 list"
  svc_free :: "'a \<Rightarrow> 'a"
  svc_rand :: "'a \<Rightarrow> u32"

definition read_bytes :: "memory \<Rightarrow> nat \<Rightarrow> nat \<Rightarrow> u8 list" where
  "read_bytes mem p len = map (\<lambda>i. mem (to_dma_addr p + i)) [0..<len]"

definition user_name :: "u8 list" where "user_name = [117, 115, 101, 114]"

definition sys_exec ::
  "'a SchedState_scheme Services \<Rightarrow> nat \<Rightarrow> nat \<Rightarrow> nat \<Rightarrow> u64 \<Rightarrow> 'a SchedState_scheme \<Rightarrow>
   ('a SchedState_scheme \<times> int) option" where
  "sys_exec svc cpu path_ptr path_len caps s =
    (if path_ptr = 0 \<or> path_len = 0 then Some (s, -1) else
     let path_bytes = read_bytes (PMEM s) path_ptr path_len;
         path = (if utf8_valid path_bytes then path_bytes else [])
     in if path = [] then Some (s, -1) else
     let effective_caps = caps AND current_caps cpu s;
         (s1, file) = svc_read_file svc path s
     in if file = [] then Some (s1, -1) else
     do {
       (s2, r) \<leftarrow> spawn_elf (svc_rand svc s1) user_name file effective_caps s1;
       Some (svc_free svc s2, case r of Inr tid \<Rightarrow> int tid | Inl e \<Rightarrow> -1) })"

section \<open>Dispatch\<close>

text \<open>
  The \<^verbatim>\<open>match\<close> of \<^verbatim>\<open>dispatch\<close>, arm by arm in source order: the number, the capability its
  \<^verbatim>\<open>require!\<close> names, and the handler.  The first arm of a number is the one that runs.  99 and 100
  are the console reads.
\<close>

definition arms ::
  "'a SchedState_scheme Services \<Rightarrow> nat \<Rightarrow> nat \<Rightarrow> nat \<Rightarrow> nat \<Rightarrow> nat \<Rightarrow> nat \<Rightarrow> nat \<Rightarrow>
   (nat \<times> u64 option \<times> ('a SchedState_scheme \<Rightarrow> ('a SchedState_scheme \<times> int) option)) list" where
  "arms svc cpu a0 a1 a2 a3 a4 a5 =
   [(SYS_SEND, Some CAP_SEND, \<lambda>s. Some (sys_send cpu a0 a1 s)),
    (SYS_RECV, Some CAP_RECV, \<lambda>s. Some (sys_recv cpu a0 s)),
    (SYS_YIELD, None, \<lambda>s. Some (sys_yield cpu s)),
    (SYS_EXIT, None, \<lambda>s. Some (sys_exit cpu (of_nat a0) s)),
    (SYS_WAIT, None, \<lambda>s. Some (sys_wait cpu a0 s)),
    (SYS_AI_CALL, Some CAP_AI, \<lambda>s. Some (sys_ai_call cpu a0 a1 a2 s)),
    (SYS_BLK_READ, Some CAP_BLK, svc_other svc SYS_BLK_READ [a0, a1, a2, a3, a4, a5]),
    (SYS_BLK_WRITE, Some CAP_BLK, svc_other svc SYS_BLK_WRITE [a0, a1, a2, a3, a4, a5]),
    (SYS_LOG, Some CAP_LOG, svc_other svc SYS_LOG [a0, a1, a2, a3, a4, a5]),
    (SYS_MALLOC, Some CAP_MEM, svc_other svc SYS_MALLOC [a0, a1, a2, a3, a4, a5]),
    (SYS_FREE, Some CAP_MEM, svc_other svc SYS_FREE [a0, a1, a2, a3, a4, a5]),
    (SYS_REALLOC, Some CAP_MEM, svc_other svc SYS_REALLOC [a0, a1, a2, a3, a4, a5]),
    (SYS_ALIGNED_ALLOC, Some CAP_MEM, svc_other svc SYS_ALIGNED_ALLOC [a0, a1, a2, a3, a4, a5]),
    (SYS_EXEC, Some CAP_MEM, \<lambda>s. sys_exec svc cpu a0 a1 (of_nat a2) s),
    (SYS_NET_SEND, None, svc_other svc SYS_NET_SEND [a0, a1, a2, a3, a4, a5]),
    (SYS_NET_RECV, None, svc_other svc SYS_NET_RECV [a0, a1, a2, a3, a4, a5]),
    (SYS_OPEN, None, svc_other svc SYS_OPEN [a0, a1, a2, a3, a4, a5]),
    (SYS_READ_FD, None, svc_other svc SYS_READ_FD [a0, a1, a2, a3, a4, a5]),
    (SYS_WRITE_FD, None, svc_other svc SYS_WRITE_FD [a0, a1, a2, a3, a4, a5]),
    (SYS_CLOSE, None, svc_other svc SYS_CLOSE [a0, a1, a2, a3, a4, a5]),
    (SYS_READDIR, None, svc_other svc SYS_READDIR [a0, a1, a2, a3, a4, a5]),
    (SYS_WASM_LOAD, Some CAP_MEM, svc_other svc SYS_WASM_LOAD [a0, a1, a2, a3, a4, a5]),
    (SYS_MMAP, Some CAP_MEM, \<lambda>s. sys_mmap cpu a1 s),
    (SYS_MUNMAP, Some CAP_MEM, \<lambda>s. Some (sys_munmap cpu a0 a1 s)),
    (SYS_KREAD, None, \<lambda>s. Some (sys_kread a0 a1 a2 s)),
    (SYS_FB_INFO, None, svc_other svc SYS_FB_INFO [a0, a1, a2, a3, a4, a5]),
    (SYS_FB_MAP, None, svc_other svc SYS_FB_MAP [a0, a1, a2, a3, a4, a5]),
    (SYS_FB_FLUSH, None, svc_other svc SYS_FB_FLUSH [a0, a1, a2, a3, a4, a5]),
    (SYS_INPUT_POLL, None, svc_other svc SYS_INPUT_POLL [a0, a1, a2, a3, a4, a5]),
    (SYS_TRY_RECV, Some CAP_RECV, \<lambda>s. Some (sys_try_recv cpu a0 s)),
    (SYS_GET_RTC, None, svc_other svc SYS_GET_RTC [a0, a1, a2, a3, a4, a5]),
    (SYS_GET_STATS, None, \<lambda>s. Some (sys_get_stats a0 s)),
    (SYS_GET_IP, None, svc_other svc SYS_GET_IP [a0, a1, a2, a3, a4, a5]),
    (SYS_PING, None, svc_other svc SYS_PING [a0, a1, a2, a3, a4, a5]),
    (SYS_HTTP_GET, None, svc_other svc SYS_HTTP_GET [a0, a1, a2, a3, a4, a5]),
    (SYS_HTTPS_GET, None, svc_other svc SYS_HTTPS_GET [a0, a1, a2, a3, a4, a5]),
    (SYS_HTTPS_POST, None, svc_other svc SYS_HTTPS_POST [a0, a1, a2, a3, a4, a5]),
    (SYS_DNS_RESOLVE, None, svc_other svc SYS_DNS_RESOLVE [a0, a1, a2, a3, a4, a5]),
    (SYS_CREATE, None, svc_other svc SYS_CREATE [a0, a1, a2, a3, a4, a5]),
    (SYS_PIPE, None, svc_other svc SYS_PIPE [a0, a1, a2, a3, a4, a5]),
    (SYS_SURF_CREATE, None, svc_other svc SYS_SURF_CREATE [a0, a1, a2, a3, a4, a5]),
    (SYS_SURF_DESTROY, None, svc_other svc SYS_SURF_DESTROY [a0, a1, a2, a3, a4, a5]),
    (SYS_SURF_MAP, None, svc_other svc SYS_SURF_MAP [a0, a1, a2, a3, a4, a5]),
    (SYS_SURF_FLUSH, None, svc_other svc SYS_SURF_FLUSH [a0, a1, a2, a3, a4, a5]),
    (SYS_SURF_MOVE, None, svc_other svc SYS_SURF_MOVE [a0, a1, a2, a3, a4, a5]),
    (SYS_SET_PRIORITY, Some CAP_AI, \<lambda>s. Some (sys_set_priority a0 a1 s)),
    (SYS_WASM_EXEC, Some CAP_MEM, svc_other svc SYS_WASM_EXEC [a0, a1, a2, a3, a4, a5]),
    (SYS_CAP_GRANT, Some CAP_ALL, \<lambda>s. Some (sys_cap_grant cpu a0 (of_nat a1) s)),
    (SYS_CAP_REVOKE, Some CAP_ALL, \<lambda>s. Some (sys_cap_revoke a0 (of_nat a1) s)),
    (SYS_CAP_QUERY, None, \<lambda>s. Some (sys_cap_query a0 s)),
    (SYS_LIST_TASKS, Some CAP_LOG, \<lambda>s. Some (sys_list_tasks a0 a1 s)),
    (SYS_TCP_CONNECT, Some CAP_NET, svc_other svc SYS_TCP_CONNECT [a0, a1, a2, a3, a4, a5]),
    (SYS_TCP_LISTEN, Some CAP_NET, svc_other svc SYS_TCP_LISTEN [a0, a1, a2, a3, a4, a5]),
    (SYS_TCP_ACCEPT, Some CAP_NET, svc_other svc SYS_TCP_ACCEPT [a0, a1, a2, a3, a4, a5]),
    (SYS_TCP_WRITE, Some CAP_NET, svc_other svc SYS_TCP_WRITE [a0, a1, a2, a3, a4, a5]),
    (SYS_TCP_READ, Some CAP_NET, svc_other svc SYS_TCP_READ [a0, a1, a2, a3, a4, a5]),
    (SYS_TCP_WAIT_READABLE, Some CAP_NET, svc_other svc SYS_TCP_WAIT_READABLE [a0, a1, a2, a3, a4, a5]),
    (SYS_TCP_CLOSE, Some CAP_NET, svc_other svc SYS_TCP_CLOSE [a0, a1, a2, a3, a4, a5]),
    (SYS_SURF_RESIZE, None, svc_other svc SYS_SURF_RESIZE [a0, a1, a2, a3, a4, a5]),
    (SYS_SURF_RAISE, None, svc_other svc SYS_SURF_RAISE [a0, a1, a2, a3, a4, a5]),
    (SYS_SURF_LOWER, None, svc_other svc SYS_SURF_LOWER [a0, a1, a2, a3, a4, a5]),
    (SYS_SURF_DIRTY, None, svc_other svc SYS_SURF_DIRTY [a0, a1, a2, a3, a4, a5]),
    (SYS_SPEAK, None, svc_other svc SYS_SPEAK [a0, a1, a2, a3, a4, a5]),
    (SYS_FILTER_SET, Some CAP_ALL, \<lambda>s. Some (sys_filter_set a0 (of_nat a1) (of_nat a2) s)),
    (SYS_FILTER_GET, None, \<lambda>s. Some (sys_filter_get a0 a1 s)),
    (SYS_CONFIG_GET, None, svc_other svc SYS_CONFIG_GET [a0, a1, a2, a3, a4, a5]),
    (SYS_CONFIG_SET, Some CAP_BLK, svc_other svc SYS_CONFIG_SET [a0, a1, a2, a3, a4, a5]),
    (SYS_ATOMIC_WRITE, Some CAP_BLK, svc_other svc SYS_ATOMIC_WRITE [a0, a1, a2, a3, a4, a5]),
    (SYS_UNLINK, Some CAP_BLK, svc_other svc SYS_UNLINK [a0, a1, a2, a3, a4, a5]),
    (SYS_RENAME, Some CAP_BLK, svc_other svc SYS_RENAME [a0, a1, a2, a3, a4, a5]),
    (SYS_SIGACTION, None, \<lambda>s. Some (sys_sigaction cpu a0 (of_nat a1) s)),
    (SYS_KILL, Some CAP_SEND, \<lambda>s. Some (sys_kill a0 (of_nat a1) s)),
    (SYS_SIGRETURN, None, \<lambda>s. Some (sys_sigreturn s)),
    (SYS_SIGMASK, None, \<lambda>s. Some (sys_sigmask cpu (of_nat a0) s)),
    (SYS_CLONE, Some CAP_MEM, \<lambda>s. Some (sys_clone cpu a0 a1 (of_nat a2) s)),
    (99, Some CAP_LOG, svc_other svc 99 [a0, a1, a2, a3, a4, a5]),
    (100, Some CAP_LOG, svc_other svc 100 [a0, a1, a2, a3, a4, a5])]"

text \<open>The allowlist bit of a number below 128.\<close>

definition filter_blocks :: "u64 list \<Rightarrow> nat \<Rightarrow> bool" where
  "filter_blocks flt n \<longleftrightarrow> n < 128 \<and> flt ! (n div 64) AND push_bit (n mod 64) 1 = 0"

definition lacks :: "u64 \<Rightarrow> u64 option \<Rightarrow> bool" where
  "lacks caps need = (case need of None \<Rightarrow> False | Some c \<Rightarrow> caps AND c = 0)"

definition dispatch ::
  "'a SchedState_scheme Services \<Rightarrow> nat \<Rightarrow> nat \<Rightarrow> nat \<Rightarrow> nat \<Rightarrow> nat \<Rightarrow> nat \<Rightarrow> nat \<Rightarrow> nat \<Rightarrow>
   'a SchedState_scheme \<Rightarrow> ('a SchedState_scheme \<times> int) option" where
  "dispatch svc cpu syscall_id a0 a1 a2 a3 a4 a5 s =
    (if filter_blocks (current_syscall_filter cpu s) syscall_id then Some (s, -1)
     else case map_of (arms svc cpu a0 a1 a2 a3 a4 a5) syscall_id of
            None \<Rightarrow> Some (s, -1)
          | Some (need, handler) \<Rightarrow>
              if lacks (current_caps cpu s) need then Some (s, -13) else handler s)"

section \<open>The synchronous exception handler\<close>

definition set_frame_word :: "nat \<Rightarrow> nat \<Rightarrow> u64 \<Rightarrow> 'a SchedState_scheme \<Rightarrow> 'a SchedState_scheme" where
  "set_frame_word sp i w s = s\<lparr>PMEM := write_u64 w (to_dma_addr sp + 8 * i) (PMEM s)\<rparr>"

text \<open>
  Words of a trap frame: 0 to 30 are \<open>x0\<close> to \<open>x30\<close>, 31 is ELR, 32 is SPSR.  Signal delivery on the
  way back to EL0 redirects the frame to the handler.
\<close>

definition deliver_signal :: "nat \<Rightarrow> nat \<Rightarrow> 'a SchedState_scheme \<Rightarrow> 'a SchedState_scheme" where
  "deliver_signal cpu sp s =
    (if frame_word (PMEM s) sp 32 AND 0xF = 0 then
       (case pop_pending_signal cpu s of
          (s1, None) \<Rightarrow> s1
        | (s1, Some signum) \<Rightarrow>
            let handler = current_signal_handler cpu s1 in
            if handler \<noteq> 0 then
              set_frame_word sp 31 (of_nat handler)
                (set_frame_word sp 0 (of_nat signum)
                  (set_frame_word sp 30 (frame_word (PMEM s1) sp 31) s1))
            else s1)
     else s)"

definition svc_handler :: "'a SchedState_scheme Services \<Rightarrow> nat \<Rightarrow> nat \<Rightarrow> 'a SchedState_scheme \<Rightarrow> ('a SchedState_scheme \<times> nat) option" where
  "svc_handler svc cpu sp s =
    (let r = (\<lambda>i. unat (frame_word (PMEM s) sp i)) in
     do {
       (s1, ret) \<leftarrow> dispatch svc cpu (r 8) (r 0) (r 1) (r 2) (r 3) (r 4) (r 5) s;
       Some (schedule_next cpu sp (deliver_signal cpu sp (set_frame_word sp 0 (of_int ret) s1))) })"

text \<open>
  \<open>None\<close> is the final branch of \<^verbatim>\<open>sync_handler\<close>, which prints the registers and spins for ever, or a panic
  inside a handler.  -11 is SIGSEGV.
\<close>

definition sync_handler ::
  "'a SchedState_scheme Services \<Rightarrow> nat \<Rightarrow> u64 \<Rightarrow> nat \<Rightarrow> 'a SchedState_scheme \<Rightarrow> ('a SchedState_scheme \<times> nat) option" where
  "sync_handler svc cpu esr sp s =
    (let ec = drop_bit 26 esr AND 0x3F in
     if ec = 0x15 then svc_handler svc cpu sp s
     else if ec = 0x20 \<or> ec = 0x24 then Some (schedule_next cpu sp (exit_task cpu (- 11) s))
     else None)"

end
