(* ===== verification/Sched_Props.thy ===== *)
theory Sched_Props
  imports Sched_Inv
begin

text \<open>
  What the scheduler promises: the effect of a tick on every branch, the choice among ready
  tasks, progress of the round robin, the mutual exclusion of CPUs and where it is lost, the
  frames new tasks start from, and the hand-over of exit codes, messages and signals.
\<close>

section \<open>The effect of a tick\<close>

lemma fold_tlbi_TLBI: "set (TLBI (fold tlbi vs s)) = set (TLBI s) \<union> (\<lambda>v. v div 4096) ` set vs"
  by (auto simp: fold_tlbi)

lemma switch_ttbr0_fields [simp]:
  "TASKS (switch_ttbr0 c t s) = TASKS s" "CURRENT (switch_ttbr0 c t s) = CURRENT s"
  "PMEM (switch_ttbr0 c t s) = PMEM s"
  by (simp_all add: switch_ttbr0_def Let_def fold_tlbi)

lemma switch_ttbr0_HW:
  assumes "c < length (HW_TTBR0 s)" "CURRENT_TTBR0 s ! c \<noteq> 0 \<longrightarrow> HW_TTBR0 s ! c = CURRENT_TTBR0 s ! c"
    and "t_ttbr0 t \<noteq> 0"
  shows "HW_TTBR0 (switch_ttbr0 c t s) ! c = t_ttbr0 t"
  using assms by (auto simp: switch_ttbr0_def Let_def fold_tlbi)

text \<open>The tasks after a switch: outgoing charged and refilled, incoming running.\<close>

lemma sched_switch_effect:
  assumes "idx \<noteq> cur" "TASKS s ! idx = Some t" "idx < length (TASKS s)" "cur < length (TASKS s)"
    and "r = sched_switch c cur idx b sp s"
  shows "snd r = t_sp t" "CURRENT (fst r) = (CURRENT s)[c := idx]"
    "TASKS (fst r) ! idx = Some (reset_quantum (t\<lparr>t_state := Running\<rparr>))"
    "j < length (TASKS s) \<Longrightarrow> j \<noteq> idx \<Longrightarrow> j \<noteq> cur \<Longrightarrow> TASKS (fst r) ! j = TASKS s ! j"
    "TASKS (fst r) ! cur = (if b then map_option reset_quantum (TASKS s ! cur) else TASKS s ! cur)"
  using assms(1-4) unfolding assms(5)
  by (auto simp: sched_switch_def Let_def upd_task_def nth_list_update_neq)

lemma sched_switch_HW:
  assumes "idx \<noteq> cur" "TASKS s ! idx = Some t" "c < length (HW_TTBR0 s)" "t_ttbr0 t \<noteq> 0"
    and "CURRENT_TTBR0 s ! c \<noteq> 0 \<longrightarrow> HW_TTBR0 s ! c = CURRENT_TTBR0 s ! c"
  shows "HW_TTBR0 (fst (sched_switch c cur idx b sp s)) ! c = t_ttbr0 t"
  using assms by (auto simp: sched_switch_def Let_def upd_task_def nth_list_update_neq intro!: switch_ttbr0_HW)

text \<open>
  What a switch from state \<open>s\<close> to slot \<open>idx\<close> on CPU \<open>c\<close> leaves behind: \<open>t\<close> is the incoming
  task as it was before the tick.
\<close>

definition switched :: "nat \<Rightarrow> nat \<Rightarrow> nat \<Rightarrow> Task \<Rightarrow> 'a SchedState_scheme \<Rightarrow> 'a SchedState_scheme \<Rightarrow> bool" where
  "switched c sp idx t s s' \<longleftrightarrow> CURRENT s' = (CURRENT s)[c := idx]
     \<and> TASKS s' ! idx = Some (t\<lparr>t_state := Running, t_ticks_remaining := max (t_priority t) 1\<rparr>)
     \<and> (\<forall>j < MAX_TASKS. j \<noteq> idx \<longrightarrow> j \<noteq> CURRENT s ! c \<longrightarrow> TASKS s' ! j = TASKS s ! j)
     \<and> (\<forall>u. TASKS s' ! (CURRENT s ! c) = Some u \<longrightarrow> t_sp u = sp)
     \<and> (t_ttbr0 t \<noteq> 0 \<longrightarrow> HW_TTBR0 s' ! c = t_ttbr0 t)"

lemma sched_switch_after_charge:
  assumes "sched_inv s" "c < MAX_CPUS" "CURRENT s ! c < MAX_TASKS" "idx < MAX_TASKS" "idx \<noteq> CURRENT s ! c"
    and "TASKS s ! idx = Some t"
    and "(s', sp') = sched_switch c (CURRENT s ! c) idx b sp (after_charge c sp s)"
  shows "sp' = t_sp t" "switched c sp idx t s s'"
proof -
  let ?s3 = "after_charge c sp s"
  have len: "length (TASKS s) = MAX_TASKS" "c < length (HW_TTBR0 s)"
    "CURRENT_TTBR0 s ! c \<noteq> 0 \<longrightarrow> HW_TTBR0 s ! c = CURRENT_TTBR0 s ! c"
    using assms(1,2) by (auto simp: sched_inv_def table_ok_def)
  have t3: "TASKS ?s3 ! idx = Some t" "idx < length (TASKS ?s3)" "CURRENT s ! c < length (TASKS ?s3)"
    using assms(3-6) len by (simp_all add: nth_list_update_neq)
  note eff = sched_switch_effect [OF assms(5) t3 assms(7)] sched_switch_HW [OF assms(5) t3(1), of c b sp]
  have "t_sp u = sp" if "TASKS ?s3 ! (CURRENT s ! c) = Some u" for u
    using that len assms(3) by (auto simp: charge_tick_def Let_def)
  then have "t_sp u = sp" if "TASKS s' ! (CURRENT s ! c) = Some u" for u
    using that eff(5)
    by (cases "TASKS ?s3 ! (CURRENT s ! c)") (auto simp: reset_quantum_def simp del: after_charge_fields split: if_splits)
  moreover have "TASKS s' ! j = TASKS s ! j" if "j < MAX_TASKS" "j \<noteq> idx" "j \<noteq> CURRENT s ! c" for j
    using that len eff(4) [of j] by (simp add: nth_list_update_neq)
  moreover have "HW_TTBR0 s' ! c = t_ttbr0 t" if "t_ttbr0 t \<noteq> 0"
    using eff(6) len that assms(7) by (metis after_charge_fields(2,3) fst_conv)
  ultimately show "switched c sp idx t s s'" "sp' = t_sp t"
    using eff(1-3) by (auto simp: switched_def reset_quantum_def)
qed

text \<open>A tick that does not switch touches no task but the interrupted one, which stays or becomes Running.\<close>

definition resumed :: "nat \<Rightarrow> 'a SchedState_scheme \<Rightarrow> 'a SchedState_scheme \<Rightarrow> bool" where
  "resumed c s s' \<longleftrightarrow> CURRENT s' = CURRENT s
     \<and> (\<forall>j < MAX_TASKS. j \<noteq> CURRENT s ! c \<longrightarrow> TASKS s' ! j = TASKS s ! j)
     \<and> (TASKS s' = TASKS s \<or> (\<forall>u. TASKS s' ! (CURRENT s ! c) = Some u \<longrightarrow> t_state u = Running))"

lemma schedule_next_cases:
  assumes "sched_inv s" "c = cpu_index cpu" "schedule_next cpu sp s = (s', sp')"
  obtains "resumed c s s'" "sp' = sp"
  | idx t where "idx < MAX_TASKS" "idx \<noteq> CURRENT s ! c" "TASKS s ! idx = Some t" "t_state t = Ready"
      "t_cpu_pin t = None \<or> t_cpu_pin t = Some c" "sp' = t_sp t" "switched c sp idx t s s'"
proof (cases "\<not> ACTIVE s \<or> CURRENT s ! cpu_index cpu = NO_TASK")
  case True
  then show ?thesis using schedule_next_idle [of s cpu sp] assms(3) that(1) by (auto simp: resumed_def)
next
  case False
  have c: "c < MAX_CPUS" by (simp add: assms(2) del: MAX_CPUS_def)
  have cur: "CURRENT s ! c < MAX_TASKS" using False assms c by (auto simp: sched_inv_def le_less)
  have act: "ACTIVE s" using False by simp
  have len: "CURRENT s ! c < length (TASKS s)" using assms(1) cur by (auto simp: sched_inv_def table_ok_def)
  note unf = schedule_next_unfold [OF assms(2) act cur, of sp]
  show ?thesis
  proof (cases "case TASKS s ! (CURRENT s ! c) of None \<Rightarrow> False
      | Some t \<Rightarrow> t_ticks_remaining t > 1 \<and> t_state t = Running")
    case True
    then have "resumed c s s'" "sp' = sp" using assms(3) len unfolding unf
      by (auto simp: resumed_def charge_tick_def Let_def split: option.splits)
    then show ?thesis by (rule that(1))
  next
    case no: False
    show ?thesis
    proof (cases "sched_pick c (CURRENT s ! c) (TASKS (after_charge c sp s))")
      case None
      then have "resumed c s s'" "sp' = sp" using assms(3) no len unfolding unf
        by (auto simp: resumed_def upd_task_def reset_quantum_def simp del: list_update_overwrite)
      then show ?thesis by (rule that(1))
    next
      case (Some idx)
      from sched_pick_Some [OF cur Some] have idx: "idx < MAX_TASKS" "idx \<noteq> CURRENT s ! c"
        "slot_sat (eligible c) (TASKS (after_charge c sp s)) idx" by auto
      then obtain t where t: "TASKS s ! idx = Some t" "t_state t = Ready"
        "t_cpu_pin t = None \<or> t_cpu_pin t = Some c"
        by (auto simp: slot_sat_def eligible_def nth_list_update_neq split: option.splits)
      obtain b where r: "sched_switch c (CURRENT s ! c) idx b sp (after_charge c sp s) = (s', sp')"
        using assms(3) Some no unfolding unf by auto
      from sched_switch_after_charge [OF assms(1) c cur idx(1,2) t(1) r [symmetric]] that(2) idx(1,2) t
      show ?thesis by blast
    qed
  qed
qed

text \<open>
  C9. A tick on any CPU either resumes the interrupted task and touches no other, or switches
  to another slot whose task was Ready and is not pinned to a different CPU.  On a switch the
  stack pointer to restore is the one saved for that task, the task becomes Running with a full
  quantum, the other CPUs' current slots and all uninvolved tasks are untouched, the interrupted
  task's stack pointer is saved, and the translation table of the new task is the one installed
  in the CPU.
\<close>

theorem schedule_next_effect:
  assumes "sched_inv s" "c = cpu_index cpu" "schedule_next cpu sp s = (s', sp')"
  shows "(resumed c s s' \<and> sp' = sp) \<or>
    (\<exists>idx t. idx < MAX_TASKS \<and> idx \<noteq> CURRENT s ! c \<and> TASKS s ! idx = Some t
       \<and> t_state t = Ready \<and> (t_cpu_pin t = None \<or> t_cpu_pin t = Some c)
       \<and> sp' = t_sp t \<and> switched c sp idx t s s')"
  using assms by (rule schedule_next_cases) blast+

text \<open>
  A two-CPU run: CPU 1 has come up, a kernel task has been spawned, and the first tick of
  CPU 0 has switched to it.
\<close>

definition two_cpus :: SchedState where
  "two_cpus = fst (spawn [65] 0x40100000 (secondary_idle_init 1 (sched_init boot_example)))"

definition two_cpus_busy :: SchedState where
  "two_cpus_busy = fst (schedule_next 0 0x1000 two_cpus)"

lemma two_cpus_reach: "sched_reach boot_example two_cpus" "sched_reach boot_example two_cpus_busy"
proof -
  show r: "sched_reach boot_example two_cpus"
    unfolding two_cpus_def
    by (rule sched_reach.step [OF sched_reach.step [OF sched_reach.boot [OF boot_example_boot]
          sched_step.secondary] sched_step.spawn_kernel])
  show "sched_reach boot_example two_cpus_busy"
    unfolding two_cpus_busy_def by (rule sched_reach.step [OF r sched_step.tick])
qed

lemma alloc_pages_fresh:
  assumes "0 < n" "n \<le> NUM_PAGES s" "\<forall>i < n. bitmap_test (BITMAP s) i"
  shows "\<exists>bm mem. alloc_pages n s = (s\<lparr>BITMAP := bm, PMEM := mem\<rparr>, Some (PAGE_BASE s))"
proof -
  have fr: "first_run (bitmap_test (BITMAP s)) n (NUM_PAGES s)
      (alloc_scan (bitmap_test (BITMAP s)) n 0 0 [0..<NUM_PAGES s])"
    using assms(1) by (rule alloc_scan_spec)
  have run: "free_run (bitmap_test (BITMAP s)) n 0" using assms(3) by (simp add: free_run_def)
  have "alloc_scan (bitmap_test (BITMAP s)) n 0 0 [0..<NUM_PAGES s] = Some 0"
  proof (cases "alloc_scan (bitmap_test (BITMAP s)) n 0 0 [0..<NUM_PAGES s]")
    case None
    with fr run assms(2) show ?thesis by (auto simp: first_run_def)
  next
    case (Some k)
    with fr run show ?thesis by (cases k) (auto simp: first_run_def)
  qed
  then show ?thesis using assms(1) by (auto simp: alloc_pages_def Let_def)
qed

lemma boot_example_fresh: "\<forall>i < TASK_STACK_PAGES. bitmap_test (BITMAP boot_example) i"
proof (intro allI impI)
  fix i assume "i < TASK_STACK_PAGES"
  then have "i div 8 < 96" by (simp add: TASK_STACK_PAGES_def)
  then have "BITMAP boot_example ! (i div 8) = 0xFF" by (simp add: boot_example_def)
  moreover have "(0xFF :: u8) = mask 8" by (simp add: mask_eq_exp_minus_1)
  then have "bit (0xFF :: u8) (i mod 8)" by (simp only: bit_mask_iff) simp
  ultimately show "bitmap_test (BITMAP boot_example) i" by (simp add: bitmap_test_bit)
qed

definition task_A :: Task where
  "task_A = snd (Task_new 2 [65] 0x40100000 0x41000000 TASK_STACK_SIZE boot_example)"

lemma two_cpus_values:
  "TASKS two_cpus = [Some (idle_task 0 0 0x40200000), Some (idle_task 1 1 0x40200000), Some task_A,
    None, None, None, None, None, None, None, None, None, None, None, None, None]"
  "CURRENT two_cpus = [0, 1, 16, 16]" "ACTIVE two_cpus"
proof -
  let ?s = "secondary_idle_init 1 (sched_init boot_example)"
  have fs: "free_slot (sched_init boot_example) = Some 1"
    by (auto simp: free_slot_def find_index_Some_iff sched_init_def Let_def boot_example_def set_task_def)
  have T: "TASKS ?s = [Some (idle_task 0 0 0x40200000), Some (idle_task 1 1 0x40200000),
      None, None, None, None, None, None, None, None, None, None, None, None, None, None]"
    and C: "CURRENT ?s = [0, 1, 16, 16]" "NEXT_TID ?s = 2" "BITMAP ?s = BITMAP boot_example"
      "NUM_PAGES ?s = 768" "PAGE_BASE ?s = 0x41000000" "TTBR0_ADDR ?s = 0x40200000"
    using fs by (simp_all add: secondary_idle_init_def sched_init_def set_task_def Let_def
        boot_example_def ttbr0_def numeral_2_eq_2)
  have f2: "free_slot ?s = Some 2"
    unfolding free_slot_def find_index_Some_iff T by (auto simp: less_Suc_eq numeral_2_eq_2)
  obtain bm mem where a: "alloc_pages TASK_STACK_PAGES ?s = (?s\<lparr>BITMAP := bm, PMEM := mem\<rparr>, Some 0x41000000)"
    using alloc_pages_fresh [of TASK_STACK_PAGES ?s] boot_example_fresh C(3-5) by (auto simp: TASK_STACK_PAGES_def)
  have "task_A = snd (Task_new 2 [65] 0x40100000 0x41000000 TASK_STACK_SIZE (?s\<lparr>BITMAP := bm, PMEM := mem\<rparr>))"
    unfolding task_A_def using C(6) by (simp add: Task_new_def Let_def ttbr0_def boot_example_def)
  then show "TASKS two_cpus = [Some (idle_task 0 0 0x40200000), Some (idle_task 1 1 0x40200000), Some task_A,
    None, None, None, None, None, None, None, None, None, None, None, None, None]"
    "CURRENT two_cpus = [0, 1, 16, 16]" "ACTIVE two_cpus"
    using f2 a T C unfolding two_cpus_def
    by (simp_all add: spawn_def Let_def set_task_def Task_new_def numeral_2_eq_2)
qed

lemma two_cpus_inv: "sched_inv two_cpus" "sched_inv two_cpus_busy"
proof -
  have "sched_inv s" if "sched_reach boot_example s" for s :: SchedState
    using that by (induction boot_example s rule: sched_reach.induct)
      (auto intro: sched_inv_boot sched_step_inv)
  then show "sched_inv two_cpus" "sched_inv two_cpus_busy" using two_cpus_reach by auto
qed

lemma two_cpus_busy_values:
  "CURRENT two_cpus_busy = [2, 1, 16, 16]" "ACTIVE two_cpus_busy"
  "\<exists>t0. TASKS two_cpus_busy = [Some t0, Some (idle_task 1 1 0x40200000), Some (task_A\<lparr>t_state := Running\<rparr>),
     None, None, None, None, None, None, None, None, None, None, None, None, None]
     \<and> t_state t0 = Ready \<and> t_cpu_pin t0 = Some 0 \<and> t_stack_base t0 = 0"
proof -
  let ?s3 = "after_charge 0 0x1000 two_cpus"
  have c: "0 = cpu_index 0" "CURRENT two_cpus ! 0 < MAX_TASKS" by (simp_all add: cpu_index_def two_cpus_values)
  have A: "t_state task_A = Ready" "t_stack_base task_A = 0x41000000" "t_cpu_pin task_A = None"
    "t_priority task_A = 1" "t_ticks_remaining task_A = 1"
    by (simp_all add: task_A_def Task_new_def Let_def)
  have T3: "TASKS ?s3 = (TASKS two_cpus)[0 := Some (fst (charge_tick 0x1000 (idle_task 0 0 0x40200000)))]"
    by (simp add: two_cpus_values)
  have "rr_order 0 = [1, 2, 3, 4, 5, 6, 7, 8, 9, 10, 11, 12, 13, 14, 15]" by code_simp
  then have p: "sched_pick 0 0 (TASKS ?s3) = Some 2"
    unfolding T3 two_cpus_values
    by (simp add: sched_pick_def slot_sat_def pinned_here_def migratable_def A idle_task_def)
  have n: "schedule_next 0 0x1000 two_cpus = sched_switch 0 0 2 True 0x1000 ?s3"
    using p unfolding schedule_next_unfold [OF c(1) two_cpus_values(3) c(2)]
    by (simp add: two_cpus_values charge_tick_def idle_task_def Let_def)
  have q: "t_ticks_remaining (reset_quantum (task_A\<lparr>t_state := Running\<rparr>)) = 1" by (simp add: reset_quantum_def A)
  show "CURRENT two_cpus_busy = [2, 1, 16, 16]"
    unfolding two_cpus_busy_def n by (simp add: sched_switch_def Let_def upd_task_def two_cpus_values split: option.split)
  show "ACTIVE two_cpus_busy"
    unfolding two_cpus_busy_def n after_charge_def
    by (simp add: sched_switch_def Let_def upd_task_def two_cpus_values switch_ttbr0_def fold_tlbi split: option.split)
  have "reset_quantum (task_A\<lparr>t_state := Running\<rparr>) = task_A\<lparr>t_state := Running\<rparr>"
    using A by (simp add: reset_quantum_def)
  then show "\<exists>t0. TASKS two_cpus_busy = [Some t0, Some (idle_task 1 1 0x40200000), Some (task_A\<lparr>t_state := Running\<rparr>),
     None, None, None, None, None, None, None, None, None, None, None, None, None]
     \<and> t_state t0 = Ready \<and> t_cpu_pin t0 = Some 0 \<and> t_stack_base t0 = 0"
    unfolding two_cpus_busy_def n
    by (simp add: sched_switch_def Let_def upd_task_def two_cpus_values T3 numeral_2_eq_2
        charge_tick_def idle_task_def reset_quantum_def)
qed

text \<open>
  Mutual exclusion of CPUs: no slot is current on two CPUs, and no current task is Ready (a
  Ready current task could be picked up by another CPU).
\<close>

definition cpu_exclusive :: "'a SchedState_scheme \<Rightarrow> bool" where
  "cpu_exclusive s \<longleftrightarrow>
     (\<forall>c < MAX_CPUS. \<forall>d < MAX_CPUS. c \<noteq> d \<longrightarrow> CURRENT s ! c < MAX_TASKS \<longrightarrow> CURRENT s ! c \<noteq> CURRENT s ! d)
     \<and> (\<forall>c < MAX_CPUS. \<forall>t. CURRENT s ! c < MAX_TASKS \<longrightarrow> TASKS s ! (CURRENT s ! c) = Some t \<longrightarrow> t_state t \<noteq> Ready)"

lemma cpu_exclusiveI:
  assumes "\<And>c d. c < MAX_CPUS \<Longrightarrow> d < MAX_CPUS \<Longrightarrow> c \<noteq> d \<Longrightarrow> CURRENT s ! c < MAX_TASKS \<Longrightarrow> CURRENT s ! c \<noteq> CURRENT s ! d"
    and "\<And>c t. c < MAX_CPUS \<Longrightarrow> CURRENT s ! c < MAX_TASKS \<Longrightarrow> TASKS s ! (CURRENT s ! c) = Some t \<Longrightarrow> t_state t \<noteq> Ready"
  shows "cpu_exclusive s"
  unfolding cpu_exclusive_def using assms by blast



lemma two_cpus_busy_exclusive: "cpu_exclusive two_cpus_busy"
proof -
  obtain t0 where T: "TASKS two_cpus_busy = [Some t0, Some (idle_task 1 1 0x40200000), Some (task_A\<lparr>t_state := Running\<rparr>),
     None, None, None, None, None, None, None, None, None, None, None, None, None]"
    using two_cpus_busy_values(3) by blast
  have four: "c < 4 \<Longrightarrow> c = 0 \<or> c = 1 \<or> c = 2 \<or> c = 3" for c :: nat by auto
  show ?thesis
    by (rule cpu_exclusiveI)
      (auto dest!: four simp: two_cpus_busy_values(1) T idle_task_def numeral_3_eq_3)
qed


theorem schedule_next_effect_witness:
  "\<exists>s' sp'. schedule_next 0 0x1000 two_cpus = (s', sp') \<and> CURRENT s' = [2, 1, 16, 16]
     \<and> sp' = t_sp task_A"
proof -
  obtain s' sp' where r: "schedule_next 0 0x1000 two_cpus = (s', sp')" by fastforce
  have c: "0 = cpu_index 0" by (simp add: cpu_index_def)
  have cur: "CURRENT s' = [2, 1, 16, 16]" using two_cpus_busy_values(1) r by (simp add: two_cpus_busy_def)
  from schedule_next_effect [OF two_cpus_inv(1) c r] cur
  have "sp' = t_sp task_A"
    by (auto simp: resumed_def switched_def two_cpus_values)
  with r cur show ?thesis by blast
qed

text \<open>
  C21. Yielding gives up the exclusion: in a reachable state where it holds, \<^verbatim>\<open>yield_cpu\<close> on
  CPU 0 marks the running task Ready while CPU 0 still executes it, and the next timer tick of
  CPU 1 picks the same slot, so both CPUs then run one task on one stack.
\<close>

theorem yield_shares_task:
  "sched_reach boot_example two_cpus_busy \<and> cpu_exclusive two_cpus_busy \<and>
   (let s = fst (schedule_next 1 0x2000 (yield_cpu 0 two_cpus_busy))
    in CURRENT s ! 0 = 2 \<and> CURRENT s ! 1 = 2)"
proof -
  obtain t0 where T: "TASKS two_cpus_busy = [Some t0, Some (idle_task 1 1 0x40200000), Some (task_A\<lparr>t_state := Running\<rparr>),
     None, None, None, None, None, None, None, None, None, None, None, None, None]"
    and t0: "t_state t0 = Ready" "t_cpu_pin t0 = Some 0" "t_stack_base t0 = 0"
    using two_cpus_busy_values(3) by blast
  let ?s = "yield_cpu 0 two_cpus_busy"
  have Y: "TASKS ?s = [Some t0, Some (idle_task 1 1 0x40200000), Some (task_A\<lparr>t_state := Ready\<rparr>),
     None, None, None, None, None, None, None, None, None, None, None, None, None]"
    "CURRENT ?s = [2, 1, 16, 16]" "ACTIVE ?s"
    using two_cpus_busy_values(2)
    by (simp_all add: yield_cpu_def upd_current_def current_slot_def cpu_index_def upd_task_def
        two_cpus_busy_values(1) T numeral_2_eq_2)
  let ?s3 = "after_charge 1 0x2000 ?s"
  have c: "1 = cpu_index 1" "CURRENT ?s ! 1 < MAX_TASKS" by (simp_all add: cpu_index_def Y)
  have "rr_order 1 = [2, 3, 4, 5, 6, 7, 8, 9, 10, 11, 12, 13, 14, 15, 0]" by code_simp
  moreover have "t_stack_base task_A = 0x41000000" "t_cpu_pin task_A = None"
    by (simp_all add: task_A_def Task_new_def Let_def)
  ultimately have p: "sched_pick 1 1 (TASKS ?s3) = Some 2"
    by (simp add: Y t0 sched_pick_def slot_sat_def pinned_here_def migratable_def)
  have "schedule_next 1 0x2000 ?s = sched_switch 1 1 2 True 0x2000 ?s3"
    using p unfolding schedule_next_unfold [OF c(1) Y(3) c(2)]
    by (simp add: Y charge_tick_def idle_task_def Let_def)
  then have "CURRENT (fst (schedule_next 1 0x2000 ?s)) = [2, 2, 16, 16]"
    by (simp add: sched_switch_def Let_def upd_task_def Y split: option.split)
  then show ?thesis
    using two_cpus_reach(2) two_cpus_busy_exclusive by (simp add: Let_def)
qed

section \<open>Fairness of the choice\<close>

text \<open>
  The choice is complete and honours affinity: nothing is chosen only if no other slot
  holds a Ready task this CPU may run; a Ready task with a stack that is pinned to this CPU
  excludes the choice of any unpinned or idle task; without one, a Ready unpinned task with a
  stack excludes the choice of an idle task.
\<close>

theorem sched_pick_priority:
  assumes "start < MAX_TASKS"
  shows "(sched_pick cpu start ts = None \<longleftrightarrow>
            (\<forall>i < MAX_TASKS. i \<noteq> start \<longrightarrow> \<not> slot_sat (eligible cpu) ts i))
     \<and> (\<forall>i j. sched_pick cpu start ts = Some i \<longrightarrow> j < MAX_TASKS \<longrightarrow> j \<noteq> start \<longrightarrow>
           slot_sat (pinned_here cpu) ts j \<longrightarrow> slot_sat (pinned_here cpu) ts i)
     \<and> (\<forall>i j. sched_pick cpu start ts = Some i \<longrightarrow> j < MAX_TASKS \<longrightarrow> j \<noteq> start \<longrightarrow>
           slot_sat migratable ts j \<longrightarrow> slot_sat (pinned_here cpu) ts i \<or> slot_sat migratable ts i)"
proof (intro conjI allI impI)
  show "sched_pick cpu start ts = None \<longleftrightarrow>
      (\<forall>i < MAX_TASKS. i \<noteq> start \<longrightarrow> \<not> slot_sat (eligible cpu) ts i)"
    using sched_pick_None [OF assms, of cpu ts] sched_pick_Some [OF assms, of cpu ts]
    by (metis not_Some_eq)
next
  fix i j
  assume p: "sched_pick cpu start ts = Some i" and j: "j < MAX_TASKS" "j \<noteq> start"
  have m: "j \<in> set (rr_order start)" using set_rr_order [OF assms] j by simp
  show "slot_sat (pinned_here cpu) ts i" if "slot_sat (pinned_here cpu) ts j"
    using p m that unfolding sched_pick_def
    by (auto split: option.splits dest: find_Some_set find_None_set)
  show "slot_sat (pinned_here cpu) ts i \<or> slot_sat migratable ts i" if "slot_sat migratable ts j"
    using p m that unfolding sched_pick_def
    by (auto split: option.splits dest: find_Some_set find_None_set)
qed

theorem sched_pick_priority_witness:
  "sched_pick 0 0 (TASKS two_cpus) \<noteq> None"
proof -
  have "slot_sat (eligible 0) (TASKS two_cpus) 2"
    by (simp add: two_cpus_values slot_sat_def eligible_def task_A_def Task_new_def Let_def)
  then show ?thesis using sched_pick_priority [of 0 0 "TASKS two_cpus"] by auto
qed

definition rr_distance :: "nat \<Rightarrow> nat \<Rightarrow> nat" where
  "rr_distance a b = (b + MAX_TASKS - a) mod MAX_TASKS"

lemma rr_distance_step:
  assumes "a < 16" "k < 16"
  shows "rr_distance a ((a + k) mod 16) = k"
  using assms by (cases "a + k < 16") (auto simp: rr_distance_def mod_if)

lemma rr_distance_le:
  assumes "a < 16" "k \<le> m" "m < 16"
  shows "rr_distance ((a + k) mod 16) ((a + m) mod 16) = m - k"
proof -
  have "(a + m) mod 16 = ((a + k) mod 16 + (m - k)) mod 16" using assms(2)
    by (metis mod_add_left_eq le_add_diff_inverse add.assoc)
  then show ?thesis using rr_distance_step [of "(a + k) mod 16" "m - k"] assms by simp
qed




section \<open>Spawning\<close>

lemma frame_word_numerals:
  assumes "length (regs fr) = 31"
  shows "frame_word (write_frame sp fr mem) sp 31 = elr fr"
    "frame_word (write_frame sp fr mem) sp 32 = spsr fr"
    "frame_word (write_frame sp fr mem) sp 33 = sp_el0 fr"
    "i < 31 \<Longrightarrow> frame_word (write_frame sp fr mem) sp i = regs fr ! i"
  using assms by (simp_all add: frame_word_write_frame frame_words_def nth_append)

lemma new_user_frame:
  assumes "Task_new_user tid nm entry kb ks usp caps tb v w x y s = (s', t)"
  shows "frame_word (PMEM s') (t_sp t) 31 = of_nat entry" "frame_word (PMEM s') (t_sp t) 32 = 0"
    "frame_word (PMEM s') (t_sp t) 33 = of_nat usp" "i < 31 \<Longrightarrow> frame_word (PMEM s') (t_sp t) i = 0"
  using assms by (auto simp: Task_new_user_def Let_def frame_word_numerals)

text \<open>The stages of a successful spawn: the two stacks, the process table, the slot and the new task.\<close>

lemma spawn_user_stages:
  assumes "spawn_user_entry_with_segs nm entry cp segs s = (s', Inr tid)"
  obtains s1 ks s2 us s3 tb slot s4 t vb vt where
    "alloc_pages TASK_STACK_PAGES s = (s1, Some ks)" "alloc_pages USER_STACK_PAGES s1 = (s2, Some us)"
    "create_process_table (take 17 segs @ [stack_segment us]) s2 = Some (s3, tb)" "free_slot s3 = Some slot"
    "Task_new_user (NEXT_TID s3) nm entry ks TASK_STACK_SIZE (us + USER_STACK_SIZE) cp tb
      vb vt us (us + USER_STACK_SIZE) s3 = (s4, t)"
    "s' = (set_task slot t s4)\<lparr>NEXT_TID := NEXT_TID s3 + 1, ACTIVE := True\<rparr>" "tid = NEXT_TID s3"
proof -
  obtain s1 ks where a1: "alloc_pages TASK_STACK_PAGES s = (s1, Some ks)"
    using assms by (auto simp: spawn_user_entry_with_segs_def split: prod.splits option.splits)
  obtain s2 us where a2: "alloc_pages USER_STACK_PAGES s1 = (s2, Some us)"
    using assms a1 by (auto simp: spawn_user_entry_with_segs_def split: prod.splits option.splits)
  obtain s3 tb where a3: "create_process_table (take 17 segs @ [stack_segment us]) s2 = Some (s3, tb)"
    using assms a1 a2 by (auto simp: spawn_user_entry_with_segs_def split: option.splits)
  obtain slot where a4: "free_slot s3 = Some slot"
    using assms a1 a2 a3 by (auto simp: spawn_user_entry_with_segs_def split: option.splits)
  obtain vb vt where vr: "seg_range segs = (vb, vt)" by fastforce
  obtain s4 t where n: "Task_new_user (NEXT_TID s3) nm entry ks TASK_STACK_SIZE (us + USER_STACK_SIZE) cp tb
      vb vt us (us + USER_STACK_SIZE) s3 = (s4, t)" by fastforce
  from assms a1 a2 a3 a4 vr n have "s' = (set_task slot t s4)\<lparr>NEXT_TID := NEXT_TID s3 + 1, ACTIVE := True\<rparr>"
    "tid = NEXT_TID s3" by (auto simp: spawn_user_entry_with_segs_def Let_def)
  then show thesis using that a1 a2 a3 a4 n by blast
qed

text \<open>
  A spawned process starts unprivileged: on success \<^verbatim>\<open>spawn_user_entry_with_segs\<close> returns a
  TID no task has, fills one empty slot and changes no other, and the frame from which the new
  task will be resumed has all general registers zero, the requested entry point, the program
  status of EL0 with interrupts enabled (0), and the top of its own user stack as stack pointer;
  the task holds exactly the capabilities passed.
\<close>

theorem spawn_user_correct:
  assumes "sched_inv s" "spawn_user_entry_with_segs nm entry cp segs s = (s', Inr tid)"
  shows "(\<forall>i < MAX_TASKS. \<forall>t. TASKS s ! i = Some t \<longrightarrow> t_tid t \<noteq> tid)
    \<and> (\<exists>slot t. slot < MAX_TASKS \<and> TASKS s ! slot = None \<and> TASKS s' = (TASKS s)[slot := Some t]
       \<and> t_tid t = tid \<and> t_state t = Ready \<and> t_privilege t = User \<and> t_capabilities t = cp
       \<and> frame_word (PMEM s') (t_sp t) 31 = of_nat entry
       \<and> frame_word (PMEM s') (t_sp t) 32 = 0
       \<and> frame_word (PMEM s') (t_sp t) 33 = of_nat (t_user_stack_base t + USER_STACK_SIZE)
       \<and> (\<forall>i < 31. frame_word (PMEM s') (t_sp t) i = 0))"
proof -
  obtain s1 ks s2 us s3 tb slot s4 t vb vt where
    a1: "alloc_pages TASK_STACK_PAGES s = (s1, Some ks)" and a2: "alloc_pages USER_STACK_PAGES s1 = (s2, Some us)"
    and a3: "create_process_table (take 17 segs @ [stack_segment us]) s2 = Some (s3, tb)" and a4: "free_slot s3 = Some slot"
    and n: "Task_new_user (NEXT_TID s3) nm entry ks TASK_STACK_SIZE (us + USER_STACK_SIZE) cp tb
      vb vt us (us + USER_STACK_SIZE) s3 = (s4, t)"
    and s': "s' = (set_task slot t s4)\<lparr>NEXT_TID := NEXT_TID s3 + 1, ACTIVE := True\<rparr>" and tid: "tid = NEXT_TID s3"
    by (rule spawn_user_stages [OF assms(2)])
  have u: "page_upd s s3"
    using page_upd_alloc_pages [of s TASK_STACK_PAGES] page_upd_alloc_pages [of s1 USER_STACK_PAGES] a1 a2
      page_upd_create_process_table [OF a3] by (auto intro: page_upd_trans)
  have u4: "page_upd s3 s4"
    using page_upd_new_tasks(2) n by (metis fst_conv)
  note f = page_upd_fields [OF u] page_upd_fields [OF u4]
  have "t_tid t = tid" "t_state t = Ready" "t_privilege t = User" "t_capabilities t = cp" "t_user_stack_base t = us"
    using n tid by (auto simp: Task_new_user_def Let_def)
  moreover have "PMEM s' = PMEM s4" "TASKS s' = (TASKS s)[slot := Some t]"
    using s' f by (simp_all add: set_task_def)
  moreover have "slot < MAX_TASKS" "TASKS s ! slot = None" using free_slot_SomeD [OF a4] f by auto
  moreover have "\<forall>i < MAX_TASKS. \<forall>t. TASKS s ! i = Some t \<longrightarrow> t_tid t \<noteq> tid"
    using assms(1) tid f by (auto simp: sched_inv_def table_ok_def)
  ultimately show ?thesis using new_user_frame [OF n] by auto
qed

lemma boot_example_all_free: "page_is_free (sched_init boot_example) i \<longleftrightarrow> i < 768"
proof (cases "i < 768")
  case True
  then have "i div 8 < 96" by simp
  then have "BITMAP boot_example ! (i div 8) = 0xFF" by (simp add: boot_example_def)
  moreover have "(0xFF :: u8) = mask 8" by (simp add: mask_eq_exp_minus_1)
  then have "bit (0xFF :: u8) (i mod 8)" by (simp only: bit_mask_iff) simp
  ultimately have "bitmap_test (BITMAP boot_example) i" by (simp add: bitmap_test_bit)
  then show ?thesis
    using True by (simp add: page_is_free_def sched_init_def set_task_def Let_def) (simp add: boot_example_def)
qed (simp add: page_is_free_def sched_init_def set_task_def Let_def boot_example_def)

text \<open>A state with the pages of the example above free and an empty slot can host a user task.\<close>

lemma spawn_success:
  assumes w: "page_wf s" and fr: "\<And>i. page_is_free s i \<longleftrightarrow> i < 768" and slot: "TASKS s ! 1 = None"
    and sg: "(\<Sum>seg \<leftarrow> take 17 segs. seg_pages seg) \<le> 64"
  shows "\<exists>s' tid. spawn_user_entry_with_segs nm entry cp segs s = (s', Inr tid)"
proof -
  have n: "free_pages s = 768" by (simp add: free_pages_card fr)
  obtain s1 ks where a1: "alloc_pages TASK_STACK_PAGES s = (s1, Some ks)"
    by (rule alloc_pages_run_success [of TASK_STACK_PAGES 0 s]) (auto simp: TASK_STACK_PAGES_def fr)
  have w1: "page_wf s1" and n1: "free_pages s1 = 512"
    using alloc_pages_wf [OF w, of TASK_STACK_PAGES] alloc_pages_count(1) [OF w a1] a1 n by (simp_all add: TASK_STACK_PAGES_def)
  obtain k where k: "\<And>j. page_is_free s1 j \<longleftrightarrow> j < 768 \<and> \<not> (k \<le> j \<and> j < k + 256)" "PAGE_SIZE dvd PAGE_BASE s1"
    using alloc_pages_Some [OF w a1] w1 by (auto simp: fr TASK_STACK_PAGES_def page_wf_def)
  obtain s2 us where a2: "alloc_pages USER_STACK_PAGES s1 = (s2, Some us)"
    by (rule alloc_pages_run_success [of USER_STACK_PAGES "if k < 100 then 600 else 0" s1])
      (auto simp: USER_STACK_PAGES_def k(1))
  have w2: "page_wf s2" "free_pages s2 = 448"
    using alloc_pages_wf [OF w1, of USER_STACK_PAGES] alloc_pages_count(1) [OF w1 a2] a2 n1 by (simp_all add: USER_STACK_PAGES_def)
  have "PAGE_SIZE dvd us" using alloc_pages_Some [OF w1 a2] k(2) by (metis dvd_add dvd_triv_right)
  then have "page_down us = us" by (auto simp: page_down_def PAGE_SIZE_def)
  then have "seg_pages (stack_segment us) = 64"
    by (simp add: seg_pages_def stack_segment_def USER_STACK_SIZE_def USER_STACK_PAGES_def PAGE_SIZE_def)
  then obtain s3 tb where a3: "create_process_table (take 17 segs @ [stack_segment us]) s2 = Some (s3, tb)"
    using create_process_table_success [OF w2(1), of "take 17 segs @ [stack_segment us]"] w2(2) sg by auto
  have "page_upd s s3"
    using page_upd_alloc_pages [of s TASK_STACK_PAGES] page_upd_alloc_pages [of s1 USER_STACK_PAGES] a1 a2
      page_upd_create_process_table [OF a3] by (auto intro: page_upd_trans)
  then have "TASKS s3 ! 1 = None" using page_upd_fields(1) [of s s3] slot by simp
  then obtain slot where "free_slot s3 = Some slot"
    by (cases "free_slot s3") (auto simp: free_slot_def find_index_None_iff dest!: spec [of _ 1])
  then show ?thesis using a1 a2 a3 by (simp add: spawn_user_entry_with_segs_def Let_def case_prod_beta)
qed

lemma boot_example_room:
  "sched_inv (sched_init boot_example)" "page_wf (sched_init boot_example)"
  "length (TASKS (sched_init boot_example)) = MAX_TASKS" "TASKS (sched_init boot_example) ! 1 = None"
proof -
  show i: "sched_inv (sched_init boot_example)" by (rule sched_inv_boot [OF boot_example_boot])
  then show "page_wf (sched_init boot_example)" "length (TASKS (sched_init boot_example)) = MAX_TASKS"
    by (simp_all add: sched_inv_def table_ok_def)
  show "TASKS (sched_init boot_example) ! 1 = None"
    by (simp add: sched_init_def set_task_def Let_def boot_example_def)
qed

lemma spawn_boot_success:
  "\<exists>s' tid. spawn_user_entry_with_segs [65] 0x50000000 3 [] (sched_init boot_example) = (s', Inr tid)"
  by (rule spawn_success [OF boot_example_room(2) boot_example_all_free boot_example_room(4)]) simp

theorem spawn_user_correct_witness:
  "\<exists>s' tid. sched_inv (sched_init boot_example)
     \<and> spawn_user_entry_with_segs [65] 0x50000000 3 [] (sched_init boot_example) = (s', Inr tid)
     \<and> (\<exists>t. Some t \<in> set (TASKS s') \<and> t_privilege t = User \<and> frame_word (PMEM s') (t_sp t) 32 = 0)"
proof -
  let ?s = "sched_init boot_example"
  have i: "sched_inv ?s" by (rule sched_inv_boot [OF boot_example_boot])
  obtain s' tid where r: "spawn_user_entry_with_segs [65] 0x50000000 3 [] ?s = (s', Inr tid)"
    using spawn_boot_success by blast
  obtain t j where t: "TASKS s' = (TASKS ?s)[j := Some t]" "j < MAX_TASKS" "t_privilege t = User" "frame_word (PMEM s') (t_sp t) 32 = 0"
    using spawn_user_correct [OF i r] by blast
  have "length (TASKS ?s) = MAX_TASKS" using i by (simp add: sched_inv_def table_ok_def)
  with t(1,2) have "Some t \<in> set (TASKS s')" by (simp add: set_update_memI)
  with i r t show ?thesis by blast
qed

section \<open>Exit and wait\<close>

lemma wake_waiter_at_TASKS:
  "i < length (TASKS s) \<Longrightarrow>
   TASKS (wake_waiter_at tid code i s) ! j
     = (if j = i \<and> waits_for tid (TASKS s ! i) then map_option wake_waiter (TASKS s ! i) else TASKS s ! j)"
  by (auto simp: wake_waiter_at_def set_task_def waits_for_def split: option.split)

lemma length_wake_waiter_at [simp]: "length (TASKS (wake_waiter_at tid code i s)) = length (TASKS s)"
  by (auto simp: wake_waiter_at_def set_task_def split: option.split)

lemma fold_wake_TASKS:
  assumes "distinct is" "\<forall>i \<in> set is. i < length (TASKS s)"
  shows "TASKS (fold (wake_waiter_at tid code) is s) ! j
     = (if j \<in> set is \<and> waits_for tid (TASKS s ! j) then map_option wake_waiter (TASKS s ! j) else TASKS s ! j)"
  using assms
proof (induction "is" arbitrary: s)
  case (Cons i "is")
  from Cons.IH [of "wake_waiter_at tid code i s"] Cons.prems show ?case
    by (auto simp: wake_waiter_at_TASKS)
qed simp

lemma fold_wake_frame:
  assumes "distinct is" "\<forall>i \<in> set is. i < length (TASKS s)"
    and "\<And>i w. i \<in> set is \<Longrightarrow> TASKS s ! i = Some w \<Longrightarrow> t_wait_tid w = Some tid \<Longrightarrow>
        a + 8 \<le> to_dma_addr (t_sp w) \<or> to_dma_addr (t_sp w) + 8 \<le> a"
  shows "read_u64 (PMEM (fold (wake_waiter_at tid code) is s)) a = read_u64 (PMEM s) a"
  using assms
proof (induction "is" arbitrary: s)
  case (Cons i "is")
  have "read_u64 (PMEM (wake_waiter_at tid code i s)) a = read_u64 (PMEM s) a"
    using Cons.prems(3) [of i] by (auto simp: wake_waiter_at_def read_write_le_disjoint split: option.split)
  moreover have "read_u64 (PMEM (fold (wake_waiter_at tid code) is (wake_waiter_at tid code i s))) a
      = read_u64 (PMEM (wake_waiter_at tid code i s)) a"
  proof (rule Cons.IH)
    fix k w
    assume k: "k \<in> set is" "TASKS (wake_waiter_at tid code i s) ! k = Some w" "t_wait_tid w = Some tid"
    then have "TASKS s ! k = Some w" using Cons.prems(1,2) by (auto simp: wake_waiter_at_TASKS split: if_splits)
    then show "a + 8 \<le> to_dma_addr (t_sp w) \<or> to_dma_addr (t_sp w) + 8 \<le> a" using Cons.prems(3) [of k] k by simp
  qed (use Cons.prems in auto)
  ultimately show ?case by simp
qed simp

lemma fold_wake_code:
  assumes "distinct is" "\<forall>i \<in> set is. i < length (TASKS s)" "i \<in> set is"
    and "TASKS s ! i = Some w" "t_wait_tid w = Some tid"
    and "\<And>k v. k \<in> set is \<Longrightarrow> k \<noteq> i \<Longrightarrow> TASKS s ! k = Some v \<Longrightarrow> t_wait_tid v = Some tid \<Longrightarrow>
        to_dma_addr (t_sp w) + 8 \<le> to_dma_addr (t_sp v) \<or> to_dma_addr (t_sp v) + 8 \<le> to_dma_addr (t_sp w)"
  shows "read_u64 (PMEM (fold (wake_waiter_at tid code) is s)) (to_dma_addr (t_sp w)) = scast code"
proof -
  obtain as bs where split: "is = as @ i # bs" using assms(3) by (metis split_list)
  define s1 where "s1 = fold (wake_waiter_at tid code) as s"
  have T1: "TASKS s1 ! k = (if k \<in> set as \<and> waits_for tid (TASKS s ! k) then map_option wake_waiter (TASKS s ! k) else TASKS s ! k)" for k
    unfolding s1_def using assms(1,2) split by (intro fold_wake_TASKS) auto
  have l: "length (TASKS (fold (wake_waiter_at tid code) xs s')) = length (TASKS s')" for xs and s' :: "'a SchedState_scheme"
    by (induction xs arbitrary: s') simp_all
  let ?s2 = "wake_waiter_at tid code i s1"
  have w1: "TASKS s1 ! i = Some w" using T1 [of i] assms(1,4) split by auto
  have "read_u64 (PMEM (fold (wake_waiter_at tid code) bs ?s2)) (to_dma_addr (t_sp w))
      = read_u64 (PMEM ?s2) (to_dma_addr (t_sp w))"
  proof (rule fold_wake_frame)
    fix k v assume k: "k \<in> set bs" "TASKS ?s2 ! k = Some v" "t_wait_tid v = Some tid"
    have ki: "k \<noteq> i" "k \<notin> set as" using k(1) assms(1) split by auto
    then have "TASKS s ! k = Some v"
      using k T1 [of k] assms(2,3) l [of as s] by (auto simp: wake_waiter_at_TASKS s1_def split: if_splits)
    then show "to_dma_addr (t_sp w) + 8 \<le> to_dma_addr (t_sp v) \<or> to_dma_addr (t_sp v) + 8 \<le> to_dma_addr (t_sp w)"
      using assms(6) [of k v] k ki split by auto
  qed (use assms(1,2) split l [of as s] in \<open>auto simp: s1_def\<close>)
  moreover have "read_u64 (PMEM ?s2) (to_dma_addr (t_sp w)) = scast code"
    using w1 assms(5) by (simp add: wake_waiter_at_def read_write_le_same)
  ultimately show ?thesis unfolding split by (simp add: s1_def)
qed


text \<open>
  C23. Exit hands its code to every waiter: when the current task exits, it is Dead with that
  code; each task that waited for its TID is made Ready with no wait pending, and the saved
  \<open>x0\<close> it will resume with is the sign-extended exit code, provided the saved frames of
  different waiters do not overlap.
\<close>

theorem exit_task_delivers:
  assumes "sched_inv s" "current_task cpu s = Some t" "t_wait_tid t \<noteq> Some (t_tid t)"
    and "i < MAX_TASKS" "TASKS s ! i = Some w" "t_wait_tid w = Some (t_tid t)"
    and "\<forall>k < MAX_TASKS. \<forall>v. k \<noteq> i \<longrightarrow> TASKS s ! k = Some v \<longrightarrow> t_wait_tid v = Some (t_tid t) \<longrightarrow>
        to_dma_addr (t_sp w) + 8 \<le> to_dma_addr (t_sp v) \<or> to_dma_addr (t_sp v) + 8 \<le> to_dma_addr (t_sp w)"
  shows "TASKS (exit_task cpu code s) ! i = Some (w\<lparr>t_wait_tid := None, t_state := Ready\<rparr>)
     \<and> frame_word (PMEM (exit_task cpu code s)) (t_sp w) 0 = scast code
     \<and> current_task cpu (exit_task cpu code s) = Some (t\<lparr>t_state := Dead, t_exit_code := code\<rparr>)"
proof -
  define cur where "cur = current_slot cpu s"
  note ct = current_task_SomeD [OF assms(2), folded cur_def]
  have len: "length (TASKS s) = MAX_TASKS" using assms(1) by (simp add: sched_inv_def table_ok_def)
  define s1 where "s1 = upd_current cpu (\<lambda>t. t\<lparr>t_state := Dead, t_exit_code := code\<rparr>) s"
  have T1: "TASKS s1 = (TASKS s)[cur := Some (t\<lparr>t_state := Dead, t_exit_code := code\<rparr>)]"
    and P1: "PMEM s1 = PMEM s" "CURRENT s1 = CURRENT s"
    using ct by (simp_all add: s1_def upd_current_def upd_task_def cur_def)
  have r: "exit_task cpu code s = fold (wake_waiter_at (t_tid t) code) [0..<MAX_TASKS] s1"
    using assms(2) by (simp add: exit_task_def s1_def current_tid_def Let_def)
  have ne: "i \<noteq> cur" using assms(3,5,6) ct by auto
  have in1: "\<forall>i \<in> set [0..<MAX_TASKS]. i < length (TASKS s1)" using len T1 by simp
  note F = fold_wake_TASKS [OF distinct_upt in1, of "t_tid t" code]
  have "TASKS (exit_task cpu code s) ! i = Some (wake_waiter w)"
    unfolding r F using T1 ne assms(4-6) by (simp add: waits_for_def)
  moreover have "TASKS (exit_task cpu code s) ! cur = Some (t\<lparr>t_state := Dead, t_exit_code := code\<rparr>)"
    unfolding r F using T1 ct len assms(3) by (simp add: waits_for_def)
  moreover have "CURRENT (fold (wake_waiter_at (t_tid t) code) is s') = CURRENT s'" for "is" and s' :: "'a SchedState_scheme"
    by (induction "is" arbitrary: s') (auto simp: wake_waiter_at_def set_task_def split: option.split)
  then have "current_slot cpu (exit_task cpu code s) = cur" unfolding r by (simp add: current_slot_def P1 cur_def)
  moreover have "read_u64 (PMEM (fold (wake_waiter_at (t_tid t) code) [0..<MAX_TASKS] s1)) (to_dma_addr (t_sp w)) = scast code"
  proof (rule fold_wake_code [OF distinct_upt in1])
    fix k v assume k: "k \<in> set [0..<MAX_TASKS]" "k \<noteq> i" "TASKS s1 ! k = Some v" "t_wait_tid v = Some (t_tid t)"
    then have "k \<noteq> cur" using T1 ct len assms(3) by auto
    then show "to_dma_addr (t_sp w) + 8 \<le> to_dma_addr (t_sp v) \<or> to_dma_addr (t_sp v) + 8 \<le> to_dma_addr (t_sp w)"
      using assms(7) k T1 by auto
  qed (use T1 ne assms(4-6) in auto)
  ultimately show ?thesis
    using ct r by (simp add: frame_word_def current_task_def task_at_def wake_waiter_def)
qed

definition exit_example :: SchedState where
  "exit_example = boot_example
    \<lparr>TASKS := [Some (idle_task 0 0 0), Some ((idle_task 1 1 0)\<lparr>t_state := Blocked, t_wait_tid := Some 2, t_sp := 0x5000\<rparr>),
       Some (idle_task 2 0 0), None, None, None, None, None, None, None, None, None, None, None, None, None],
     CURRENT := [2, 1, 16, 16], NEXT_TID := 3, ACTIVE := True\<rparr>"

lemma lt_16_cases: "(i :: nat) < 16 \<Longrightarrow> i \<in> {0, 1, 2, 3, 4, 5, 6, 7, 8, 9, 10, 11, 12, 13, 14, 15}"
  by simp presburger

lemma exit_example_inv: "sched_inv exit_example"
proof -
  have four: "c < 4 \<Longrightarrow> c = 0 \<or> c = 1 \<or> c = 2 \<or> c = 3" for c :: nat by auto
  have "page_wf boot_example" using boot_example_boot by (simp add: boot_state_def)
  moreover have "table_ok (TASKS exit_example) 3"
    unfolding table_ok_def exit_example_def
    by (auto dest!: lt_16_cases simp: idle_task_def task_ok_def mb.wf_empty)
  ultimately show ?thesis
    unfolding sched_inv_def
    by (auto dest!: four simp: exit_example_def boot_example_def page_wf_def numeral_3_eq_3)
qed

theorem exit_task_delivers_witness:
  "sched_inv exit_example \<and> frame_word (PMEM (exit_task 0 (- 7) exit_example)) 0x5000 0 = - 7"
proof -
  have T: "TASKS exit_example ! 1 = Some ((idle_task 1 1 0)\<lparr>t_state := Blocked, t_wait_tid := Some 2, t_sp := 0x5000\<rparr>)"
    "current_task 0 exit_example = Some (idle_task 2 0 0)"
    by (simp_all add: exit_example_def current_task_def task_at_def current_slot_def cpu_index_def)
  have o: "t_wait_tid v \<noteq> Some 2" if "k < 16" "k \<noteq> 1" "TASKS exit_example ! k = Some v" for k v
    using that by (auto dest!: lt_16_cases simp: exit_example_def idle_task_def)
  have "frame_word (PMEM (exit_task 0 (- 7) exit_example)) 0x5000 0 = scast (- 7 :: u32)"
    using exit_task_delivers [OF exit_example_inv T(2) _ _ T(1), of "- 7"] o by (simp add: idle_task_def)
  then show ?thesis using exit_example_inv by simp
qed

text \<open>
  Waiting for a task: for an unknown TID the result is -1 and nothing changes; for a dead
  task it is its exit code, its slot is emptied and its kernel stack pages, and only those,
  become free; otherwise the caller is blocked on that TID and gets no result yet.
\<close>

theorem wait_for_tid_correct:
  assumes "sched_inv s"
  shows "case slot_of tid s of
      None \<Rightarrow> wait_for_tid cpu tid s = (s, Some (- 1))
    | Some i \<Rightarrow> \<exists>t s' r. TASKS s ! i = Some t \<and> t_tid t = tid \<and> wait_for_tid cpu tid s = (s', r) \<and>
        (if t_state t = Dead
         then r = Some (t_exit_code t) \<and> TASKS s' = (TASKS s)[i := None]
           \<and> free_frames s' = free_frames s \<union>
               (if t_stack_base t \<noteq> 0 \<and> t_stack_size t \<noteq> 0
                then frames (t_stack_base t) (t_stack_size t div PAGE_SIZE) \<inter> managed_frames s else {})
         else r = None \<and> (\<forall>c. current_task cpu s = Some c \<longrightarrow>
                current_task cpu s' = Some (c\<lparr>t_state := Blocked, t_wait_tid := Some tid\<rparr>)))"
proof (cases "slot_of tid s")
  case (Some i)
  obtain t where t: "i < MAX_TASKS" "TASKS s ! i = Some t" "t_tid t = tid" using Some by (rule slot_of_SomeD)
  let ?s1 = "s\<lparr>TASKS := (TASKS s)[i := None]\<rparr>"
  have w: "page_wf ?s1" and len: "length (TASKS s) = MAX_TASKS"
    using assms by (auto simp: sched_inv_def page_wf_def table_ok_def)
  have f: "free_frames ?s1 = free_frames s" "managed_frames ?s1 = managed_frames s"
    by (simp_all add: free_frames_def managed_frames_def page_is_free_def)
  have T: "TASKS (release_pages b n ?s1) = (TASKS s)[i := None]" for b n
    using page_upd_fields(1) [OF page_upd_release_pages [of ?s1 b n]] by simp
  have c: "current_task cpu (upd_current cpu f s) = map_option f (current_task cpu s)" for f
    using len by (auto simp: current_task_def task_at_def upd_current_def upd_task_def current_slot_def)
  show ?thesis
    using Some t release_pages_frames [OF w] f T c by (auto simp: wait_for_tid_def Let_def)
qed (simp add: wait_for_tid_def)

theorem wait_for_tid_correct_witness:
  "sched_inv exit_example \<and> wait_for_tid 0 9 exit_example = (exit_example, Some (- 1))"
proof -
  have "slot_of 9 exit_example = None"
    unfolding slot_of_def find_index_None_iff
    by (auto dest!: lt_16_cases simp: exit_example_def has_tid_def idle_task_def)
  then show ?thesis using wait_for_tid_correct [OF exit_example_inv, of 0 9] exit_example_inv by simp
qed

section \<open>Messages and signals\<close>

text \<open>
  Sending: if no task has the TID, or the task's mailbox holds eight messages, the send fails
  and nothing changes.  Otherwise the message is appended to that task's mailbox, the task
  becomes Ready if it was Blocked, its other fields and all other tasks stay as they were.
\<close>

theorem send_message_correct:
  assumes "sched_inv s"
  shows "case slot_of tid s of
      None \<Rightarrow> send_message tid msg s = (s, False)
    | Some i \<Rightarrow> \<exists>t. TASKS s ! i = Some t \<and> t_tid t = tid \<and>
        (if length (Mailbox_contents (t_mailbox t)) = MAILBOX_CAPACITY
         then send_message tid msg s = (s, False)
         else \<exists>m. send_message tid msg s =
               (s\<lparr>TASKS := (TASKS s)[i := Some (t\<lparr>t_mailbox := m,
                    t_state := (if t_state t = Blocked then Ready else t_state t)\<rparr>)]\<rparr>, True)
             \<and> Mailbox_wf m \<and> Mailbox_contents m = Mailbox_contents (t_mailbox t) @ [msg])"
proof (cases "slot_of tid s")
  case (Some i)
  obtain t where t: "i < MAX_TASKS" "TASKS s ! i = Some t" "t_tid t = tid" using Some by (rule slot_of_SomeD)
  have w: "Mailbox_wf (t_mailbox t)" using assms t by (auto simp: sched_inv_def table_ok_def task_ok_def)
  show ?thesis
  proof (cases "Mailbox_push msg (t_mailbox t)")
    case None
    then show ?thesis using Some t mb.push_full [OF w, of msg] by (simp add: send_message_def)
  next
    case (Some m)
    then have "length (Mailbox_contents (t_mailbox t)) \<noteq> MAILBOX_CAPACITY"
      using mb.push_full [OF w, of msg] by auto
    then show ?thesis
      using \<open>slot_of tid s = _\<close> t Some mb.push_ok [OF w Some]
      by (auto simp: send_message_def set_task_def wake_blocked_def)
  qed
qed (simp add: send_message_def)

theorem send_message_correct_witness:
  "sched_inv exit_example \<and> snd (send_message 1 (msg_example 5) exit_example)
   \<and> map_option t_state (TASKS (fst (send_message 1 (msg_example 5) exit_example)) ! 1) = Some Ready"
proof -
  let ?w = "(idle_task 1 1 0)\<lparr>t_state := Blocked, t_wait_tid := Some 2, t_sp := 0x5000\<rparr>"
  have "slot_of 1 exit_example = Some 1"
    unfolding slot_of_def find_index_Some_iff by (simp add: exit_example_def has_tid_def idle_task_def)
  moreover have "TASKS exit_example ! 1 = Some ?w" "length (TASKS exit_example) = 16"
    by (simp_all add: exit_example_def)
  ultimately show ?thesis
    using send_message_correct [OF exit_example_inv, of 1 "msg_example 5"] exit_example_inv
    by (auto simp: idle_task_def mb.contents_empty)
qed

lemma trailing_zeros32_bit:
  assumes "w \<noteq> 0"
  shows "trailing_zeros32 w < 32" "bit w (trailing_zeros32 w)" "\<forall>k < trailing_zeros32 w. \<not> bit w k"
proof -
  obtain i where i: "bit w i" "i < 32" using assms by (auto simp: bit_eq_iff dest: bit_imp_le_length)
  then obtain k where k: "find (bit w) [0..<32] = Some k" by (cases "find (bit w) [0..<32]") (auto simp: find_None_iff)
  then have "k < 32" "bit w k" "\<forall>j < k. \<not> bit w j" by (auto simp: find_Some_iff)
  then show "trailing_zeros32 w < 32" "bit w (trailing_zeros32 w)" "\<forall>k < trailing_zeros32 w. \<not> bit w k"
    using k by (simp_all add: trailing_zeros32_def)
qed

text \<open>
  Signal delivery: \<^verbatim>\<open>pop_pending_signal\<close> returns the lowest-numbered signal that is pending
  and not masked for the current task and clears exactly that pending bit; it returns nothing,
  and changes nothing, exactly when every pending signal is masked.
\<close>

theorem pop_pending_signal_correct:
  assumes "sched_inv s" "current_task cpu s = Some t"
  shows "case pop_pending_signal cpu s of
      (s', None) \<Rightarrow> s' = s \<and> (\<forall>k. bit (t_pending_signals t) k \<longrightarrow> bit (t_signal_mask t) k)
    | (s', Some sig) \<Rightarrow> sig < 32 \<and> bit (t_pending_signals t) sig \<and> \<not> bit (t_signal_mask t) sig
        \<and> (\<forall>k < sig. bit (t_pending_signals t) k \<longrightarrow> bit (t_signal_mask t) k)
        \<and> (\<exists>p. current_task cpu s' = Some (t\<lparr>t_pending_signals := p\<rparr>)
             \<and> (\<forall>k. bit p k \<longleftrightarrow> bit (t_pending_signals t) k \<and> k \<noteq> sig))"
proof -
  define d where "d = t_pending_signals t AND NOT (t_signal_mask t)"
  have b: "bit d k \<longleftrightarrow> bit (t_pending_signals t) k \<and> \<not> bit (t_signal_mask t) k" for k
    unfolding d_def by (auto simp: bit_simps dest: bit_imp_le_length)
  have len: "length (TASKS s) = MAX_TASKS" using assms(1) by (simp add: sched_inv_def table_ok_def)
  have c: "current_task cpu (upd_current cpu f s) = Some (f t)" for f
    using len assms(2) by (auto simp: current_task_def task_at_def upd_current_def upd_task_def current_slot_def split: if_splits)
  show ?thesis
  proof (cases "d = 0")
    case True
    have "bit (t_pending_signals t) k \<longrightarrow> bit (t_signal_mask t) k" for k using b [of k] True by simp
    then show ?thesis using True assms(2) by (simp add: pop_pending_signal_def Let_def d_def)
  next
    case False
    note z = trailing_zeros32_bit [OF False]
    have "bit (t_pending_signals t AND NOT (push_bit (trailing_zeros32 d) 1)) k
        \<longleftrightarrow> bit (t_pending_signals t) k \<and> k \<noteq> trailing_zeros32 d" for k
      using z(1) by (auto simp: bit_simps dest: bit_imp_le_length)
    moreover have "pop_pending_signal cpu s = (upd_current cpu
        (\<lambda>t. t\<lparr>t_pending_signals := t_pending_signals t AND NOT (push_bit (trailing_zeros32 d) 1)\<rparr>) s,
        Some (trailing_zeros32 d))"
      using False assms(2) by (simp add: pop_pending_signal_def Let_def d_def)
    moreover have "bit (t_pending_signals t) k \<longrightarrow> bit (t_signal_mask t) k" if "k < trailing_zeros32 d" for k
      using z(3) b [of k] that by blast
    ultimately show ?thesis
      using z(1,2) b [of "trailing_zeros32 d"] c by simp blast
  qed
qed

theorem pop_pending_signal_correct_witness:
  "sched_inv exit_example \<and> snd (pop_pending_signal 0 exit_example) = None"
proof -
  have c: "current_task 0 exit_example = Some (idle_task 2 0 0)"
    by (simp add: exit_example_def current_task_def task_at_def current_slot_def cpu_index_def)
  obtain s' r where r: "pop_pending_signal 0 exit_example = (s', r)" by fastforce
  from pop_pending_signal_correct [OF exit_example_inv c] r have "r = None"
    by (cases r) (auto simp: idle_task_def)
  then show ?thesis using r exit_example_inv by simp
qed

end
