(* ===== verification/Page_Table.thy ===== *)
theory Page_Table
  imports Vmm
begin

text \<open>
  Correctness of the page tables that \<^verbatim>\<open>kernel/src/memory/vmm.rs\<close> builds.  \<open>walk\<close> is what the
  hardware reads from a four-level table; \<open>pt_ok\<close> says that the tables under a root form a tree
  of frames the allocator has handed out, recorded by a map from index paths to frames.  Mapping
  a page then updates the walk at that page and nowhere else.
\<close>

section \<open>The table walk\<close>

definition desc_valid :: "u64 \<Rightarrow> bool" where "desc_valid e \<longleftrightarrow> e AND PTE_VALID \<noteq> 0"
definition desc_table :: "u64 \<Rightarrow> bool" where "desc_table e \<longleftrightarrow> e AND PTE_TABLE \<noteq> 0"
definition desc_addr :: "u64 \<Rightarrow> nat" where "desc_addr e = unat (e AND PTE_ADDR)"

text \<open>The page descriptor that stands for page \<open>j\<close> of a 2 MiB block.\<close>

definition block_page :: "u64 \<Rightarrow> nat \<Rightarrow> u64" where
  "block_page e j = (of_nat (unat (e AND PTE_BLOCK_ADDR) + j * 4096) AND PTE_ADDR)
     OR ((e AND NOT PTE_BLOCK_ADDR) OR PTE_TABLE)"

definition walk :: "'a PageState_scheme \<Rightarrow> nat \<Rightarrow> nat \<Rightarrow> u64 option" where
  "walk s root va =
    (let e0 = rd s root (table_index 39 va) in
     if \<not> desc_valid e0 then None else
     let e1 = rd s (desc_addr e0) (table_index 30 va) in
     if \<not> desc_valid e1 then None else
     let e2 = rd s (desc_addr e1) (table_index 21 va) in
     if \<not> desc_valid e2 then None else
     if \<not> desc_table e2 then Some (block_page e2 (table_index 12 va)) else
     let e3 = rd s (desc_addr e2) (table_index 12 va) in
     if desc_valid e3 then Some e3 else None)"

text \<open>The index path of an address, one nine-bit index per level.\<close>

definition path_of :: "nat \<Rightarrow> nat list" where
  "path_of va = [table_index 39 va, table_index 30 va, table_index 21 va]"

definition page_no :: "nat \<Rightarrow> nat" where "page_no va = va div 4096 mod 2 ^ 36"

lemma table_index_less [simp]: "table_index n va < 512" by (simp add: table_index_def)

lemma page_no_digits:
  "page_no va = ((table_index 39 va * 512 + table_index 30 va) * 512 + table_index 21 va) * 512 + table_index 12 va"
proof -
  define n where "n = va div 4096"
  have i: "table_index 12 va = n mod 512" "table_index 21 va = n div 512 mod 512"
    "table_index 30 va = n div 512 div 512 mod 512" "table_index 39 va = n div 512 div 512 div 512 mod 512"
    by (simp_all add: table_index_def n_def div_mult2_eq [symmetric])
  have "n mod 2 ^ 36 = n mod (512 * (512 * (512 * 512)))" by simp
  also have "\<dots> = ((n div 512 div 512 div 512 mod 512 * 512 + n div 512 div 512 mod 512) * 512
      + n div 512 mod 512) * 512 + n mod 512"
    by (simp only: mod_mult2_eq) (simp add: algebra_simps)
  finally show ?thesis unfolding page_no_def i n_def [symmetric] .
qed

lemma same_page_iff:
  "page_no va = page_no va' \<longleftrightarrow> path_of va = path_of va' \<and> table_index 12 va = table_index 12 va'"
proof
  assume eq: "page_no va = page_no va'"
  have d: "x * 512 + r = y * 512 + q \<longleftrightarrow> x = y \<and> r = q" if "r < 512" "q < 512" for x y r q :: nat
  proof -
    have "(x * 512 + r) div 512 = x" "(y * 512 + q) div 512 = y"
      "(x * 512 + r) mod 512 = r" "(y * 512 + q) mod 512 = q" using that by simp_all
    then show ?thesis by metis
  qed
  show "path_of va = path_of va' \<and> table_index 12 va = table_index 12 va'"
    using eq unfolding page_no_digits by (simp only: d table_index_less path_of_def list.inject simp_thms)
qed (simp add: page_no_digits path_of_def)

section \<open>Entries of tables in memory\<close>

lemma aligned_apart:
  assumes "n dvd t" "n dvd t'" "t \<noteq> t'"
  shows "t + n \<le> t' \<or> t' + n \<le> (t :: nat)"
proof -
  obtain a b where "t = n * a" "t' = n * b" using assms(1,2) by (auto elim!: dvdE)
  then have ne: "a \<noteq> b" using assms(3) by auto
  have "n * (a + 1) \<le> n * b \<or> n * (b + 1) \<le> n * a"
    using ne by (metis Suc_eq_plus1 Suc_leI linorder_neqE_nat mult_le_mono2)
  then show ?thesis using \<open>t = n * a\<close> \<open>t' = n * b\<close> by (simp add: add.commute)
qed

lemma rd_wr:
  assumes "4096 dvd t" "4096 dvd t'" "i < 512" "j < 512"
  shows "rd (wr t i w s) t' j = (if t = t' \<and> i = j then w else rd s t' j)"
proof (cases "t = t' \<and> i = j")
  case True
  then show ?thesis by (simp add: rd_def wr_def read_write_le_same)
next
  case False
  have "t' + 8 * j + 8 \<le> t + 8 * i \<or> t + 8 * i + 8 \<le> t' + 8 * j"
  proof (cases "t = t'")
    case True
    then show ?thesis using False by auto
  next
    case False
    then have "t + 4096 \<le> t' \<or> t' + 4096 \<le> t" by (rule aligned_apart [OF assms(1,2)])
    then show ?thesis using assms(3,4) by auto
  qed
  then show ?thesis using False by (auto simp: rd_def wr_def read_write_le_disjoint)
qed

lemma rd_fold_wr:
  assumes "4096 dvd t" "4096 dvd t'" "\<forall>i \<in> set is. i < 512" "j < 512" "distinct is"
  shows "rd (fold (\<lambda>i. wr t i (f i)) is s) t' j = (if t = t' \<and> j \<in> set is then f j else rd s t' j)"
  using assms(3,5)
proof (induction "is" arbitrary: s)
  case (Cons i "is")
  then show ?case using assms(1,2,4) by (auto simp: rd_wr)
qed simp

lemma rd_frame_cong:
  assumes "i < 512" "\<And>a. t \<le> a \<Longrightarrow> a < t + 4096 \<Longrightarrow> PMEM s' a = PMEM s a"
  shows "rd s' t i = rd s t i"
  unfolding rd_def using assms by (intro read_le_cong) auto

lemma bit_PTE_ADDR: "bit PTE_ADDR n \<longleftrightarrow> 12 \<le> n \<and> n < 48"
proof -
  have "PTE_ADDR = mask 48 AND NOT (mask 12)" by (simp add: PTE_ADDR_def mask_eq_exp_minus_1)
  then show ?thesis unfolding \<open>PTE_ADDR = _\<close> by (auto simp: bit_and_iff bit_not_iff bit_mask_iff)
qed

lemma bit_aligned:
  assumes "4096 dvd t"
  shows "bit (of_nat t :: u64) n \<longleftrightarrow> 12 \<le> n \<and> n < 64 \<and> bit t n"
proof -
  obtain k where "t = k * 2 ^ 12" using assms by (auto simp: mult.commute)
  then have "t = push_bit 12 k" by (simp add: push_bit_eq_mult)
  then show ?thesis by (auto simp: bit_simps)
qed

lemma desc_addr_page:
  assumes "4096 dvd t" "t < 2 ^ 48" "fl AND PTE_ADDR = 0"
  shows "desc_addr ((of_nat t AND PTE_ADDR) OR fl) = t"
proof -
  have "bit t n \<longleftrightarrow> bit t n \<and> n < 48" for n
    using assms(2) by (metis bit_take_bit_iff take_bit_nat_eq_self_iff)
  then have "(of_nat t AND PTE_ADDR) = (of_nat t :: u64)"
    by (intro bit_word_eqI) (auto simp: bit_and_iff bit_aligned [OF assms(1)] bit_PTE_ADDR)
  moreover have "((of_nat t AND PTE_ADDR) OR fl) AND PTE_ADDR = (of_nat t AND PTE_ADDR)"
    using assms(3) by (simp add: bit.conj_disj_distrib2 and.assoc)
  ultimately show ?thesis using assms(2) by (simp add: desc_addr_def unat_of_nat_small)
qed

lemma table_desc_props:
  assumes "4096 dvd t" "t < 2 ^ 48"
  shows "desc_valid (table_desc t)" "desc_table (table_desc t)" "desc_addr (table_desc t) = t"
proof -
  have b: "bit (table_desc t) 0" "bit (table_desc t) 1"
    by (simp_all add: table_desc_def pte_defs bit_simps)
  then show "desc_valid (table_desc t)" "desc_table (table_desc t)"
    using word_test_bit [of "table_desc t" 0] word_test_bit [of "table_desc t" 1]
    by (simp_all add: desc_valid_def desc_table_def pte_defs)
  have "table_desc t AND PTE_ADDR = ((of_nat t AND PTE_ADDR) OR 0) AND PTE_ADDR"
    by (rule bit_word_eqI) (auto simp: table_desc_def pte_defs bit_simps bit_PTE_ADDR bit_1_iff)
  then show "desc_addr (table_desc t) = t"
    using desc_addr_page [OF assms, of 0] by (simp add: desc_addr_def)
qed

section \<open>The tree of tables\<close>

type_synonym tree = "nat list \<Rightarrow> nat option"

definition entry_ok :: "nat \<Rightarrow> u64 \<Rightarrow> nat option \<Rightarrow> bool" where
  "entry_ok lvl e c \<longleftrightarrow>
    (case c of None \<Rightarrow> \<not> desc_valid e \<or> (lvl = 2 \<and> \<not> desc_table e)
     | Some t \<Rightarrow> desc_valid e \<and> desc_table e \<and> desc_addr e = t)"

definition frame_ok :: "'a PageState_scheme \<Rightarrow> nat \<Rightarrow> bool" where
  "frame_ok s t \<longleftrightarrow> 4096 dvd t \<and> t < 2 ^ 48 \<and> t \<notin> free_frames s"

definition pt_ok :: "'a PageState_scheme \<Rightarrow> nat \<Rightarrow> tree \<Rightarrow> bool" where
  "pt_ok s root T \<longleftrightarrow>
     page_wf s \<and> RAM_TOP s \<le> 2 ^ 48 \<and> T [] = Some root \<and> inj_on T (dom T) \<and>
     (\<forall>p t. T p = Some t \<longrightarrow> frame_ok s t \<and> length p \<le> 3) \<and>
     (\<forall>p i. T (p @ [i]) \<noteq> None \<longrightarrow> i < 512 \<and> T p \<noteq> None) \<and>
     (\<forall>p t i. T p = Some t \<and> length p < 3 \<and> i < 512 \<longrightarrow> entry_ok (length p) (rd s t i) (T (p @ [i])))"

lemma pt_okD:
  assumes "pt_ok s root T"
  shows "page_wf s" "RAM_TOP s \<le> 2 ^ 48" "T [] = Some root" "inj_on T (dom T)"
    "T p = Some t \<Longrightarrow> 4096 dvd t" "T p = Some t \<Longrightarrow> t < 2 ^ 48" "T p = Some t \<Longrightarrow> t \<notin> free_frames s"
    "T p = Some t \<Longrightarrow> length p \<le> 3" "T p = None \<Longrightarrow> T (p @ [i]) = None"
    "T p = Some t \<Longrightarrow> length p < 3 \<Longrightarrow> i < 512 \<Longrightarrow> entry_ok (length p) (rd s t i) (T (p @ [i]))"
  using assms unfolding pt_ok_def frame_ok_def by blast+

lemma pt_ok_inj: "pt_ok s root T \<Longrightarrow> T p = Some t \<Longrightarrow> T q = Some t \<Longrightarrow> p = q"
  using pt_okD(4) [of s root T] by (metis domI inj_onD)

definition touches :: "'a PageState_scheme \<Rightarrow> 'a PageState_scheme \<Rightarrow> nat set \<Rightarrow> bool" where
  "touches s s' F \<longleftrightarrow> (\<forall>a. (\<forall>t \<in> F. \<not> (t \<le> a \<and> a < t + 4096)) \<longrightarrow> PMEM s' a = PMEM s a)"

definition pt_step :: "'a PageState_scheme \<Rightarrow> tree \<Rightarrow> 'a PageState_scheme \<Rightarrow> tree \<Rightarrow> bool" where
  "pt_step s T s' T' \<longleftrightarrow> T \<subseteq>\<^sub>m T' \<and> ran T' \<subseteq> ran T \<union> free_frames s \<and>
     free_frames s' \<subseteq> free_frames s \<and> touches s s' (ran T \<union> free_frames s)"

lemma touches_trans:
  "touches s s' F \<Longrightarrow> touches s' s'' F' \<Longrightarrow> F' \<subseteq> F \<Longrightarrow> touches s s'' F"
  unfolding touches_def by (metis subsetD)

lemma touches_mono: "touches s s' F \<Longrightarrow> F \<subseteq> G \<Longrightarrow> touches s s' G"
  unfolding touches_def by blast

lemma pt_step_refl: "pt_step s T s T"
  by (auto simp: pt_step_def touches_def)

lemma pt_step_trans:
  assumes "pt_step s T s' T'" "pt_step s' T' s'' T''"
  shows "pt_step s T s'' T''"
proof -
  have "ran T' \<union> free_frames s' \<subseteq> ran T \<union> free_frames s" using assms(1) by (auto simp: pt_step_def)
  then have "touches s s'' (ran T \<union> free_frames s)"
    using assms touches_trans [of s s' "ran T \<union> free_frames s" s'' "ran T' \<union> free_frames s'"]
    by (auto simp: pt_step_def)
  then show ?thesis using assms by (auto simp: pt_step_def intro: map_le_trans)
qed

lemma alloc_table_fresh:
  assumes "page_wf s" "RAM_TOP s \<le> 2 ^ 48" "alloc_table s = Some (s', t)"
  shows "t \<in> free_frames s" "4096 dvd t" "t < 2 ^ 48" "free_frames s' = free_frames s - {t}"
    "PMEM s' = zero_range t 4096 (PMEM s)" "page_wf s'" "RAM_TOP s' = RAM_TOP s"
proof -
  have a: "alloc_pages 1 s = (s', Some t)"
    using assms(3) by (auto simp: alloc_table_def alloc_page_def split: prod.splits option.splits)
  obtain k where k: "0 < (1::nat)" "t = PAGE_BASE s + k * PAGE_SIZE" "k + 1 \<le> NUM_PAGES s"
    "\<forall>j. k \<le> j \<and> j < k + 1 \<longrightarrow> page_is_free s j"
    "\<forall>j. page_is_free s' j \<longleftrightarrow> page_is_free s j \<and> \<not> (k \<le> j \<and> j < k + 1)"
    "s' = s\<lparr>BITMAP := BITMAP s', PMEM := zero_range t (1 * PAGE_SIZE) (PMEM s)\<rparr>"
    "length (BITMAP s') = length (BITMAP s)"
    by (rule alloc_pages_Some [OF assms(1) a])
  have f: "frames t 1 = {t}" by (auto simp: frames_def)
  show "t \<in> free_frames s" "free_frames s' = free_frames s - {t}"
    using alloc_pages_frames [OF assms(1) a] f by auto
  show "page_wf s'" using alloc_pages_wf [OF assms(1), of 1] a by simp
  show "PMEM s' = zero_range t 4096 (PMEM s)" "RAM_TOP s' = RAM_TOP s"
    by (subst k(6), simp add: PAGE_SIZE_def)+
  show "4096 dvd t" using assms(1) k(2) by (simp add: page_wf_def PAGE_SIZE_def)
  have "k * PAGE_SIZE < NUM_PAGES s * PAGE_SIZE" using k(3) by simp
  then show "t < 2 ^ 48" using assms(1,2) k(2) unfolding page_wf_def by linarith
qed

lemma rd_zero_range:
  assumes "4096 dvd t" "4096 dvd t'" "i < 512" "PMEM s' = zero_range t 4096 (PMEM s)"
  shows "rd s' t' i = (if t = t' then 0 else rd s t' i)"
proof (cases "t = t'")
  case True
  then show ?thesis using assms(3,4) by (auto simp: rd_def zero_range_def intro!: read_le_zero)
next
  case False
  then have "t + 4096 \<le> t' \<or> t' + 4096 \<le> t" by (rule aligned_apart [OF assms(1,2)])
  then show ?thesis using False assms(3,4)
    by (auto simp: zero_range_def intro!: rd_frame_cong)
qed

definition walk_tree :: "'a PageState_scheme \<Rightarrow> tree \<Rightarrow> nat \<Rightarrow> u64 option" where
  "walk_tree s T va =
    (case T (path_of va) of
       Some l3 \<Rightarrow> (let e = rd s l3 (table_index 12 va) in if desc_valid e then Some e else None)
     | None \<Rightarrow>
        (case T [table_index 39 va, table_index 30 va] of
           Some l2 \<Rightarrow> (let e = rd s l2 (table_index 21 va) in
                       if desc_valid e then Some (block_page e (table_index 12 va)) else None)
         | None \<Rightarrow> None))"

lemma walk_walk_tree:
  assumes ok: "pt_ok s root T"
  shows "walk s root va = walk_tree s T va"
proof -
  let ?a = "table_index 39 va" and ?b = "table_index 30 va" and ?c = "table_index 21 va"
  have up1: "T [?a, ?b] = None" if "T [?a] = None" using pt_okD(9) [OF ok, of "[?a]" ?b] that by simp
  have up2: "T [?a, ?b, ?c] = None" if "T [?a, ?b] = None"
    using pt_okD(9) [OF ok, of "[?a, ?b]" ?c] that by simp
  have e0: "entry_ok 0 (rd s root ?a) (T [?a])" using pt_okD(10) [OF ok, of "[]" root ?a] pt_okD(3) [OF ok] by simp
  have e1: "entry_ok 1 (rd s t ?b) (T [?a, ?b])" if "T [?a] = Some t" for t
    using pt_okD(10) [OF ok, of "[?a]" t ?b] that by simp
  have e2: "entry_ok 2 (rd s t ?c) (T [?a, ?b, ?c])" if "T [?a, ?b] = Some t" for t
    using pt_okD(10) [OF ok, of "[?a, ?b]" t ?c] that by (simp add: numeral_2_eq_2)
  show ?thesis
  proof (cases "T [?a]")
    case None
    then show ?thesis using e0 up1 up2 by (simp add: walk_def walk_tree_def path_of_def entry_ok_def)
  next
    case (Some t1)
    note t1 = Some
    show ?thesis
    proof (cases "T [?a, ?b]")
      case None
      then show ?thesis using e0 t1 e1 [OF t1] up2
        by (simp add: walk_def walk_tree_def path_of_def entry_ok_def Let_def)
    next
      case (Some t2)
      then show ?thesis using e0 t1 e1 [OF t1] e2 [OF Some]
        by (cases "T [?a, ?b, ?c]") (auto simp: walk_def walk_tree_def path_of_def entry_ok_def Let_def)
    qed
  qed
qed

section \<open>Adding a table\<close>

lemma pt_extend:
  assumes ok: "pt_ok s root T" and p: "T p = Some t0" "length p < 3" "i < 512" "T (p @ [i]) = None"
    and t: "frame_ok s' t" "t \<notin> ran T"
    and s': "page_wf s'" "RAM_TOP s' \<le> 2 ^ 48" "free_frames s' \<subseteq> free_frames s"
    and ent: "rd s' t0 i = table_desc t"
    and oth: "\<And>q u j. T q = Some u \<Longrightarrow> j < 512 \<Longrightarrow> (u, j) \<noteq> (t0, i) \<Longrightarrow> rd s' u j = rd s u j"
    and new: "\<And>j. length p < 2 \<Longrightarrow> j < 512 \<Longrightarrow> \<not> desc_valid (rd s' t j)"
  shows "pt_ok s' root (T(p @ [i] \<mapsto> t))"
  unfolding pt_ok_def
proof (intro conjI allI impI)
  let ?T = "T(p @ [i] \<mapsto> t)"
  show "?T [] = Some root" using pt_okD(3) [OF ok] by simp
  show "inj_on ?T (dom ?T)"
    using t(2) p(4) pt_okD(4) [OF ok] by (auto simp: inj_on_def dom_def ran_def)
next
  fix q u assume "(T(p @ [i] \<mapsto> t)) q = Some u"
  then show "frame_ok s' u" "length q \<le> 3"
    using t(1) p(2) s'(3) pt_okD(5-8) [OF ok, of q u] by (auto simp: frame_ok_def split: if_splits)
next
  fix q j assume "(T(p @ [i] \<mapsto> t)) (q @ [j]) \<noteq> None"
  then show "j < 512" "(T(p @ [i] \<mapsto> t)) q \<noteq> None"
    using p(1,3) ok by (auto simp: pt_ok_def split: if_splits)
next
  fix q and u j :: nat
  assume q: "(T(p @ [i] \<mapsto> t)) q = Some u \<and> length q < 3 \<and> j < 512"
  show "entry_ok (length q) (rd s' u j) ((T(p @ [i] \<mapsto> t)) (q @ [j]))"
  proof (cases "q = p @ [i]")
    case True
    then have "length p < 2" "u = t" using q by auto
    then show ?thesis using True new q pt_okD(9) [OF ok p(4)] by (auto simp: entry_ok_def)
  next
    case False
    then have u: "T q = Some u" "length q < 3" "j < 512" using q by auto
    show ?thesis
    proof (cases "(u, j) = (t0, i)")
      case True
      then have "q = p" using pt_ok_inj [OF ok, of q t0 p] u p(1) by simp
      then show ?thesis using True ent t(1) table_desc_props [of t] by (simp add: entry_ok_def frame_ok_def)
    next
      case False
      then have "q @ [j] \<noteq> p @ [i]" using u p(1) by auto
      then show ?thesis using oth [OF u(1,3) False] pt_okD(10) [OF ok u] by auto
    qed
  qed
qed (use s' in auto)

lemma pt_extend_walk:
  assumes ok: "pt_ok s root T" "pt_ok s' root (T(p @ [i] \<mapsto> t))"
    and p: "T p = Some t0" "length p < 3" "T (p @ [i]) = None"
    and oth: "\<And>q u j. T q = Some u \<Longrightarrow> j < 512 \<Longrightarrow> (u, j) \<noteq> (t0, i) \<Longrightarrow> rd s' u j = rd s u j"
    and new1: "\<And>j. length p < 2 \<Longrightarrow> j < 512 \<Longrightarrow> \<not> desc_valid (rd s' t j)"
    and new2: "\<And>j. length p = 2 \<Longrightarrow> j < 512 \<Longrightarrow>
      (if desc_valid (rd s' t j) then Some (rd s' t j) else None) =
      (if desc_valid (rd s t0 i) then Some (block_page (rd s t0 i) j) else None)"
  shows "walk s' root va = walk s root va"
proof -
  let ?a = "table_index 39 va" and ?b = "table_index 30 va" and ?c = "table_index 21 va" and ?d = "table_index 12 va"
  have l3: "rd s' u ?d = rd s u ?d" if "T [?a, ?b, ?c] = Some u" for u
  proof (rule oth [OF that])
    have "u \<noteq> t0" using pt_ok_inj [OF ok(1) that, of p] p(1,2) by auto
    then show "(u, ?d) \<noteq> (t0, i)" by simp
  qed simp
  have l2: "rd s' u ?c = rd s u ?c" if "T [?a, ?b] = Some u" "[?a, ?b, ?c] \<noteq> p @ [i]" for u
  proof (rule oth [OF that(1)])
    show "(u, ?c) \<noteq> (t0, i)"
    proof
      assume "(u, ?c) = (t0, i)"
      then have "p = [?a, ?b]" "?c = i" using pt_ok_inj [OF ok(1) p(1), of "[?a, ?b]"] that(1) by auto
      then show False using that(2) by simp
    qed
  qed simp
  show ?thesis
  proof (cases "[?a, ?b, ?c] = p @ [i]")
    case True
    then have pi: "p = [?a, ?b]" "i = ?c" by (auto simp: append_eq_Cons_conv)
    then show ?thesis using p new2 [of ?d]
      by (simp add: walk_walk_tree [OF ok(1)] walk_walk_tree [OF ok(2)] walk_tree_def path_of_def Let_def)
  next
    case False
    show ?thesis
    proof (cases "[?a, ?b] = p @ [i]")
      case True
      then have pi: "p = [?a]" "i = ?b" by (auto simp: append_eq_Cons_conv)
      then have n: "T [?a, ?b] = None" using p(3) by simp
      then have "T [?a, ?b, ?c] = None" using pt_okD(9) [OF ok(1), of "[?a, ?b]" ?c] by simp
      then show ?thesis using n pi new1 [of ?c]
        by (simp add: walk_walk_tree [OF ok(1)] walk_walk_tree [OF ok(2)] walk_tree_def path_of_def Let_def)
    next
      case nb: False
      show ?thesis using False nb l2 l3
        by (auto simp: walk_walk_tree [OF ok(1)] walk_walk_tree [OF ok(2)] walk_tree_def path_of_def Let_def
            split: option.splits)
    qed
  qed
qed

lemma block_page_valid: "desc_valid (block_page e j) \<longleftrightarrow> desc_valid e"
proof -
  have "\<not> bit PTE_BLOCK_ADDR 0" by (simp add: PTE_BLOCK_ADDR_def)
  moreover have "bit (block_page e j) 0 \<longleftrightarrow> bit (e AND NOT PTE_BLOCK_ADDR) 0"
    by (simp add: block_page_def bit_or_iff bit_and_iff bit_PTE_ADDR PTE_TABLE_def bit_simps)
  ultimately have "bit (block_page e j) 0 \<longleftrightarrow> bit e 0" by (simp add: bit_and_iff bit_not_iff)
  then show ?thesis using word_test_bit [of "block_page e j" 0] word_test_bit [of e 0]
    by (simp add: desc_valid_def PTE_VALID_def)
qed

text \<open>Either the table is there already, or a new one is linked in, split from the block if there was one.\<close>

definition split_block :: "u64 \<Rightarrow> nat \<Rightarrow> 'a PageState_scheme \<Rightarrow> 'a PageState_scheme" where
  "split_block e t s = (if desc_valid e then fold (\<lambda>j. wr t j (block_page e j)) [0..<512] s else s)"

lemma get_or_alloc_cases:
  assumes ok: "pt_ok s root T" and p: "T p = Some t0" "length p < 3" "i < 512"
    and g: "get_or_alloc_subtable t0 i s = Some (s', t)"
  obtains (old) "s' = s" "T (p @ [i]) = Some t"
  | (new) s1 where "T (p @ [i]) = None" "alloc_table s = Some (s1, t)"
      "s' = wr t0 i (table_desc t) (split_block (rd s t0 i) t s1)"
proof -
  have e: "entry_ok (length p) (rd s t0 i) (T (p @ [i]))" by (rule pt_okD(10) [OF ok p])
  show thesis
  proof (cases "T (p @ [i])")
    case (Some u)
    then show thesis using e g old
      by (auto simp: get_or_alloc_subtable_def Let_def entry_ok_def desc_valid_def desc_table_def desc_addr_def)
  next
    case None
    then show thesis using e g
      by (intro new [of "fst (the (alloc_table s))"])
        (auto simp: get_or_alloc_subtable_def Let_def entry_ok_def desc_valid_def desc_table_def
          split_block_def block_page_def [abs_def] ENTRIES_PER_TABLE_def split: option.splits if_splits)
  qed
qed

lemma rd_split_block:
  assumes "4096 dvd t" "4096 dvd u" "j < 512"
  shows "rd (split_block e t s) u j = (if u = t \<and> desc_valid e then block_page e j else rd s u j)"
  using assms by (auto simp: split_block_def rd_fold_wr)

lemma page_upd_split_block: "page_upd s (split_block e t s)"
  unfolding split_block_def by (auto intro!: page_upd_fold)

lemma touches_wr: "i < 512 \<Longrightarrow> t \<in> F \<Longrightarrow> touches s (wr t i w s) F"
  by (fastforce simp: touches_def wr_def write_le_def)

lemma touches_fold:
  "(\<And>i s. i \<in> set is \<Longrightarrow> touches s (f i s) F) \<Longrightarrow> touches s (fold f is s) F"
proof (induction "is" arbitrary: s)
  case (Cons i "is")
  then show ?case using touches_trans [of s "f i s" F "fold f is (f i s)" F] by simp
qed (simp add: touches_def)

lemma touches_split_block: "t \<in> F \<Longrightarrow> touches s (split_block e t s) F"
  by (auto simp: split_block_def intro!: touches_fold touches_wr) (simp add: touches_def)

lemma free_frames_wr [simp]: "free_frames (wr t i w s) = free_frames s"
  by (simp add: free_frames_def page_is_free_def wr_def)

lemma free_frames_split_block [simp]: "free_frames (split_block e t s) = free_frames s"
proof -
  have "free_frames (fold (\<lambda>j. wr t j (f j)) is s) = free_frames s" for f "is"
    by (induction "is" arbitrary: s) simp_all
  then show ?thesis by (simp add: split_block_def)
qed

lemma page_upd_RAM_TOP: "page_upd s s' \<Longrightarrow> RAM_TOP s' = RAM_TOP s"
  by (auto simp: page_upd_def)

lemma get_or_alloc_ok:
  assumes ok: "pt_ok s root T" and p: "T p = Some t0" "length p < 3" "i < 512"
    and g: "get_or_alloc_subtable t0 i s = Some (s', t)"
  shows "\<exists>T'. pt_ok s' root T' \<and> pt_step s T s' T' \<and> T' (p @ [i]) = Some t \<and>
    (\<forall>va. walk s' root va = walk s root va)"
  using ok p g
proof (cases rule: get_or_alloc_cases)
  case old
  then show ?thesis using ok pt_step_refl by auto
next
  case (new s1)
  let ?e = "rd s t0 i"
  note fr = alloc_table_fresh [OF pt_okD(1,2) [OF ok] new(2)]
  have al: "4096 dvd u" "u \<noteq> t" if "T q = Some u" for q u
    using pt_okD(5,7) [OF ok that] fr(1) by auto
  have "rd s1 u j = rd s u j" if "T q = Some u" "j < 512" for q u j
    using rd_zero_range [OF fr(2) al(1) [OF that(1)] that(2) fr(5)] al(2) [OF that(1)] by simp
  then have oth: "rd s' u j = (if u = t0 \<and> j = i then table_desc t else rd s u j)"
    if "T q = Some u" "j < 512" for q u j
    using that al [OF that(1)] al [OF p(1)] fr(2) p(3) by (simp add: new(3) rd_wr rd_split_block)
  have tj: "rd s' t j = (if desc_valid ?e then block_page ?e j else 0)" if "j < 512" for j
    using that al [OF p(1)] fr(2) p(3) rd_zero_range [OF fr(2) fr(2) that fr(5)]
    by (auto simp: new(3) rd_wr rd_split_block)
  have e: "entry_ok (length p) ?e None" using pt_okD(10) [OF ok p] new(1) by simp
  have z: "\<not> desc_valid 0" by (simp add: desc_valid_def)
  have new1: "\<not> desc_valid (rd s' t j)" if "length p < 2" "j < 512" for j
    using that e z by (simp add: tj entry_ok_def)
  have new2: "(if desc_valid (rd s' t j) then Some (rd s' t j) else None) =
      (if desc_valid ?e then Some (block_page ?e j) else None)" if "length p = 2" "j < 512" for j
    using that z by (simp add: tj block_page_valid)
  have ff: "free_frames s' = free_frames s - {t}" by (simp add: new(3) fr(4))
  have pu: "page_upd s1 s'" unfolding new(3) by (rule page_upd_trans [OF page_upd_split_block page_upd_wr])
  have nr: "t \<notin> ran T" using al(2) by (auto simp: ran_def)
  have ok': "pt_ok s' root (T(p @ [i] \<mapsto> t))"
  proof (rule pt_extend [OF ok p new(1)])
    show "frame_ok s' t" using fr(2,3) ff by (simp add: frame_ok_def)
    show "page_wf s'" using page_upd_wf [OF pu fr(6)] .
    show "RAM_TOP s' \<le> 2 ^ 48" using page_upd_RAM_TOP [OF pu] fr(7) pt_okD(2) [OF ok] by simp
    show "rd s' t0 i = table_desc t" using oth [OF p(1,3)] by simp
    show "rd s' u j = rd s u j" if "T q = Some u" "j < 512" "(u, j) \<noteq> (t0, i)" for q u j
      using oth [OF that(1,2)] that(3) by auto
    show "\<not> desc_valid (rd s' t j)" if "length p < 2" "j < 512" for j by (rule new1 [OF that])
  qed (simp_all add: nr ff)
  let ?F = "ran T \<union> free_frames s"
  have f1: "touches s s1 ?F" using fr(1) by (auto simp: touches_def fr(5) zero_range_def)
  have f2: "touches s1 (split_block ?e t s1) ?F" using fr(1) by (intro touches_split_block) simp
  have f3: "touches (split_block ?e t s1) s' ?F"
    unfolding new(3) using p(3) ranI [of T p t0, OF p(1)] by (intro touches_wr) simp_all
  have f4: "touches s s' ?F" by (rule touches_trans [OF touches_trans [OF f1 f2 subset_refl] f3 subset_refl])
  have "T \<subseteq>\<^sub>m T(p @ [i] \<mapsto> t)" using new(1) by (simp add: map_le_def dom_def)
  moreover have "ran (T(p @ [i] \<mapsto> t)) \<subseteq> ?F" using new(1) fr(1) by (simp add: ran_map_upd)
  ultimately have "pt_step s T s' (T(p @ [i] \<mapsto> t))" using f4 ff by (simp add: pt_step_def)
  have old: "rd s' u j = rd s u j" if "T q = Some u" "j < 512" "(u, j) \<noteq> (t0, i)" for q u j
    using oth [OF that(1,2)] that(3) by auto
  have "walk s' root va = walk s root va" for va
    by (rule pt_extend_walk [OF ok ok' p(1,2) new(1) old new1 new2])
  then show ?thesis using ok' \<open>pt_step s T s' _\<close> by auto
qed

section \<open>Writing a page descriptor\<close>

lemma pt_write_leaf:
  assumes ok: "pt_ok s root T" and l3: "T (path_of va) = Some l3"
  shows "pt_ok (wr l3 (table_index 12 va) w s) root T"
    and "walk (wr l3 (table_index 12 va) w s) root va' =
      (if page_no va' = page_no va then (if desc_valid w then Some w else None) else walk s root va')"
proof -
  let ?s = "wr l3 (table_index 12 va) w s"
  have rd: "rd ?s u j = (if u = l3 \<and> j = table_index 12 va then w else rd s u j)" if "T q = Some u" "j < 512" for q u j
    using pt_okD(5) [OF ok that(1)] pt_okD(5) [OF ok l3] that(2) by (simp add: rd_wr)
  have inner: "rd ?s u j = rd s u j" if "T q = Some u" "j < 512" "length q < 3" for q u j
  proof -
    have "u \<noteq> l3" using pt_ok_inj [OF ok that(1), of "path_of va"] l3 that(3) by (auto simp: path_of_def)
    then show ?thesis using rd [OF that(1,2)] by simp
  qed
  have f: "frame_ok ?s t = frame_ok s t" for t by (simp add: frame_ok_def)
  have "RAM_TOP ?s = RAM_TOP s" by (simp add: wr_def)
  then show ok': "pt_ok ?s root T" using ok unfolding pt_ok_def f page_wf_wr by (auto simp: inner)
  have same: "l3' = l3 \<longleftrightarrow> path_of va' = path_of va" if "T (path_of va') = Some l3'" for l3'
    using pt_ok_inj [OF ok that, of "path_of va"] l3 that by auto
  show "walk ?s root va' =
      (if page_no va' = page_no va then (if desc_valid w then Some w else None) else walk s root va')"
  proof (cases "T (path_of va')")
    case None
    then have "page_no va' \<noteq> page_no va" using l3 same_page_iff [of va' va] by auto
    moreover have "rd ?s l2 (table_index 21 va') = rd s l2 (table_index 21 va')"
      if "T [table_index 39 va', table_index 30 va'] = Some l2" for l2 using inner [OF that] by simp
    ultimately show ?thesis using None
      by (simp add: walk_walk_tree [OF ok] walk_walk_tree [OF ok'] walk_tree_def split: option.splits)
  next
    case (Some l3')
    then show ?thesis using rd [OF Some, of "table_index 12 va'"] same [OF Some] same_page_iff [of va' va]
      by (auto simp: walk_walk_tree [OF ok] walk_walk_tree [OF ok'] walk_tree_def Let_def)
  qed
qed

lemma pt_step_leaf:
  assumes "T q = Some t" "i < 512"
  shows "pt_step s T (wr t i w s) T"
  using assms by (auto simp: pt_step_def ran_def intro!: touches_wr)

text \<open>The descriptor bits a mapping ends up with: remapping a user page keeps it executable if it was.\<close>

definition merge_flags :: "u64 option \<Rightarrow> u64 \<Rightarrow> u64" where
  "merge_flags old flags =
    (case old of
       Some e \<Rightarrow> if e AND PTE_AP_USER_RW \<noteq> 0
                  then (flags AND NOT PTE_UXN) OR ((e AND PTE_UXN) AND (flags AND PTE_UXN)) else flags
     | None \<Rightarrow> flags)"

definition page_desc :: "u64 option \<Rightarrow> nat \<Rightarrow> u64 \<Rightarrow> u64" where
  "page_desc old pa flags = (of_nat pa AND PTE_ADDR) OR merge_flags old flags"

lemma desc_valid_bit: "desc_valid e \<longleftrightarrow> bit e 0"
  using word_test_bit [of e 0] by (simp add: desc_valid_def PTE_VALID_def)

lemma page_desc_valid: "desc_valid flags \<Longrightarrow> desc_valid (page_desc old pa flags)"
  by (auto simp: desc_valid_bit page_desc_def merge_flags_def bit_or_iff bit_and_iff bit_not_iff
      PTE_UXN_def bit_push_bit_iff split: option.splits)

lemma map_one_page_ok:
  assumes ok: "pt_ok s root T" and m: "map_one_page root pa va flags s = Some s'" and v: "desc_valid flags"
  shows "\<exists>T'. pt_ok s' root T' \<and> pt_step s T s' T' \<and> T' (path_of va) \<noteq> None \<and>
    (\<forall>va'. walk s' root va' = (if page_no va' = page_no va then Some (page_desc (walk s root va) pa flags)
                              else walk s root va'))"
proof -
  let ?a = "table_index 39 va" and ?b = "table_index 30 va" and ?c = "table_index 21 va" and ?d = "table_index 12 va"
  obtain s1 l1 s2 l2 s3 l3 where
    g: "get_or_alloc_subtable root ?a s = Some (s1, l1)" "get_or_alloc_subtable l1 ?b s1 = Some (s2, l2)"
      "get_or_alloc_subtable l2 ?c s2 = Some (s3, l3)"
    and s': "s' = wr l3 ?d ((of_nat pa AND PTE_ADDR) OR
       (if desc_valid (rd s3 l3 ?d) \<and> rd s3 l3 ?d AND PTE_AP_USER_RW \<noteq> 0
        then (flags AND NOT PTE_UXN) OR ((rd s3 l3 ?d AND PTE_UXN) AND (flags AND PTE_UXN)) else flags)) s3"
    using m by (auto simp: map_one_page_def Let_def desc_valid_def split: option.splits prod.splits)
  obtain T1 where T1: "pt_ok s1 root T1" "pt_step s T s1 T1" "T1 [?a] = Some l1"
    "\<forall>va. walk s1 root va = walk s root va"
    using get_or_alloc_ok [OF ok pt_okD(3) [OF ok] _ _ g(1)] by auto
  obtain T2 where T2: "pt_ok s2 root T2" "pt_step s1 T1 s2 T2" "T2 [?a, ?b] = Some l2"
    "\<forall>va. walk s2 root va = walk s1 root va"
    using get_or_alloc_ok [OF T1(1) T1(3) _ _ g(2)] by auto
  obtain T3 where T3: "pt_ok s3 root T3" "pt_step s2 T2 s3 T3" "T3 [?a, ?b, ?c] = Some l3"
    "\<forall>va. walk s3 root va = walk s2 root va"
    using get_or_alloc_ok [OF T2(1) T2(3) _ _ g(3)] by auto
  have p: "T3 (path_of va) = Some l3" using T3(3) by (simp add: path_of_def)
  have "walk s root va = (if desc_valid (rd s3 l3 ?d) then Some (rd s3 l3 ?d) else None)"
    using walk_walk_tree [OF T3(1), of va] p T1(4) T2(4) T3(4) by (simp add: walk_tree_def Let_def)
  then have s'': "s' = wr l3 ?d (page_desc (walk s root va) pa flags) s3"
    by (auto simp: s' page_desc_def merge_flags_def)
  have "pt_step s3 T3 s' T3" unfolding s'' by (rule pt_step_leaf [of T3 "path_of va", OF p]) simp
  then have "pt_step s T s' T3"
    by (rule pt_step_trans [OF pt_step_trans [OF pt_step_trans [OF T1(2) T2(2)] T3(2)]])
  then show ?thesis
    using pt_write_leaf [OF T3(1) p, of "page_desc (walk s root va) pa flags"] p T1(4) T2(4) T3(4)
      page_desc_valid [OF v, of "walk s root va" pa]
    unfolding s'' by (intro exI [of _ T3]) simp
qed

section \<open>Mapping a range\<close>

lemma walk_page: "page_no va = page_no va' \<Longrightarrow> walk s root va = walk s root va'"
  unfolding same_page_iff path_of_def walk_def by (simp add: Let_def)

lemma map_page_list_ok:
  assumes "pt_ok s root T" "map_page_list root ps flags s = Some s'" "desc_valid flags"
    "distinct (map (\<lambda>(pa, va). page_no va) ps)"
  shows "\<exists>T'. pt_ok s' root T' \<and> pt_step s T s' T' \<and>
    (\<forall>va'. walk s' root va' =
      (case find (\<lambda>(pa, va). page_no va = page_no va') ps of
         Some (pa, va) \<Rightarrow> Some (page_desc (walk s root va') pa flags) | None \<Rightarrow> walk s root va'))"
  using assms
proof (induction ps arbitrary: s T)
  case Nil
  then show ?case using pt_step_refl by auto
next
  case (Cons p ps)
  obtain pa va where p: "p = (pa, va)" by fastforce
  obtain s1 where s1: "map_one_page root pa va flags s = Some s1" "map_page_list root ps flags s1 = Some s'"
    using Cons.prems(2) p by (auto split: option.splits)
  obtain T1 where T1: "pt_ok s1 root T1" "pt_step s T s1 T1"
    "\<forall>va'. walk s1 root va' = (if page_no va' = page_no va then Some (page_desc (walk s root va) pa flags)
                              else walk s root va')"
    using map_one_page_ok [OF Cons.prems(1) s1(1) Cons.prems(3)] by auto
  obtain T2 where T2: "pt_ok s' root T2" "pt_step s1 T1 s' T2"
    "\<forall>va'. walk s' root va' = (case find (\<lambda>(pa, va). page_no va = page_no va') ps of
         Some (pa, va) \<Rightarrow> Some (page_desc (walk s1 root va') pa flags) | None \<Rightarrow> walk s1 root va')"
    using Cons.IH [OF T1(1) s1(2) Cons.prems(3)] Cons.prems(4) by auto
  have "walk s' root va' = (case find (\<lambda>(pa, va). page_no va = page_no va') (p # ps) of
         Some (pa, va) \<Rightarrow> Some (page_desc (walk s root va') pa flags) | None \<Rightarrow> walk s root va')" for va'
  proof (cases "page_no va = page_no va'")
    case True
    have "find (\<lambda>(pa, va). page_no va = page_no va') ps = None"
      using Cons.prems(4) p True by (force simp: find_None_iff)
    then show ?thesis using T1(3) T2(3) True p walk_page [OF True, of s root] by simp
  next
    case False
    then show ?thesis using T1(3) T2(3) p by (auto split: option.splits)
  qed
  then show ?case using T2(1) pt_step_trans [OF T1(2) T2(2)] by auto
qed

lemma page_down_le: "page_down x \<le> x" and page_down_dvd: "4096 dvd page_down x"
  and page_down_gt: "x < page_down x + 4096" and page_down_mod: "x - page_down x = x mod 4096"
  by (auto simp: page_down_def minus_div_mult_eq_mod)

lemma page_no_small: "va < 2 ^ 48 \<Longrightarrow> page_no va = va div 4096"
  by (simp add: page_no_def less_mult_imp_div_less)

lemma page_down_add: "page_down x + k * 4096 = (x div 4096 + k) * 4096"
  by (simp add: page_down_def algebra_simps)

lemma range_page_no:
  assumes "x div 4096 + k < 2 ^ 36"
  shows "page_no (page_down x + k * 4096) = x div 4096 + k"
  using assms by (simp add: page_no_def page_down_add)

lemma find_map: "find P (map f xs) = map_option f (find (\<lambda>x. P (f x)) xs)"
  by (induction xs) auto

lemma find_range:
  assumes "b + n \<le> (m :: nat)"
  shows "find (\<lambda>i. b + i = y) [0..<n] = (if b \<le> y \<and> y < b + n then Some (y - b) else None)"
proof (cases "b \<le> y \<and> y < b + n")
  case True
  then obtain d where d: "y = b + d" "d < n" by (metis le_iff_add nat_add_left_cancel_less)
  have "[0..<n] ! j = j" if "j \<le> d" for j using that d(2) by simp
  then have "find (\<lambda>i. b + i = y) [0..<n] = Some d" unfolding find_Some_iff d(1) using d(2)
    by (intro exI [of _ d]) auto
  then show ?thesis using True d(1) by simp
next
  case False
  then show ?thesis by (auto simp: find_None_iff)
qed

text \<open>The pages of a range: \<open>map_pages\<close> covers every page that holds a byte of it.\<close>

definition in_pages :: "nat \<Rightarrow> nat \<Rightarrow> nat \<Rightarrow> bool" where
  "in_pages a n x \<longleftrightarrow> page_down a \<le> x \<and> page_down x < a + n"

lemma in_pages_index:
  "in_pages a n x \<longleftrightarrow> a div 4096 \<le> x div 4096 \<and> x div 4096 < a div 4096 + (n + (a - page_down a) + 0xFFF) div 4096"
proof -
  have 1: "page_down a \<le> x \<longleftrightarrow> a div 4096 \<le> x div 4096" unfolding page_down_def
    by (metis div_le_mono div_mult_self_is_m div_times_less_eq_dividend dual_order.trans mult_le_mono1 zero_less_numeral)
  have e: "n + (a - page_down a) + 0xFFF = n + a mod 4096 + 0xFFF" by (simp add: page_down_mod)
  have up: "d < (m + 0xFFF) div 4096 \<longleftrightarrow> d * 4096 < m" for d m :: nat
    using less_eq_div_iff_mult_less_eq [of 4096 "Suc d" "m + 0xFFF"] by (auto simp: Suc_le_eq)
  have "page_down x < a + n \<longleftrightarrow> x div 4096 * 4096 < a div 4096 * 4096 + (n + a mod 4096)"
    unfolding page_down_def using div_mult_mod_eq [of a 4096] by linarith
  also have "\<dots> \<longleftrightarrow> x div 4096 < a div 4096 + (n + a mod 4096 + 0xFFF) div 4096"
  proof (cases "x div 4096 < a div 4096")
    case False
    then obtain d where "x div 4096 = a div 4096 + d" by (metis le_iff_add not_less)
    then show ?thesis using up [of d "n + a mod 4096"] by (simp only: add_mult_distrib add_less_cancel_left)
  qed linarith
  finally show ?thesis unfolding in_pages_def 1 e by blast
qed

lemma pages_bound:
  assumes low: "va + sz \<le> 2 ^ 48"
  shows "va div 4096 + (sz + (va - page_down va) + 0xFFF) div 4096 \<le> 2 ^ 36"
proof -
  have "va div 4096 \<le> 2 ^ 36" using low by simp
  then obtain c where c: "2 ^ 36 = va div 4096 + c" using le_iff_add by blast
  then have "va div 4096 * 4096 + c * 4096 = 2 ^ 48" by simp
  then have "sz + va mod 4096 + 0xFFF < (c + 1) * 4096"
    using low div_mult_mod_eq [of va 4096] unfolding distrib_right by linarith
  then have "(sz + va mod 4096 + 0xFFF) div 4096 < c + 1" by (rule less_mult_imp_div_less)
  then show ?thesis using c by (simp add: page_down_mod)
qed

lemma map_pages_ok:
  assumes ok: "pt_ok s root T" and m: "map_pages root pa va sz flags s = Some s'" and v: "desc_valid flags"
    and low: "va + sz \<le> 2 ^ 48" and al: "pa mod 4096 = va mod 4096"
  shows "\<exists>T'. pt_ok s' root T' \<and> pt_step s T s' T' \<and>
    (\<forall>x < 2 ^ 48. walk s' root x =
      (if in_pages va sz x then Some (page_desc (walk s root x) (page_down pa + (page_down x - page_down va)) flags)
       else walk s root x))"
proof -
  let ?n = "(sz + (pa - page_down pa) + 0xFFF) div 4096" and ?b = "va div 4096"
  let ?f = "\<lambda>i. (page_down pa + i * 4096, page_down va + i * 4096)"
  have n: "?n = (sz + (va - page_down va) + 0xFFF) div 4096" using al by (simp add: page_down_mod)
  have bn: "?b + ?n \<le> 2 ^ 36" unfolding n by (rule pages_bound [OF low])
  have pg: "page_no (page_down va + i * 4096) = ?b + i" if "i < ?n" for i
    using range_page_no [of va i] that bn by linarith
  have list: "map_page_list root (map ?f [0..<?n]) flags s = Some s'"
    using m by (simp add: map_pages_def Let_def)
  have "distinct (map (\<lambda>(pa, va). page_no va) (map ?f [0..<?n]))"
    by (auto simp: distinct_map inj_on_def pg)
  then obtain T' where T': "pt_ok s' root T'" "pt_step s T s' T'"
    "\<forall>x. walk s' root x = (case find (\<lambda>(pa, va). page_no va = page_no x) (map ?f [0..<?n]) of
         Some (pa, va) \<Rightarrow> Some (page_desc (walk s root x) pa flags) | None \<Rightarrow> walk s root x)"
    using map_page_list_ok [OF ok list v] by auto
  have "walk s' root x = (if in_pages va sz x
      then Some (page_desc (walk s root x) (page_down pa + (page_down x - page_down va)) flags)
      else walk s root x)" if x: "x < 2 ^ 48" for x
  proof -
    have "find (\<lambda>(pa, va). page_no va = page_no x) (map ?f [0..<?n])
        = map_option ?f (find (\<lambda>i. ?b + i = x div 4096) [0..<?n])"
      unfolding find_map
      by (intro arg_cong [where f = "map_option ?f"] find_cong) (auto simp: pg page_no_small [OF x])
    also have "\<dots> = (if in_pages va sz x then Some (?f (x div 4096 - ?b)) else None)"
      unfolding find_range [OF bn] in_pages_index n [symmetric] by simp
    finally show ?thesis using T'(3)
      by (auto simp: page_down_def diff_mult_distrib)
  qed
  then show ?thesis using T'(1,2) by blast
qed

section \<open>Unmapping\<close>

lemma unmap_one_page_alt:
  "unmap_one_page root va s =
    (let e0 = rd s root (table_index 39 va) in
     if \<not> desc_valid e0 then s else
     let e1 = rd s (desc_addr e0) (table_index 30 va) in
     if \<not> desc_valid e1 then s else
     let e2 = rd s (desc_addr e1) (table_index 21 va) in
     if \<not> desc_valid e2 then s else if \<not> desc_table e2 then s else
     let l3 = desc_addr e2; e3 = rd s l3 (table_index 12 va) in
     if \<not> desc_valid e3 then s
     else tlbi va (free_page (desc_addr e3) (wr l3 (table_index 12 va) 0 s)))"
  by (simp add: unmap_one_page_def desc_valid_def desc_table_def desc_addr_def Let_def)

lemma unmap_one_page_tree:
  assumes ok: "pt_ok s root T"
  shows "unmap_one_page root va s =
    (case T (path_of va) of None \<Rightarrow> s
     | Some l3 \<Rightarrow> let e = rd s l3 (table_index 12 va) in
         if desc_valid e then tlbi va (free_page (desc_addr e) (wr l3 (table_index 12 va) 0 s)) else s)"
proof -
  let ?a = "table_index 39 va" and ?b = "table_index 30 va" and ?c = "table_index 21 va"
  note pt = pt_okD(9) [OF ok, of "[?a]" ?b] pt_okD(9) [OF ok, of "[?a, ?b]" ?c]
  have e0: "entry_ok 0 (rd s root ?a) (T [?a])" using pt_okD(10) [OF ok, of "[]" root ?a] pt_okD(3) [OF ok] by simp
  have e1: "entry_ok 1 (rd s t ?b) (T [?a, ?b])" if "T [?a] = Some t" for t
    using pt_okD(10) [OF ok, of "[?a]" t ?b] that by simp
  have e2: "entry_ok 2 (rd s t ?c) (T [?a, ?b, ?c])" if "T [?a, ?b] = Some t" for t
    using pt_okD(10) [OF ok, of "[?a, ?b]" t ?c] that by (simp add: numeral_2_eq_2)
  note defs = unmap_one_page_alt path_of_def entry_ok_def Let_def
  show ?thesis
  proof (cases "T [?a]")
    case None
    then show ?thesis using e0 pt by (simp add: defs)
  next
    case (Some t1)
    note t1 = Some
    show ?thesis
    proof (cases "T [?a, ?b]")
      case None
      then show ?thesis using e0 t1 e1 [OF t1] pt by (simp add: defs)
    next
      case (Some t2)
      then show ?thesis using e0 t1 e1 [OF t1] e2 [OF Some]
        by (cases "T [?a, ?b, ?c]") (auto simp: defs)
    qed
  qed
qed

lemma rd_free_tlbi [simp]:
  "rd (free_page a s) t i = rd s t i" "rd (tlbi va s') t i = rd s' t i" "PMEM (free_page a s) = PMEM s"
  "free_frames (tlbi va s') = free_frames s'" "managed_frames (tlbi va s') = managed_frames s'"
  "RAM_TOP (free_page a s) = RAM_TOP s" "page_wf (tlbi va s') = page_wf s'" "RAM_TOP (tlbi va s') = RAM_TOP s'"
  by (simp_all add: rd_def free_page_def Let_def tlbi_def free_frames_def managed_frames_def page_is_free_def page_wf_def)

lemma walk_free_tlbi [simp]:
  "walk (free_page a s) root va = walk s root va" "walk (tlbi x s') root va = walk s' root va"
  by (simp_all add: walk_def Let_def)

text \<open>No mapped page is itself one of the tables.\<close>

definition maps_no_table :: "'a PageState_scheme \<Rightarrow> nat \<Rightarrow> tree \<Rightarrow> bool" where
  "maps_no_table s root T \<longleftrightarrow> (\<forall>x e. walk s root x = Some e \<longrightarrow> desc_addr e \<notin> ran T)"

lemma managed_frames_wr [simp]: "managed_frames (wr t i w s) = managed_frames s"
  by (simp add: managed_frames_def wr_def)

lemma pt_ok_cong:
  assumes ok: "pt_ok s root T" and "page_wf s'" "RAM_TOP s' = RAM_TOP s"
    and "\<And>p t. T p = Some t \<Longrightarrow> t \<notin> free_frames s'" "\<And>t i. rd s' t i = rd s t i"
  shows "pt_ok s' root T"
  unfolding pt_ok_def
proof (intro conjI allI impI)
  fix p t assume "T p = Some t"
  then show "frame_ok s' t" "length p \<le> 3" using assms(4) pt_okD(5,6,8) [OF ok] by (auto simp: frame_ok_def)
qed (use assms in \<open>auto simp: pt_ok_def\<close>)

lemma pt_ok_free:
  assumes "pt_ok s root T" "a \<notin> ran T"
  shows "pt_ok (free_page a s) root T"
proof (rule pt_ok_cong [OF assms(1)])
  show "page_wf (free_page a s)" by (rule page_upd_wf [OF page_upd_free_page pt_okD(1) [OF assms(1)]])
  fix p t assume t: "T p = Some t"
  then show "t \<notin> free_frames (free_page a s)"
    using assms(2) ranI [of T p t, OF t] pt_okD(7) [OF assms(1) t]
      free_page_frames(1) [OF pt_okD(1) [OF assms(1)], of a] by auto
qed simp_all

lemma pt_ok_tlbi: "pt_ok s root T \<Longrightarrow> pt_ok (tlbi va s) root T"
  by (rule pt_ok_cong) (auto simp: pt_okD(1,7))

lemma unmap_one_page_ok:
  assumes ok: "pt_ok s root T" and nt: "maps_no_table s root T"
  shows "pt_ok (unmap_one_page root va s) root T" (is ?A)
    and "walk (unmap_one_page root va s) root x =
      (if page_no x = page_no va \<and> T (path_of va) \<noteq> None then None else walk s root x)" (is ?B)
    and "maps_no_table (unmap_one_page root va s) root T" (is ?C)
proof -
  have "?A \<and> (\<forall>x. walk (unmap_one_page root va s) root x =
      (if page_no x = page_no va \<and> T (path_of va) \<noteq> None then None else walk s root x))"
  proof (cases "T (path_of va)")
    case None
    then show ?thesis using ok by (simp add: unmap_one_page_tree [OF ok])
  next
    case (Some l3)
    let ?e = "rd s l3 (table_index 12 va)"
    have w: "walk s root va = (if desc_valid ?e then Some ?e else None)"
      using Some by (simp add: walk_walk_tree [OF ok] walk_tree_def Let_def)
    show ?thesis
    proof (cases "desc_valid ?e")
      case False
      then have "walk s root x = None" if "page_no x = page_no va" for x using walk_page [OF that, of s root] w by simp
      then show ?thesis using False Some ok by (auto simp: unmap_one_page_tree [OF ok] Let_def)
    next
      case True
      have z: "\<not> desc_valid 0" by (simp add: desc_valid_def)
      have "desc_addr ?e \<notin> ran T" using nt w True by (simp add: maps_no_table_def)
      then have "pt_ok (free_page (desc_addr ?e) (wr l3 (table_index 12 va) 0 s)) root T"
        by (intro pt_ok_free pt_write_leaf(1) [OF ok Some])
      then have "pt_ok (unmap_one_page root va s) root T"
        using Some True by (simp add: unmap_one_page_tree [OF ok] pt_ok_tlbi)
      moreover have "walk (unmap_one_page root va s) root x =
          (if page_no x = page_no va then None else walk s root x)" for x
        using Some True z pt_write_leaf(2) [OF ok Some, of 0 x] by (simp add: unmap_one_page_tree [OF ok] Let_def)
      ultimately show ?thesis using Some by simp
    qed
  qed
  then show ?A ?B by blast+
  then show ?C using nt \<open>?A \<and> _\<close> unfolding maps_no_table_def by (metis option.distinct(1))
qed

lemma TLBI_ops [simp]:
  "TLBI (free_page a s) = TLBI s" "TLBI (wr t i w s) = TLBI s" "TLBI (tlbi va s) = va div 4096 # TLBI s"
  by (simp_all add: free_page_def Let_def wr_def tlbi_def)

lemma unmap_one_page_freed:
  assumes ok: "pt_ok s root T" and nt: "maps_no_table s root T"
    and w: "walk s root x = Some e" "walk (unmap_one_page root va s) root x = None"
  shows "page_no va = page_no x" "va div 4096 \<in> set (TLBI (unmap_one_page root va s))"
    "desc_addr e \<in> managed_frames s \<Longrightarrow> desc_addr e \<in> free_frames (unmap_one_page root va s)"
proof -
  have "page_no x = page_no va \<and> T (path_of va) \<noteq> None"
    using unmap_one_page_ok(2) [OF ok nt, of va x] w by (auto split: if_splits)
  then obtain l3 where l3: "page_no x = page_no va" "T (path_of va) = Some l3" by auto
  let ?e = "rd s l3 (table_index 12 va)"
  have e: "desc_valid ?e" "e = ?e" using walk_page [OF l3(1), of s root] w(1) l3(2)
    by (auto simp: walk_walk_tree [OF ok] walk_tree_def Let_def split: if_splits)
  then have u: "unmap_one_page root va s = tlbi va (free_page (desc_addr e) (wr l3 (table_index 12 va) 0 s))"
    using l3(2) by (simp add: unmap_one_page_tree [OF ok] Let_def)
  show "page_no va = page_no x" using l3 by simp
  show "va div 4096 \<in> set (TLBI (unmap_one_page root va s))" unfolding u by simp
  show "desc_addr e \<in> free_frames (unmap_one_page root va s)" if "desc_addr e \<in> managed_frames s"
    unfolding u using that free_page_frames(1) [of "wr l3 (table_index 12 va) 0 s" "desc_addr e"] pt_okD(1) [OF ok]
    by simp
qed

lemma unmap_one_page_mono:
  assumes ok: "pt_ok s root T"
  shows "set (TLBI s) \<subseteq> set (TLBI (unmap_one_page root va s))"
    "free_frames s \<subseteq> free_frames (unmap_one_page root va s)"
    "managed_frames (unmap_one_page root va s) = managed_frames s"
proof -
  have "page_wf (wr l i 0 s)" for l i using pt_okD(1) [OF ok] by simp
  note f = free_page_frames [OF this]
  show "set (TLBI s) \<subseteq> set (TLBI (unmap_one_page root va s))"
    "free_frames s \<subseteq> free_frames (unmap_one_page root va s)"
    "managed_frames (unmap_one_page root va s) = managed_frames s"
    using f by (auto simp: unmap_one_page_tree [OF ok] Let_def split: option.splits)
qed

lemma unmap_list_ok:
  assumes "pt_ok s root T" "maps_no_table s root T" "s' = fold (unmap_one_page root) vas s"
  shows "pt_ok s' root T \<and> maps_no_table s' root T \<and> set (TLBI s) \<subseteq> set (TLBI s') \<and>
    free_frames s \<subseteq> free_frames s' \<and> managed_frames s' = managed_frames s \<and>
    (\<forall>x. walk s' root x = (if page_no x \<in> page_no ` set vas \<and> T (path_of x) \<noteq> None then None else walk s root x)) \<and>
    (\<forall>x e. walk s root x = Some e \<longrightarrow> walk s' root x = None \<longrightarrow>
       (\<exists>va \<in> set vas. page_no va = page_no x \<and> va div 4096 \<in> set (TLBI s')) \<and>
       (desc_addr e \<in> managed_frames s \<longrightarrow> desc_addr e \<in> free_frames s'))"
  using assms
proof (induction vas arbitrary: s)
  case (Cons va vas)
  let ?s = "unmap_one_page root va s"
  note one = unmap_one_page_ok [OF Cons.prems(1,2), of va] and mono = unmap_one_page_mono [OF Cons.prems(1), of va]
  note IH = Cons.IH [OF one(1,3)]
  have s': "s' = fold (unmap_one_page root) vas ?s" using Cons.prems(3) by simp
  have path: "T (path_of x) = T (path_of va)" if "page_no x = page_no va" for x
    using that by (simp add: same_page_iff)
  have "walk s' root x = (if page_no x \<in> page_no ` set (va # vas) \<and> T (path_of x) \<noteq> None then None
      else walk s root x)" for x
    using IH [OF s'] one(2) [of x] path [of x] by auto
  moreover have "(\<exists>v \<in> set (va # vas). page_no v = page_no x \<and> v div 4096 \<in> set (TLBI s')) \<and>
      (desc_addr e \<in> managed_frames s \<longrightarrow> desc_addr e \<in> free_frames s')"
    if x: "walk s root x = Some e" "walk s' root x = None" for x e
  proof (cases "walk ?s root x")
    case None
    note f = unmap_one_page_freed [OF Cons.prems(1,2) x(1) None]
    then show ?thesis using IH [OF s'] by auto
  next
    case (Some e')
    then have "e' = e" using one(2) [of x] x(1) by (auto split: if_splits)
    then show ?thesis using IH [OF s'] x(2) Some mono(3) by auto
  qed
  ultimately show ?case using IH [OF s'] mono by auto
qed simp

end
