(* ===== verification/Address_Space.thy ===== *)
theory Address_Space
  imports Page_Table
begin

text \<open>
  What user address spaces contain: the properties of \<open>map_pages\<close> and \<open>create_process_table\<close>
  (\<^verbatim>\<open>kernel/src/memory/vmm.rs\<close>), on top of the table walk of theory \<open>Page_Table\<close>.
\<close>

section \<open>A fresh root\<close>

lemma pt_ok_fresh:
  assumes "page_wf s" "RAM_TOP s \<le> 2 ^ 48" "alloc_table s = Some (s', root)"
  shows "pt_ok s' root [[] \<mapsto> root]" "walk s' root va = None" "touches s s' (free_frames s)"
    "root \<in> free_frames s" "free_frames s' \<subseteq> free_frames s"
proof -
  note fr = alloc_table_fresh [OF assms]
  have z: "rd s' root i = 0" if "i < 512" for i using rd_zero_range [OF fr(2) fr(2) that fr(5)] by simp
  have nv: "\<not> desc_valid 0" by (simp add: desc_valid_def)
  show "pt_ok s' root [[] \<mapsto> root]"
    unfolding pt_ok_def
  proof (intro conjI allI impI)
    fix p :: "nat list" and t i assume "[[] \<mapsto> root] p = Some t \<and> length p < 3 \<and> i < (512 :: nat)"
    then show "entry_ok (length p) (rd s' t i) ([[] \<mapsto> root] (p @ [i]))"
      using z nv by (auto simp: entry_ok_def split: if_splits)
  qed (use fr assms in \<open>auto simp: frame_ok_def split: if_splits\<close>)
  show "walk s' root va = None" using z nv by (simp add: walk_def)
  show "touches s s' (free_frames s)" using fr(1) by (auto simp: touches_def fr(5) zero_range_def)
  show "root \<in> free_frames s" "free_frames s' \<subseteq> free_frames s" using fr by auto
qed

section \<open>Mapping a range\<close>

text \<open>
  C1. Mapping a range: when \<open>map_pages\<close> returns, each address of the range translates to its physical
  page with the requested descriptor bits (kept executable where a user mapping was), every other
  address translates as before, the tables still form a tree, and memory has changed only inside
  the tables and in frames that were free.
\<close>

theorem map_pages_refines:
  assumes "pt_ok s root T" "map_pages root pa va sz flags s = Some s'" "desc_valid flags"
    and "va + sz \<le> 2 ^ 48" "pa mod 4096 = va mod 4096"
  shows "\<exists>T'. pt_ok s' root T' \<and> T \<subseteq>\<^sub>m T' \<and> touches s s' (ran T \<union> free_frames s) \<and>
    (\<forall>x < 2 ^ 48. walk s' root x =
      (if in_pages va sz x then Some (page_desc (walk s root x) (page_down pa + (page_down x - page_down va)) flags)
       else walk s root x))"
  using map_pages_ok [OF assms] unfolding pt_step_def by blast

lemma page_example_room: "page_wf page_example" "RAM_TOP page_example \<le> 2 ^ 48" "free_pages page_example = 6"
  by (rule page_example_wf) code_simp+

theorem map_pages_refines_witness:
  "\<exists>(s :: PageState) root T s'. pt_ok s root T \<and> map_pages root 0x7000 0x7000 0x800 (PTE_VALID OR PTE_TABLE) s = Some s' \<and>
     walk s root 0x7abc = None \<and> walk s' root 0x7abc = Some (0x7000 OR (PTE_VALID OR PTE_TABLE)) \<and>
     walk s' root 0x8000 = None"
proof -
  obtain s root where s: "alloc_table page_example = Some (s, root)" "free_pages s = 5" "page_wf s"
    using alloc_table_success [of page_example] page_example_room by auto
  note f = pt_ok_fresh [OF page_example_room(1,2) s(1)]
  have "map_pages root 0x7000 0x7000 0x800 (PTE_VALID OR PTE_TABLE) s =
      map_page_list root [(0x7000, 0x7000)] (PTE_VALID OR PTE_TABLE) s"
    by (simp add: map_pages_def page_down_def Let_def)
  then obtain s' where s': "map_pages root 0x7000 0x7000 0x800 (PTE_VALID OR PTE_TABLE) s = Some s'"
    using map_page_list_success [OF s(3), of "[(0x7000, 0x7000)]" root "PTE_VALID OR PTE_TABLE"] s(2) by auto
  have "desc_valid (PTE_VALID OR PTE_TABLE)" by (simp add: desc_valid_def pte_defs)
  from map_pages_refines [OF f(1) s' this] have w: "walk s' root x =
      (if in_pages 0x7000 0x800 x
       then Some (page_desc (walk s root x) (page_down 0x7000 + (page_down x - page_down 0x7000)) (PTE_VALID OR PTE_TABLE))
       else walk s root x)" if "x < 2 ^ 48" for x using that by auto
  have "walk s' root 0x7abc = Some (0x7000 OR (PTE_VALID OR PTE_TABLE))" "walk s' root 0x8000 = None"
    using w [of "0x7abc"] w [of "0x8000"] f(2)
    by (simp_all add: in_pages_def page_down_def page_desc_def merge_flags_def PTE_ADDR_def)
  then show ?thesis
    using s' f(1,2) by (intro exI [of _ s] exI [of _ root] exI [of _ "[[] \<mapsto> root]"] exI [of _ s']) simp
qed

section \<open>Process tables\<close>

definition user_ok :: "u64 \<Rightarrow> bool" where "user_ok d \<longleftrightarrow> d AND PTE_AP_USER_RW \<noteq> 0"
definition user_exec :: "u64 \<Rightarrow> bool" where "user_exec d \<longleftrightarrow> d AND PTE_UXN = 0"
definition kernel_exec :: "u64 \<Rightarrow> bool" where "kernel_exec d \<longleftrightarrow> d AND PTE_PXN = 0"

definition seg_covers :: "ProcSegment \<Rightarrow> nat \<Rightarrow> bool" where
  "seg_covers seg x \<longleftrightarrow> 0 < seg_size seg \<and> in_pages (seg_pa seg) (seg_size seg) x"

definition user_segment :: "ProcSegment \<Rightarrow> bool" where
  "user_segment seg \<longleftrightarrow> seg_el0 seg \<and> seg_pa seg + seg_size seg \<le> 2 ^ 48"

lemma desc_bits:
  "user_ok d \<longleftrightarrow> bit d 6" "user_exec d \<longleftrightarrow> \<not> bit d 54" "kernel_exec d \<longleftrightarrow> \<not> bit d 53"
  using word_test_bit [of d 6] word_test_bit [of d 54] word_test_bit [of d 53]
  by (auto simp: user_ok_def user_exec_def kernel_exec_def PTE_AP_USER_RW_def PTE_UXN_def PTE_PXN_def)

lemma seg_flags_bits:
  "bit (seg_flags seg) 0" "bit (seg_flags seg) 53" "bit (seg_flags seg) 54 \<longleftrightarrow> \<not> seg_exec seg"
  "bit (seg_flags seg) 6 \<longleftrightarrow> seg_el0 seg" "seg_flags seg AND PTE_ADDR = 0"
  by (auto simp: seg_flags_def pte_defs PTE_ADDR_def Let_def)

text \<open>What a table in which the segments \<open>segs\<close> have been mapped looks like at address \<open>x\<close>.\<close>

definition isolated :: "'a PageState_scheme \<Rightarrow> nat \<Rightarrow> ProcSegment list \<Rightarrow> nat \<Rightarrow> bool" where
  "isolated s root segs x \<longleftrightarrow>
    (case walk s root x of
       None \<Rightarrow> \<not> (\<exists>seg \<in> set segs. seg_covers seg x)
     | Some d \<Rightarrow> (\<exists>seg \<in> set segs. seg_covers seg x) \<and> desc_addr d = page_down x \<and> user_ok d \<and>
         \<not> kernel_exec d \<and> (user_exec d \<longleftrightarrow> (\<exists>seg \<in> set segs. seg_covers seg x \<and> seg_exec seg)))"

lemma page_desc_bits:
  assumes "k \<in> {6, 53, 54}"
  shows "bit (page_desc old pa fl) k \<longleftrightarrow> bit (merge_flags old fl) k"
  using assms by (auto simp: page_desc_def bit_or_iff bit_and_iff bit_PTE_ADDR)

lemma merge_flags_bits:
  "bit (merge_flags old fl) 6 \<longleftrightarrow> bit fl 6" "bit (merge_flags old fl) 53 \<longleftrightarrow> bit fl 53"
  "bit (merge_flags old fl) 54 \<longleftrightarrow>
     bit fl 54 \<and> (case old of Some e \<Rightarrow> user_ok e \<longrightarrow> bit e 54 | None \<Rightarrow> True)"
  by (auto simp: merge_flags_def user_ok_def PTE_UXN_def bit_simps split: option.splits)

lemma merge_flags_addr: "fl AND PTE_ADDR = 0 \<Longrightarrow> merge_flags old fl AND PTE_ADDR = 0"
proof -
  assume "fl AND PTE_ADDR = 0"
  then have n: "\<not> (bit fl k \<and> 12 \<le> k \<and> k < 48)" for k by (metis bit_0_eq bit_PTE_ADDR bit_and_iff bot_apply bot_bool_def)
  show ?thesis
    by (rule bit_word_eqI) (use n in \<open>auto simp: merge_flags_def bit_simps bit_PTE_ADDR split: option.splits\<close>)
qed

lemma isolated_step:
  assumes iso: "isolated s root segs x" and seg: "user_segment seg" "0 < seg_size seg" and x: "x < 2 ^ 48"
    and w: "walk s' root x = (if in_pages (seg_pa seg) (seg_size seg) x
      then Some (page_desc (walk s root x) (page_down x) (seg_flags seg)) else walk s root x)"
  shows "isolated s' root (segs @ [seg]) x"
proof (cases "in_pages (seg_pa seg) (seg_size seg) x")
  case False
  then show ?thesis using iso w by (auto simp: isolated_def seg_covers_def split: option.splits)
next
  case True
  let ?d = "page_desc (walk s root x) (page_down x) (seg_flags seg)"
  have addr: "desc_addr ?d = page_down x"
    unfolding page_desc_def using x page_down_le [of x]
    by (intro desc_addr_page page_down_dvd merge_flags_addr seg_flags_bits) linarith
  have cov: "seg_covers seg x" using True seg(2) by (simp add: seg_covers_def)
  have el0: "seg_el0 seg" using seg(1) by (simp add: user_segment_def)
  have ux: "bit ?d 54 \<longleftrightarrow> \<not> seg_exec seg \<and> (case walk s root x of Some e \<Rightarrow> bit e 54 | None \<Rightarrow> True)"
    using iso by (auto simp: page_desc_bits merge_flags_bits seg_flags_bits isolated_def split: option.splits)
  have "user_exec ?d \<longleftrightarrow> (\<exists>sg \<in> set (segs @ [seg]). seg_covers sg x \<and> seg_exec sg)"
    using iso cov by (auto simp: desc_bits(2) ux isolated_def split: option.splits)
  then show ?thesis using addr cov el0 True w
    by (auto simp: isolated_def desc_bits page_desc_bits merge_flags_bits seg_flags_bits)
qed

lemma map_segments_ok:
  assumes "pt_ok s root T" "map_segments root segs s = Some s'" "\<forall>seg \<in> set segs. user_segment seg"
    "\<forall>x < 2 ^ 48. isolated s root done x"
  shows "\<exists>T'. pt_ok s' root T' \<and> pt_step s T s' T' \<and> (\<forall>x < 2 ^ 48. isolated s' root (done @ segs) x)"
  using assms
proof (induction segs arbitrary: s T "done")
  case Nil
  then show ?case using pt_step_refl by auto
next
  case (Cons seg segs)
  have iso: "isolated s root (done @ [seg]) x" if "seg_size seg = 0" "x < 2 ^ 48" for x
  proof -
    have "isolated s root done x" using Cons.prems(4) that(2) by blast
    then show ?thesis using that(1) by (simp add: isolated_def seg_covers_def split: option.splits)
  qed
  show ?case
  proof (cases "seg_size seg = 0")
    case True
    then show ?thesis using Cons.IH [OF Cons.prems(1), of "done @ [seg]"] Cons.prems(2,3) iso by auto
  next
    case False
    obtain s1 where s1: "map_pages root (seg_pa seg) (seg_pa seg) (seg_size seg) (seg_flags seg) s = Some s1"
      "map_segments root segs s1 = Some s'" using Cons.prems(2) False by (auto split: option.splits)
    have u: "user_segment seg" using Cons.prems(3) by simp
    have v: "desc_valid (seg_flags seg)" by (simp add: desc_valid_bit seg_flags_bits)
    obtain T1 where T1: "pt_ok s1 root T1" "pt_step s T s1 T1"
      "\<forall>x < 2 ^ 48. walk s1 root x = (if in_pages (seg_pa seg) (seg_size seg) x
        then Some (page_desc (walk s root x) (page_down (seg_pa seg) + (page_down x - page_down (seg_pa seg))) (seg_flags seg))
        else walk s root x)"
      using map_pages_ok [OF Cons.prems(1) s1(1) v] u by (auto simp: user_segment_def)
    have "page_down a + (page_down x - page_down a) = page_down x" if "in_pages a n x" for a n x
      using that unfolding in_pages_index by (simp add: page_down_def)
    then have "isolated s1 root (done @ [seg]) x" if "x < 2 ^ 48" for x
      using isolated_step [OF _ u _ that, of s root "done" s1] Cons.prems(4) T1(3) that False by simp
    then obtain T2 where "pt_ok s' root T2" "pt_step s1 T1 s' T2" "\<forall>x < 2 ^ 48. isolated s' root ((done @ [seg]) @ segs) x"
      using Cons.IH [OF T1(1) s1(2), of "done @ [seg]"] Cons.prems(3) by auto
    then show ?thesis using pt_step_trans [OF T1(2)] by auto
  qed
qed

lemma create_process_table_ok:
  assumes "page_wf s" "RAM_TOP s \<le> 2 ^ 48" "\<forall>seg \<in> set segs. user_segment seg"
    and "create_process_table segs s = Some (s', root)"
  shows "\<exists>T. pt_ok s' root T \<and> ran T \<subseteq> free_frames s \<and> touches s s' (free_frames s) \<and>
    (\<forall>x < 2 ^ 48. isolated s' root segs x)"
proof -
  obtain s1 where s1: "alloc_table s = Some (s1, root)" "map_segments root segs s1 = Some s'"
    using assms(4) by (auto simp: create_process_table_def split: option.splits)
  note f = pt_ok_fresh [OF assms(1,2) s1(1)]
  have "\<forall>x < 2 ^ 48. isolated s1 root [] x" using f(2) by (simp add: isolated_def)
  then obtain T' where T': "pt_ok s' root T'" "pt_step s1 [[] \<mapsto> root] s' T'" "\<forall>x < 2 ^ 48. isolated s' root segs x"
    using map_segments_ok [OF f(1) s1(2) assms(3), of "[]"] by auto
  have sub: "ran ([[] \<mapsto> root] :: tree) \<union> free_frames s1 \<subseteq> free_frames s" using f(4,5) by auto
  have st: "touches s1 s' (ran ([[] \<mapsto> root] :: tree) \<union> free_frames s1)" using T'(2) by (simp only: pt_step_def)
  have "ran T' \<subseteq> ran ([[] \<mapsto> root] :: tree) \<union> free_frames s1" using T'(2) by (simp only: pt_step_def)
  then have "ran T' \<subseteq> free_frames s" using sub by (rule subset_trans)
  then show ?thesis using T' touches_trans [OF f(3) st sub] by blast
qed

text \<open>
  C2. Process isolation: the table \<open>create_process_table\<close> builds for user segments translates an
  address if and only if a page of one of the segments holds it, and then to the identical physical
  page, readable at EL0, never executable at EL1, and executable at EL0 exactly where one of these
  segments is executable.  Nothing else of the address space is reachable, and building the table
  changes memory only in frames that were free.
\<close>

theorem process_table_isolated:
  assumes "page_wf s" "RAM_TOP s \<le> 2 ^ 48" "\<forall>seg \<in> set segs. user_segment seg"
    and "create_process_table segs s = Some (s', root)"
  shows "(\<forall>x < 2 ^ 48. isolated s' root segs x) \<and> touches s s' (free_frames s) \<and> root \<in> free_frames s"
proof -
  obtain T where T: "pt_ok s' root T" "ran T \<subseteq> free_frames s" "touches s s' (free_frames s)"
    "\<forall>x < 2 ^ 48. isolated s' root segs x" using create_process_table_ok [OF assms] by blast
  have "root \<in> ran T" by (rule ranI [of T "[]", OF pt_okD(3) [OF T(1)]])
  then show ?thesis using T by blast
qed

definition code_segment :: ProcSegment where
  "code_segment = \<lparr>seg_pa = 0x48000000, seg_size = 0x123, seg_el0 = True, seg_exec = True, seg_dev = False\<rparr>"

theorem process_table_isolated_witness:
  "\<exists>s' root. create_process_table [code_segment] page_example = Some (s', root) \<and>
     walk s' root 0x40080000 = None \<and> (\<exists>d. walk s' root 0x48000ABC = Some d \<and> desc_addr d = 0x48000000 \<and> user_exec d)"
proof -
  obtain s1 root where s1: "alloc_table page_example = Some (s1, root)" "free_pages s1 = 5" "page_wf s1"
    using alloc_table_success [of page_example] page_example_room by auto
  have "map_segments root [code_segment] s1 = map_page_list root [(0x48000000, 0x48000000)] (seg_flags code_segment) s1"
    by (simp add: code_segment_def map_pages_def page_down_def Let_def split: option.splits)
  then obtain s' where s': "create_process_table [code_segment] page_example = Some (s', root)"
    using map_page_list_success [OF s1(3), of "[(0x48000000, 0x48000000)]" root "seg_flags code_segment"] s1
    by (auto simp: create_process_table_def)
  have "\<forall>seg \<in> set [code_segment]. user_segment seg" by (simp add: user_segment_def code_segment_def)
  from process_table_isolated [OF page_example_room(1,2) this s']
  have i: "isolated s' root [code_segment] 0x40080000" "isolated s' root [code_segment] 0x48000ABC" by auto
  have "\<not> seg_covers code_segment 0x40080000" "seg_covers code_segment 0x48000ABC" "seg_exec code_segment"
    "page_down 0x48000ABC = 0x48000000"
    by (simp_all add: seg_covers_def code_segment_def in_pages_def page_down_def)
  then show ?thesis using i s' by (auto simp: isolated_def split: option.splits)
qed

section \<open>Unmapping\<close>

text \<open>
  C18. Unmapping: after \<open>unmap_pages\<close> no address of the range has a page translation left (addresses
  inside a 2 MiB block keep theirs), every other address is translated as before, each address that
  lost its translation has had its TLB entry invalidated and its frame, if the allocator manages it,
  is free again, and the tables still form a tree.
\<close>

theorem unmap_pages_correct:
  assumes "pt_ok s root T" "maps_no_table s root T" "va + sz \<le> 2 ^ 48"
    and "s' = unmap_pages root va sz s"
  shows "pt_ok s' root T \<and>
    (\<forall>x < 2 ^ 48. walk s' root x =
      (if in_pages va sz x \<and> T (path_of x) \<noteq> None then None else walk s root x)) \<and>
    (\<forall>x e. x < 2 ^ 48 \<longrightarrow> walk s root x = Some e \<longrightarrow> walk s' root x = None \<longrightarrow>
       x div 4096 \<in> set (TLBI s') \<and> (desc_addr e \<in> managed_frames s \<longrightarrow> desc_addr e \<in> free_frames s'))"
proof -
  let ?n = "(sz + (va - page_down va) + 0xFFF) div 4096" and ?b = "va div 4096"
  let ?vas = "map (\<lambda>i. page_down va + i * 4096) [0..<?n]"
  have bn: "?b + ?n \<le> 2 ^ 36" by (rule pages_bound [OF assms(3)])
  have s': "s' = fold (unmap_one_page root) ?vas s"
    by (simp add: assms(4) unmap_pages_def Let_def fold_map comp_def)
  note u = unmap_list_ok [OF assms(1,2) s']
  have pg: "page_no (page_down va + i * 4096) = ?b + i" "(page_down va + i * 4096) div 4096 = ?b + i" if "i < ?n" for i
    using range_page_no [of va i] that bn by (auto simp: page_down_add)
  have mem: "page_no x \<in> page_no ` set ?vas \<longleftrightarrow> in_pages va sz x" if x: "x < 2 ^ 48" for x
  proof -
    have "page_no ` set ?vas = (\<lambda>i. ?b + i) ` {0..<?n}"
      unfolding set_map set_upt image_image by (rule image_cong) (simp_all add: pg)
    also have "\<dots> = {?b..<?b + ?n}" by (simp add: add.commute)
    finally show ?thesis by (simp only: page_no_small [OF x] in_pages_index atLeastLessThan_iff)
  qed
  have flushed: "x div 4096 \<in> set (TLBI s')" if v: "x < 2 ^ 48" "v \<in> set ?vas" "page_no v = page_no x" "v div 4096 \<in> set (TLBI s')" for x v
  proof -
    obtain i where "i < ?n" "v = page_down va + i * 4096" using v(2) by auto
    then have "v div 4096 = x div 4096" using pg [of i] v(3) page_no_small [OF v(1)] by simp
    then show ?thesis using v(4) by simp
  qed
  have "walk s' root x = (if in_pages va sz x \<and> T (path_of x) \<noteq> None then None else walk s root x)"
    if "x < 2 ^ 48" for x using u mem [OF that] by simp
  moreover have "x div 4096 \<in> set (TLBI s') \<and> (desc_addr e \<in> managed_frames s \<longrightarrow> desc_addr e \<in> free_frames s')"
    if "x < 2 ^ 48" "walk s root x = Some e" "walk s' root x = None" for x e
    using u that flushed [OF that(1)] by blast
  ultimately show ?thesis using u by blast
qed

definition vmm_example :: VmmState where
  "vmm_example = \<lparr>BITMAP = BITMAP page_example, PAGE_BASE = 0x41000000, NUM_PAGES = 8, RAM_TOP = 0x41008000,
     PMEM = (\<lambda>_. 0), TTBR0_ADDR = 0, TTBR1_ADDR = 0, USER_TTBR0_ADDR = 0, TLBI = []\<rparr>"

lemma vmm_example_room:
  "page_wf vmm_example" "RAM_TOP vmm_example \<le> 2 ^ 48" "free_pages vmm_example = 6"
  "0x41003000 \<notin> free_frames vmm_example" "0x41003000 \<in> managed_frames vmm_example"
proof -
  show "page_wf vmm_example" "RAM_TOP vmm_example \<le> 2 ^ 48"
    by (simp_all add: page_wf_def vmm_example_def page_example_def PAGE_SIZE_def)
  show "free_pages vmm_example = 6" by code_simp
  have "\<not> bitmap_test (BITMAP vmm_example) 3" by code_simp
  then show "0x41003000 \<notin> free_frames vmm_example"
    by (auto simp: free_frames_def page_is_free_def vmm_example_def PAGE_SIZE_def)
  show "0x41003000 \<in> managed_frames vmm_example"
    by (auto simp: managed_frames_def vmm_example_def PAGE_SIZE_def intro!: exI [of _ 3])
qed

theorem unmap_pages_correct_witness:
  "\<exists>(s :: VmmState) root T. pt_ok s root T \<and> maps_no_table s root T \<and> walk s root 0x41003008 \<noteq> None \<and>
     walk (unmap_pages root 0x41003000 0x1000 s) root 0x41003008 = None \<and>
     0x41003000 \<in> free_frames (unmap_pages root 0x41003000 0x1000 s)"
proof -
  let ?v = "0x41003000 :: nat" and ?fl = "PTE_VALID OR PTE_TABLE"
  obtain s1 root where s1: "alloc_table vmm_example = Some (s1, root)" "free_pages s1 = 5" "page_wf s1"
    using alloc_table_success [of vmm_example] vmm_example_room by auto
  note f = pt_ok_fresh [OF vmm_example_room(1,2) s1(1)]
  obtain s where s: "map_one_page root ?v ?v ?fl s1 = Some s"
    using map_one_page_success [OF s1(3), of root ?v ?v ?fl] s1(2) by auto
  have v: "desc_valid ?fl" by (simp add: desc_valid_def pte_defs)
  obtain T where T: "pt_ok s root T" "pt_step s1 [[] \<mapsto> root] s T" "T (path_of ?v) \<noteq> None"
    "\<forall>x. walk s root x = (if page_no x = page_no ?v then Some (page_desc None ?v ?fl) else None)"
    using map_one_page_ok [OF f(1) s v] f(2) by auto
  have d: "desc_addr (page_desc None ?v ?fl) = ?v"
    unfolding page_desc_def merge_flags_def by (simp add: desc_addr_def PTE_ADDR_def pte_defs)
  have "ran T \<subseteq> free_frames vmm_example" using T(2) f(4,5) by (auto simp: pt_step_def)
  then have nt: "maps_no_table s root T" using T(4) d vmm_example_room(4) by (auto simp: maps_no_table_def split: if_splits)
  have m: "managed_frames s = managed_frames vmm_example"
    using page_upd_alloc_table [OF s1(1)] page_upd_map_one_page [OF s] by (auto simp: page_upd_def managed_frames_def)
  have pg: "page_no 0x41003008 = page_no ?v" "path_of 0x41003008 = path_of ?v"
    by (simp_all add: page_no_def path_of_def table_index_def)
  have w: "walk s root 0x41003008 = Some (page_desc None ?v ?fl)" using T(4) pg(1) by simp
  have ip: "in_pages ?v 0x1000 0x41003008" by (simp add: in_pages_def page_down_def)
  have u: "\<forall>x < 2 ^ 48. walk (unmap_pages root ?v 0x1000 s) root x =
      (if in_pages ?v 0x1000 x \<and> T (path_of x) \<noteq> None then None else walk s root x)"
    "\<forall>x e. x < 2 ^ 48 \<longrightarrow> walk s root x = Some e \<longrightarrow> walk (unmap_pages root ?v 0x1000 s) root x = None \<longrightarrow>
      desc_addr e \<in> managed_frames s \<longrightarrow> desc_addr e \<in> free_frames (unmap_pages root ?v 0x1000 s)"
    using unmap_pages_correct [OF T(1) nt, of ?v "0x1000", OF _ refl] by simp_all
  have "walk (unmap_pages root ?v 0x1000 s) root 0x41003008 = None" using u(1) ip T(3) pg(2) by simp
  moreover from this have "?v \<in> free_frames (unmap_pages root ?v 0x1000 s)"
    using u(2) [rule_format, OF _ w] d m vmm_example_room(5) by simp
  ultimately show ?thesis using T(1) nt w by (intro exI [of _ s] exI [of _ root] exI [of _ T]) simp
qed

end
