(* ===== verification/Spawn.thy ===== *)
theory Spawn
  imports Sched_Props Address_Space
begin

text \<open>
  What spawning a user task does to memory: it writes only frames that were free, and the address
  space of the new task holds its segments and its stack and nothing else.  This connects the page
  allocator, the page tables and the scheduler.
\<close>

section \<open>Memory touched by the stages\<close>

lemma in_block_frames:
  assumes "a \<le> x" "x < a + n * 4096"
  shows "\<exists>t \<in> frames a n. t \<le> x \<and> x < t + 4096"
proof (intro bexI conjI)
  let ?t = "a + (x - a) div 4096 * 4096"
  have "(x - a) div 4096 < n" using assms by (simp add: less_mult_imp_div_less)
  then show "?t \<in> frames a n" by (auto simp: frames_def PAGE_SIZE_def)
  show "?t \<le> x" using assms(1) div_times_less_eq_dividend [of "x - a" 4096] by linarith
  show "x < ?t + 4096" using assms(1) div_mult_mod_eq [of "x - a" 4096] mod_less_divisor [of 4096 "x - a"] by linarith
qed

lemma alloc_pages_bounds:
  assumes "page_wf s" "alloc_pages n s = (s', Some a)"
  shows "4096 dvd a" "a + n * 4096 \<le> RAM_TOP s" "RAM_TOP s' = RAM_TOP s" "page_wf s'"
    "touches s s' (frames a n)"
proof -
  obtain k where k: "0 < n" "a = PAGE_BASE s + k * PAGE_SIZE" "k + n \<le> NUM_PAGES s"
    "\<forall>j. k \<le> j \<and> j < k + n \<longrightarrow> page_is_free s j"
    "\<forall>j. page_is_free s' j \<longleftrightarrow> page_is_free s j \<and> \<not> (k \<le> j \<and> j < k + n)"
    "s' = s\<lparr>BITMAP := BITMAP s', PMEM := zero_range a (n * PAGE_SIZE) (PMEM s)\<rparr>"
    "length (BITMAP s') = length (BITMAP s)"
    by (rule alloc_pages_Some [OF assms])
  show "4096 dvd a" using assms(1) k(2) by (simp add: page_wf_def PAGE_SIZE_def)
  have "(k + n) * PAGE_SIZE \<le> NUM_PAGES s * PAGE_SIZE" using k(3) by (rule mult_le_mono1)
  then show "a + n * 4096 \<le> RAM_TOP s"
    using assms(1) k(2) unfolding page_wf_def PAGE_SIZE_def by (simp add: algebra_simps)
  show "RAM_TOP s' = RAM_TOP s" by (subst k(6)) simp
  show "page_wf s'" using alloc_pages_wf [OF assms(1), of n] assms(2) by simp
  have m: "PMEM s' = zero_range a (n * 4096) (PMEM s)" by (subst k(6)) (simp add: PAGE_SIZE_def)
  show "touches s s' (frames a n)"
    using in_block_frames [of a _ n] by (force simp: touches_def m zero_range_def)
qed

lemma new_user_touches:
  assumes n: "Task_new_user tid nm entry ks TASK_STACK_SIZE usp cp tb vb vt ub ut s = (s', t)" and al: "4096 dvd ks"
  shows "touches s s' (frames ks TASK_STACK_PAGES)" "t_ttbr0 t = tb" "t_tid t = tid" "t_user_stack_base t = ub"
proof -
  have sz: "TASK_STACK_SIZE = TASK_STACK_PAGES * 4096" "16 dvd TASK_STACK_SIZE" "TRAP_FRAME_SIZE \<le> TASK_STACK_SIZE"
    by (simp_all add: TASK_STACK_SIZE_def TASK_STACK_PAGES_def PAGE_SIZE_def TRAP_FRAME_SIZE_def)
  have "16 dvd ks" using al by (rule dvd_trans [rotated]) simp
  then have sp: "to_dma_addr (frame_sp ks TASK_STACK_SIZE) = ks + TASK_STACK_SIZE - TRAP_FRAME_SIZE"
    using frame_sp_phys sz by blast
  let ?fr = "\<lparr>regs = replicate 31 0, elr = of_nat entry, spsr = 0, sp_el0 = of_nat usp, frame_pad = 0\<rparr>"
  have m: "PMEM s' = write_frame (frame_sp ks TASK_STACK_SIZE) ?fr (PMEM s)"
    using n by (auto simp: Task_new_user_def Let_def)
  have "PMEM s' x = PMEM s x" if "\<forall>u \<in> frames ks TASK_STACK_PAGES. \<not> (u \<le> x \<and> x < u + 4096)" for x
  proof -
    have "x < ks \<or> ks + TASK_STACK_SIZE \<le> x" using in_block_frames [of ks x TASK_STACK_PAGES] that sz(1) by force
    then show ?thesis unfolding m using sz(3)
      by (intro write_frame_outside) (auto simp: sp frame_words_def TRAP_FRAME_SIZE_def)
  qed
  then show "touches s s' (frames ks TASK_STACK_PAGES)" by (simp add: touches_def)
  show "t_ttbr0 t = tb" "t_tid t = tid" "t_user_stack_base t = ub" using n by (auto simp: Task_new_user_def Let_def)
qed

lemma walk_mem_cong:
  assumes ok: "pt_ok s root T" and eq: "\<And>t a. t \<in> ran T \<Longrightarrow> t \<le> a \<Longrightarrow> a < t + 4096 \<Longrightarrow> PMEM s' a = PMEM s a"
  shows "walk s' root va = walk s root va"
proof -
  let ?a = "table_index 39 va" and ?b = "table_index 30 va" and ?c = "table_index 21 va"
  have rd: "rd s' t i = rd s t i" if "T p = Some t" "i < 512" for p t i
    using eq ranI [of T p t, OF that(1)] by (intro rd_frame_cong [OF that(2)]) auto
  have e0: "entry_ok 0 (rd s root ?a) (T [?a])" using pt_okD(10) [OF ok, of "[]" root ?a] pt_okD(3) [OF ok] by simp
  have e1: "entry_ok 1 (rd s t ?b) (T [?a, ?b])" if "T [?a] = Some t" for t
    using pt_okD(10) [OF ok, of "[?a]" t ?b] that by simp
  have e2: "entry_ok 2 (rd s t ?c) (T [?a, ?b, ?c])" if "T [?a, ?b] = Some t" for t
    using pt_okD(10) [OF ok, of "[?a, ?b]" t ?c] that by (simp add: numeral_2_eq_2)
  note r0 = rd [of "[]" root ?a, OF pt_okD(3) [OF ok]]
  show ?thesis
    using e0 e1 e2 r0 rd
    by (cases "T [?a]"; cases "T [?a, ?b]"; cases "T [?a, ?b, ?c]")
      (auto simp: walk_def entry_ok_def Let_def)
qed

section \<open>The address space of a spawned task\<close>

lemma touches_PMEM: "PMEM s'' = PMEM s' \<Longrightarrow> touches s s' F \<Longrightarrow> touches s s'' F"
  by (simp add: touches_def)

lemma spawn_user_page_upd:
  assumes "alloc_pages TASK_STACK_PAGES s = (s1, Some ks)" "alloc_pages USER_STACK_PAGES s1 = (s2, Some us)"
    and "create_process_table sg s2 = Some (s3, tb)" "Task_new_user tid nm entry ks sz usp cp tb vb vt ub ut s3 = (s4, t)"
  shows "page_upd s s4"
proof -
  have "page_upd s s1" "page_upd s1 s2" using page_upd_alloc_pages assms(1,2) by (metis fst_conv)+
  moreover have "page_upd s3 s4" using page_upd_new_tasks(2) assms(4) by (metis fst_conv)
  ultimately show ?thesis using page_upd_create_process_table [OF assms(3)] by (blast intro: page_upd_trans)
qed

lemma spawn_user_length:
  assumes "spawn_user_entry_with_segs nm entry cp segs s = (s', Inr tid)" "length (TASKS s) = MAX_TASKS"
  shows "length (TASKS s') = MAX_TASKS"
  using assms(1)
proof (rule spawn_user_stages)
  fix s1 ks s2 us s3 tb slot s4 t vb vt
  assume a: "alloc_pages TASK_STACK_PAGES s = (s1, Some ks)" "alloc_pages USER_STACK_PAGES s1 = (s2, Some us)"
    "create_process_table (take 17 segs @ [stack_segment us]) s2 = Some (s3, tb)"
    "Task_new_user (NEXT_TID s3) nm entry ks TASK_STACK_SIZE (us + USER_STACK_SIZE) cp tb
      vb vt us (us + USER_STACK_SIZE) s3 = (s4, t)"
    "s' = set_task slot t s4\<lparr>NEXT_TID := NEXT_TID s3 + 1, ACTIVE := True\<rparr>"
  show ?thesis using page_upd_fields(1) [OF spawn_user_page_upd [OF a(1-4)]] assms(2) a(5) by (simp add: set_task_def)
qed

text \<open>
  C8. Spawning is isolated: a successful \<^verbatim>\<open>spawn_user_entry_with_segs\<close> changes memory only in frames that
  were free before, and in the address space of the new task exactly the pages of its first
  seventeen segments and of its own stack are reachable, each at its own physical page, with EL0
  access, no execution at EL1, and execution at EL0 only for the executable segments.
\<close>

theorem spawn_user_isolated:
  assumes wf: "page_wf s" "RAM_TOP s \<le> 2 ^ 48" and segs: "\<forall>seg \<in> set segs. user_segment seg"
    and sp: "spawn_user_entry_with_segs nm entry cp segs s = (s', Inr tid)" and len: "length (TASKS s) = MAX_TASKS"
  shows "touches s s' (free_frames s) \<and>
    (\<exists>slot t. slot < MAX_TASKS \<and> TASKS s' ! slot = Some t \<and> t_tid t = tid \<and> t_user_stack_base t \<in> free_frames s \<and>
      (\<forall>x < 2 ^ 48. isolated s' (t_ttbr0 t) (take 17 segs @ [stack_segment (t_user_stack_base t)]) x))"
proof -
  obtain s1 ks s2 us s3 tb slot s4 t vb vt where
    a1: "alloc_pages TASK_STACK_PAGES s = (s1, Some ks)" and a2: "alloc_pages USER_STACK_PAGES s1 = (s2, Some us)"
    and a3: "create_process_table (take 17 segs @ [stack_segment us]) s2 = Some (s3, tb)" and a4: "free_slot s3 = Some slot"
    and n: "Task_new_user (NEXT_TID s3) nm entry ks TASK_STACK_SIZE (us + USER_STACK_SIZE) cp tb
      vb vt us (us + USER_STACK_SIZE) s3 = (s4, t)"
    and s': "s' = (set_task slot t s4)\<lparr>NEXT_TID := NEXT_TID s3 + 1, ACTIVE := True\<rparr>" and tid: "tid = NEXT_TID s3"
    by (rule spawn_user_stages [OF sp])
  note b1 = alloc_pages_bounds [OF wf(1) a1] and f1 = alloc_pages_frames [OF wf(1) a1]
  note b2 = alloc_pages_bounds [OF b1(4) a2] and f2 = alloc_pages_frames [OF b1(4) a2]
  note nu = new_user_touches [OF n b1(1)]
  have "user_segment (stack_segment us)"
    using b2(2) b1(3) wf(2) by (simp add: user_segment_def stack_segment_def USER_STACK_SIZE_def PAGE_SIZE_def)
  then have us: "\<forall>seg \<in> set (take 17 segs @ [stack_segment us]). user_segment seg"
    using segs by (auto dest: in_set_takeD)
  have "RAM_TOP s2 \<le> 2 ^ 48" using b1(3) b2(3) wf(2) by simp
  then obtain T where T: "pt_ok s3 tb T" "ran T \<subseteq> free_frames s2" "touches s2 s3 (free_frames s2)"
    "\<forall>x < 2 ^ 48. isolated s3 tb (take 17 segs @ [stack_segment us]) x"
    using create_process_table_ok [OF b2(4) _ us a3] by blast
  have m: "PMEM s' = PMEM s4" by (simp add: s' set_task_def)
  have sub: "frames ks TASK_STACK_PAGES \<subseteq> free_frames s" "frames us USER_STACK_PAGES \<subseteq> free_frames s"
    "free_frames s2 \<subseteq> free_frames s" using f1 f2 by auto
  have "touches s s4 (free_frames s)"
    by (rule touches_trans [OF touches_trans [OF touches_trans [OF touches_mono [OF b1(5) sub(1)] b2(5) sub(2)]
          T(3) sub(3)] nu(1) sub(1)])
  then have tch: "touches s s' (free_frames s)" by (rule touches_PMEM [OF m])
  have w: "walk s' tb x = walk s3 tb x" for x
  proof (rule walk_mem_cong [OF T(1)])
    fix u a assume u: "u \<in> ran T" "u \<le> a" "a < u + 4096"
    have "u \<notin> frames ks TASK_STACK_PAGES" using u(1) T(2) f1 f2 by auto
    moreover have "4096 dvd u" using u(1) pt_okD(5) [OF T(1)] by (auto simp: ran_def)
    moreover have "4096 dvd v" if "v \<in> frames ks TASK_STACK_PAGES" for v using that b1(1) by (auto simp: frames_def PAGE_SIZE_def)
    ultimately have "\<forall>v \<in> frames ks TASK_STACK_PAGES. \<not> (v \<le> a \<and> a < v + 4096)"
      using aligned_apart [of 4096 u] u(2,3) by force
    then show "PMEM s' a = PMEM s3 a" using nu(1) m by (simp add: touches_def)
  qed
  have "us \<in> frames us USER_STACK_PAGES" by (auto simp: frames_def USER_STACK_PAGES_def image_iff intro!: bexI [of _ 0])
  then have "us \<in> free_frames s" using sub(2) by blast
  moreover have "slot < MAX_TASKS" using free_slot_SomeD [OF a4] by simp
  moreover have "length (TASKS s4) = MAX_TASKS"
    using page_upd_fields(1) [OF spawn_user_page_upd [OF a1 a2 a3 n]] len by simp
  ultimately have "slot < MAX_TASKS \<and> TASKS s' ! slot = Some t \<and> t_tid t = tid \<and> t_user_stack_base t \<in> free_frames s"
    using nu(3,4) tid by (simp add: s' set_task_def)
  moreover have "\<forall>x < 2 ^ 48. isolated s' (t_ttbr0 t) (take 17 segs @ [stack_segment (t_user_stack_base t)]) x"
    using T(4) w nu(2,4) by (simp add: isolated_def)
  ultimately show ?thesis using tch by blast
qed

theorem spawn_user_isolated_witness:
  "\<exists>s' tid t. spawn_user_entry_with_segs [65] 0x50000000 3 [] (sched_init boot_example) = (s', Inr tid) \<and>
     t_tid t = tid \<and> Some t \<in> set (TASKS s') \<and> walk s' (t_ttbr0 t) 0x8000000 = None"
proof -
  let ?s = "sched_init boot_example"
  note w = boot_example_room(2,3)
  obtain s' tid where r: "spawn_user_entry_with_segs [65] 0x50000000 3 [] ?s = (s', Inr tid)"
    using spawn_boot_success by blast
  have top: "RAM_TOP ?s \<le> 2 ^ 48" by (simp add: sched_init_def set_task_def Let_def boot_example_def)
  obtain slot t where t: "slot < MAX_TASKS" "TASKS s' ! slot = Some t" "t_tid t = tid" "t_user_stack_base t \<in> free_frames ?s"
    "\<forall>x < 2 ^ 48. isolated s' (t_ttbr0 t) [stack_segment (t_user_stack_base t)] x"
    using spawn_user_isolated [OF w(1) top _ r w(2)] by auto
  have "0x41000000 \<le> t_user_stack_base t"
    using t(4) by (auto simp: free_frames_def sched_init_def set_task_def Let_def boot_example_def)
  then have "page_down 0x41000000 \<le> page_down (t_user_stack_base t)"
    unfolding page_down_def by (intro mult_le_mono1 div_le_mono)
  then have "\<not> seg_covers (stack_segment (t_user_stack_base t)) 0x8000000"
    by (simp add: seg_covers_def stack_segment_def in_pages_def page_down_def)
  moreover have "isolated s' (t_ttbr0 t) [stack_segment (t_user_stack_base t)] 0x8000000" using t(5) by simp
  ultimately have "walk s' (t_ttbr0 t) 0x8000000 = None" by (simp add: isolated_def split: option.splits)
  moreover have "Some t \<in> set (TASKS s')" using t(1,2) spawn_user_length [OF r w(2)] nth_mem [of slot "TASKS s'"] by simp
  ultimately show ?thesis using r t(3) by blast
qed

end
