(* ===== verification/Elf_Props.thy ===== *)
theory Elf_Props
  imports Elf Spawn
begin

text \<open>
  Properties of the ELF loader: it never reads outside a well-sized file, what it leaves in memory
  is the image the program headers describe, and the random slide keeps the load address in its
  window.
\<close>

section \<open>Totality\<close>

text \<open>The header table does not reach the top of the 64-bit range, and no segment's file range wraps.\<close>

definition no_wrap :: "u8 list \<Rightarrow> Ehdr \<Rightarrow> bool" where
  "no_wrap b h \<longleftrightarrow> e_phoff h < 2 ^ 63 \<and>
    (\<forall>i < e_phnum h. case read_phdr b (phdr_at h i) of
        None \<Rightarrow> True | Some p \<Rightarrow> p_offset p + p_filesz p < 2 ^ 64)"

lemma field_Some: "off + n \<le> length b \<Longrightarrow> field n b off \<noteq> None"
  by (simp add: field_def)

lemma read_phdr_Some: "ph + 48 \<le> length b \<Longrightarrow> read_phdr b ph \<noteq> None"
  by (simp add: read_phdr_def field_defs)

lemma read_ehdr_Some: "check_header b = None \<Longrightarrow> read_ehdr b \<noteq> None"
  by (auto simp: check_header_def read_ehdr_def field_defs split: if_splits)

lemma read_ehdr_bounds:
  assumes "read_ehdr b = Some h"
  shows "e_phentsize h < 2 ^ 16" "e_phnum h < 2 ^ 16" "e_phoff h < 2 ^ 64"
proof -
  obtain sz num :: u16 and off :: u64 where "e_phentsize h = unat sz" "e_phnum h = unat num" "e_phoff h = unat off"
    using assms by (auto simp: read_ehdr_def field_defs split: bind_splits if_splits)
  then show "e_phentsize h < 2 ^ 16" "e_phnum h < 2 ^ 16" "e_phoff h < 2 ^ 64"
    using unsigned_less [of sz, where ?'a = nat] unsigned_less [of num, where ?'a = nat]
      unsigned_less [of off, where ?'a = nat] by simp_all
qed

lemma phdr_at_small:
  assumes "read_ehdr b = Some h" "e_phoff h < 2 ^ 63" "i < e_phnum h"
  shows "phdr_at h i = e_phoff h + i * e_phentsize h" "wadd (phdr_at h i) 48 = phdr_at h i + 48"
proof -
  note bd = read_ehdr_bounds [OF assms(1)]
  have "i < 2 ^ 16" using assms(3) bd(2) by linarith
  then have "i * e_phentsize h < 2 ^ 16 * 2 ^ 16" using bd(1) by (intro mult_strict_mono) auto
  then have "e_phoff h + i * e_phentsize h + 48 < 2 ^ 64" using assms(2) by simp
  then show "phdr_at h i = e_phoff h + i * e_phentsize h" "wadd (phdr_at h i) 48 = phdr_at h i + 48"
    by (simp_all add: phdr_at_def wadd_def)
qed

lemma spawn_elf_step_Some:
  assumes "wadd ph 48 = ph + 48" "case read_phdr b ph of None \<Rightarrow> True | Some p \<Rightarrow> p_offset p + p_filesz p < 2 ^ 64"
  shows "spawn_elf_step b slide ph acc \<noteq> None"
proof (cases "ph + 48 \<le> length b")
  case True
  then obtain p ty where "read_phdr b ph = Some p" "u32le b ph = Some ty"
    using read_phdr_Some [OF True] by (auto simp: field_defs)
  moreover have "copy_defined b p" if "\<not> outside_file b p" "p_offset p + p_filesz p < 2 ^ 64"
    using that by (auto simp: copy_defined_def outside_file_def wadd_def)
  ultimately show ?thesis using assms by (auto simp: spawn_elf_step_def Let_def split: prod.splits)
next
  case False
  then show ?thesis using assms(1) by (simp add: spawn_elf_step_def split: prod.splits)
qed

lemma min_vaddr_Some:
  assumes "\<forall>ph \<in> set phs. wadd ph 48 = ph + 48"
  shows "min_vaddr b phs mn \<noteq> None"
  using assms by (induction phs arbitrary: mn) (auto simp: field_defs)

lemma spawn_elf_loop_Some:
  assumes "\<forall>ph \<in> set phs. wadd ph 48 = ph + 48 \<and>
    (case read_phdr b ph of None \<Rightarrow> True | Some p \<Rightarrow> p_offset p + p_filesz p < 2 ^ 64)"
  shows "spawn_elf_loop b slide phs acc \<noteq> None"
  using assms
proof (induction phs arbitrary: acc)
  case (Cons ph phs)
  then obtain acc' e where "spawn_elf_step b slide ph acc = Some (acc', e)"
    using spawn_elf_step_Some [of ph b slide acc] by auto
  then show ?case using Cons by auto
qed simp


text \<open>A small executable: one loadable segment of four file bytes and eight bytes in memory.\<close>

definition elf_example :: "u8 list" where
  "elf_example =
    [0x7F, 0x45, 0x4C, 0x46, 2, 1, 1, 0, 0, 0, 0, 0, 0, 0, 0, 0,
     2, 0, 0xB7, 0, 1, 0, 0, 0, 0, 0, 0, 0x48, 0, 0, 0, 0,
     64, 0, 0, 0, 0, 0, 0, 0, 0, 0, 0, 0, 0, 0, 0, 0,
     0, 0, 0, 0, 64, 0, 56, 0, 1, 0, 0, 0, 0, 0, 0, 0,
     1, 0, 0, 0, 5, 0, 0, 0, 120, 0, 0, 0, 0, 0, 0, 0,
     0, 0, 0, 0x48, 0, 0, 0, 0, 0, 0, 0, 0x48, 0, 0, 0, 0,
     4, 0, 0, 0, 0, 0, 0, 0, 8, 0, 0, 0, 0, 0, 0, 0,
     0, 16, 0, 0, 0, 0, 0, 0, 0x1F, 0x20, 0x03, 0xD5]"

definition elf_example_hdr :: Ehdr where
  "elf_example_hdr = \<lparr>e_type = 2, e_entry = 0x48000000, e_phoff = 64, e_phentsize = 56, e_phnum = 1\<rparr>"

definition elf_example_phdr :: Phdr where
  "elf_example_phdr = \<lparr>p_flags = 5, p_offset = 120, p_vaddr = 0x48000000, p_filesz = 4, p_memsz = 8\<rparr>"

lemma read_le_numeral: "read_le (numeral n) mem a = ucast (mem a) OR push_bit 8 (read_le (pred_numeral n) mem (a + 1))"
  by (simp add: numeral_eq_Suc)

lemma elf_example_read:
  "check_header elf_example = None" "read_ehdr elf_example = Some elf_example_hdr"
  "read_phdr elf_example 64 = Some elf_example_phdr" "u32le elf_example 64 = Some PT_LOAD"
  by (simp_all add: check_header_def read_ehdr_def read_phdr_def field_defs read_le_numeral elf_example_def
      elf_example_hdr_def elf_example_phdr_def ELF_MAGIC_def ELFCLASS64_def EM_AARCH64_def PT_LOAD_def)

lemma elf_example_phs: "map (phdr_at elf_example_hdr) [0..<e_phnum elf_example_hdr] = [64]"
  by (simp add: elf_example_hdr_def phdr_at_def wadd_def)


section \<open>The loaded image\<close>

text \<open>What a program header asks for: nothing, or a segment at its slid address.\<close>

definition loadable :: "u8 list \<Rightarrow> nat \<Rightarrow> nat \<Rightarrow> (nat \<times> Phdr) option" where
  "loadable b slide ph =
    (case (u32le b ph, read_phdr b ph) of
       (Some ty, Some p) \<Rightarrow> if ty = PT_LOAD \<and> p_memsz p \<noteq> 0 then Some (wadd (p_vaddr p) slide, p) else None
     | _ \<Rightarrow> None)"

definition covers :: "nat \<Rightarrow> nat \<times> Phdr \<Rightarrow> bool" where
  "covers a vp = (case vp of (va, p) \<Rightarrow> va \<le> a \<and> a < va + max (p_filesz p) (p_memsz p))"

definition segment_byte :: "u8 list \<Rightarrow> nat \<times> Phdr \<Rightarrow> nat \<Rightarrow> u8" where
  "segment_byte b vp a = (case vp of (va, p) \<Rightarrow>
     if a < va + p_filesz p then b ! (p_offset p + (a - va)) else 0)"

lemma put_segment_byte:
  "put_segment b (fst vp) (snd vp) mem a = (if covers a vp then segment_byte b vp a else mem a)"
  by (auto simp: put_segment_def covers_def segment_byte_def split: prod.split)

lemma fold_put_outside:
  "(\<forall>vp \<in> set L. \<not> covers a vp) \<Longrightarrow> fold (\<lambda>vp. put_segment b (fst vp) (snd vp)) L mem a = mem a"
  by (induction L arbitrary: mem) (auto simp: put_segment_byte)

lemma fold_put_last:
  assumes "covers a vp" "\<forall>vp \<in> set L2. \<not> covers a vp"
  shows "fold (\<lambda>vp. put_segment b (fst vp) (snd vp)) (L1 @ vp # L2) mem a = segment_byte b vp a"
  using assms by (simp add: fold_put_outside put_segment_byte)

lemma spawn_elf_step_loadable:
  assumes "spawn_elf_step b slide ph (mem, segs) = Some ((mem', segs'), None)"
  shows "case loadable b slide ph of
      None \<Rightarrow> mem' = mem \<and> segs' = segs
    | Some vp \<Rightarrow> copy_defined b (snd vp) \<and> mem' = put_segment b (fst vp) (snd vp) mem \<and>
        segs' = (if length segs < 16 then segs @ [elf_segment (fst vp) (snd vp)] else segs)"
proof -
  have len: "wadd ph 48 \<le> length b" using assms by (auto simp: spawn_elf_step_def split: if_splits)
  obtain ty where ty: "u32le b ph = Some ty" using assms len
    by (auto simp: spawn_elf_step_def split: if_splits bind_splits)
  show ?thesis
  proof (cases "ty = PT_LOAD")
    case False
    then show ?thesis using assms len ty by (auto simp: spawn_elf_step_def loadable_def split: option.splits)
  next
    case True
    then obtain p where "read_phdr b ph = Some p" using assms len ty
      by (auto simp: spawn_elf_step_def split: bind_splits)
    then show ?thesis using assms len ty True
      by (auto simp: spawn_elf_step_def loadable_def Let_def split: if_splits)
  qed
qed

lemma spawn_elf_loop_image:
  assumes "spawn_elf_loop b slide phs (mem, segs) = Some ((mem', segs'), None)" "length segs \<le> 16"
  defines "L \<equiv> List.map_filter (loadable b slide) phs"
  shows "mem' = fold (\<lambda>vp. put_segment b (fst vp) (snd vp)) L mem"
    "segs' = take 16 (segs @ map (\<lambda>vp. elf_segment (fst vp) (snd vp)) L)"
    "\<forall>vp \<in> set L. copy_defined b (snd vp)"
proof -
  have "mem' = fold (\<lambda>vp. put_segment b (fst vp) (snd vp)) L mem \<and>
    segs' = take 16 (segs @ map (\<lambda>vp. elf_segment (fst vp) (snd vp)) L) \<and> (\<forall>vp \<in> set L. copy_defined b (snd vp))"
    using assms(1,2) unfolding L_def
  proof (induction phs arbitrary: mem segs)
    case Nil
    then show ?case by (simp add: List.map_filter_def)
  next
    case (Cons ph phs)
    obtain m1 g1 where st: "spawn_elf_step b slide ph (mem, segs) = Some ((m1, g1), None)"
      and rest: "spawn_elf_loop b slide phs (m1, g1) = Some ((mem', segs'), None)"
      using Cons.prems(1) by (auto split: bind_splits if_splits)
    note sl = spawn_elf_step_loadable [OF st]
    have "length g1 \<le> 16" using sl Cons.prems(2) by (auto split: option.splits if_splits)
    from Cons.IH [OF rest this] sl Cons.prems(2) show ?case
      by (auto simp: List.map_filter_simps take_Cons' split: option.splits if_splits)
  qed
  then show "mem' = fold (\<lambda>vp. put_segment b (fst vp) (snd vp)) L mem"
    "segs' = take 16 (segs @ map (\<lambda>vp. elf_segment (fst vp) (snd vp)) L)"
    "\<forall>vp \<in> set L. copy_defined b (snd vp)" by blast+
qed

text \<open>The program headers a file asks to load, in order.\<close>

definition elf_image :: "u8 list \<Rightarrow> Ehdr \<Rightarrow> nat \<Rightarrow> (nat \<times> Phdr) list" where
  "elf_image b h slide = List.map_filter (loadable b slide) (map (phdr_at h) [0..<e_phnum h])"

definition in_free_frame :: "'a PageState_scheme \<Rightarrow> nat \<Rightarrow> bool" where
  "in_free_frame s a \<longleftrightarrow> (\<exists>t \<in> free_frames s. t \<le> a \<and> a < t + 4096)"



section \<open>The slide\<close>

text \<open>
  C24. Bounds of the random slide: whatever the random number and the lowest address of the image,
  adding the slide to that address, in 64-bit arithmetic, gives a 64 KiB aligned address of the
  window \<open>ASLR_BASE\<close> to \<open>ASLR_LIMIT\<close>, and every such address is the result for some random number.
\<close>

theorem aslr_slide_window:
  assumes "min_va < 2 ^ 64"
  shows "(\<exists>r. wadd min_va (aslr_slide r min_va) = base) \<longleftrightarrow>
    ASLR_BASE \<le> base \<and> base < ASLR_LIMIT \<and> ASLR_GRANULE dvd base"
proof -
  have sum: "wadd min_va (aslr_slide r min_va) = aslr_base r" for r
  proof -
    have b: "aslr_base r < 2 ^ 64"
      using mod_less_divisor [of "0x3800" "unat r"] by (simp add: aslr_base_def ASLR_BASE_def ASLR_LIMIT_def ASLR_GRANULE_def)
    have "wadd min_va (aslr_slide r min_va) = (min_va + (2 ^ 64 + aslr_base r - min_va)) mod 2 ^ 64"
      by (simp add: wadd_def aslr_slide_def mod_add_right_eq)
    also have "min_va + (2 ^ 64 + aslr_base r - min_va) = 2 ^ 64 + aslr_base r" using assms by simp
    finally show ?thesis using b by simp
  qed
  show ?thesis
  proof
    assume "\<exists>r. wadd min_va (aslr_slide r min_va) = base"
    then obtain r where "aslr_base r = base" unfolding sum by blast
    then have "base = 0x48000000 + (unat r mod 0x3800) * 0x10000"
      by (simp add: aslr_base_def ASLR_BASE_def ASLR_LIMIT_def ASLR_GRANULE_def)
    then show "ASLR_BASE \<le> base \<and> base < ASLR_LIMIT \<and> ASLR_GRANULE dvd base"
      using mod_less_divisor [of "0x3800" "unat r"]
      by (simp add: ASLR_BASE_def ASLR_LIMIT_def ASLR_GRANULE_def dvd_add)
  next
    assume b: "ASLR_BASE \<le> base \<and> base < ASLR_LIMIT \<and> ASLR_GRANULE dvd base"
    then obtain k where k: "base = 0x10000 * k" by (auto simp: ASLR_GRANULE_def)
    then have kb: "0x4800 \<le> k" "k < 0x8000" using b by (auto simp: ASLR_BASE_def ASLR_LIMIT_def)
    have "unat (of_nat (k - 0x4800) :: u32) = k - 0x4800" using kb by (intro unat_of_nat_small) simp
    then have "aslr_base (of_nat (k - 0x4800)) = base"
      using k kb by (simp add: aslr_base_def ASLR_BASE_def ASLR_LIMIT_def ASLR_GRANULE_def)
    then show "\<exists>r. wadd min_va (aslr_slide r min_va) = base" using sum by blast
  qed
qed

theorem aslr_slide_window_witness:
  "(\<exists>r. wadd 0x400000 (aslr_slide r 0x400000) = 0x48010000) \<and> \<not> (\<exists>r. wadd 0x400000 (aslr_slide r 0x400000) = 0x80000000)"
  using aslr_slide_window [of "0x400000" "0x48010000"] aslr_slide_window [of "0x400000" "0x80000000"]
  by (simp add: ASLR_BASE_def ASLR_LIMIT_def ASLR_GRANULE_def)

section \<open>The short program header of load_elf\<close>

text \<open>The example above cut off inside its program header, after 40 of the 48 bytes that are read.\<close>

definition elf_truncated :: "u8 list" where "elf_truncated = take 104 elf_example"

text \<open>
  \<open>load_elf\<close> checks 40 bytes of a program header but reads 48: on a file that ends in between it
  indexes past the end and panics, where \<open>spawn_elf\<close> reports the same file as too short.
\<close>

theorem load_elf_short_header:
  "load_elf elf_truncated s = None \<and> spawn_elf r nm elf_truncated caps s' = Some (s', Inl (Inl TooShort))"
proof -
  have rd: "check_header elf_truncated = None" "read_ehdr elf_truncated = Some elf_example_hdr"
    "read_phdr elf_truncated 64 = None" "u32le elf_truncated 64 = Some PT_LOAD" "length elf_truncated = 104"
    by (simp_all add: check_header_def read_ehdr_def read_phdr_def field_defs read_le_numeral elf_truncated_def
        elf_example_def elf_example_hdr_def ELF_MAGIC_def ELFCLASS64_def EM_AARCH64_def PT_LOAD_def)
  have sl: "elf_slide elf_truncated elf_example_hdr r = Some 0"
    by (simp add: elf_slide_def elf_example_hdr_def ET_DYN_def)
  have "load_elf_step elf_truncated 64 mem = None" for mem
    using rd by (simp add: load_elf_step_def wadd_def)
  then show ?thesis using rd sl elf_example_phs
    by (simp add: load_elf_def spawn_elf_def spawn_elf_step_def wadd_def)
qed

end
