(* ===== verification/Syscall_Props.thy ===== *)
theory Syscall_Props
  imports Syscall Elf_Props
begin

text \<open>
  Properties of the system call layer: capabilities are never created from nothing, senders are
  authentic, memory mapped by a task is zeroed and not executable, faults kill the faulting task;
  and what the gate in front of three privileged calls really tests.
\<close>

section \<open>Capabilities are confined\<close>

definition caps_le :: "u64 \<Rightarrow> u64 \<Rightarrow> bool" where "caps_le a b \<longleftrightarrow> a AND NOT b = 0"

definition slot_caps :: "'a SchedState_scheme \<Rightarrow> nat \<Rightarrow> u64" where
  "slot_caps s i = (case TASKS s ! i of None \<Rightarrow> 0 | Some t \<Rightarrow> t_capabilities t)"

text \<open>No slot holds a capability that neither its task nor \<open>C\<close> had before.\<close>

definition confined :: "u64 \<Rightarrow> 'a SchedState_scheme \<Rightarrow> 'a SchedState_scheme \<Rightarrow> bool" where
  "confined C s s' \<longleftrightarrow> (length (TASKS s) = MAX_TASKS \<longrightarrow> length (TASKS s') = MAX_TASKS \<and>
     (\<forall>i < MAX_TASKS. caps_le (slot_caps s' i) (C OR slot_caps s i)))"

lemma caps_le_bit: "caps_le a b \<longleftrightarrow> (\<forall>n. bit a n \<longrightarrow> bit b n)"
proof
  assume le: "caps_le a b"
  have "bit b n" if "bit a n" for n
  proof -
    have "\<not> bit (a AND NOT b) n" using le by (simp add: caps_le_def)
    then show ?thesis using that bit_imp_le_length [OF that] by (simp add: bit_and_iff bit_not_iff)
  qed
  then show "\<forall>n. bit a n \<longrightarrow> bit b n" by blast
next
  assume "\<forall>n. bit a n \<longrightarrow> bit b n"
  then show "caps_le a b" unfolding caps_le_def by (intro bit_word_eqI) (auto simp: bit_and_iff bit_not_iff)
qed

lemma caps_le_simps [simp, intro]:
  "caps_le 0 b" "caps_le a (C OR a)" "caps_le (a AND C) (C OR b)" "caps_le (a OR (b AND C)) (C OR a)"
  "caps_le (a AND NOT b) (C OR a)" "caps_le (a AND C) C"
  by (auto simp: caps_le_bit bit_or_iff bit_and_iff)

lemma caps_le_trans: "caps_le a (C OR b) \<Longrightarrow> caps_le b (C OR c) \<Longrightarrow> caps_le a (C OR c)"
  by (auto simp: caps_le_bit bit_or_iff)

lemma confined_TASKS: "TASKS s' = TASKS s \<Longrightarrow> confined C s s'"
  by (simp add: confined_def slot_caps_def)

lemma confined_trans [trans]: "confined C s s' \<Longrightarrow> confined C s' s'' \<Longrightarrow> confined C s s''"
  unfolding confined_def using caps_le_trans by blast

lemma confined_after: "TASKS s'' = TASKS s' \<Longrightarrow> confined C s s' \<Longrightarrow> confined C s s''"
  by (simp add: confined_def slot_caps_def)

lemma confined_upd_task:
  assumes "\<And>t. TASKS s ! i = Some t \<Longrightarrow> caps_le (t_capabilities (f t)) (C OR t_capabilities t)"
  shows "confined C s (upd_task i f s)"
  using assms by (auto simp: confined_def slot_caps_def upd_task_def nth_list_update_if split: option.splits)

lemma confined_set_task:
  assumes "caps_le (t_capabilities t) (C OR slot_caps s i)"
  shows "confined C s (set_task i t s)"
  using assms by (simp add: confined_def slot_caps_def set_task_def nth_list_update_if)

lemma confined_clear: "confined C s (s\<lparr>TASKS := (TASKS s)[i := None]\<rparr>)"
  by (simp add: confined_def slot_caps_def nth_list_update_if)

lemma confined_upd_by_tid:
  assumes "\<And>t. caps_le (t_capabilities (f t)) (C OR t_capabilities t)"
  shows "confined C s (fst (upd_by_tid tid f s))"
  using assms by (auto simp: upd_by_tid_def confined_TASKS intro: confined_upd_task split: option.splits)

lemma confined_upd_current:
  assumes "\<And>t. caps_le (t_capabilities (f t)) (C OR t_capabilities t)"
  shows "confined C s (upd_current cpu f s)"
  using assms by (auto simp: upd_current_def confined_TASKS intro: confined_upd_task)

lemmas confined_intros = confined_TASKS confined_upd_by_tid confined_upd_current confined_upd_task confined_set_task

lemma t_capabilities_wake [simp]:
  "t_capabilities (wake_blocked t) = t_capabilities t" "t_capabilities (wake_waiter t) = t_capabilities t"
  by (simp_all add: wake_blocked_def wake_waiter_def)

lemma confined_send_message: "confined C s (fst (send_message tid msg s))"
  by (auto simp: send_message_def slot_caps_def intro!: confined_TASKS confined_set_task split: option.splits)

lemma confined_recv_message:
  "confined C s (fst (recv_message cpu s))" "confined C s (fst (try_recv_message cpu s))"
  by (auto simp: recv_message_def try_recv_message_def intro!: confined_TASKS confined_upd_current
      split: option.splits prod.splits)

lemma confined_wake_waiter_at: "confined C s (wake_waiter_at tid code i s)"
proof (cases "TASKS s ! i")
  case (Some t)
  have "confined C s (set_task i (wake_waiter t) s)" by (rule confined_set_task) (simp add: slot_caps_def Some)
  then show ?thesis using confined_after [of "wake_waiter_at tid code i s" "set_task i (wake_waiter t) s"]
    by (auto simp: wake_waiter_at_def Some confined_TASKS)
qed (simp add: wake_waiter_at_def confined_TASKS)

lemma confined_fold: "(\<And>i s. confined C s (f i s)) \<Longrightarrow> confined C s (fold f is s)"
  by (induction "is" arbitrary: s) (auto simp: confined_TASKS intro: confined_trans)

lemma confined_exit_task: "confined C s (exit_task cpu code s)"
  unfolding exit_task_def Let_def
  by (rule confined_trans [OF confined_upd_current confined_fold]) (simp_all add: confined_wake_waiter_at)

lemma confined_force_exit: "confined C s (fst (force_exit tid code s))"
proof (cases "slot_of tid s")
  case (Some i)
  let ?s1 = "upd_task i (\<lambda>t. t\<lparr>t_state := Dead, t_exit_code := code\<rparr>) s"
  have "confined C s ?s1" by (rule confined_upd_task) simp
  also have "confined C ?s1 (fst (force_exit tid code s))"
    by (auto simp: force_exit_def Some Let_def confined_def slot_caps_def waits_for_def split: option.splits)
  finally show ?thesis .
qed (simp add: force_exit_def confined_TASKS)

lemma confined_wait_for_tid: "confined C s (fst (wait_for_tid cpu tid s))"
proof -
  have "confined C s (release_pages b n (s\<lparr>TASKS := (TASKS s)[i := None]\<rparr>))" for b n i
    by (rule confined_after [OF page_upd_fields(1) [OF page_upd_release_pages] confined_clear])
  then show ?thesis
    by (auto simp: wait_for_tid_def Let_def confined_clear intro!: confined_TASKS confined_upd_current split: option.splits)
qed


text \<open>A new task takes a free slot and gets the capabilities the constructor is given.\<close>

lemma confined_new_task:
  fixes s s1 s' :: "'a SchedState_scheme"
  assumes "TASKS s1 = TASKS s" "slot_caps s slot = 0" "caps_le (t_capabilities t) C" "TASKS s' = TASKS (set_task slot t s1)"
  shows "confined C s s'"
proof (rule confined_after [OF assms(4)], rule confined_trans [OF confined_TASKS [OF assms(1)]])
  show "confined C s1 (set_task slot t s1)"
    using assms(1-3) by (intro confined_set_task) (simp add: slot_caps_def)
qed

lemma t_capabilities_new_user [simp]:
  "t_capabilities (snd (Task_new_user tid nm e b n u c tb v w x y s)) = c"
  by (simp add: Task_new_user_def Let_def)

lemma TASKS_new_user [simp]: "TASKS (fst (Task_new_user tid nm e b n u c tb v w x y s)) = TASKS s"
  by (simp add: Task_new_user_def Let_def)

lemma TASKS_alloc_pages [simp]: "TASKS (fst (alloc_pages n s)) = TASKS s"
  by (rule page_upd_fields(1) [OF page_upd_alloc_pages])

lemma free_slot_caps: "free_slot s = Some i \<Longrightarrow> TASKS s' = TASKS s \<Longrightarrow> slot_caps s' i = 0"
  using free_slot_SomeD [of s i] by (simp add: slot_caps_def)

lemma confined_spawn_user_thread:
  assumes "caps_le c C"
  shows "confined C s (fst (spawn_user_thread nm e u c tb s))"
proof -
  obtain s1 r where a: "alloc_pages TASK_STACK_PAGES s = (s1, r)" by fastforce
  then have T: "TASKS s1 = TASKS s" using TASKS_alloc_pages [of TASK_STACK_PAGES s] by simp
  show ?thesis
  proof (cases "r = None \<or> free_slot s1 = None")
    case True
    then show ?thesis using a T by (auto simp: spawn_user_thread_def intro: confined_TASKS split: option.splits)
  next
    case False
    then obtain ks slot where k: "r = Some ks" "free_slot s1 = Some slot" by auto
    let ?n = "Task_new_user (NEXT_TID s1) nm e ks TASK_STACK_SIZE u c tb 0 0 0 0 s1"
    have "confined C s (fst (spawn_user_thread nm e u c tb s))"
      by (rule confined_new_task [where t = "snd ?n" and slot = slot and ?s1.0 = "fst ?n"])
        (use a T k assms in \<open>simp_all add: spawn_user_thread_def case_prod_unfold Let_def free_slot_caps\<close>)
    then show ?thesis .
  qed
qed

lemma confined_spawn_user_entry_with_segs:
  assumes "caps_le c C" "spawn_user_entry_with_segs nm e c segs s = (s', r)"
  shows "confined C s s'"
proof -
  obtain s1 r1 where a1: "alloc_pages TASK_STACK_PAGES s = (s1, r1)" by fastforce
  obtain s2 r2 where a2: "alloc_pages USER_STACK_PAGES s1 = (s2, r2)" by fastforce
  have T: "TASKS s1 = TASKS s" "TASKS s2 = TASKS s"
    using TASKS_alloc_pages [of TASK_STACK_PAGES s] TASKS_alloc_pages [of USER_STACK_PAGES s1] a1 a2 by simp_all
  have T3: "TASKS s3 = TASKS s" if "create_process_table sg s2 = Some (s3, tb)" for sg s3 tb
    using page_upd_fields(1) [OF page_upd_create_process_table [OF that]] T by simp
  show ?thesis
  proof (cases r)
    case (Inl x)
    then show ?thesis using assms(2) a1 a2 T T3
      by (auto simp: spawn_user_entry_with_segs_def case_prod_unfold Let_def intro: confined_TASKS split: option.splits)
  next
    case (Inr tid)
    from assms(2) [unfolded this] show ?thesis
    proof (rule spawn_user_stages)
      fix q1 ks q2 us q3 tb slot q4 t vb vt
      assume a: "alloc_pages TASK_STACK_PAGES s = (q1, Some ks)" "alloc_pages USER_STACK_PAGES q1 = (q2, Some us)"
        "create_process_table (take 17 segs @ [stack_segment us]) q2 = Some (q3, tb)" "free_slot q3 = Some slot"
        "Task_new_user (NEXT_TID q3) nm e ks TASK_STACK_SIZE (us + USER_STACK_SIZE) c tb
          vb vt us (us + USER_STACK_SIZE) q3 = (q4, t)"
        "s' = set_task slot t q4\<lparr>NEXT_TID := NEXT_TID q3 + 1, ACTIVE := True\<rparr>"
      have T4: "TASKS q4 = TASKS s" by (rule page_upd_fields(1) [OF spawn_user_page_upd [OF a(1-3,5)]])
      moreover have "TASKS q3 = TASKS s" using T3 a a1 a2 by auto
      moreover have "t_capabilities t = c" using t_capabilities_new_user a(5) by (metis snd_conv)
      ultimately show ?thesis using assms(1) a(6)
        by (intro confined_new_task [where ?s1.0 = q4 and slot = slot and t = t])
          (auto intro: free_slot_caps [OF a(4)])
    qed
  qed
qed

lemma confined_spawn_elf:
  assumes "caps_le c C" "spawn_elf rnd nm b c s = Some (s', r)"
  shows "confined C s s'"
proof -
  have "confined C s s''" if "spawn_user_entry_with_segs nm e c segs (s\<lparr>PMEM := mem\<rparr>) = (s'', r)" for e segs mem s'' r
    by (rule confined_trans [OF confined_TASKS confined_spawn_user_entry_with_segs [OF assms(1) that]]) simp
  then show ?thesis using assms(2)
    by (auto simp: spawn_elf_def Let_def intro: confined_TASKS
        split: option.splits prod.splits sum.splits bind_split_asm)
qed


text \<open>The other subsystems do not touch capabilities.\<close>

definition same_caps :: "'a SchedState_scheme \<Rightarrow> 'a SchedState_scheme \<Rightarrow> bool" where
  "same_caps s s' \<longleftrightarrow> map (map_option t_capabilities) (TASKS s') = map (map_option t_capabilities) (TASKS s)"

definition svc_keeps_caps :: "'a SchedState_scheme Services \<Rightarrow> bool" where
  "svc_keeps_caps svc \<longleftrightarrow>
    (\<forall>n args s s' r. svc_other svc n args s = Some (s', r) \<longrightarrow> same_caps s s') \<and>
    (\<forall>path s. same_caps s (fst (svc_read_file svc path s))) \<and> (\<forall>s. same_caps s (svc_free svc s))"

lemma confined_same_caps:
  assumes "same_caps s s'"
  shows "confined C s s'"
proof -
  have l: "length (TASKS s') = length (TASKS s)" using arg_cong [OF assms [unfolded same_caps_def], of length] by simp
  have "slot_caps s' i = slot_caps s i" if "i < length (TASKS s)" for i
  proof -
    have "map_option t_capabilities (TASKS s' ! i) = map_option t_capabilities (TASKS s ! i)"
      using arg_cong [OF assms [unfolded same_caps_def], of "\<lambda>xs. xs ! i"] that l by simp
    then show ?thesis by (cases "TASKS s ! i"; cases "TASKS s' ! i") (simp_all add: slot_caps_def)
  qed
  then show ?thesis using l by (simp add: confined_def)
qed

text \<open>What a handler may do to the capability table.\<close>

definition arm_ok :: "u64 \<Rightarrow> 'a SchedState_scheme \<Rightarrow> ('a SchedState_scheme \<Rightarrow> ('a SchedState_scheme \<times> int) option) \<Rightarrow> bool" where
  "arm_ok C s h \<longleftrightarrow> (\<forall>s' r. h s = Some (s', r) \<longrightarrow> confined C s s')"

lemma arm_okI: "confined C s (fst (f s)) \<Longrightarrow> arm_ok C s (\<lambda>s. Some (f s))"
  by (auto simp: arm_ok_def)

lemma arm_ok_messages:
  "arm_ok C s (\<lambda>s. Some (sys_send cpu a b s))" "arm_ok C s (\<lambda>s. Some (sys_recv cpu a s))"
  "arm_ok C s (\<lambda>s. Some (sys_try_recv cpu a s))" "arm_ok C s (\<lambda>s. Some (sys_ai_call cpu a b c s))"
proof -
  have send: "confined C s s'" if "send_message t m s = (s', b)" for t m s' b
    using confined_send_message [of C s t m] that by simp
  have recv: "confined C s (s'\<lparr>PMEM := mem\<rparr>)"
    if "recv_message cpu s = (s', r) \<or> try_recv_message cpu s = (s', r)" for s' r mem
    using confined_recv_message [of C s cpu] that by (auto intro: confined_after [of _ s'])
  have recv': "confined C s s'" if "recv_message cpu s = (s', r) \<or> try_recv_message cpu s = (s', r)" for s' r
    using confined_recv_message [of C s cpu] that by auto
  show "arm_ok C s (\<lambda>s. Some (sys_send cpu a b s))" "arm_ok C s (\<lambda>s. Some (sys_ai_call cpu a b c s))"
    by (auto simp: arm_ok_def sys_send_def sys_ai_call_def Let_def intro: confined_TASKS dest!: send
        split: prod.splits bool.splits if_splits)
  show "arm_ok C s (\<lambda>s. Some (sys_recv cpu a s))" "arm_ok C s (\<lambda>s. Some (sys_try_recv cpu a s))"
    by (auto simp: arm_ok_def sys_recv_def sys_try_recv_def confined_TASKS intro: recv recv'
        split: prod.splits option.splits if_splits)
qed

lemma arm_ok_tasks:
  "arm_ok C s (\<lambda>s. Some (sys_yield cpu s))" "arm_ok C s (\<lambda>s. Some (sys_exit cpu code s))"
  "arm_ok C s (\<lambda>s. Some (sys_wait cpu a s))" "arm_ok C s (\<lambda>s. Some (sys_kill a sig s))"
  "arm_ok C s (\<lambda>s. Some (sys_set_priority a b s))" "arm_ok C s (\<lambda>s. Some (sys_sigaction cpu a msk s))"
  "arm_ok C s (\<lambda>s. Some (sys_sigmask cpu msk s))" "arm_ok C s (\<lambda>s. Some (sys_sigreturn s))"
  "arm_ok C s (\<lambda>s. Some (sys_filter_set a lo hi s))" "arm_ok C s (\<lambda>s. Some (sys_filter_get a b s))"
proof -
  have w: "confined C s s'" if "wait_for_tid cpu a s = (s', r)" for s' r
    using confined_wait_for_tid [of C s cpu a] that by simp
  have b: "confined C s s'" if "upd_by_tid a f s = (s', r)" "\<And>t. t_capabilities (f t) = t_capabilities t" for s' r f
    using confined_upd_by_tid [of f C s a] that by simp
  show "arm_ok C s (\<lambda>s. Some (sys_yield cpu s))" "arm_ok C s (\<lambda>s. Some (sys_exit cpu code s))"
    "arm_ok C s (\<lambda>s. Some (sys_set_priority a b s))" "arm_ok C s (\<lambda>s. Some (sys_sigaction cpu a msk s))"
    "arm_ok C s (\<lambda>s. Some (sys_sigreturn s))"
    by (auto simp: sys_yield_def yield_cpu_def sys_exit_def sys_set_priority_def set_task_priority_def
        sys_sigaction_def set_signal_handler_def sys_sigreturn_def
        confined_TASKS intro!: arm_okI confined_exit_task confined_upd_current confined_upd_by_tid)
  show "arm_ok C s (\<lambda>s. Some (sys_wait cpu a s))"
    by (auto simp: arm_ok_def sys_wait_def dest!: w split: prod.splits option.splits)
  show "arm_ok C s (\<lambda>s. Some (sys_kill a sig s))"
    by (auto simp: arm_ok_def sys_kill_def send_signal_def confined_TASKS confined_force_exit dest!: b
        split: prod.splits bool.splits if_splits)
  show "arm_ok C s (\<lambda>s. Some (sys_filter_set a lo hi s))"
    by (auto simp: arm_ok_def sys_filter_set_def set_task_syscall_filter_def dest!: b split: prod.splits bool.splits)
  show "arm_ok C s (\<lambda>s. Some (sys_sigmask cpu msk s))" "arm_ok C s (\<lambda>s. Some (sys_filter_get a b s))"
    by (auto simp: arm_ok_def sys_sigmask_def swap_signal_mask_def sys_filter_get_def confined_TASKS
        intro!: confined_upd_current split: prod.splits option.splits if_splits)
qed

lemma TASKS_free_page [simp]: "TASKS (free_page a s) = TASKS s"
  by (rule page_upd_fields(1) [OF page_upd_free_page])

lemma TASKS_unmap_pages [simp]: "TASKS (unmap_pages root va sz s) = TASKS s"
proof -
  have u: "TASKS (unmap_one_page root v s) = TASKS s" for v and s :: "'a SchedState_scheme"
    by (simp add: unmap_one_page_def Let_def tlbi_def wr_def)
  have "TASKS (fold (\<lambda>i. unmap_one_page root (v i)) is s) = TASKS s" for v "is" and s :: "'a SchedState_scheme"
    by (induction "is" arbitrary: s) (simp_all add: u)
  then show ?thesis by (simp add: unmap_pages_def Let_def)
qed

lemma arm_ok_memory:
  "arm_ok C s (sys_mmap cpu sz)" "arm_ok C s (\<lambda>s. Some (sys_munmap cpu va sz s))"
  "arm_ok C s (\<lambda>s. Some (sys_kread k u n s))" "arm_ok C s (\<lambda>s. Some (sys_cap_query a s))"
  "arm_ok C s (\<lambda>s. Some (sys_list_tasks a b s))" "arm_ok C s (\<lambda>s. Some (sys_get_stats a s))"
proof -
  have a: "TASKS s' = TASKS s" if "alloc_pages n s = (s', r)" for n s' r
    using TASKS_alloc_pages [of n s] that by simp
  have m: "TASKS s'' = TASKS s'" if "map_user_rw tb pa sz s' = Some s''" for tb pa s' s''
    using page_upd_fields(1) [OF page_upd_map_pages] that by (simp add: map_user_rw_def Let_def)
  show "arm_ok C s (sys_mmap cpu sz)"
    by (auto simp: arm_ok_def sys_mmap_def Let_def intro!: confined_TASKS dest!: a m
        split: if_splits prod.splits option.splits)
  show "arm_ok C s (\<lambda>s. Some (sys_munmap cpu va sz s))" "arm_ok C s (\<lambda>s. Some (sys_kread k u n s))"
    "arm_ok C s (\<lambda>s. Some (sys_cap_query a s))" "arm_ok C s (\<lambda>s. Some (sys_list_tasks a b s))"
    "arm_ok C s (\<lambda>s. Some (sys_get_stats a s))"
    by (auto simp: sys_munmap_def sys_kread_def sys_cap_query_def sys_list_tasks_def sys_get_stats_def Let_def
        intro!: arm_okI confined_TASKS split: option.splits)
qed


lemma confined_current_caps:
  assumes "get_task_caps tid s = Some e" "caps_le c (C OR e)"
  shows "confined C s (fst (set_task_caps tid c s))"
proof -
  from assms(1) obtain i t where i: "slot_of tid s = Some i" "TASKS s ! i = Some t" "t_capabilities t = e"
    by (auto simp: get_task_caps_def get_by_tid_def split: option.splits)
  show ?thesis using i assms(2)
    by (auto simp: set_task_caps_def upd_by_tid_def intro: confined_upd_task)
qed

lemma arm_ok_caps:
  "arm_ok (current_caps cpu s) s (\<lambda>s. Some (sys_cap_grant cpu tid b s))"
  "arm_ok C s (\<lambda>s. Some (sys_cap_revoke tid b s))"
  "arm_ok (current_caps cpu s) s (\<lambda>s. Some (sys_clone cpu entry usp c s))"
proof -
  have g: "confined C s s'" if "set_task_caps tid c s = (s', r)" "get_task_caps tid s = Some e" "caps_le c (C OR e)"
    for C c s' r e
    using confined_current_caps [OF that(2,3)] that(1) by simp
  show "arm_ok (current_caps cpu s) s (\<lambda>s. Some (sys_cap_grant cpu tid b s))"
    "arm_ok C s (\<lambda>s. Some (sys_cap_revoke tid b s))"
    by (auto simp: arm_ok_def sys_cap_grant_def sys_cap_revoke_def Let_def confined_TASKS dest: g
        split: option.splits prod.splits bool.splits)
  have "confined (current_caps cpu s) s s'"
    if "spawn_user_thread nm entry usp (c AND current_caps cpu s) tb s = (s', r)" for nm tb s' r
    using confined_spawn_user_thread [of "c AND current_caps cpu s" "current_caps cpu s" s nm entry usp tb] that by simp
  then show "arm_ok (current_caps cpu s) s (\<lambda>s. Some (sys_clone cpu entry usp c s))"
    by (auto simp: arm_ok_def sys_clone_def Let_def confined_TASKS split: prod.splits sum.splits if_splits)
qed

lemma arm_ok_exec:
  assumes "svc_keeps_caps svc"
  shows "arm_ok (current_caps cpu s) s (sys_exec svc cpu p n c)"
  unfolding arm_ok_def
proof (intro allI impI)
  fix s' r assume e: "sys_exec svc cpu p n c s = Some (s', r)"
  let ?C = "current_caps cpu s"
  show "confined ?C s s'"
  proof (cases "s' = s")
    case False
    obtain s1 f where r: "svc_read_file svc (read_bytes (PMEM s) p n) s = (s1, f)" by fastforce
    have p: "s' = s1 \<or> (\<exists>s2 r. spawn_elf (svc_rand svc s1) user_name f (c AND ?C) s1 = Some (s2, r) \<and> s' = svc_free svc s2)"
      using e False r by (auto simp: sys_exec_def Let_def split: if_splits prod.splits bind_split_asm)
    have s1: "confined ?C s s1"
      using assms confined_same_caps [of s s1] r unfolding svc_keeps_caps_def by (metis fst_conv)
    have "confined ?C s (svc_free svc s2)" if "spawn_elf (svc_rand svc s1) user_name f (c AND ?C) s1 = Some (s2, q)" for s2 q
    proof -
      have "confined ?C s1 s2" by (rule confined_spawn_elf [OF _ that]) simp
      also have "confined ?C s2 (svc_free svc s2)"
        using assms confined_same_caps unfolding svc_keeps_caps_def by blast
      finally show ?thesis using confined_trans [OF s1] by blast
    qed
    then show ?thesis using p s1 by blast
  qed (simp add: confined_TASKS)
qed

lemma arms_confined:
  assumes "svc_keeps_caps svc"
  shows "\<forall>(n, need, h) \<in> set (arms svc cpu a0 a1 a2 a3 a4 a5). arm_ok (current_caps cpu s) s h"
proof -
  have o: "arm_ok C s (svc_other svc n args)" for C n args
    using assms confined_same_caps unfolding arm_ok_def svc_keeps_caps_def by blast
  show ?thesis
    unfolding arms_def
    by (simp add: o arm_ok_messages arm_ok_tasks arm_ok_memory arm_ok_caps arm_ok_exec [OF assms])
qed



definition svc_example :: "SchedState Services" where
  "svc_example = \<lparr>svc_other = \<lambda>n args s. Some (s, 0), svc_read_file = \<lambda>p s. (s, []), svc_free = \<lambda>s. s, svc_rand = \<lambda>s. 0\<rparr>"

text \<open>
  A task with the capabilities \<^verbatim>\<open>SEND\<close> and \<^verbatim>\<open>LOG\<close> runs on CPU 0; another has none.
\<close>

definition caps_example :: SchedState where
  "caps_example = boot_example
    \<lparr>TASKS := [Some (idle_task 0 0 0), Some ((idle_task 1 1 0)\<lparr>t_capabilities := 0\<rparr>),
       Some ((idle_task 2 0 0)\<lparr>t_capabilities := CAP_SEND OR CAP_LOG\<rparr>),
       None, None, None, None, None, None, None, None, None, None, None, None, None],
     CURRENT := [2, 1, 16, 16], NEXT_TID := 3, ACTIVE := True\<rparr>"

lemma caps_example_current:
  "current_task 0 caps_example = Some ((idle_task 2 0 0)\<lparr>t_capabilities := CAP_SEND OR CAP_LOG\<rparr>)"
  "current_caps 0 caps_example = 17" "current_tid 0 caps_example = 2"
  "current_syscall_filter 0 caps_example = [NOT 0, NOT 0]"
  by (simp_all add: caps_example_def current_caps_def current_tid_def current_syscall_filter_def current_task_def
      task_at_def current_slot_def cpu_index_def idle_task_def cap_defs)

lemma filter_all_ones: "\<not> filter_blocks [- 1, - 1] n"
proof (cases "n < 128")
  case True
  then have "n div 64 = 0 \<or> n div 64 = 1" by auto
  then have "[- 1, - 1 :: u64] ! (n div 64) = - 1" by auto
  moreover have "push_bit (n mod 64) (1 :: u64) \<noteq> 0" by (simp add: push_bit_eq_0_iff)
  ultimately show ?thesis by (simp add: filter_blocks_def)
qed (simp add: filter_blocks_def)



section \<open>What the gate of the privileged calls tests\<close>

lemma dispatch_arm:
  assumes "\<not> filter_blocks (current_syscall_filter cpu s) n" "map_of (arms svc cpu a0 a1 a2 a3 a4 a5) n = Some (need, h)"
  shows "dispatch svc cpu n a0 a1 a2 a3 a4 a5 s = (if lacks (current_caps cpu s) need then Some (s, -13) else h s)"
  using assms by (simp add: dispatch_def)

text \<open>
  C25. \<^verbatim>\<open>SYS_CAP_REVOKE\<close> does not need \<^verbatim>\<open>CAP_ALL\<close>: the gate tests whether the caller has any of the required
  bits, so a task with one arbitrary capability can strip any task, the kernel's own included, of
  all of its capabilities; only a task with none is refused.
\<close>

theorem revoke_needs_any_cap:
  assumes "\<not> filter_blocks (current_syscall_filter cpu s) SYS_CAP_REVOKE"
    and "slot_of tid s = Some i" "TASKS s ! i = Some t"
  shows "dispatch svc cpu SYS_CAP_REVOKE tid bits a2 a3 a4 a5 s =
    (if current_caps cpu s = 0 then Some (s, -13)
     else Some (upd_task i (\<lambda>t. t\<lparr>t_capabilities := t_capabilities t AND NOT (of_nat bits)\<rparr>) s, 0))"
proof -
  have m: "map_of (arms svc cpu tid bits a2 a3 a4 a5) SYS_CAP_REVOKE =
      Some (Some CAP_ALL, \<lambda>s. Some (sys_cap_revoke tid (of_nat bits) s))"
    by (simp add: arms_def sys_numbers)
  have "sys_cap_revoke tid (of_nat bits) s =
      (upd_task i (\<lambda>t. t\<lparr>t_capabilities := t_capabilities t AND NOT (of_nat bits)\<rparr>) s, 0)"
    using assms(2,3)
    by (simp add: sys_cap_revoke_def get_task_caps_def get_by_tid_def set_task_caps_def upd_by_tid_def upd_task_def)
  then show ?thesis using dispatch_arm [OF assms(1) m] by (simp add: lacks_def CAP_ALL_def)
qed

theorem revoke_needs_any_cap_witness:
  "current_caps 0 caps_example = 17 \<and>
   (\<exists>s'. dispatch svc_example 0 SYS_CAP_REVOKE 0 0x7F 0 0 0 0 caps_example = Some (s', 0) \<and> slot_caps s' 0 = NOT 0x7F)"
proof -
  have s: "slot_of 0 caps_example = Some 0" "TASKS caps_example ! 0 = Some (idle_task 0 0 0)"
    by (simp_all add: slot_of_def find_index_Some_iff caps_example_def has_tid_def idle_task_def)
  have "TASKS caps_example \<noteq> []" by (simp add: caps_example_def)
  then show ?thesis
    using revoke_needs_any_cap [OF _ s, of 0 svc_example "0x7F" 0 0 0 0] s(2)
    by (simp add: idle_task_def caps_example_current filter_all_ones slot_caps_def upd_task_def)
qed

text \<open>
  \<^verbatim>\<open>SYS_SET_PRIORITY\<close> is unreachable: it has the number of \<^verbatim>\<open>SYS_HTTPS_POST\<close>, whose arm comes first and asks
  for no capability, so calling it posts an HTTP request and never changes a priority.
\<close>

theorem set_priority_unreachable:
  assumes "\<not> filter_blocks (current_syscall_filter cpu s) SYS_SET_PRIORITY"
  shows "dispatch svc cpu SYS_SET_PRIORITY a0 a1 a2 a3 a4 a5 s = svc_other svc SYS_HTTPS_POST [a0, a1, a2, a3, a4, a5] s"
proof -
  have "map_of (arms svc cpu a0 a1 a2 a3 a4 a5) SYS_SET_PRIORITY =
      Some (None, svc_other svc SYS_HTTPS_POST [a0, a1, a2, a3, a4, a5])"
    by (simp add: arms_def sys_numbers)
  from dispatch_arm [OF assms this] show ?thesis by (simp add: lacks_def)
qed

theorem set_priority_unreachable_witness:
  "dispatch svc_example 0 SYS_SET_PRIORITY 1 8 0 0 0 0 caps_example = Some (caps_example, 0)"
  using set_priority_unreachable [of 0 caps_example svc_example 1 8 0 0 0 0]
  by (simp add: caps_example_current filter_all_ones svc_example_def)

section \<open>Messages arrive intact and with their true sender\<close>

lemma read_write_message:
  assumes "length (data m) = 32" "sender m < 2 ^ 64"
  shows "read_message (write_message p m mem) p = m"
proof -
  let ?a = "to_dma_addr p" and ?mem = "write_message p m mem"
  have "read_u64 ?mem ?a = read_u64 (write_u64 (of_nat (sender m)) ?a mem) ?a"
    by (rule read_le_cong) (simp add: write_message_def Let_def)
  also have "\<dots> = of_nat (sender m)" by (simp add: read_write_le_same)
  finally have s: "unat (read_u64 ?mem ?a) = sender m" using assms(2) by (simp add: unat_of_nat_small)
  have "map (\<lambda>i. ?mem (?a + 8 + i)) [0..<32] = data m"
    using assms(1) by (intro nth_equalityI) (simp_all add: write_message_def Let_def)
  then show ?thesis using s by (simp add: read_message_def)
qed


lemma sys_send_ok:
  assumes "sys_send cpu tid p s = (s', 0)"
  shows "p \<noteq> 0" "send_message tid ((read_message (PMEM s) p)\<lparr>sender := current_tid cpu s\<rparr>) s = (s', True)"
    and "current_caps cpu s = CAP_ALL \<or>
      tid \<noteq> 0 \<and> current_caps cpu s AND (if tid = 1 then CAP_AI else CAP_SEND) \<noteq> 0"
  using assms by (auto simp: sys_send_def Let_def split: if_splits prod.splits bool.splits)

lemma slot_of_unique:
  assumes "sched_inv s" "j < MAX_TASKS" "TASKS s ! j = Some t" "t_tid t = tid"
  shows "slot_of tid s = Some j"
  unfolding slot_of_def find_index_Some_iff
proof (intro conjI allI impI)
  show "j < MAX_TASKS" "has_tid tid (TASKS s ! j)" using assms by (simp_all add: has_tid_def)
  fix k assume k: "k < j"
  have "\<forall>t t'. k < MAX_TASKS \<and> j < MAX_TASKS \<and> TASKS s ! k = Some t' \<and> TASKS s ! j = Some t \<and> t_tid t' = t_tid t \<longrightarrow> k = j"
    using assms(1) unfolding sched_inv_def table_ok_def by blast
  then show "\<not> has_tid tid (TASKS s ! k)" using assms(2-4) k by (auto simp: has_tid_def split: option.splits)
qed

text \<open>
  C10. A message arrives intact and with its true sender: when \<^verbatim>\<open>SYS_SEND\<close> from one CPU succeeds and the
  receiver, running on another CPU with an empty mailbox, then calls \<^verbatim>\<open>SYS_RECV\<close>, the call succeeds
  and the message in the receiver's buffer has the payload of the sender's buffer and, whatever the
  sender wrote in the sender field, the TID of the task that sent it; and the sender had every
  capability or the one for that target.
\<close>

theorem message_roundtrip:
  assumes inv: "sched_inv s" "NEXT_TID s \<le> 2 ^ 64"
    and send: "sys_send a tid p s = (s1, 0)"
    and rcv: "current_task b s = Some t" "t_tid t = tid" "Mailbox_contents (t_mailbox t) = []" "q \<noteq> 0"
  shows "\<exists>s2. sys_recv b q s1 = (s2, 0) \<and>
      read_message (PMEM s2) q = (read_message (PMEM s) p)\<lparr>sender := current_tid a s\<rparr> \<and>
      (current_caps a s = CAP_ALL \<or> tid \<noteq> 0 \<and> current_caps a s AND (if tid = 1 then CAP_AI else CAP_SEND) \<noteq> 0)"
proof -
  let ?msg = "(read_message (PMEM s) p)\<lparr>sender := current_tid a s\<rparr>" and ?j = "current_slot b s"
  have j: "?j < MAX_TASKS" "TASKS s ! ?j = Some t"
    using rcv(1) by (auto simp: current_task_def task_at_def split: if_splits)
  have so: "slot_of tid s = Some ?j" by (rule slot_of_unique [OF inv(1) j rcv(2)])
  have w: "Mailbox_wf (t_mailbox t)" "length (TASKS s) = MAX_TASKS"
    using inv(1) j by (auto simp: sched_inv_def table_ok_def task_ok_def)
  obtain m where m: "Mailbox_push ?msg (t_mailbox t) = Some m" "s1 = set_task ?j (wake_blocked (t\<lparr>t_mailbox := m\<rparr>)) s"
    using sys_send_ok(2) [OF send] so j by (auto simp: send_message_def split: option.splits)
  have c: "Mailbox_wf m" "Mailbox_contents m = [?msg]" using mb.push_ok [OF w(1) m(1)] rcv(3) by auto
  obtain m' where pop: "Mailbox_pop m = (m', Some ?msg)"
    using c Mailbox_pop_nonempty [of m] by (cases "mcount m"; cases "Mailbox_pop m") (auto simp: Mailbox_contents_def)
  have ct: "current_task b s1 = Some (wake_blocked (t\<lparr>t_mailbox := m\<rparr>))"
    using j w(2) by (simp add: m(2) current_task_def task_at_def current_slot_def set_task_def)
  have "t_mailbox (wake_blocked (t\<lparr>t_mailbox := m\<rparr>)) = m" by (simp add: wake_blocked_def)
  then have r: "recv_message b s1 = (upd_current b (\<lambda>t. t\<lparr>t_mailbox := m'\<rparr>) s1, Some ?msg)"
    using ct pop by (simp add: recv_message_def)
  have "current_tid a s < 2 ^ 64"
    using inv by (auto simp: current_tid_def current_task_def task_at_def sched_inv_def table_ok_def
        split: option.splits if_splits)
  then have "read_message (write_message q ?msg mem) q = ?msg" for mem
    by (intro read_write_message) (simp_all add: read_message_def)
  then show ?thesis using r rcv(4) sys_send_ok(3) [OF send] by (auto simp: sys_recv_def)
qed


definition talk_example :: SchedState where
  "talk_example = boot_example
    \<lparr>TASKS := [Some (idle_task 0 0 0), None, Some ((idle_task 2 0 0)\<lparr>t_capabilities := CAP_SEND\<rparr>), Some (idle_task 3 1 0),
       None, None, None, None, None, None, None, None, None, None, None, None],
     CURRENT := [2, 3, 16, 16], NEXT_TID := 4, ACTIVE := True\<rparr>"

lemma talk_example_inv: "sched_inv talk_example"
proof -
  have four: "c < 4 \<Longrightarrow> c = 0 \<or> c = 1 \<or> c = 2 \<or> c = 3" for c :: nat by auto
  have "page_wf boot_example" using boot_example_boot by (simp add: boot_state_def)
  moreover have "table_ok (TASKS talk_example) 4"
    unfolding table_ok_def talk_example_def
    by (auto dest!: lt_16_cases simp: idle_task_def task_ok_def mb.wf_empty)
  ultimately show ?thesis
    unfolding sched_inv_def
    by (auto dest!: four simp: talk_example_def boot_example_def page_wf_def numeral_3_eq_3)
qed

theorem message_roundtrip_witness:
  "sched_inv talk_example \<and> (\<exists>s1 s2. sys_send 0 3 0x1000 talk_example = (s1, 0) \<and>
     sys_recv 1 0x2000 s1 = (s2, 0) \<and> read_message (PMEM s2) 0x2000 = \<lparr>sender = 2, data = replicate 32 0\<rparr>)"
proof -
  have c: "current_task 1 talk_example = Some (idle_task 3 1 0)"
    "current_task 0 talk_example = Some ((idle_task 2 0 0)\<lparr>t_capabilities := CAP_SEND\<rparr>)"
    by (simp_all add: talk_example_def current_task_def task_at_def current_slot_def cpu_index_def numeral_3_eq_3)
  have so: "slot_of 3 talk_example = Some 3"
    by (rule slot_of_unique [OF talk_example_inv, of 3 "idle_task 3 1 0"]) (simp_all add: talk_example_def idle_task_def)
  have T: "TASKS talk_example ! 3 = Some (idle_task 3 1 0)" by (simp add: talk_example_def)
  obtain s1 where s1: "sys_send 0 3 0x1000 talk_example = (s1, 0)"
    using so T c by (simp add: sys_send_def Let_def current_caps_def send_message_def cap_defs idle_task_def
        Mailbox_push_def Mailbox_new_def)
  have "NEXT_TID talk_example = 4" "t_tid (idle_task 3 1 0) = 3" "Mailbox_contents (t_mailbox (idle_task 3 1 0)) = []"
    by (simp_all add: talk_example_def idle_task_def mb.contents_empty)
  with message_roundtrip [OF talk_example_inv _ s1 c(1), of "0x2000"] obtain s2 where
    "sys_recv 1 0x2000 s1 = (s2, 0)"
    "read_message (PMEM s2) 0x2000 = (read_message (PMEM talk_example) 0x1000)\<lparr>sender := current_tid 0 talk_example\<rparr>"
    by auto
  moreover have "data (read_message (PMEM talk_example) 0x1000) = replicate 32 0"
    by (simp add: read_message_def talk_example_def boot_example_def map_replicate_const)
  moreover have "current_tid 0 talk_example = 2" using c(2) by (simp add: current_tid_def idle_task_def)
  ultimately show ?thesis using s1 talk_example_inv by (auto intro!: exI [of _ s1] exI [of _ s2] Message.equality)
qed

section \<open>Memory mapped for a task\<close>

lemma frames_ran_apart:
  assumes ok: "pt_ok s root T" and al: "alloc_pages n s = (s1, Some pa)"
    and t: "t \<in> ran T \<union> free_frames s1" "t \<le> x" "x < t + 4096" and u: "u \<in> frames pa n"
  shows "\<not> (u \<le> x \<and> x < u + 4096)"
proof -
  note wf = pt_okD(1) [OF ok] and fr = alloc_pages_frames [OF pt_okD(1) [OF ok] al]
  have d: "4096 dvd v" if "v \<in> free_frames s" for v
    using that wf by (auto simp: free_frames_def page_wf_def PAGE_SIZE_def)
  have "t \<noteq> u" using t(1) u fr pt_okD(7) [OF ok] by (auto simp: ran_def)
  moreover have "4096 dvd t" "4096 dvd u" using t(1) u fr d pt_okD(5) [OF ok] by (auto simp: ran_def)
  ultimately show ?thesis using aligned_apart [of 4096 t u] t(2,3) by linarith
qed

lemma pt_ok_alloc:
  assumes ok: "pt_ok s root T" and al: "alloc_pages n s = (s1, Some pa)"
  shows "pt_ok s1 root T" "walk s1 root x = walk s root x"
proof -
  note b = alloc_pages_bounds [OF pt_okD(1) [OF ok] al] and fr = alloc_pages_frames [OF pt_okD(1) [OF ok] al]
  have eq: "PMEM s1 y = PMEM s y" if "t \<in> ran T" "t \<le> y" "y < t + 4096" for t y
    using b(5) frames_ran_apart [OF ok al _ that(2,3)] that(1) by (auto simp: touches_def)
  show "walk s1 root x = walk s root x" by (rule walk_mem_cong [OF ok eq])
  show "pt_ok s1 root T"
    unfolding pt_ok_def
  proof (intro conjI allI impI)
    fix p t assume "T p = Some t"
    then show "frame_ok s1 t" "length p \<le> 3" using fr pt_okD(5-8) [OF ok] by (auto simp: frame_ok_def)
  next
    fix p t and i :: nat assume a: "T p = Some t \<and> length p < 3 \<and> i < 512"
    then have "rd s1 t i = rd s t i" using eq ranI [of T p t] by (intro rd_frame_cong) auto
    then show "entry_ok (length p) (rd s1 t i) (T (p @ [i]))" using pt_okD(10) [OF ok] a by auto
  qed (use ok b in \<open>auto simp: pt_ok_def\<close>)
qed


text \<open>The descriptor \<open>sys_mmap\<close> installs: EL0 access, and no execution where nothing was mapped.\<close>

definition rw_flags :: u64 where
  "rw_flags = PTE_VALID OR PTE_TABLE OR PTE_AF OR PTE_SH_INNER OR PTE_AP_USER_RW OR ATTR_NORMAL OR PTE_UXN OR PTE_PXN"

lemma rw_flags_bits: "bit rw_flags 0" "bit rw_flags 6" "bit rw_flags 53" "bit rw_flags 54" "rw_flags AND PTE_ADDR = 0"
  by (simp_all add: rw_flags_def pte_defs PTE_ADDR_def)

lemma rw_desc:
  assumes "4096 dvd pa" "pa < 2 ^ 48" "d = page_desc old pa rw_flags"
  shows "desc_addr d = pa" "user_ok d" "\<not> kernel_exec d" "old = None \<Longrightarrow> \<not> user_exec d"
proof -
  show "desc_addr d = pa"
    unfolding assms(3) page_desc_def by (intro desc_addr_page assms(1,2) merge_flags_addr rw_flags_bits)
  show "user_ok d" "\<not> kernel_exec d" "old = None \<Longrightarrow> \<not> user_exec d"
    unfolding assms(3) by (simp_all add: desc_bits page_desc_bits merge_flags_bits rw_flags_bits)
qed

lemma current_ttbr0_cong:
  "TASKS s' = TASKS s \<Longrightarrow> CURRENT s' = CURRENT s \<Longrightarrow> current_task_ttbr0 cpu s' = current_task_ttbr0 cpu s"
  by (simp add: current_task_ttbr0_def current_task_def task_at_def current_slot_def)

lemma sys_mmap_stages:
  assumes "sys_mmap cpu sz s = Some (s', r)" "0 < sz" "sz + 0xFFF < 2 ^ 64" "r \<noteq> -12"
    and "page_wf s" "current_task_ttbr0 cpu s = tb" "tb \<noteq> 0"
  obtains s1 pa where "alloc_pages ((sz + 0xFFF) div 4096) s = (s1, Some pa)" "map_pages tb pa pa sz rw_flags s1 = Some s'"
    "r = int pa" "PMEM s1 = zero_range pa ((sz + 0xFFF) div 4096 * 4096) (PMEM s)"
proof -
  let ?n = "(sz + 0xFFF) div 4096"
  have n: "wadd sz 0xFFF = sz + 0xFFF" using assms(3) by (simp add: wadd_def)
  obtain s1 pa where a: "alloc_pages ?n s = (s1, Some pa)"
    using assms(1,2,4) n by (auto simp: sys_mmap_def Let_def split: prod.splits option.splits if_splits)
  obtain k where k: "s1 = s\<lparr>BITMAP := BITMAP s1, PMEM := zero_range pa (?n * PAGE_SIZE) (PMEM s)\<rparr>"
    by (rule alloc_pages_Some [OF assms(5) a])
  have m: "PMEM s1 = zero_range pa (?n * 4096) (PMEM s)" by (subst k) (simp add: PAGE_SIZE_def)
  have z: "s1\<lparr>PMEM := zero_range pa (?n * 4096) (PMEM s1)\<rparr> = s1"
    by (simp add: m zero_range_def fun_eq_iff)
  have T: "TASKS s1 = TASKS s" "CURRENT s1 = CURRENT s" by (subst k, simp)+
  have "current_task_ttbr0 cpu s1 = current_task_ttbr0 cpu s"
    by (rule current_ttbr0_cong [OF T])
  then have "map_pages tb pa pa sz rw_flags s1 = Some s'" "r = int pa"
    using assms(1,2,6,7) n a z by (auto simp: sys_mmap_def map_user_rw_def rw_flags_def Let_def split: option.splits)
  with that a m show thesis by blast
qed



definition mmap_example :: SchedState where
  "mmap_example = boot_example\<lparr>BITMAP := [0xFF], NUM_PAGES := 8, RAM_TOP := 0x41008000\<rparr>"

lemma mmap_example_room: "page_wf mmap_example" "RAM_TOP mmap_example \<le> 2 ^ 48" "free_pages mmap_example = 8"
  by (simp add: mmap_example_def boot_example_def page_wf_def PAGE_SIZE_def) code_simp+



section \<open>Faults\<close>

lemma exit_task_effect:
  assumes "sched_inv s" "current_task cpu s = Some t" "t_wait_tid t \<noteq> Some (t_tid t)"
    and "s' = exit_task cpu code s" "cur = current_slot cpu s"
  shows "TASKS s' ! cur = Some (t\<lparr>t_state := Dead, t_exit_code := code\<rparr>)"
    and "j < MAX_TASKS \<Longrightarrow> j \<noteq> cur \<Longrightarrow> TASKS s' ! j =
      (if waits_for (t_tid t) (TASKS s ! j) then map_option wake_waiter (TASKS s ! j) else TASKS s ! j)"
    and "CURRENT s' = CURRENT s" "ACTIVE s' = ACTIVE s"
proof -
  note ct = current_task_SomeD [OF assms(2), folded assms(5)]
  have len: "length (TASKS s) = MAX_TASKS" using assms(1) by (simp add: sched_inv_def table_ok_def)
  define s1 where "s1 = upd_current cpu (\<lambda>t. t\<lparr>t_state := Dead, t_exit_code := code\<rparr>) s"
  have T1: "TASKS s1 = (TASKS s)[cur := Some (t\<lparr>t_state := Dead, t_exit_code := code\<rparr>)]"
    "CURRENT s1 = CURRENT s" "ACTIVE s1 = ACTIVE s"
    using ct by (simp_all add: s1_def upd_current_def upd_task_def assms(5))
  have r: "s' = fold (wake_waiter_at (t_tid t) code) [0..<MAX_TASKS] s1"
    using assms(2) by (simp add: assms(4) exit_task_def s1_def current_tid_def Let_def)
  have in1: "\<forall>i \<in> set [0..<MAX_TASKS]. i < length (TASKS s1)" using len T1 by simp
  note F = fold_wake_TASKS [OF distinct_upt in1, of "t_tid t" code]
  have "CURRENT (fold (wake_waiter_at tid code) is q) = CURRENT q \<and> ACTIVE (fold (wake_waiter_at tid code) is q) = ACTIVE q"
    for tid "is" and q :: "'a SchedState_scheme"
    by (induction "is" arbitrary: q) (auto simp: wake_waiter_at_def set_task_def split: option.split)
  then show "CURRENT s' = CURRENT s" "ACTIVE s' = ACTIVE s" using r T1 by simp_all
  show "TASKS s' ! cur = Some (t\<lparr>t_state := Dead, t_exit_code := code\<rparr>)"
    unfolding r F using T1 ct len assms(3) by (simp add: waits_for_def)
  show "TASKS s' ! j = (if waits_for (t_tid t) (TASKS s ! j) then map_option wake_waiter (TASKS s ! j) else TASKS s ! j)"
    if "j < MAX_TASKS" "j \<noteq> cur" using that unfolding r F by (simp add: T1)
qed



definition fault_example :: SchedState where
  "fault_example = set_task 0 ((idle_task 0 0 0)\<lparr>t_state := Ready\<rparr>) exit_example"


end
