(* ===== verification/Wasm_Module.thy ===== *)
theory Wasm_Module
  imports Utf8 "HOL-Library.Monad_Syntax"
begin

text \<open>
  The binary format of the WebAssembly runtime, \<^verbatim>\<open>kernel/src/wasm/mod.rs\<close>: value types and the
  structures of a module, the LEB128 decoders, the section parser \<^verbatim>\<open>load\<close> and the
  structural check \<^verbatim>\<open>validate\<close>.  A parser is a byte string and a position; each of its methods
  gives \<open>None\<close> at the end of the input or on a malformed byte.  Allocation of the vectors is assumed
  to succeed.
\<close>

section \<open>Modules\<close>

datatype ValType = I32 | I64 | F32 | F64

definition ValType_from_byte :: "u8 \<Rightarrow> ValType option" where
  "ValType_from_byte b =
    (if b = 0x7F then Some I32 else if b = 0x7E then Some I64
     else if b = 0x7D then Some F32 else if b = 0x7C then Some F64 else None)"

record FuncType =
  ft_params :: "ValType list"
  ft_results :: "ValType list"

datatype ImportKind = IFunc nat | ITable | IMemory nat "nat option" | IGlobal

record Import =
  imp_module :: "u8 list"
  imp_name :: "u8 list"
  imp_kind :: ImportKind

datatype ExportKind = EFunc | ETable | EMemory | EGlobal

record Export =
  exp_name :: "u8 list"
  exp_kind :: ExportKind
  exp_idx :: nat

record GlobalDef =
  gd_val_type :: ValType
  gd_mutable :: bool
  gd_init_val :: u64

record FuncBody =
  fb_locals :: "(nat \<times> ValType) list"
  fb_code :: "u8 list"

record DataSegment =
  ds_mem_idx :: nat
  ds_offset :: u32
  ds_data :: "u8 list"

record ElemSegment =
  es_table_idx :: nat
  es_offset :: u32
  es_func_idxs :: "nat list"

record WasmModule =
  m_types :: "FuncType list"
  m_imports :: "Import list"
  m_func_types :: "nat list"
  m_table_size :: nat
  m_mem_min :: nat
  m_mem_max :: "nat option"
  m_globals :: "GlobalDef list"
  m_exports :: "Export list"
  m_start :: "nat option"
  m_elem :: "ElemSegment list"
  m_code :: "FuncBody list"
  m_data :: "DataSegment list"
  m_caps :: u64

datatype WasmError =
  InvalidMagic | InvalidSection | UnsupportedSection u8 | OutOfMemory | ExportNotFound | TypeMismatch
| Trap string | MemoryFault u32 | DivisionByZero | StackOverflow | Unimplemented string

definition WASM_DEFAULT_CAPS :: u64 where "WASM_DEFAULT_CAPS = push_bit 0 1 OR push_bit 1 1"

text \<open>The type indices of the imported functions, in order.\<close>

definition import_funcs :: "WasmModule \<Rightarrow> Import list" where
  "import_funcs m = filter (\<lambda>i. case imp_kind i of IFunc _ \<Rightarrow> True | _ \<Rightarrow> False) (m_imports m)"

definition import_func_count :: "WasmModule \<Rightarrow> nat" where
  "import_func_count m = length (import_funcs m)"

definition total_func_count :: "WasmModule \<Rightarrow> nat" where
  "total_func_count m = import_func_count m + length (m_code m)"

text \<open>\<^verbatim>\<open>slice::get\<close>.\<close>

definition get_at :: "nat \<Rightarrow> 'a list \<Rightarrow> 'a option" where
  "get_at i xs = (if i < length xs then Some (xs ! i) else None)"

definition func_type :: "WasmModule \<Rightarrow> nat \<Rightarrow> FuncType option" where
  "func_type m idx =
    (let n_imports = import_func_count m in
     if idx < n_imports
     then (case imp_kind (import_funcs m ! idx) of IFunc ti \<Rightarrow> get_at ti (m_types m) | _ \<Rightarrow> None)
     else do { ti \<leftarrow> get_at (idx - n_imports) (m_func_types m); get_at ti (m_types m) })"

definition find_export :: "WasmModule \<Rightarrow> u8 list \<Rightarrow> nat option" where
  "find_export m nm = map_option exp_idx (find (\<lambda>e. exp_kind e = EFunc \<and> exp_name e = nm) (m_exports m))"

section \<open>LEB128\<close>

function leb_u32_loop :: "u8 list \<Rightarrow> nat \<Rightarrow> nat \<Rightarrow> u32 \<Rightarrow> (u32 \<times> nat) option" where
  "leb_u32_loop dat i shift result =
    (if i \<ge> length dat then None
     else let b = dat ! i;
              result' = result OR push_bit shift (ucast (b AND 0x7F));
              shift' = shift + 7
          in if b AND 0x80 = 0 then Some (result', i + 1)
             else if shift' \<ge> 35 then None
             else leb_u32_loop dat (i + 1) shift' result')"
  by pat_completeness auto
termination by (relation "measure (\<lambda>(dat, i, _). length dat - i)") auto

definition read_leb128_u32 :: "u8 list \<Rightarrow> nat \<Rightarrow> (u32 \<times> nat) option" where
  "read_leb128_u32 dat pos = map_option (\<lambda>(v, i). (v, i - pos)) (leb_u32_loop dat pos 0 0)"

text \<open>The signed decoders extend the sign bit of the last group when it lies below the width.\<close>

function leb_i32_loop :: "u8 list \<Rightarrow> nat \<Rightarrow> nat \<Rightarrow> u32 \<Rightarrow> (u32 \<times> nat) option" where
  "leb_i32_loop dat i shift result =
    (if i \<ge> length dat then None
     else let b = dat ! i;
              result' = result OR push_bit shift (ucast (b AND 0x7F));
              shift' = shift + 7
          in if b AND 0x80 = 0
             then Some (if shift' < 32 \<and> b AND 0x40 \<noteq> 0 then result' OR - push_bit shift' 1 else result', i + 1)
             else if shift' \<ge> 35 then None
             else leb_i32_loop dat (i + 1) shift' result')"
  by pat_completeness auto
termination by (relation "measure (\<lambda>(dat, i, _). length dat - i)") auto

definition read_leb128_i32 :: "u8 list \<Rightarrow> nat \<Rightarrow> (u32 \<times> nat) option" where
  "read_leb128_i32 dat pos = map_option (\<lambda>(v, i). (v, i - pos)) (leb_i32_loop dat pos 0 0)"

function leb_i64_loop :: "u8 list \<Rightarrow> nat \<Rightarrow> nat \<Rightarrow> u64 \<Rightarrow> (u64 \<times> nat) option" where
  "leb_i64_loop dat i shift result =
    (if i \<ge> length dat then None
     else let b = dat ! i;
              result' = result OR push_bit shift (ucast (b AND 0x7F));
              shift' = shift + 7
          in if b AND 0x80 = 0
             then Some (if shift' < 64 \<and> b AND 0x40 \<noteq> 0 then result' OR - push_bit shift' 1 else result', i + 1)
             else if shift' \<ge> 70 then None
             else leb_i64_loop dat (i + 1) shift' result')"
  by pat_completeness auto
termination by (relation "measure (\<lambda>(dat, i, _). length dat - i)") auto

definition read_leb128_i64 :: "u8 list \<Rightarrow> nat \<Rightarrow> (u64 \<times> nat) option" where
  "read_leb128_i64 dat pos = map_option (\<lambda>(v, i). (v, i - pos)) (leb_i64_loop dat pos 0 0)"

declare leb_u32_loop.simps [simp del] leb_i32_loop.simps [simp del] leb_i64_loop.simps [simp del]

section \<open>The parser\<close>

record Parser =
  p_data :: "u8 list"
  p_pos :: nat

definition Parser_new :: "u8 list \<Rightarrow> Parser" where "Parser_new d = \<lparr>p_data = d, p_pos = 0\<rparr>"
definition p_remaining :: "Parser \<Rightarrow> nat" where "p_remaining p = length (p_data p) - p_pos p"
definition p_eof :: "Parser \<Rightarrow> bool" where "p_eof p \<longleftrightarrow> p_pos p \<ge> length (p_data p)"

definition p_byte :: "Parser \<Rightarrow> (u8 \<times> Parser) option" where
  "p_byte p = (if p_eof p then None else Some (p_data p ! p_pos p, p\<lparr>p_pos := p_pos p + 1\<rparr>))"

definition p_bytes :: "nat \<Rightarrow> Parser \<Rightarrow> (u8 list \<times> Parser) option" where
  "p_bytes n p =
    (if p_pos p + n > length (p_data p) then None
     else Some (take n (drop (p_pos p) (p_data p)), p\<lparr>p_pos := p_pos p + n\<rparr>))"

definition p_u32_leb :: "Parser \<Rightarrow> (u32 \<times> Parser) option" where
  "p_u32_leb p = do { (v, n) \<leftarrow> read_leb128_u32 (p_data p) (p_pos p); Some (v, p\<lparr>p_pos := p_pos p + n\<rparr>) }"

definition p_i32_leb :: "Parser \<Rightarrow> (u32 \<times> Parser) option" where
  "p_i32_leb p = do { (v, n) \<leftarrow> read_leb128_i32 (p_data p) (p_pos p); Some (v, p\<lparr>p_pos := p_pos p + n\<rparr>) }"

definition p_i64_leb :: "Parser \<Rightarrow> (u64 \<times> Parser) option" where
  "p_i64_leb p = do { (v, n) \<leftarrow> read_leb128_i64 (p_data p) (p_pos p); Some (v, p\<lparr>p_pos := p_pos p + n\<rparr>) }"

definition p_name :: "Parser \<Rightarrow> (u8 list \<times> Parser) option" where
  "p_name p = do {
     (len, p) \<leftarrow> p_u32_leb p;
     (bs, p) \<leftarrow> p_bytes (unat len) p;
     Some (utf8_lossy bs, p) }"

definition p_val_type :: "Parser \<Rightarrow> (ValType \<times> Parser) option" where
  "p_val_type p = do { (b, p) \<leftarrow> p_byte p; t \<leftarrow> ValType_from_byte b; Some (t, p) }"

text \<open>The \<^verbatim>\<open>for _ in 0..n\<close> loops that parse one item and push it on a vector.\<close>

primrec p_repeat :: "nat \<Rightarrow> (Parser \<Rightarrow> ('b \<times> Parser) option) \<Rightarrow> Parser \<Rightarrow> ('b list \<times> Parser) option" where
  "p_repeat 0 f p = Some ([], p)"
| "p_repeat (Suc n) f p = do { (x, p) \<leftarrow> f p; (xs, p) \<leftarrow> p_repeat n f p; Some (x # xs, p) }"

definition p_vec :: "(Parser \<Rightarrow> ('b \<times> Parser) option) \<Rightarrow> Parser \<Rightarrow> ('b list \<times> Parser) option" where
  "p_vec f p = do { (n, p) \<leftarrow> p_u32_leb p; p_repeat (unat n) f p }"

definition p_vec_val_types :: "Parser \<Rightarrow> (ValType list \<times> Parser) option" where
  "p_vec_val_types p = p_vec p_val_type p"

definition p_const_expr :: "Parser \<Rightarrow> (u64 \<times> Parser) option" where
  "p_const_expr p = do {
     (op, p) \<leftarrow> p_byte p;
     (val, p) \<leftarrow>
       (if op = 0x41 then do { (v, p) \<leftarrow> p_i32_leb p; Some (scast v, p) }
        else if op = 0x42 then p_i64_leb p
        else if op = 0x43 then do { (_, p) \<leftarrow> p_bytes 4 p; Some (0, p) }
        else if op = 0x44 then do { (_, p) \<leftarrow> p_bytes 8 p; Some (0, p) }
        else None);
     (en, p) \<leftarrow> p_byte p;
     if en \<noteq> 0x0B then None else Some (val, p) }"

definition p_limits :: "Parser \<Rightarrow> ((nat \<times> nat option) \<times> Parser) option" where
  "p_limits p = do {
     (flag, p) \<leftarrow> p_byte p;
     (mn, p) \<leftarrow> p_u32_leb p;
     if flag = 1 then do { (mx, p) \<leftarrow> p_u32_leb p; Some ((unat mn, Some (unat mx)), p) }
     else Some ((unat mn, None), p) }"

section \<open>Sections\<close>

definition sec_type :: "Parser \<Rightarrow> (FuncType \<times> Parser) option" where
  "sec_type p = do {
     (tag, p) \<leftarrow> p_byte p;
     if tag \<noteq> 0x60 then None else do {
       (params, p) \<leftarrow> p_vec_val_types p;
       (results, p) \<leftarrow> p_vec_val_types p;
       Some (\<lparr>ft_params = params, ft_results = results\<rparr>, p) } }"

definition import_kind :: "u8 \<Rightarrow> Parser \<Rightarrow> (ImportKind \<times> Parser) option" where
  "import_kind kind_b p =
    (if kind_b = 0 then do { (ti, p) \<leftarrow> p_u32_leb p; Some (IFunc (unat ti), p) }
     else if kind_b = 1 then do { (_, p) \<leftarrow> p_byte p; (_, p) \<leftarrow> p_limits p; Some (ITable, p) }
     else if kind_b = 2 then do { ((mn, mx), p) \<leftarrow> p_limits p; Some (IMemory mn mx, p) }
     else if kind_b = 3 then do { (_, p) \<leftarrow> p_val_type p; (_, p) \<leftarrow> p_byte p; Some (IGlobal, p) }
     else None)"

definition sec_import :: "Parser \<Rightarrow> (Import \<times> Parser) option" where
  "sec_import p = do {
     (mo, p) \<leftarrow> p_name p;
     (nm, p) \<leftarrow> p_name p;
     (kind_b, p) \<leftarrow> p_byte p;
     (kind, p) \<leftarrow> import_kind kind_b p;
     Some (\<lparr>imp_module = mo, imp_name = nm, imp_kind = kind\<rparr>, p) }"

definition sec_function :: "Parser \<Rightarrow> (nat \<times> Parser) option" where
  "sec_function p = do { (t, p) \<leftarrow> p_u32_leb p; Some (unat t, p) }"

definition sec_table :: "Parser \<Rightarrow> (nat \<times> Parser) option" where
  "sec_table p = do { (_, p) \<leftarrow> p_byte p; ((mn, _), p) \<leftarrow> p_limits p; Some (mn, p) }"

definition sec_global :: "Parser \<Rightarrow> (GlobalDef \<times> Parser) option" where
  "sec_global p = do {
     (vt, p) \<leftarrow> p_val_type p;
     (mu, p) \<leftarrow> p_byte p;
     (init, p) \<leftarrow> p_const_expr p;
     Some (\<lparr>gd_val_type = vt, gd_mutable = (mu \<noteq> 0), gd_init_val = init\<rparr>, p) }"

definition export_kind :: "u8 \<Rightarrow> ExportKind option" where
  "export_kind b =
    (if b = 0 then Some EFunc else if b = 1 then Some ETable
     else if b = 2 then Some EMemory else if b = 3 then Some EGlobal else None)"

definition sec_export :: "Parser \<Rightarrow> (Export \<times> Parser) option" where
  "sec_export p = do {
     (nm, p) \<leftarrow> p_name p;
     (kind_b, p) \<leftarrow> p_byte p;
     kind \<leftarrow> export_kind kind_b;
     (idx, p) \<leftarrow> p_u32_leb p;
     Some (\<lparr>exp_name = nm, exp_kind = kind, exp_idx = unat idx\<rparr>, p) }"

definition sec_elem :: "Parser \<Rightarrow> (ElemSegment \<times> Parser) option" where
  "sec_elem p = do {
     (table_idx, p) \<leftarrow> p_u32_leb p;
     (offset, p) \<leftarrow> p_const_expr p;
     (idxs, p) \<leftarrow> p_vec p_u32_leb p;
     Some (\<lparr>es_table_idx = unat table_idx, es_offset = ucast offset, es_func_idxs = map unat idxs\<rparr>, p) }"

definition parse_func_body :: "Parser \<Rightarrow> FuncBody option" where
  "parse_func_body p = do {
     (n_local_groups, p) \<leftarrow> p_u32_leb p;
     (locals, p) \<leftarrow> p_repeat (unat n_local_groups)
       (\<lambda>p. do { (count, p) \<leftarrow> p_u32_leb p; (vt, p) \<leftarrow> p_val_type p; Some ((unat count, vt), p) }) p;
     Some \<lparr>fb_locals = locals, fb_code = drop (p_pos p) (p_data p)\<rparr> }"

definition sec_code :: "Parser \<Rightarrow> (FuncBody \<times> Parser) option" where
  "sec_code p = do {
     (body_sz, p) \<leftarrow> p_u32_leb p;
     (body, p) \<leftarrow> p_bytes (unat body_sz) p;
     b \<leftarrow> parse_func_body (Parser_new body);
     Some (b, p) }"

definition sec_data :: "Parser \<Rightarrow> (DataSegment \<times> Parser) option" where
  "sec_data p = do {
     (mem_idx, p) \<leftarrow> p_u32_leb p;
     (offset, p) \<leftarrow> p_const_expr p;
     (len, p) \<leftarrow> p_u32_leb p;
     (raw, p) \<leftarrow> p_bytes (unat len) p;
     Some (\<lparr>ds_mem_idx = unat mem_idx, ds_offset = ucast offset, ds_data = raw\<rparr>, p) }"

text \<open>The \<^verbatim>\<open>match section_id\<close> of \<^verbatim>\<open>load\<close>; unknown sections and the data count are skipped.\<close>

definition load_section :: "u8 \<Rightarrow> Parser \<Rightarrow> WasmModule \<Rightarrow> WasmModule option" where
  "load_section sid sp m =
    (if sid = 1 then do { (xs, _) \<leftarrow> p_vec sec_type sp; Some (m\<lparr>m_types := m_types m @ xs\<rparr>) }
     else if sid = 2 then do { (xs, _) \<leftarrow> p_vec sec_import sp; Some (m\<lparr>m_imports := m_imports m @ xs\<rparr>) }
     else if sid = 3 then do { (xs, _) \<leftarrow> p_vec sec_function sp; Some (m\<lparr>m_func_types := m_func_types m @ xs\<rparr>) }
     else if sid = 4 then do { (xs, _) \<leftarrow> p_vec sec_table sp; Some (m\<lparr>m_table_size := fold max xs (m_table_size m)\<rparr>) }
     else if sid = 5 then do {
       (xs, _) \<leftarrow> p_vec p_limits sp;
       Some (case xs of [] \<Rightarrow> m | (mn, mx) # _ \<Rightarrow> m\<lparr>m_mem_min := mn, m_mem_max := mx\<rparr>) }
     else if sid = 6 then do { (xs, _) \<leftarrow> p_vec sec_global sp; Some (m\<lparr>m_globals := m_globals m @ xs\<rparr>) }
     else if sid = 7 then do { (xs, _) \<leftarrow> p_vec sec_export sp; Some (m\<lparr>m_exports := m_exports m @ xs\<rparr>) }
     else if sid = 8 then do { (i, _) \<leftarrow> p_u32_leb sp; Some (m\<lparr>m_start := Some (unat i)\<rparr>) }
     else if sid = 9 then do { (xs, _) \<leftarrow> p_vec sec_elem sp; Some (m\<lparr>m_elem := m_elem m @ xs\<rparr>) }
     else if sid = 10 then do { (xs, _) \<leftarrow> p_vec sec_code sp; Some (m\<lparr>m_code := m_code m @ xs\<rparr>) }
     else if sid = 11 then do { (xs, _) \<leftarrow> p_vec sec_data sp; Some (m\<lparr>m_data := m_data m @ xs\<rparr>) }
     else Some m)"

text \<open>One header of the \<^verbatim>\<open>while\<close> loop: the section's number and bytes, and the parser behind it.\<close>

definition next_section :: "Parser \<Rightarrow> (u8 \<times> u8 list \<times> Parser) option" where
  "next_section p = do {
     (section_id, p) \<leftarrow> p_byte p;
     (section_len, p) \<leftarrow> p_u32_leb p;
     if p_remaining p < unat section_len then None
     else Some (section_id, take (unat section_len) (drop (p_pos p) (p_data p)),
                p\<lparr>p_pos := p_pos p + unat section_len\<rparr>) }"

lemma next_section_progress:
  assumes "next_section p = Some (i, d, p')"
  shows "p_data p' = p_data p" "p_pos p < p_pos p'" "p_remaining p' < p_remaining p"
proof -
  show "p_data p' = p_data p" "p_pos p < p_pos p'"
    using assms by (auto simp: next_section_def p_byte_def p_u32_leb_def split: bind_split_asm if_splits)
  moreover have "p_pos p < length (p_data p)"
    using assms by (auto simp: next_section_def p_byte_def p_eof_def split: bind_split_asm if_splits)
  ultimately show "p_remaining p' < p_remaining p" by (simp add: p_remaining_def)
qed

function load_loop :: "Parser \<Rightarrow> WasmModule \<Rightarrow> WasmModule option" where
  "load_loop p m =
    (if p_eof p then Some m
     else case next_section p of
            None \<Rightarrow> None
          | Some (section_id, sec, p') \<Rightarrow>
              (case load_section section_id (Parser_new sec) m of None \<Rightarrow> None | Some m' \<Rightarrow> load_loop p' m'))"
  by pat_completeness auto
termination by (relation "measure (\<lambda>(p, _). p_remaining p)") (auto dest: next_section_progress)

declare load_loop.simps [simp del]

definition empty_module :: WasmModule where
  "empty_module = \<lparr>m_types = [], m_imports = [], m_func_types = [], m_table_size = 0, m_mem_min = 1,
     m_mem_max = None, m_globals = [], m_exports = [], m_start = None, m_elem = [], m_code = [], m_data = [],
     m_caps = WASM_DEFAULT_CAPS\<rparr>"

text \<open>The magic bytes \<^verbatim>\<open>"\0asm"\<close> and the version word, as \<^verbatim>\<open>load\<close> and \<^verbatim>\<open>validate\<close> test them.\<close>

definition wasm_header_ok :: "u8 list \<Rightarrow> bool" where
  "wasm_header_ok bs \<longleftrightarrow> 8 \<le> length bs \<and> take 4 bs = [0, 0x61, 0x73, 0x6D] \<and> take 4 (drop 4 bs) = [1, 0, 0, 0]"

definition wasm_load :: "u8 list \<Rightarrow> WasmError + WasmModule" where
  "wasm_load bs =
    (if \<not> wasm_header_ok bs then Inl InvalidMagic
     else case load_loop (Parser_new (drop 8 bs)) empty_module of
            None \<Rightarrow> Inl InvalidSection | Some m \<Rightarrow> Inr m)"

datatype ValidateError = TooShortModule | BadMagicBytes | BadVersion | BadSectionId | BadLength | PastEnd

function validate_loop :: "u8 list \<Rightarrow> nat \<Rightarrow> ValidateError option" where
  "validate_loop dat pos =
    (if pos \<ge> length dat then None
     else if dat ! pos > 12 then Some BadSectionId
     else case read_leb128_u32 dat (pos + 1) of
            None \<Rightarrow> Some BadLength
          | Some (section_len, n) \<Rightarrow>
              if pos + 1 + n + unat section_len > length dat then Some PastEnd
              else validate_loop dat (pos + 1 + n + unat section_len))"
  by pat_completeness auto
termination by (relation "measure (\<lambda>(dat, pos). length dat - pos)") auto

declare validate_loop.simps [simp del]

definition validate :: "u8 list \<Rightarrow> ValidateError option" where
  "validate bs =
    (if length bs < 8 then Some TooShortModule
     else if take 4 bs \<noteq> [0, 0x61, 0x73, 0x6D] then Some BadMagicBytes
     else if take 4 (drop 4 bs) \<noteq> [1, 0, 0, 0] then Some BadVersion
     else validate_loop bs 8)"

end
