(* ===== verification/Wasm_Num.thy ===== *)
theory Wasm_Num
  imports Wasm_Module "HOL-Library.Signed_Division"
begin

text \<open>
  The numeric instructions of the interpreter (\<^verbatim>\<open>kernel/src/wasm/interp.rs\<close>, lines 489 to 611), one
  table per group.  Values are 64-bit words; an \<^verbatim>\<open>as i32\<close> or \<^verbatim>\<open>as u32\<close> of the source is the low 32
  bits, an \<^verbatim>\<open>as u64\<close> of an \<^verbatim>\<open>i32\<close> the sign extension and of a \<^verbatim>\<open>u32\<close> the zero extension.  A table
  gives \<open>None\<close> for an opcode that is not in its group; a binary operation gets the operands in
  program order (\<open>a\<close> was pushed first).
\<close>

definition lo32 :: "u64 \<Rightarrow> u32" where "lo32 a = ucast a"
definition of_u32 :: "u32 \<Rightarrow> u64" where "of_u32 a = ucast a"
definition of_i32 :: "u32 \<Rightarrow> u64" where "of_i32 a = scast a"

definition leading_zeros :: "'a::len word \<Rightarrow> nat" where
  "leading_zeros w = length (takeWhile (\<lambda>i. \<not> bit w i) (rev [0..<LENGTH('a)]))"

definition trailing_zeros :: "'a::len word \<Rightarrow> nat" where
  "trailing_zeros w = length (takeWhile (\<lambda>i. \<not> bit w i) [0..<LENGTH('a)])"

definition count_ones :: "'a::len word \<Rightarrow> nat" where
  "count_ones w = length (filter (bit w) [0..<LENGTH('a)])"

section \<open>One operand\<close>

definition i32_unop :: "nat \<Rightarrow> (u64 \<Rightarrow> u64) option" where
  "i32_unop op =
    (if op = 0x45 then Some (\<lambda>a. of_bool (lo32 a = 0))
     else if op = 0x67 then Some (\<lambda>a. of_nat (leading_zeros (lo32 a)))
     else if op = 0x68 then Some (\<lambda>a. of_nat (trailing_zeros (lo32 a)))
     else if op = 0x69 then Some (\<lambda>a. of_nat (count_ones (lo32 a)))
     else None)"

definition i64_unop :: "nat \<Rightarrow> (u64 \<Rightarrow> u64) option" where
  "i64_unop op =
    (if op = 0x50 then Some (\<lambda>a. of_bool (a = 0))
     else if op = 0x79 then Some (\<lambda>a. of_nat (leading_zeros a))
     else if op = 0x7A then Some (\<lambda>a. of_nat (trailing_zeros a))
     else if op = 0x7B then Some (\<lambda>a. of_nat (count_ones a))
     else None)"

text \<open>Conversions and sign extensions; the floating-point ones are the stubs of the source.\<close>

definition conv_op :: "nat \<Rightarrow> (u64 \<Rightarrow> u64) option" where
  "conv_op op =
    (if 0x8B \<le> op \<and> op \<le> 0xA6 then Some (\<lambda>a. 0)
     else if op = 0xA7 then Some (\<lambda>a. of_u32 (lo32 a))
     else if op = 0xA8 \<or> op = 0xAA then Some (\<lambda>a. of_i32 (lo32 a))
     else if op = 0xA9 \<or> op = 0xAB then Some (\<lambda>a. a AND 0xFFFFFFFF)
     else if op = 0xAC then Some (\<lambda>a. of_i32 (lo32 a))
     else if op = 0xAD then Some (\<lambda>a. of_u32 (lo32 a))
     else if 0xAE \<le> op \<and> op \<le> 0xBB then Some (\<lambda>a. a)
     else if op = 0xBC then Some (\<lambda>a. a AND 0xFFFFFFFF)
     else if 0xBD \<le> op \<and> op \<le> 0xBF then Some (\<lambda>a. a)
     else if op = 0xC0 then Some (\<lambda>a. scast (scast (ucast a :: u8) :: u32))
     else if op = 0xC1 then Some (\<lambda>a. scast (scast (ucast a :: u16) :: u32))
     else if op = 0xC2 then Some (\<lambda>a. scast (ucast a :: u8))
     else if op = 0xC3 then Some (\<lambda>a. scast (ucast a :: u16))
     else if op = 0xC4 then Some (\<lambda>a. scast (ucast a :: u32))
     else None)"

section \<open>Two operands\<close>

definition i32_cmp :: "nat \<Rightarrow> (u64 \<Rightarrow> u64 \<Rightarrow> bool) option" where
  "i32_cmp op =
    (if op = 0x46 then Some (\<lambda>a b. lo32 a = lo32 b)
     else if op = 0x47 then Some (\<lambda>a b. lo32 a \<noteq> lo32 b)
     else if op = 0x48 then Some (\<lambda>a b. sint (lo32 a) < sint (lo32 b))
     else if op = 0x49 then Some (\<lambda>a b. lo32 a < lo32 b)
     else if op = 0x4A then Some (\<lambda>a b. sint (lo32 a) > sint (lo32 b))
     else if op = 0x4B then Some (\<lambda>a b. lo32 a > lo32 b)
     else if op = 0x4C then Some (\<lambda>a b. sint (lo32 a) \<le> sint (lo32 b))
     else if op = 0x4D then Some (\<lambda>a b. lo32 a \<le> lo32 b)
     else if op = 0x4E then Some (\<lambda>a b. sint (lo32 a) \<ge> sint (lo32 b))
     else if op = 0x4F then Some (\<lambda>a b. lo32 a \<ge> lo32 b)
     else None)"

definition i64_cmp :: "nat \<Rightarrow> (u64 \<Rightarrow> u64 \<Rightarrow> bool) option" where
  "i64_cmp op =
    (if op = 0x51 then Some (\<lambda>a b. a = b)
     else if op = 0x52 then Some (\<lambda>a b. a \<noteq> b)
     else if op = 0x53 then Some (\<lambda>a b. sint a < sint b)
     else if op = 0x54 then Some (\<lambda>a b. a < b)
     else if op = 0x55 then Some (\<lambda>a b. sint a > sint b)
     else if op = 0x56 then Some (\<lambda>a b. a > b)
     else if op = 0x57 then Some (\<lambda>a b. sint a \<le> sint b)
     else if op = 0x58 then Some (\<lambda>a b. a \<le> b)
     else if op = 0x59 then Some (\<lambda>a b. sint a \<ge> sint b)
     else if op = 0x5A then Some (\<lambda>a b. a \<ge> b)
     else if 0x5B \<le> op \<and> op \<le> 0x66 then Some (\<lambda>a b. False)
     else None)"

text \<open>
  Arithmetic on two operands of one width; \<open>None\<close> in the result is \<^verbatim>\<open>DivisionByZero\<close>.  Both widths
  have the same fifteen operations, from \<open>base\<close> on; \<^verbatim>\<open>wrapping_shl\<close> and the others take the amount
  modulo the width.
\<close>

definition int_arith :: "nat \<Rightarrow> 'a::len word \<Rightarrow> 'a word \<Rightarrow> 'a word option" where
  "int_arith k a b =
    (if k = 0 then Some (a + b)
     else if k = 1 then Some (a - b)
     else if k = 2 then Some (a * b)
     else if k = 3 then (if b = 0 then None else Some (word_of_int (sint a sdiv sint b)))
     else if k = 4 then (if b = 0 then None else Some (a div b))
     else if k = 5 then (if b = 0 then None else Some (word_of_int (sint a smod sint b)))
     else if k = 6 then (if b = 0 then None else Some (a mod b))
     else if k = 7 then Some (a AND b)
     else if k = 8 then Some (a OR b)
     else if k = 9 then Some (a XOR b)
     else if k = 10 then Some (push_bit (unat b mod LENGTH('a)) a)
     else if k = 11 then Some (signed_drop_bit (unat b mod LENGTH('a)) a)
     else if k = 12 then Some (drop_bit (unat b mod LENGTH('a)) a)
     else if k = 13 then Some (word_rotl (unat b mod LENGTH('a)) a)
     else Some (word_rotr (unat b mod LENGTH('a)) a))"

text \<open>The results of signed division, remainder and right shift on 32 bits are sign-extended.\<close>

definition i32_arith :: "nat \<Rightarrow> u64 \<Rightarrow> u64 \<Rightarrow> u64 option" where
  "i32_arith op a b =
    (let k = op - 0x6A; r = int_arith k (lo32 a) (lo32 b)
     in map_option (if k = 3 \<or> k = 5 \<or> k = 11 then of_i32 else of_u32) r)"

definition i64_arith :: "nat \<Rightarrow> u64 \<Rightarrow> u64 \<Rightarrow> u64 option" where
  "i64_arith op a b = int_arith (op - 0x7C) a b"

text \<open>All binary instructions of the interpreter.\<close>

definition wasm_binop :: "nat \<Rightarrow> (u64 \<Rightarrow> u64 \<Rightarrow> u64 option) option" where
  "wasm_binop op =
    (if 0x6A \<le> op \<and> op \<le> 0x78 then Some (i32_arith op)
     else if 0x7C \<le> op \<and> op \<le> 0x8A then Some (i64_arith op)
     else case i32_cmp op of
            Some f \<Rightarrow> Some (\<lambda>a b. Some (of_bool (f a b)))
          | None \<Rightarrow> map_option (\<lambda>f a b. Some (of_bool (f a b))) (i64_cmp op))"

definition wasm_unop :: "nat \<Rightarrow> (u64 \<Rightarrow> u64) option" where
  "wasm_unop op =
    (case i32_unop op of Some f \<Rightarrow> Some f
     | None \<Rightarrow> (case i64_unop op of Some f \<Rightarrow> Some f | None \<Rightarrow> conv_op op))"

end
