(* ===== verification/Wasm_Memory.thy ===== *)
theory Wasm_Memory
  imports Page
begin

text \<open>
  The linear memory of the WebAssembly runtime, \<^verbatim>\<open>kernel/src/wasm/memory.rs\<close>: a block of
  physical pages and bounds-checked little-endian accesses to it.  The bytes are those of the
  physical memory \<open>PMEM\<close> from \<open>lm_base\<close> on; an access outside the current size is refused.
\<close>

definition WASM_PAGE_SIZE :: nat where "WASM_PAGE_SIZE = 65536"
definition WASM_MAX_PAGES :: nat where "WASM_MAX_PAGES = 64"
definition KERNEL_PAGES_PER_WASM_PAGE :: nat where
  "KERNEL_PAGES_PER_WASM_PAGE = WASM_PAGE_SIZE div PAGE_SIZE"

record LinearMemory =
  lm_base :: nat
  lm_pages :: nat
  lm_cap_pages :: nat

definition LinearMemory_new :: "nat \<Rightarrow> 'a PageState_scheme \<Rightarrow> 'a PageState_scheme \<times> LinearMemory option" where
  "LinearMemory_new min_pages s =
    (let cap = min (max min_pages 1) WASM_MAX_PAGES;
         kernel_page_count = cap * KERNEL_PAGES_PER_WASM_PAGE
     in case alloc_pages kernel_page_count s of
          (s1, None) \<Rightarrow> (s1, None)
        | (s1, Some base) \<Rightarrow>
            (s1\<lparr>PMEM := zero_range base (cap * WASM_PAGE_SIZE) (PMEM s1)\<rparr>,
             Some \<lparr>lm_base = base, lm_pages = min min_pages cap, lm_cap_pages = cap\<rparr>))"

definition lm_size :: "LinearMemory \<Rightarrow> u32" where "lm_size m = of_nat (lm_pages m)"

text \<open>\<^verbatim>\<open>grow\<close>: the old size, or -1.\<close>

definition lm_grow :: "u32 \<Rightarrow> LinearMemory \<Rightarrow> LinearMemory \<times> u32" where
  "lm_grow delta m =
    (let old = lm_pages m; new = old + unat delta in
     if new > lm_cap_pages m then (m, - 1) else (m\<lparr>lm_pages := new\<rparr>, of_nat old))"

definition lm_check :: "LinearMemory \<Rightarrow> u32 \<Rightarrow> nat \<Rightarrow> bool" where
  "lm_check m addr sz \<longleftrightarrow> min (unat addr + sz) (2 ^ 64 - 1) \<le> lm_pages m * WASM_PAGE_SIZE"

section \<open>Loads and stores\<close>

definition load_u8 :: "memory \<Rightarrow> LinearMemory \<Rightarrow> u32 \<Rightarrow> u8 option" where
  "load_u8 mem m addr = (if \<not> lm_check m addr 1 then None else Some (mem (lm_base m + unat addr)))"

definition load_u16 :: "memory \<Rightarrow> LinearMemory \<Rightarrow> u32 \<Rightarrow> u16 option" where
  "load_u16 mem m addr = (if \<not> lm_check m addr 2 then None else Some (read_le 2 mem (lm_base m + unat addr)))"

definition load_u32 :: "memory \<Rightarrow> LinearMemory \<Rightarrow> u32 \<Rightarrow> u32 option" where
  "load_u32 mem m addr = (if \<not> lm_check m addr 4 then None else Some (read_le 4 mem (lm_base m + unat addr)))"

definition load_u64 :: "memory \<Rightarrow> LinearMemory \<Rightarrow> u32 \<Rightarrow> u64 option" where
  "load_u64 mem m addr = (if \<not> lm_check m addr 8 then None else Some (read_le 8 mem (lm_base m + unat addr)))"

text \<open>A store gives the new memory, or \<open>None\<close> for \<^verbatim>\<open>false\<close>.\<close>

definition store_u8 :: "LinearMemory \<Rightarrow> u32 \<Rightarrow> u8 \<Rightarrow> memory \<Rightarrow> memory option" where
  "store_u8 m addr v mem = (if \<not> lm_check m addr 1 then None else Some (mem(lm_base m + unat addr := v)))"

definition store_u16 :: "LinearMemory \<Rightarrow> u32 \<Rightarrow> u16 \<Rightarrow> memory \<Rightarrow> memory option" where
  "store_u16 m addr v mem = (if \<not> lm_check m addr 2 then None else Some (write_le 2 v (lm_base m + unat addr) mem))"

definition store_u32 :: "LinearMemory \<Rightarrow> u32 \<Rightarrow> u32 \<Rightarrow> memory \<Rightarrow> memory option" where
  "store_u32 m addr v mem = (if \<not> lm_check m addr 4 then None else Some (write_le 4 v (lm_base m + unat addr) mem))"

definition store_u64 :: "LinearMemory \<Rightarrow> u32 \<Rightarrow> u64 \<Rightarrow> memory \<Rightarrow> memory option" where
  "store_u64 m addr v mem = (if \<not> lm_check m addr 8 then None else Some (write_le 8 v (lm_base m + unat addr) mem))"

definition lm_read_bytes :: "memory \<Rightarrow> LinearMemory \<Rightarrow> u32 \<Rightarrow> u32 \<Rightarrow> u8 list option" where
  "lm_read_bytes mem m addr len =
    (if \<not> lm_check m addr (unat len) then None
     else Some (map (\<lambda>i. mem (lm_base m + unat addr + i)) [0..<unat len]))"

definition lm_write_bytes :: "LinearMemory \<Rightarrow> u32 \<Rightarrow> u8 list \<Rightarrow> memory \<Rightarrow> memory option" where
  "lm_write_bytes m addr bs mem =
    (if \<not> lm_check m addr (length bs) then None
     else Some (\<lambda>x. if lm_base m + unat addr \<le> x \<and> x < lm_base m + unat addr + length bs
                    then bs ! (x - (lm_base m + unat addr)) else mem x))"

section \<open>The sandbox\<close>

text \<open>
  The invariant of a linear memory, the addresses that belong to it, and memories that agree
  outside it.
\<close>

definition lm_wf :: "LinearMemory \<Rightarrow> bool" where
  "lm_wf m \<longleftrightarrow> lm_pages m \<le> lm_cap_pages m \<and> lm_cap_pages m \<le> WASM_MAX_PAGES"

definition lm_region :: "LinearMemory \<Rightarrow> nat set" where
  "lm_region m = {lm_base m ..< lm_base m + lm_cap_pages m * WASM_PAGE_SIZE}"

definition same_outside :: "nat set \<Rightarrow> memory \<Rightarrow> memory \<Rightarrow> bool" where
  "same_outside R mem mem' \<longleftrightarrow> (\<forall>x. x \<notin> R \<longrightarrow> mem' x = mem x)"

named_theorems sandbox

lemma same_outside_refl [sandbox, simp, intro]: "same_outside R mem mem"
  by (simp add: same_outside_def)

lemma same_outside_trans [trans]: "same_outside R a b \<Longrightarrow> same_outside R b c \<Longrightarrow> same_outside R a c"
  by (simp add: same_outside_def)

lemma lm_check_bound:
  assumes "lm_wf m" "lm_check m addr n" "unat addr + n < 2 ^ 64"
  shows "lm_base m + unat addr + n \<le> lm_base m + lm_cap_pages m * WASM_PAGE_SIZE"
proof -
  have "unat addr + n \<le> lm_pages m * WASM_PAGE_SIZE" using assms(2,3) by (simp add: lm_check_def)
  also have "\<dots> \<le> lm_cap_pages m * WASM_PAGE_SIZE" using assms(1) by (simp add: lm_wf_def)
  finally show ?thesis by simp
qed

lemma unat_u32: "unat (w :: u32) < 2 ^ 32"
  using unsigned_less [of w] by simp

lemma store_outside:
  assumes "lm_wf m"
  shows "store_u8 m addr v8 mem = Some mem' \<Longrightarrow> same_outside (lm_region m) mem mem'"
    and "store_u16 m addr v16 mem = Some mem' \<Longrightarrow> same_outside (lm_region m) mem mem'"
    and "store_u32 m addr v32 mem = Some mem' \<Longrightarrow> same_outside (lm_region m) mem mem'"
    and "store_u64 m addr v64 mem = Some mem' \<Longrightarrow> same_outside (lm_region m) mem mem'"
proof -
  have b: "unat addr + n < 2 ^ 64" if "n \<le> 8" for n using unat_u32 [of addr] that by simp
  note c = lm_check_bound [OF assms, of addr]
  show "store_u8 m addr v8 mem = Some mem' \<Longrightarrow> same_outside (lm_region m) mem mem'"
    using c [of 1] b [of 1] by (auto simp: store_u8_def same_outside_def lm_region_def split: if_splits)
  show "store_u16 m addr v16 mem = Some mem' \<Longrightarrow> same_outside (lm_region m) mem mem'"
    using c [of 2] b [of 2] by (auto simp: store_u16_def same_outside_def lm_region_def write_le_def split: if_splits)
  show "store_u32 m addr v32 mem = Some mem' \<Longrightarrow> same_outside (lm_region m) mem mem'"
    using c [of 4] b [of 4] by (auto simp: store_u32_def same_outside_def lm_region_def write_le_def split: if_splits)
  show "store_u64 m addr v64 mem = Some mem' \<Longrightarrow> same_outside (lm_region m) mem mem'"
    using c [of 8] b [of 8] by (auto simp: store_u64_def same_outside_def lm_region_def write_le_def split: if_splits)
qed

lemma write_bytes_outside:
  assumes "lm_wf m" "lm_write_bytes m addr bs mem = Some mem'" "length bs < 2 ^ 63"
  shows "same_outside (lm_region m) mem mem'"
proof -
  have "unat addr + length bs < 2 ^ 64" using unat_u32 [of addr] assms(3) by simp
  then show ?thesis using lm_check_bound [OF assms(1), of addr "length bs"] assms(2)
    by (auto simp: lm_write_bytes_def same_outside_def lm_region_def split: if_splits)
qed

lemma lm_grow_wf: "lm_wf m \<Longrightarrow> lm_wf (fst (lm_grow d m))"
  by (simp add: lm_wf_def lm_grow_def Let_def)

lemma lm_grow_region [simp]: "lm_region (fst (lm_grow d m)) = lm_region m"
  by (simp add: lm_region_def lm_grow_def Let_def)

lemma LinearMemory_new_wf:
  assumes "LinearMemory_new n s = (s', Some m)"
  shows "lm_wf m"
  using assms by (auto simp: LinearMemory_new_def Let_def lm_wf_def split: option.splits prod.splits)

section \<open>Properties\<close>

text \<open>
  Memory is an array: at every width, a load after a successful store at the same address gives
  the value stored, and no load from a range disjoint from the stored one sees a difference.
\<close>

theorem load_after_store:
  "(store_u8 m a v8 mem = Some mem' \<longrightarrow> load_u8 mem' m a = Some v8) \<and>
   (store_u16 m a v16 mem = Some mem' \<longrightarrow> load_u16 mem' m a = Some v16) \<and>
   (store_u32 m a v32 mem = Some mem' \<longrightarrow> load_u32 mem' m a = Some v32) \<and>
   (store_u64 m a v64 mem = Some mem' \<longrightarrow> load_u64 mem' m a = Some v64) \<and>
   (store_u32 m a v32 mem = Some mem' \<longrightarrow>
      (\<forall>b. unat b + 4 \<le> unat a \<or> unat a + 4 \<le> unat b \<longrightarrow> load_u32 mem' m b = load_u32 mem m b))"
  by (auto simp: store_u8_def load_u8_def store_u16_def load_u16_def store_u32_def load_u32_def store_u64_def load_u64_def
      read_write_le_same read_write_le_disjoint split: if_splits)

definition lm_example :: LinearMemory where "lm_example = \<lparr>lm_base = 0x41000000, lm_pages = 1, lm_cap_pages = 1\<rparr>"

theorem load_after_store_witness:
  "\<exists>mem'. store_u32 lm_example 16 0xCAFE (\<lambda>_. 0) = Some mem' \<and> load_u32 mem' lm_example 16 = Some 0xCAFE \<and>
     load_u32 mem' lm_example 12 = load_u32 (\<lambda>_. 0) lm_example 12"
proof -
  obtain mem' where "store_u32 lm_example 16 0xCAFE (\<lambda>_. 0) = Some mem'"
    by (simp add: store_u32_def lm_check_def lm_example_def WASM_PAGE_SIZE_def)
  then show ?thesis
    using load_after_store [of lm_example 16 0 "\<lambda>_. 0" mem' 0 "0xCAFE" 0] by simp
qed

text \<open>
  \<^verbatim>\<open>memory.grow\<close> never grows: the capacity of a new memory is its initial size, so on a memory
  as \<^verbatim>\<open>LinearMemory::new\<close> makes it for a module with at least one page, every positive growth fails
  and leaves the size as it is.
\<close>

theorem grow_never_succeeds:
  assumes "LinearMemory_new n s = (s', Some m)" "1 \<le> n" "delta \<noteq> 0"
  shows "lm_grow delta m = (m, - 1)"
proof -
  have "lm_pages m = lm_cap_pages m"
    using assms(1,2) by (auto simp: LinearMemory_new_def Let_def WASM_MAX_PAGES_def split: option.splits prod.splits)
  moreover have "0 < unat delta" using assms(3) by (simp add: unat_gt_0)
  ultimately show ?thesis by (simp add: lm_grow_def Let_def)
qed


definition wasm_page_example :: PageState where
  "wasm_page_example = \<lparr>BITMAP = [0xFF, 0xFF], PAGE_BASE = 0x41000000, NUM_PAGES = 16, RAM_TOP = 0x41010000, PMEM = (\<lambda>_. 0)\<rparr>"

theorem grow_never_succeeds_witness:
  "\<exists>s' m. LinearMemory_new 1 wasm_page_example = (s', Some m) \<and> lm_grow 1 m = (m, - 1)"
proof -
  have "snd (LinearMemory_new 1 wasm_page_example) \<noteq> None" by code_simp
  then obtain s' m where n: "LinearMemory_new 1 wasm_page_example = (s', Some m)"
    by (cases "LinearMemory_new 1 wasm_page_example") auto
  from grow_never_succeeds [OF n] show ?thesis using n by auto
qed

end
