(* ===== verification/Wasm_Exec.thy ===== *)
theory Wasm_Exec
  imports Wasm_Num Wasm_Memory
begin

text \<open>
  Execution of WebAssembly bytecode in one frame, \<^verbatim>\<open>step_frame\<close> of \<^verbatim>\<open>kernel/src/wasm/interp.rs\<close> with its
  helpers.  Vectors keep the order of the source: the top of the value stack and the innermost
  label are the last elements.  An instruction gives a value, an error, or \<open>Panic\<close> where the source
  would index out of range.  Bytecode may loop for ever, so \<open>step_frame\<close> takes fuel, one unit for
  each instruction, and gives \<open>None\<close> when it runs out; more fuel never changes a result.  An error
  drops the interpreter, so of the state at an error only the kernel's part is kept.
\<close>

datatype 'a res = Ok 'a | Err WasmError | Panic

definition and_then :: "'a res \<Rightarrow> ('a \<Rightarrow> 'b res) \<Rightarrow> 'b res" where
  "and_then r f = (case r of Ok x \<Rightarrow> f x | Err e \<Rightarrow> Err e | Panic \<Rightarrow> Panic)"

definition ok_or :: "WasmError \<Rightarrow> 'a option \<Rightarrow> 'a res" where
  "ok_or e r = (case r of Some x \<Rightarrow> Ok x | None \<Rightarrow> Err e)"

text \<open>\<^verbatim>\<open>v[i..]\<close> and \<^verbatim>\<open>v[i]\<close>.\<close>

definition slice_from :: "nat \<Rightarrow> 'a list \<Rightarrow> 'a list res" where
  "slice_from i xs = (if i \<le> length xs then Ok (drop i xs) else Panic)"

definition index :: "nat \<Rightarrow> 'a list \<Rightarrow> 'a res" where
  "index i xs = (if i < length xs then Ok (xs ! i) else Panic)"

lemma and_then_simps [simp]:
  "and_then (Ok x) f = f x" "and_then (Err e) f = Err e" "and_then Panic f = Panic"
  by (simp_all add: and_then_def)

lemma and_then_OkE:
  assumes "and_then r f = Ok y"
  obtains x where "r = Ok x" "f x = Ok y"
  using assms by (cases r) auto

section \<open>State\<close>

definition MAX_STACK_DEPTH :: nat where "MAX_STACK_DEPTH = 4096"
definition MAX_CALL_DEPTH :: nat where "MAX_CALL_DEPTH = 256"

datatype LabelKind = LBlock | LLoop | LIf

record Label =
  l_kind :: LabelKind
  l_arity :: nat
  l_base_sp :: nat
  l_br_target :: nat
  l_end_pc :: nat

record Frame =
  f_func_idx :: nat
  f_pc :: nat
  f_locals :: "u64 list"
  f_base_sp :: nat
  f_labels :: "Label list"

record TableEntry =
  te_func_idx :: nat
  te_valid :: bool

record Interp =
  i_mem :: LinearMemory
  i_globals :: "u64 list"
  i_table :: "TableEntry list"
  i_stack :: "u64 list"

datatype StepResult = Continue | Return "u64 list" | Call nat "u64 list"

section \<open>Stack helpers\<close>

definition push :: "u64 \<Rightarrow> Interp \<Rightarrow> Interp res" where
  "push v it =
    (if length (i_stack it) \<ge> MAX_STACK_DEPTH then Err StackOverflow else Ok (it\<lparr>i_stack := i_stack it @ [v]\<rparr>))"

definition pop :: "Interp \<Rightarrow> (u64 \<times> Interp) res" where
  "pop it =
    (if i_stack it = [] then Err (Trap ''stack underflow'')
     else Ok (last (i_stack it), it\<lparr>i_stack := butlast (i_stack it)\<rparr>))"

definition pop2 :: "Interp \<Rightarrow> (u64 \<times> u64 \<times> Interp) res" where
  "pop2 it = and_then (pop it) (\<lambda>(b, it). and_then (pop it) (\<lambda>(a, it). Ok (b, a, it)))"

definition pop_n :: "nat \<Rightarrow> Interp \<Rightarrow> (u64 list \<times> Interp) res" where
  "pop_n n it =
    (if length (i_stack it) < n then Err (Trap ''pop_n underflow'')
     else let start = length (i_stack it) - n in
          and_then (slice_from start (i_stack it)) (\<lambda>vals. Ok (vals, it\<lparr>i_stack := take start (i_stack it)\<rparr>)))"

fun push_all :: "u64 list \<Rightarrow> Interp \<Rightarrow> Interp res" where
  "push_all [] it = Ok it"
| "push_all (v # vs) it = and_then (push v it) (push_all vs)"

definition trim_stack :: "nat \<Rightarrow> nat \<Rightarrow> Interp \<Rightarrow> Interp res" where
  "trim_stack base_sp keep it =
    (let sp = length (i_stack it) in
     if sp < base_sp then Err (Trap ''trim_stack underflow'')
     else if keep > 0 \<and> sp \<ge> keep
     then and_then (slice_from (sp - keep) (i_stack it)) (\<lambda>vs. push_all vs (it\<lparr>i_stack := take base_sp (i_stack it)\<rparr>))
     else Ok (it\<lparr>i_stack := take base_sp (i_stack it)\<rparr>))"

definition collect_results :: "WasmModule \<Rightarrow> Frame \<Rightarrow> Interp \<Rightarrow> (u64 list \<times> Interp) res" where
  "collect_results m fr it =
    and_then (ok_or (Trap ''collect_results: no type'') (func_type m (f_func_idx fr))) (\<lambda>ft.
      let n = length (ft_results ft); sp = length (i_stack it) in
      if sp < f_base_sp fr + n then Err (Trap ''missing results'')
      else and_then (slice_from (sp - n) (i_stack it)) (\<lambda>vals. Ok (vals, it\<lparr>i_stack := take (sp - n) (i_stack it)\<rparr>)))"

definition do_br :: "nat \<Rightarrow> Frame \<Rightarrow> Interp \<Rightarrow> (Frame \<times> Interp) res" where
  "do_br depth fr it =
    (let label_len = length (f_labels fr) in
     if depth \<ge> label_len then Err (Trap ''br depth too large'')
     else let lbl_idx = label_len - 1 - depth in
          and_then (index lbl_idx (f_labels fr)) (\<lambda>lbl.
          and_then (trim_stack (l_base_sp lbl) (l_arity lbl) it) (\<lambda>it.
            Ok (fr\<lparr>f_pc := l_br_target lbl,
                    f_labels := take (if l_kind lbl = LLoop then lbl_idx + 1 else lbl_idx) (f_labels fr)\<rparr>, it))))"

section \<open>Immediate operands\<close>

text \<open>An unsigned immediate at the program counter: its value and the counter behind it.\<close>

definition imm_u32 :: "string \<Rightarrow> u8 list \<Rightarrow> nat \<Rightarrow> (nat \<times> nat) res" where
  "imm_u32 msg code pc = and_then (ok_or (Trap msg) (read_leb128_u32 code pc)) (\<lambda>(v, n). Ok (unat v, pc + n))"

definition mem_ea :: "u8 list \<Rightarrow> nat \<Rightarrow> Interp \<Rightarrow> (u32 \<times> nat \<times> Interp) res" where
  "mem_ea code pc it =
    and_then (imm_u32 ''memarg align'' code pc) (\<lambda>(_, pc).
    and_then (imm_u32 ''memarg offset'' code pc) (\<lambda>(offset, pc).
    and_then (pop it) (\<lambda>(base, it). Ok (lo32 base + of_nat offset, pc, it))))"

definition skip_memarg :: "u8 list \<Rightarrow> nat \<Rightarrow> nat res" where
  "skip_memarg code pc =
    and_then (imm_u32 ''memarg'' code pc) (\<lambda>(_, pc). and_then (imm_u32 ''memarg2'' code pc) (\<lambda>(_, pc). Ok pc))"

definition parse_blocktype :: "WasmModule \<Rightarrow> u8 list \<Rightarrow> nat \<Rightarrow> (nat \<times> nat) res" where
  "parse_blocktype m code pc =
    (if pc \<ge> length code then Err (Trap ''blocktype eof'')
     else and_then (index pc code) (\<lambda>b.
       if b = 0x40 then Ok (0, pc + 1)
       else if b = 0x7F \<or> b = 0x7E \<or> b = 0x7D \<or> b = 0x7C then Ok (1, pc + 1)
       else and_then (ok_or (Trap ''blocktype leb'') (read_leb128_i32 code pc)) (\<lambda>(ti, n).
            and_then (ok_or (Trap ''blocktype: no type'') (get_at (unat (scast ti :: u64)) (m_types m))) (\<lambda>ft.
              Ok (length (ft_results ft), pc + n)))))"

text \<open>
  The scanners for the matching \<^verbatim>\<open>end\<close> and \<^verbatim>\<open>else\<close>.  \<open>skip_leb\<close> is the \<^verbatim>\<open>if let Some((_, n))\<close> that advances
  over an immediate when it decodes; \<open>skip_operands\<close> is the part of the \<^verbatim>\<open>match\<close> that both share.
\<close>

definition skip_leb :: "(u8 list \<Rightarrow> nat \<Rightarrow> ('w \<times> nat) option) \<Rightarrow> u8 list \<Rightarrow> nat \<Rightarrow> nat" where
  "skip_leb dec code i = (case dec code i of Some (_, n) \<Rightarrow> i + n | None \<Rightarrow> i)"

definition skip_blocktype :: "u8 list \<Rightarrow> nat \<Rightarrow> nat" where
  "skip_blocktype code i =
    (if i < length code then
       (let b = code ! i in if b = 0x40 \<or> (0x7C \<le> b \<and> b \<le> 0x7F) then i + 1 else skip_leb read_leb128_i32 code i)
     else i)"

definition skip_operands :: "u8 list \<Rightarrow> nat \<Rightarrow> nat \<Rightarrow> nat" where
  "skip_operands code op i =
    (if op = 0x0C \<or> op = 0x0D then skip_leb read_leb128_u32 code i
     else if op = 0x0E then
       (case read_leb128_u32 code i of
          Some (cnt, n) \<Rightarrow> (skip_leb read_leb128_u32 code ^^ (unat cnt + 1)) (i + n)
        | None \<Rightarrow> i)
     else if op = 0x10 then skip_leb read_leb128_u32 code i
     else if op = 0x11 then skip_leb read_leb128_u32 code (skip_leb read_leb128_u32 code i)
     else if 0x20 \<le> op \<and> op \<le> 0x24 then skip_leb read_leb128_u32 code i
     else if 0x28 \<le> op \<and> op \<le> 0x3E then skip_leb read_leb128_u32 code (skip_leb read_leb128_u32 code i)
     else if op = 0x3F \<or> op = 0x40 then i + 1
     else if op = 0x41 then skip_leb read_leb128_i32 code i
     else if op = 0x42 then skip_leb read_leb128_i64 code i
     else if op = 0x43 then i + 4
     else if op = 0x44 then i + 8
     else i)"

lemma skip_le: "i \<le> skip_leb dec code i" "i \<le> skip_blocktype code i" "i \<le> skip_operands code op i"
proof -
  show l: "i \<le> skip_leb dec code i" for i and dec :: "u8 list \<Rightarrow> nat \<Rightarrow> ('w \<times> nat) option"
    by (auto simp: skip_leb_def split: option.splits)
  have l': "i \<le> skip_leb dec code i" for i and dec :: "u8 list \<Rightarrow> nat \<Rightarrow> (u32 \<times> nat) option"
    by (auto simp: skip_leb_def split: option.splits)
  have l64: "i \<le> skip_leb dec code i" for i and dec :: "u8 list \<Rightarrow> nat \<Rightarrow> (u64 \<times> nat) option"
    by (auto simp: skip_leb_def split: option.splits)
  show "i \<le> skip_blocktype code i" using l' by (simp add: skip_blocktype_def Let_def)
  have p: "i \<le> (skip_leb read_leb128_u32 code ^^ k) i" for k i
    by (induction k) (auto intro: le_trans [OF _ l'])
  have "i \<le> skip_leb read_leb128_u32 code ((skip_leb read_leb128_u32 code ^^ k) (i + n))" for k n
    using p [of "i + n" "Suc k"] by simp
  then show "i \<le> skip_operands code op i"
    using l' [of i] l64 [of i] le_trans [OF l' l'] by (auto simp: skip_operands_def split: option.splits)
qed

lemma scan_less: "Suc i \<le> j \<Longrightarrow> \<not> n \<le> i \<Longrightarrow> n - j < n - (i :: nat)"
  by arith

function find_end_loop :: "u8 list \<Rightarrow> nat \<Rightarrow> nat \<Rightarrow> nat option" where
  "find_end_loop code depth i =
    (if i \<ge> length code then None
     else let op = unat (code ! i) in
          if op = 2 \<or> op = 3 \<or> op = 4 then find_end_loop code (depth + 1) (skip_blocktype code (i + 1))
          else if op = 0x0B then (if depth - 1 = 0 then Some i else find_end_loop code (depth - 1) (i + 1))
          else find_end_loop code depth (skip_operands code op (i + 1)))"
  by pat_completeness auto
termination
  by (relation "measure (\<lambda>(code, _, i). length code - i)")
    (auto intro!: scan_less simp: skip_le)

function find_else_loop :: "u8 list \<Rightarrow> nat \<Rightarrow> nat \<Rightarrow> nat option" where
  "find_else_loop code depth i =
    (if i \<ge> length code then None
     else let op = unat (code ! i) in
          if op = 2 \<or> op = 3 \<or> op = 4 then find_else_loop code (depth + 1) (skip_blocktype code (i + 1))
          else if op = 5 then (if depth = 1 then Some i else find_else_loop code depth (i + 1))
          else if op = 0x0B then (if depth - 1 = 0 then None else find_else_loop code (depth - 1) (i + 1))
          else find_else_loop code depth (skip_operands code op (i + 1)))"
  by pat_completeness auto
termination
  by (relation "measure (\<lambda>(code, _, i). length code - i)")
    (auto intro!: scan_less simp: skip_le)

declare find_end_loop.simps [simp del] find_else_loop.simps [simp del]

definition find_end :: "u8 list \<Rightarrow> nat \<Rightarrow> nat res" where
  "find_end code start = ok_or (Trap ''find_end: no matching end'') (find_end_loop code 1 start)"

definition find_else :: "u8 list \<Rightarrow> nat \<Rightarrow> nat option" where
  "find_else code start = find_else_loop code 1 start"


section \<open>Instructions\<close>

text \<open>
  Each group gives the outcome of one instruction whose opcode has been read: the program counter
  of the frame is already behind the opcode.
\<close>

type_synonym 's conf = "Frame \<times> Interp \<times> 's \<times> StepResult"

definition cont :: "Frame \<Rightarrow> Interp \<Rightarrow> 's \<Rightarrow> 's conf res" where
  "cont fr it s = Ok (fr, it, s, Continue)"

definition push_label :: "LabelKind \<Rightarrow> nat \<Rightarrow> nat \<Rightarrow> nat \<Rightarrow> Interp \<Rightarrow> Frame \<Rightarrow> Frame" where
  "push_label k arity target end_pc it fr =
    fr\<lparr>f_labels := f_labels fr @ [\<lparr>l_kind = k, l_arity = arity, l_base_sp = length (i_stack it),
                                   l_br_target = target, l_end_pc = end_pc\<rparr>]\<rparr>"

definition exec_block :: "WasmModule \<Rightarrow> u8 list \<Rightarrow> nat \<Rightarrow> Frame \<Rightarrow> Interp \<Rightarrow> 's \<Rightarrow> 's conf res" where
  "exec_block m code op fr it s =
    and_then (parse_blocktype m code (f_pc fr)) (\<lambda>(arity, pc).
      let fr = fr\<lparr>f_pc := pc\<rparr> in
      if op = 2 then
        and_then (find_end code pc) (\<lambda>end_pc. cont (push_label LBlock arity (end_pc + 1) end_pc it fr) it s)
      else if op = 3 then
        and_then (find_end code pc) (\<lambda>end_pc. cont (push_label LLoop 0 pc end_pc it fr) it s)
      else
        and_then (pop it) (\<lambda>(c, it).
        and_then (find_end code pc) (\<lambda>end_pc.
          if lo32 c \<noteq> 0 then cont (push_label LIf arity (end_pc + 1) end_pc it fr) it s
          else (case find_else code pc of
                  Some ep \<Rightarrow> cont (push_label LIf arity (end_pc + 1) end_pc it (fr\<lparr>f_pc := ep + 1\<rparr>)) it s
                | None \<Rightarrow> cont (fr\<lparr>f_pc := end_pc + 1\<rparr>) it s))))"

fun read_targets :: "nat \<Rightarrow> u8 list \<Rightarrow> nat \<Rightarrow> (nat list \<times> nat) res" where
  "read_targets 0 code pc = Ok ([], pc)"
| "read_targets (Suc n) code pc =
    and_then (imm_u32 ''br_table: bad leb2'' code pc) (\<lambda>(t, pc).
    and_then (read_targets n code pc) (\<lambda>(ts, pc). Ok (t # ts, pc)))"

definition branch :: "nat \<Rightarrow> Frame \<Rightarrow> Interp \<Rightarrow> 's \<Rightarrow> 's conf res" where
  "branch depth fr it s = and_then (do_br depth fr it) (\<lambda>(fr, it). cont fr it s)"

definition exec_br :: "u8 list \<Rightarrow> nat \<Rightarrow> Frame \<Rightarrow> Interp \<Rightarrow> 's \<Rightarrow> 's conf res" where
  "exec_br code op fr it s =
    (if op = 0x0C then
       and_then (imm_u32 ''br: bad leb'' code (f_pc fr)) (\<lambda>(depth, pc). branch depth (fr\<lparr>f_pc := pc\<rparr>) it s)
     else if op = 0x0D then
       and_then (imm_u32 ''br_if: bad leb'' code (f_pc fr)) (\<lambda>(depth, pc).
       and_then (pop it) (\<lambda>(c, it).
         if lo32 c \<noteq> 0 then branch depth (fr\<lparr>f_pc := pc\<rparr>) it s else cont (fr\<lparr>f_pc := pc\<rparr>) it s))
     else
       and_then (imm_u32 ''br_table: bad leb'' code (f_pc fr)) (\<lambda>(cnt, pc).
       and_then (read_targets (cnt + 1) code pc) (\<lambda>(targets, pc).
       and_then (pop it) (\<lambda>(v, it).
       and_then (if unat v < length targets - 1 then index (unat v) targets else index (length targets - 1) targets) (\<lambda>depth.
         branch depth (fr\<lparr>f_pc := pc\<rparr>) it s)))))"

definition exec_call :: "WasmModule \<Rightarrow> u8 list \<Rightarrow> nat \<Rightarrow> Frame \<Rightarrow> Interp \<Rightarrow> 's \<Rightarrow> 's conf res" where
  "exec_call m code op fr it s =
    (if op = 0x10 then
       and_then (imm_u32 ''call: bad leb'' code (f_pc fr)) (\<lambda>(fidx, pc).
       and_then (ok_or (Trap ''call: unknown func'') (func_type m fidx)) (\<lambda>ft.
       and_then (pop_n (length (ft_params ft)) it) (\<lambda>(args, it). Ok (fr\<lparr>f_pc := pc\<rparr>, it, s, Call fidx args))))
     else
       and_then (imm_u32 ''call_indirect: bad leb'' code (f_pc fr)) (\<lambda>(type_idx, pc).
       and_then (imm_u32 ''call_indirect: bad leb2'' code pc) (\<lambda>(_, pc).
       and_then (pop it) (\<lambda>(v, it).
       and_then (ok_or (Trap ''call_indirect: table oob'') (get_at (unat v) (i_table it))) (\<lambda>entry.
         if \<not> te_valid entry then Err (Trap ''call_indirect: null ref'')
         else
           and_then (ok_or (Trap ''call_indirect: no type'') (func_type m (te_func_idx entry))) (\<lambda>actual_ft.
           and_then (ok_or (Trap ''call_indirect: no type idx'') (get_at type_idx (m_types m))) (\<lambda>expected_ft.
             if length (ft_params actual_ft) \<noteq> length (ft_params expected_ft)
              \<or> length (ft_results actual_ft) \<noteq> length (ft_results expected_ft)
             then Err (Trap ''call_indirect: type mismatch'')
             else and_then (pop_n (length (ft_params expected_ft)) it) (\<lambda>(args, it).
                    Ok (fr\<lparr>f_pc := pc\<rparr>, it, s, Call (te_func_idx entry) args)))))))))"

definition finish :: "WasmModule \<Rightarrow> Frame \<Rightarrow> Interp \<Rightarrow> 's \<Rightarrow> 's conf res" where
  "finish m fr it s = and_then (collect_results m fr it) (\<lambda>(vals, it). Ok (fr, it, s, Return vals))"

definition exec_end :: "WasmModule \<Rightarrow> nat \<Rightarrow> Frame \<Rightarrow> Interp \<Rightarrow> 's \<Rightarrow> 's conf res" where
  "exec_end m op fr it s =
    (if op = 5 then
       (if f_labels fr = [] then cont fr it s
        else cont (fr\<lparr>f_pc := l_end_pc (last (f_labels fr)) + 1, f_labels := butlast (f_labels fr)\<rparr>) it s)
     else if f_labels fr = [] then finish m fr it s
     else let lbl = last (f_labels fr) in
          and_then (trim_stack (l_base_sp lbl) (l_arity lbl) it) (\<lambda>it.
            cont (fr\<lparr>f_labels := butlast (f_labels fr)\<rparr>) it s))"

definition exec_local :: "u8 list \<Rightarrow> nat \<Rightarrow> Frame \<Rightarrow> Interp \<Rightarrow> 's \<Rightarrow> 's conf res" where
  "exec_local code op fr it s =
    (if op = 0x20 then
       and_then (imm_u32 ''local.get: bad leb'' code (f_pc fr)) (\<lambda>(idx, pc).
       and_then (ok_or (Trap ''local.get: oob'') (get_at idx (f_locals fr))) (\<lambda>v.
       and_then (push v it) (\<lambda>it. cont (fr\<lparr>f_pc := pc\<rparr>) it s)))
     else if op = 0x21 then
       and_then (imm_u32 ''local.set: bad leb'' code (f_pc fr)) (\<lambda>(idx, pc).
       and_then (pop it) (\<lambda>(v, it).
         if idx \<ge> length (f_locals fr) then Err (Trap ''local.set: oob'')
         else cont (fr\<lparr>f_pc := pc, f_locals := (f_locals fr)[idx := v]\<rparr>) it s))
     else
       and_then (imm_u32 ''local.tee: bad leb'' code (f_pc fr)) (\<lambda>(idx, pc).
         if i_stack it = [] then Err (Trap ''local.tee: empty'')
         else if idx \<ge> length (f_locals fr) then Err (Trap ''local.tee: oob'')
         else cont (fr\<lparr>f_pc := pc, f_locals := (f_locals fr)[idx := last (i_stack it)]\<rparr>) it s))"

definition exec_global :: "u8 list \<Rightarrow> nat \<Rightarrow> Frame \<Rightarrow> Interp \<Rightarrow> 's \<Rightarrow> 's conf res" where
  "exec_global code op fr it s =
    (if op = 0x23 then
       and_then (imm_u32 ''global.get: bad leb'' code (f_pc fr)) (\<lambda>(idx, pc).
       and_then (ok_or (Trap ''global.get: oob'') (get_at idx (i_globals it))) (\<lambda>v.
       and_then (push v it) (\<lambda>it. cont (fr\<lparr>f_pc := pc\<rparr>) it s)))
     else
       and_then (imm_u32 ''global.set: bad leb'' code (f_pc fr)) (\<lambda>(idx, pc).
       and_then (pop it) (\<lambda>(v, it).
         if idx \<ge> length (i_globals it) then Err (Trap ''global.set: oob'')
         else cont (fr\<lparr>f_pc := pc\<rparr>) (it\<lparr>i_globals := (i_globals it)[idx := v]\<rparr>) s)))"

text \<open>\<^verbatim>\<open>drop\<close> and \<^verbatim>\<open>select\<close>.\<close>

definition exec_param :: "nat \<Rightarrow> Frame \<Rightarrow> Interp \<Rightarrow> 's \<Rightarrow> 's conf res" where
  "exec_param op fr it s =
    (if op = 0x1A then and_then (pop it) (\<lambda>(_, it). cont fr it s)
     else and_then (pop it) (\<lambda>(c, it). and_then (pop it) (\<lambda>(b, it). and_then (pop it) (\<lambda>(a, it).
          and_then (push (if lo32 c \<noteq> 0 then a else b) it) (\<lambda>it. cont fr it s)))))"


text \<open>The integer loads and stores: what is read or written at the effective address.\<close>

definition load_op :: "nat \<Rightarrow> memory \<Rightarrow> LinearMemory \<Rightarrow> u32 \<Rightarrow> u64 option" where
  "load_op op mem m a =
    (if op = 0x28 \<or> op = 0x35 then map_option of_u32 (load_u32 mem m a)
     else if op = 0x29 then load_u64 mem m a
     else if op = 0x2C then map_option (\<lambda>v. scast (scast v :: u32)) (load_u8 mem m a)
     else if op = 0x2D \<or> op = 0x31 then map_option ucast (load_u8 mem m a)
     else if op = 0x2E then map_option (\<lambda>v. scast (scast v :: u32)) (load_u16 mem m a)
     else if op = 0x2F \<or> op = 0x33 then map_option ucast (load_u16 mem m a)
     else if op = 0x30 then map_option scast (load_u8 mem m a)
     else if op = 0x32 then map_option scast (load_u16 mem m a)
     else map_option of_i32 (load_u32 mem m a))"

definition store_op :: "nat \<Rightarrow> LinearMemory \<Rightarrow> u32 \<Rightarrow> u64 \<Rightarrow> memory \<Rightarrow> memory option" where
  "store_op op m a v mem =
    (if op = 0x36 \<or> op = 0x3E then store_u32 m a (lo32 v) mem
     else if op = 0x37 then store_u64 m a v mem
     else if op = 0x3A \<or> op = 0x3C then store_u8 m a (ucast v) mem
     else store_u16 m a (ucast v) mem)"

definition exec_mem :: "u8 list \<Rightarrow> nat \<Rightarrow> Frame \<Rightarrow> Interp \<Rightarrow> 'a PageState_scheme \<Rightarrow> 'a PageState_scheme conf res" where
  "exec_mem code op fr it s =
    (if op = 0x2A \<or> op = 0x2B then
       and_then (skip_memarg code (f_pc fr)) (\<lambda>pc. and_then (pop it) (\<lambda>(_, it).
       and_then (push 0 it) (\<lambda>it. cont (fr\<lparr>f_pc := pc\<rparr>) it s)))
     else if op = 0x38 \<or> op = 0x39 then
       and_then (skip_memarg code (f_pc fr)) (\<lambda>pc. and_then (pop it) (\<lambda>(_, it). cont (fr\<lparr>f_pc := pc\<rparr>) it s))
     else if op = 0x3F then
       and_then (push (ucast (lm_size (i_mem it))) it) (\<lambda>it. cont (fr\<lparr>f_pc := f_pc fr + 1\<rparr>) it s)
     else if op = 0x40 then
       and_then (pop it) (\<lambda>(delta, it).
         let (mem', old) = lm_grow (lo32 delta) (i_mem it) in
         and_then (push (of_i32 old) (it\<lparr>i_mem := mem'\<rparr>)) (\<lambda>it. cont (fr\<lparr>f_pc := f_pc fr + 1\<rparr>) it s))
     else if op \<le> 0x35 then
       and_then (mem_ea code (f_pc fr) it) (\<lambda>(a, pc, it).
       and_then (ok_or (MemoryFault a) (load_op op (PMEM s) (i_mem it) a)) (\<lambda>v.
       and_then (push v it) (\<lambda>it. cont (fr\<lparr>f_pc := pc\<rparr>) it s)))
     else
       and_then (mem_ea code (f_pc fr) it) (\<lambda>(a, pc, it).
       and_then (pop it) (\<lambda>(v, it).
       and_then (ok_or (MemoryFault a) (store_op op (i_mem it) a v (PMEM s))) (\<lambda>mem.
         cont (fr\<lparr>f_pc := pc\<rparr>) it (s\<lparr>PMEM := mem\<rparr>)))))"

definition exec_const :: "u8 list \<Rightarrow> nat \<Rightarrow> Frame \<Rightarrow> Interp \<Rightarrow> 's \<Rightarrow> 's conf res" where
  "exec_const code op fr it s =
    (if op = 0x41 then
       and_then (ok_or (Trap ''i32.const'') (read_leb128_i32 code (f_pc fr))) (\<lambda>(v, n).
       and_then (push (of_i32 v) it) (\<lambda>it. cont (fr\<lparr>f_pc := f_pc fr + n\<rparr>) it s))
     else if op = 0x42 then
       and_then (ok_or (Trap ''i64.const'') (read_leb128_i64 code (f_pc fr))) (\<lambda>(v, n).
       and_then (push v it) (\<lambda>it. cont (fr\<lparr>f_pc := f_pc fr + n\<rparr>) it s))
     else and_then (push 0 it) (\<lambda>it. cont (fr\<lparr>f_pc := f_pc fr + (if op = 0x43 then 4 else 8)\<rparr>) it s))"

definition exec_num :: "nat \<Rightarrow> Frame \<Rightarrow> Interp \<Rightarrow> 's \<Rightarrow> 's conf res" where
  "exec_num op fr it s =
    (case wasm_unop op of
       Some f \<Rightarrow> and_then (pop it) (\<lambda>(a, it). and_then (push (f a) it) (\<lambda>it. cont fr it s))
     | None \<Rightarrow>
    (case wasm_binop op of
       Some f \<Rightarrow>
         and_then (pop2 it) (\<lambda>(b, a, it).
         and_then (ok_or DivisionByZero (f a b)) (\<lambda>v.
         and_then (push v it) (\<lambda>it. cont fr it s)))
     | None \<Rightarrow> Err (Unimplemented ''unknown opcode'')))"

text \<open>The \<^verbatim>\<open>match op\<close> of \<^verbatim>\<open>step_frame\<close>.\<close>

definition exec_op ::
  "WasmModule \<Rightarrow> u8 list \<Rightarrow> nat \<Rightarrow> Frame \<Rightarrow> Interp \<Rightarrow> 'a PageState_scheme \<Rightarrow> 'a PageState_scheme conf res" where
  "exec_op m code op fr it s =
    (if op = 0 then Err (Trap ''unreachable'')
     else if op = 1 then cont fr it s
     else if op = 2 \<or> op = 3 \<or> op = 4 then exec_block m code op fr it s
     else if op = 5 \<or> op = 0x0B then exec_end m op fr it s
     else if op = 0x0C \<or> op = 0x0D \<or> op = 0x0E then exec_br code op fr it s
     else if op = 0x0F then finish m fr it s
     else if op = 0x10 \<or> op = 0x11 then exec_call m code op fr it s
     else if op = 0x1A \<or> op = 0x1B then exec_param op fr it s
     else if op = 0x20 \<or> op = 0x21 \<or> op = 0x22 then exec_local code op fr it s
     else if op = 0x23 \<or> op = 0x24 then exec_global code op fr it s
     else if 0x28 \<le> op \<and> op \<le> 0x40 then exec_mem code op fr it s
     else if 0x41 \<le> op \<and> op \<le> 0x44 then exec_const code op fr it s
     else exec_num op fr it s)"

text \<open>
  \<^verbatim>\<open>step_frame\<close>: instructions until a return, a call or an error.  The kernel state is returned in
  every case.
\<close>

fun step_frame ::
  "nat \<Rightarrow> WasmModule \<Rightarrow> u8 list \<Rightarrow> Frame \<Rightarrow> Interp \<Rightarrow> 'a PageState_scheme \<Rightarrow>
   ('a PageState_scheme \<times> (Frame \<times> Interp \<times> StepResult) res) option" where
  "step_frame 0 m code fr it s = None"
| "step_frame (Suc n) m code fr it s =
    (if f_pc fr \<ge> length code
     then Some (s, and_then (finish m fr it s) (\<lambda>(fr, it, _, r). Ok (fr, it, r)))
     else case index (f_pc fr) code of
            Ok b \<Rightarrow>
              (case exec_op m code (unat b) (fr\<lparr>f_pc := f_pc fr + 1\<rparr>) it s of
                 Ok (fr', it', s', Continue) \<Rightarrow> step_frame n m code fr' it' s'
               | Ok (fr', it', s', r) \<Rightarrow> Some (s', Ok (fr', it', r))
               | Err e \<Rightarrow> Some (s, Err e)
               | Panic \<Rightarrow> Some (s, Panic))
          | _ \<Rightarrow> Some (s, Panic))"

end
