(* ===== verification/Wasm_Interp.thy ===== *)
theory Wasm_Interp
  imports Wasm_Exec Scheduler
begin

text \<open>
  Calls and host imports of the WebAssembly interpreter, \<^verbatim>\<open>kernel/src/wasm/interp.rs\<close>: the loop over
  frames, the creation of an interpreter with its memory, table and data, the functions a module can
  import, and \<^verbatim>\<open>call_export\<close> of \<^verbatim>\<open>wasm/mod.rs\<close>.  The loop takes fuel like \<open>step_frame\<close>.
\<close>

section \<open>Host imports\<close>

text \<open>
  What the imports of a module reach outside this development: the FAT32 driver, the HTTP client, the
  cycle counter, the address of a temporary buffer on the kernel heap, and what the other CPUs do
  while an import spins.
\<close>

datatype HttpResult = HttpOk "u8 list" | DnsError | TcpError | HttpError nat | Timeout | BufferTooSmall

record 's Host =
  h_fat_open :: "u8 list \<Rightarrow> 's \<Rightarrow> 's \<times> nat option"
  h_fat_read :: "nat \<Rightarrow> nat \<Rightarrow> 's \<Rightarrow> 's \<times> int \<times> u8 list"
  h_fat_write :: "nat \<Rightarrow> u8 list \<Rightarrow> 's \<Rightarrow> 's \<times> int"
  h_fat_close :: "nat \<Rightarrow> 's \<Rightarrow> 's"
  h_parse_url :: "u8 list \<Rightarrow> (bool \<times> u8 list \<times> nat \<times> u8 list) option"
  h_http_get :: "u8 list \<Rightarrow> u8 list \<Rightarrow> nat \<Rightarrow> nat \<Rightarrow> 's \<Rightarrow> 's \<times> HttpResult"
  h_cntpct :: "'s \<Rightarrow> u64"
  h_buffer :: "u8 list \<Rightarrow> 's \<Rightarrow> 's \<times> nat"
  h_others :: "'s \<Rightarrow> 's"

definition arg_at :: "nat \<Rightarrow> u64 list \<Rightarrow> u64" where
  "arg_at k args = (if k < length args then args ! k else 0)"

text \<open>\<^verbatim>\<open>let _ = self.mem.store_u32(p, v)\<close>: a failed store has no effect.\<close>

definition poke :: "LinearMemory \<Rightarrow> u32 \<Rightarrow> u32 \<Rightarrow> 'a PageState_scheme \<Rightarrow> 'a PageState_scheme" where
  "poke m a v s = (case store_u32 m a v (PMEM s) of Some mem \<Rightarrow> s\<lparr>PMEM := mem\<rparr> | None \<Rightarrow> s)"

definition i32_ret :: "int \<Rightarrow> u64" where "i32_ret r = of_i32 (word_of_int r)"

definition host_send_ipc ::
  "nat \<Rightarrow> Interp \<Rightarrow> u64 list \<Rightarrow> 'a SchedState_scheme \<Rightarrow> 'a SchedState_scheme \<times> u64 list res" where
  "host_send_ipc cpu it args s =
    (let tid = unat (arg_at 0 args); ptr = lo32 (arg_at 1 args) in
     case lm_read_bytes (PMEM s) (i_mem it) ptr 32 of
       None \<Rightarrow> (s, Err (MemoryFault ptr))
     | Some bs \<Rightarrow>
         (case send_message tid \<lparr>sender = current_tid cpu s, data = bs\<rparr> s of
            (s', ok) \<Rightarrow> (s', Ok [if ok then 0 else - 1])))"

definition host_recv_ipc ::
  "nat \<Rightarrow> Interp \<Rightarrow> u64 list \<Rightarrow> 'a SchedState_scheme \<Rightarrow> 'a SchedState_scheme \<times> u64 list res" where
  "host_recv_ipc cpu it args s =
    (let ptr = lo32 (arg_at 0 args) in
     case recv_message cpu s of
       (s', Some msg) \<Rightarrow>
         (case lm_write_bytes (i_mem it) ptr (take 32 (data msg)) (PMEM s') of
            Some mem \<Rightarrow> (s'\<lparr>PMEM := mem\<rparr>, Ok [0]) | None \<Rightarrow> (s', Ok [- 1]))
     | (s', None) \<Rightarrow> (s', Ok [- 1]))"


text \<open>\<^verbatim>\<open>fd_write\<close> to the console: the sum of the lengths of the readable buffers, as \<^verbatim>\<open>u32\<close>.\<close>

definition iov_total :: "memory \<Rightarrow> LinearMemory \<Rightarrow> u32 \<Rightarrow> nat \<Rightarrow> u32" where
  "iov_total mem m iovs n =
    fold (\<lambda>i total.
      let iov_base = iovs + of_nat i * 8;
          buf_ptr = (case load_u32 mem m iov_base of Some v \<Rightarrow> v | None \<Rightarrow> 0);
          buf_len = (case load_u32 mem m (iov_base + 4) of Some v \<Rightarrow> v | None \<Rightarrow> 0)
      in case lm_read_bytes mem m buf_ptr buf_len of Some _ \<Rightarrow> total + buf_len | None \<Rightarrow> total) [0..<n] 0"

definition host_fd_write :: "Interp \<Rightarrow> u64 list \<Rightarrow> 'a PageState_scheme \<Rightarrow> 'a PageState_scheme \<times> u64 list res" where
  "host_fd_write it args s =
    (let fd = sint (lo32 (arg_at 0 args)); iovs = lo32 (arg_at 1 args); iovs_len = lo32 (arg_at 2 args);
         nwritten = lo32 (arg_at 3 args);
         total = (if fd = 1 \<or> fd = 2 then iov_total (PMEM s) (i_mem it) iovs (unat iovs_len) else 0)
     in (poke (i_mem it) nwritten total s, Ok [0]))"

definition host_clock_time_get :: "Interp \<Rightarrow> u64 list \<Rightarrow> 'a SchedState_scheme \<Rightarrow> 'a SchedState_scheme \<times> u64 list res" where
  "host_clock_time_get it args s =
    (let time_ptr = lo32 (arg_at 2 args);
         nanos = (of_nat (total_ticks s) * 10000000 :: u64)
     in (poke (i_mem it) (time_ptr + 4) (lo32 (drop_bit 32 nanos)) (poke (i_mem it) time_ptr (lo32 nanos) s), Ok [0]))"

definition host_file_open ::
  "'a SchedState_scheme Host \<Rightarrow> Interp \<Rightarrow> u64 list \<Rightarrow> 'a SchedState_scheme \<Rightarrow> 'a SchedState_scheme \<times> u64 list res" where
  "host_file_open h it args s =
    (case lm_read_bytes (PMEM s) (i_mem it) (lo32 (arg_at 0 args)) (lo32 (arg_at 1 args)) of
       None \<Rightarrow> (s, Ok [i32_ret (- 1)])
     | Some bs \<Rightarrow>
         (case h_fat_open h (if utf8_valid bs then bs else []) s of
            (s', Some fd) \<Rightarrow> (s', Ok [i32_ret (int fd)])
          | (s', None) \<Rightarrow> (s', Ok [i32_ret (- 1)])))"

definition host_file_read ::
  "'a SchedState_scheme Host \<Rightarrow> Interp \<Rightarrow> u64 list \<Rightarrow> 'a SchedState_scheme \<Rightarrow> 'a SchedState_scheme \<times> u64 list res" where
  "host_file_read h it args s =
    (let buf_ptr = lo32 (arg_at 1 args); cap = min (unat (lo32 (arg_at 2 args))) 4096;
         (s', n, bs) = h_fat_read h (unat (arg_at 0 args)) cap s
     in if n > 0 then
          (if nat n > cap then (s', Panic)
           else case lm_write_bytes (i_mem it) buf_ptr (take (nat n) bs) (PMEM s') of
                  Some mem \<Rightarrow> (s'\<lparr>PMEM := mem\<rparr>, Ok [i32_ret n])
                | None \<Rightarrow> (s', Ok [i32_ret (- 1)]))
        else (s', Ok [i32_ret n]))"

definition host_file_write ::
  "'a SchedState_scheme Host \<Rightarrow> Interp \<Rightarrow> u64 list \<Rightarrow> 'a SchedState_scheme \<Rightarrow> 'a SchedState_scheme \<times> u64 list res" where
  "host_file_write h it args s =
    (case lm_read_bytes (PMEM s) (i_mem it) (lo32 (arg_at 1 args)) (lo32 (arg_at 2 args)) of
       None \<Rightarrow> (s, Ok [i32_ret (- 1)])
     | Some bs \<Rightarrow> (case h_fat_write h (unat (arg_at 0 args)) bs s of (s', n) \<Rightarrow> (s', Ok [i32_ret n])))"

text \<open>
  The reply loop of \<^verbatim>\<open>ai_infer\<close>, between whose iterations the other CPUs run.  A reply names a kernel buffer
  of which at most \<open>out_max\<close> bytes are copied out; messages of other senders are dropped.
\<close>

fun ai_reply ::
  "nat \<Rightarrow> 'a SchedState_scheme Host \<Rightarrow> nat \<Rightarrow> LinearMemory \<Rightarrow> u32 \<Rightarrow> nat \<Rightarrow> 'a SchedState_scheme \<Rightarrow>
   ('a SchedState_scheme \<times> int) option" where
  "ai_reply 0 h cpu m out_ptr out_max s = None"
| "ai_reply (Suc k) h cpu m out_ptr out_max s =
    (case recv_message cpu s of
       (s', Some reply) \<Rightarrow>
         if sender reply = 1 then
           let resp_ptr = unat (read_u64 (\<lambda>i. data reply ! i) 8); resp_len = unat (read_u64 (\<lambda>i. data reply ! i) 16) in
           if resp_ptr \<noteq> 0 \<and> resp_len > 0 then
             let n = min resp_len out_max in
             (case lm_write_bytes m out_ptr (map (\<lambda>i. PMEM s' (to_dma_addr resp_ptr + i)) [0..<n]) (PMEM s') of
                Some mem \<Rightarrow> Some (s'\<lparr>PMEM := mem\<rparr>, int n) | None \<Rightarrow> Some (s', - 1))
           else Some (s', 0)
         else ai_reply k h cpu m out_ptr out_max (h_others h s')
     | (s', None) \<Rightarrow> ai_reply k h cpu m out_ptr out_max (h_others h (yield_cpu cpu s')))"

definition host_ai_infer ::
  "nat \<Rightarrow> 'a SchedState_scheme Host \<Rightarrow> nat \<Rightarrow> Interp \<Rightarrow> u64 list \<Rightarrow> 'a SchedState_scheme \<Rightarrow>
   ('a SchedState_scheme \<times> u64 list res) option" where
  "host_ai_infer fuel h cpu it args s =
    (case lm_read_bytes (PMEM s) (i_mem it) (lo32 (arg_at 0 args)) (lo32 (arg_at 1 args)) of
       None \<Rightarrow> Some (s, Ok [i32_ret (- 1)])
     | Some prompt \<Rightarrow>
         let (s1, ptr) = h_buffer h prompt s;
             dat = map (\<lambda>i. ucast (drop_bit (8 * (i mod 8))
                     (if i < 8 then 2 else if i < 16 then of_nat ptr else if i < 24 then of_nat (length prompt) else 0 :: u64)) :: u8) [0..<32]
         in case send_message 1 \<lparr>sender = current_tid cpu s1, data = dat\<rparr> s1 of
              (s2, False) \<Rightarrow> Some (s2, Ok [i32_ret (- 1)])
            | (s2, True) \<Rightarrow>
                map_option (\<lambda>(s3, n). (s3, Ok [i32_ret n]))
                  (ai_reply fuel h cpu (i_mem it) (lo32 (arg_at 2 args)) (unat (arg_at 3 args)) s2))"

definition host_http_get ::
  "'a SchedState_scheme Host \<Rightarrow> Interp \<Rightarrow> u64 list \<Rightarrow> 'a SchedState_scheme \<Rightarrow> 'a SchedState_scheme \<times> u64 list res" where
  "host_http_get h it args s =
    (case lm_read_bytes (PMEM s) (i_mem it) (lo32 (arg_at 0 args)) (lo32 (arg_at 1 args)) of
       None \<Rightarrow> (s, Ok [i32_ret (- 1)])
     | Some url \<Rightarrow>
         (case h_parse_url h (if utf8_valid url then url else []) of
            None \<Rightarrow> (s, Ok [i32_ret (- 1)])
          | Some (https, host, port, path) \<Rightarrow>
              if https then (s, Ok [i32_ret (- 6)])
              else (case h_http_get h host path port (min (unat (lo32 (arg_at 3 args))) 8192) s of
                      (s', HttpOk bs) \<Rightarrow>
                        (case lm_write_bytes (i_mem it) (lo32 (arg_at 2 args)) bs (PMEM s') of
                           Some mem \<Rightarrow> (s'\<lparr>PMEM := mem\<rparr>, Ok [i32_ret (int (length bs))])
                         | None \<Rightarrow> (s', Ok [i32_ret (- 1)]))
                    | (s', DnsError) \<Rightarrow> (s', Ok [i32_ret (- 1)])
                    | (s', TcpError) \<Rightarrow> (s', Ok [i32_ret (- 2)])
                    | (s', HttpError _) \<Rightarrow> (s', Ok [i32_ret (- 3)])
                    | (s', Timeout) \<Rightarrow> (s', Ok [i32_ret (- 4)])
                    | (s', BufferTooSmall) \<Rightarrow> (s', Ok [i32_ret (- 5)]))))"

text \<open>The linear congruential generator of \<^verbatim>\<open>random_get\<close>.\<close>

fun lcg_bytes :: "nat \<Rightarrow> u64 \<Rightarrow> u8 list" where
  "lcg_bytes 0 seed = []"
| "lcg_bytes (Suc n) seed =
    (let seed' = seed * 6364136223846793005 + 1442695040888963407 in ucast (drop_bit 56 seed') # lcg_bytes n seed')"

definition host_random_get ::
  "'a SchedState_scheme Host \<Rightarrow> Interp \<Rightarrow> u64 list \<Rightarrow> 'a SchedState_scheme \<Rightarrow> 'a SchedState_scheme \<times> u64 list res" where
  "host_random_get h it args s =
    (let cap = min (unat (lo32 (arg_at 1 args))) 65536 in
     case lm_write_bytes (i_mem it) (lo32 (arg_at 0 args)) (lcg_bytes cap (h_cntpct h s)) (PMEM s) of
       Some mem \<Rightarrow> (s\<lparr>PMEM := mem\<rparr>, Ok [0]) | None \<Rightarrow> (s, Ok [8]))"

text \<open>The module and import names of the \<^verbatim>\<open>match\<close>, as bytes.\<close>

definition n_aeglos :: "u8 list" where "n_aeglos = [97, 101, 103, 108, 111, 115]"
definition n_wasi :: "u8 list" where "n_wasi = [119, 97, 115, 105, 95, 115, 110, 97, 112, 115, 104, 111, 116, 95, 112, 114, 101, 118, 105, 101, 119, 49]"
definition n_env :: "u8 list" where "n_env = [101, 110, 118]"
definition n_log :: "u8 list" where "n_log = [108, 111, 103]"
definition n_send_ipc :: "u8 list" where "n_send_ipc = [115, 101, 110, 100, 95, 105, 112, 99]"
definition n_recv_ipc :: "u8 list" where "n_recv_ipc = [114, 101, 99, 118, 95, 105, 112, 99]"
definition n_abort :: "u8 list" where "n_abort = [97, 98, 111, 114, 116]"
definition n_assert_fail :: "u8 list" where "n_assert_fail = [95, 95, 97, 115, 115, 101, 114, 116, 95, 102, 97, 105, 108]"
definition n_args_get :: "u8 list" where "n_args_get = [97, 114, 103, 115, 95, 103, 101, 116]"
definition n_args_sizes_get :: "u8 list" where "n_args_sizes_get = [97, 114, 103, 115, 95, 115, 105, 122, 101, 115, 95, 103, 101, 116]"
definition n_environ_get :: "u8 list" where "n_environ_get = [101, 110, 118, 105, 114, 111, 110, 95, 103, 101, 116]"
definition n_environ_sizes_get :: "u8 list" where "n_environ_sizes_get = [101, 110, 118, 105, 114, 111, 110, 95, 115, 105, 122, 101, 115, 95, 103, 101, 116]"
definition n_fd_write :: "u8 list" where "n_fd_write = [102, 100, 95, 119, 114, 105, 116, 101]"
definition n_fd_read :: "u8 list" where "n_fd_read = [102, 100, 95, 114, 101, 97, 100]"
definition n_proc_exit :: "u8 list" where "n_proc_exit = [112, 114, 111, 99, 95, 101, 120, 105, 116]"
definition n_clock_time_get :: "u8 list" where "n_clock_time_get = [99, 108, 111, 99, 107, 95, 116, 105, 109, 101, 95, 103, 101, 116]"
definition n_fd_close :: "u8 list" where "n_fd_close = [102, 100, 95, 99, 108, 111, 115, 101]"
definition n_fd_seek :: "u8 list" where "n_fd_seek = [102, 100, 95, 115, 101, 101, 107]"
definition n_fd_fdstat_get :: "u8 list" where "n_fd_fdstat_get = [102, 100, 95, 102, 100, 115, 116, 97, 116, 95, 103, 101, 116]"
definition n_fd_prestat_get :: "u8 list" where "n_fd_prestat_get = [102, 100, 95, 112, 114, 101, 115, 116, 97, 116, 95, 103, 101, 116]"
definition n_fd_prestat_dir_name :: "u8 list" where "n_fd_prestat_dir_name = [102, 100, 95, 112, 114, 101, 115, 116, 97, 116, 95, 100, 105, 114, 95, 110, 97, 109, 101]"
definition n_path_open :: "u8 list" where "n_path_open = [112, 97, 116, 104, 95, 111, 112, 101, 110]"
definition n_file_open :: "u8 list" where "n_file_open = [102, 105, 108, 101, 95, 111, 112, 101, 110]"
definition n_file_read :: "u8 list" where "n_file_read = [102, 105, 108, 101, 95, 114, 101, 97, 100]"
definition n_file_write :: "u8 list" where "n_file_write = [102, 105, 108, 101, 95, 119, 114, 105, 116, 101]"
definition n_file_close :: "u8 list" where "n_file_close = [102, 105, 108, 101, 95, 99, 108, 111, 115, 101]"
definition n_yield :: "u8 list" where "n_yield = [121, 105, 101, 108, 100]"
definition n_ai_infer :: "u8 list" where "n_ai_infer = [97, 105, 95, 105, 110, 102, 101, 114]"
definition n_http_get :: "u8 list" where "n_http_get = [104, 116, 116, 112, 95, 103, 101, 116]"
definition n_random_get :: "u8 list" where "n_random_get = [114, 97, 110, 100, 111, 109, 95, 103, 101, 116]"
definition n_poll_oneoff :: "u8 list" where "n_poll_oneoff = [112, 111, 108, 108, 95, 111, 110, 101, 111, 102, 102]"
definition n_sched_yield :: "u8 list" where "n_sched_yield = [115, 99, 104, 101, 100, 95, 121, 105, 101, 108, 100]"
definition n_sock_accept :: "u8 list" where "n_sock_accept = [115, 111, 99, 107, 95, 97, 99, 99, 101, 112, 116]"
definition n_sock_recv :: "u8 list" where "n_sock_recv = [115, 111, 99, 107, 95, 114, 101, 99, 118]"
definition n_sock_send :: "u8 list" where "n_sock_send = [115, 111, 99, 107, 95, 115, 101, 110, 100]"
definition n_sock_shutdown :: "u8 list" where "n_sock_shutdown = [115, 111, 99, 107, 95, 115, 104, 117, 116, 100, 111, 119, 110]"

lemmas host_names = n_aeglos_def n_wasi_def n_env_def n_log_def n_send_ipc_def n_recv_ipc_def n_abort_def n_assert_fail_def n_args_get_def n_args_sizes_get_def n_environ_get_def n_environ_sizes_get_def n_fd_write_def n_fd_read_def n_proc_exit_def n_clock_time_get_def n_fd_close_def n_fd_seek_def n_fd_fdstat_get_def n_fd_prestat_get_def n_fd_prestat_dir_name_def n_path_open_def n_file_open_def n_file_read_def n_file_write_def n_file_close_def n_yield_def n_ai_infer_def n_http_get_def n_random_get_def n_poll_oneoff_def n_sched_yield_def n_sock_accept_def n_sock_recv_def n_sock_send_def n_sock_shutdown_def

definition dispatch_host_import ::
  "nat \<Rightarrow> 'a SchedState_scheme Host \<Rightarrow> nat \<Rightarrow> u8 list \<Rightarrow> u8 list \<Rightarrow> u64 list \<Rightarrow> Interp \<Rightarrow> 'a SchedState_scheme \<Rightarrow>
   ('a SchedState_scheme \<times> u64 list res) option" where
  "dispatch_host_import fuel h cpu mo nm args it s =
    (if mo = n_aeglos \<and> nm = n_log then Some (s, Ok [])
     else if mo = n_aeglos \<and> nm = n_send_ipc then Some (host_send_ipc cpu it args s)
     else if mo = n_aeglos \<and> nm = n_recv_ipc then Some (host_recv_ipc cpu it args s)
     else if mo = n_env \<and> (nm = n_abort \<or> nm = n_assert_fail) then Some (s, Err (Trap ''wasm abort''))
     else if mo = n_wasi \<and> (nm = n_args_get \<or> nm = n_environ_get) then Some (s, Ok [0])
     else if mo = n_wasi \<and> (nm = n_args_sizes_get \<or> nm = n_environ_sizes_get) then
       Some (poke (i_mem it) (lo32 (arg_at 1 args)) 0 (poke (i_mem it) (lo32 (arg_at 0 args)) 0 s), Ok [0])
     else if mo = n_wasi \<and> nm = n_fd_write then Some (host_fd_write it args s)
     else if mo = n_wasi \<and> nm = n_fd_read then Some (poke (i_mem it) (lo32 (arg_at 3 args)) 0 s, Ok [8])
     else if mo = n_wasi \<and> nm = n_proc_exit then Some (s, Err (Trap ''proc_exit''))
     else if mo = n_wasi \<and> nm = n_clock_time_get then Some (host_clock_time_get it args s)
     else if mo = n_wasi \<and> nm = n_fd_close then Some (h_fat_close h (unat (arg_at 0 args)) s, Ok [0])
     else if mo = n_wasi \<and> nm = n_fd_seek then Some (s, Ok [8])
     else if mo = n_wasi \<and> nm = n_fd_fdstat_get then
       (let fd = sint (lo32 (arg_at 0 args)) in Some (s, Ok [if fd = 0 \<or> fd = 1 \<or> fd = 2 then 0 else 8]))
     else if mo = n_wasi \<and> (nm = n_fd_prestat_get \<or> nm = n_fd_prestat_dir_name \<or> nm = n_path_open) then Some (s, Ok [8])
     else if mo = n_aeglos \<and> nm = n_file_open then Some (host_file_open h it args s)
     else if mo = n_aeglos \<and> nm = n_file_read then Some (host_file_read h it args s)
     else if mo = n_aeglos \<and> nm = n_file_write then Some (host_file_write h it args s)
     else if mo = n_aeglos \<and> nm = n_file_close then Some (h_fat_close h (unat (arg_at 0 args)) s, Ok [])
     else if mo = n_aeglos \<and> nm = n_yield then Some (yield_cpu cpu s, Ok [])
     else if mo = n_aeglos \<and> nm = n_ai_infer then host_ai_infer fuel h cpu it args s
     else if mo = n_aeglos \<and> nm = n_http_get then Some (host_http_get h it args s)
     else if mo = n_wasi \<and> nm = n_random_get then Some (host_random_get h it args s)
     else if mo = n_wasi \<and> nm = n_poll_oneoff then Some (poke (i_mem it) (lo32 (arg_at 3 args)) 0 s, Ok [0])
     else if mo = n_wasi \<and> nm = n_sched_yield then Some (yield_cpu cpu s, Ok [0])
     else if mo = n_wasi \<and> (nm = n_sock_accept \<or> nm = n_sock_recv \<or> nm = n_sock_send \<or> nm = n_sock_shutdown)
     then Some (s, Ok [58])
     else Some (s, Ok [0]))"

definition call_host ::
  "nat \<Rightarrow> 'a SchedState_scheme Host \<Rightarrow> nat \<Rightarrow> WasmModule \<Rightarrow> nat \<Rightarrow> u64 list \<Rightarrow> Interp \<Rightarrow> 'a SchedState_scheme \<Rightarrow>
   ('a SchedState_scheme \<times> u64 list res) option" where
  "call_host fuel h cpu m import_idx args it s =
    (case get_at import_idx (import_funcs m) of
       Some imp \<Rightarrow> dispatch_host_import fuel h cpu (imp_module imp) (imp_name imp) args it s
     | None \<Rightarrow> Some (s, Err (Trap ''unknown host import'')))"


section \<open>Calls\<close>

text \<open>Arguments, missing ones zero, followed by the zeroed local variables.\<close>

definition init_locals :: "FuncType \<Rightarrow> FuncBody \<Rightarrow> u64 list \<Rightarrow> u64 list" where
  "init_locals ft body args =
    map (\<lambda>i. arg_at i args) [0..<length (ft_params ft)] @ concat (map (\<lambda>(count, _). replicate count 0) (fb_locals body))"

definition new_frame :: "nat \<Rightarrow> u64 list \<Rightarrow> nat \<Rightarrow> Frame" where
  "new_frame idx locals base_sp =
    \<lparr>f_func_idx = idx, f_pc = 0, f_locals = locals, f_base_sp = base_sp, f_labels = []\<rparr>"

text \<open>The values a call or a host function hands back are pushed; an error ends the run.\<close>

definition push_results :: "u64 list \<Rightarrow> Interp \<Rightarrow> 's \<Rightarrow> (Interp \<Rightarrow> ('s \<times> Interp res) option) \<Rightarrow> ('s \<times> Interp res) option" where
  "push_results vals it s k = (case push_all vals it of Ok it' \<Rightarrow> k it' | Err e \<Rightarrow> Some (s, Err e) | Panic \<Rightarrow> Some (s, Panic))"

fun call_loop ::
  "nat \<Rightarrow> 'a SchedState_scheme Host \<Rightarrow> nat \<Rightarrow> WasmModule \<Rightarrow> Frame list \<Rightarrow> Interp \<Rightarrow> 'a SchedState_scheme \<Rightarrow>
   ('a SchedState_scheme \<times> Interp res) option" where
  "call_loop 0 h cpu m fs it s = None"
| "call_loop (Suc n) h cpu m fs it s =
    (if fs = [] then Some (s, Ok it)
     else if length fs > MAX_CALL_DEPTH then Some (s, Err StackOverflow)
     else let nimp = import_func_count m in
     case index (f_func_idx (last fs) - nimp) (m_code m) of
       Err e \<Rightarrow> Some (s, Err e)
     | Panic \<Rightarrow> Some (s, Panic)
     | Ok body \<Rightarrow>
    (case step_frame n m (fb_code body) (last fs) it s of
       None \<Rightarrow> None
     | Some (s, Err e) \<Rightarrow> Some (s, Err e)
     | Some (s, Panic) \<Rightarrow> Some (s, Panic)
     | Some (s, Ok (fr, it, Continue)) \<Rightarrow> call_loop n h cpu m (butlast fs @ [fr]) it s
     | Some (s, Ok (fr, it, Return vals)) \<Rightarrow>
         push_results vals (it\<lparr>i_stack := take (f_base_sp fr) (i_stack it)\<rparr>) s
           (\<lambda>it. call_loop n h cpu m (butlast fs) it s)
     | Some (s, Ok (fr, it, Call callee_idx call_args)) \<Rightarrow>
         if callee_idx < nimp then
           (case call_host n h cpu m callee_idx call_args it s of
              None \<Rightarrow> None
            | Some (s, Err e) \<Rightarrow> Some (s, Err e)
            | Some (s, Panic) \<Rightarrow> Some (s, Panic)
            | Some (s, Ok rets) \<Rightarrow> push_results rets it s (\<lambda>it. call_loop n h cpu m (butlast fs @ [fr]) it s))
         else
           (case index (callee_idx - nimp) (m_code m) of
              Err e \<Rightarrow> Some (s, Err e)
            | Panic \<Rightarrow> Some (s, Panic)
            | Ok body' \<Rightarrow>
                (case func_type m callee_idx of
                   None \<Rightarrow> Some (s, Err (Trap ''bad callee type''))
                 | Some ft \<Rightarrow>
                     call_loop n h cpu m
                       (butlast fs @ [fr, new_frame callee_idx (init_locals ft body' call_args) (length (i_stack it))])
                       it s))))"

definition lift_res :: "'s \<Rightarrow> ('a \<Rightarrow> ('s \<times> 'b res) option) \<Rightarrow> 'a res \<Rightarrow> ('s \<times> 'b res) option" where
  "lift_res s k r = (case r of Ok x \<Rightarrow> k x | Err e \<Rightarrow> Some (s, Err e) | Panic \<Rightarrow> Some (s, Panic))"

text \<open>What \<^verbatim>\<open>call\<close> does after its loop.\<close>

definition call_results :: "nat \<Rightarrow> nat \<Rightarrow> Interp \<Rightarrow> (u64 list \<times> Interp) res" where
  "call_results base_sp n_results it =
    (let sp = length (i_stack it) in
     if sp < base_sp + n_results then Err (Trap ''missing return values'')
     else and_then (slice_from (sp - n_results) (i_stack it)) (\<lambda>results.
            Ok (results, it\<lparr>i_stack := take (sp - n_results) (i_stack it)\<rparr>)))"

definition call ::
  "nat \<Rightarrow> 'a SchedState_scheme Host \<Rightarrow> nat \<Rightarrow> WasmModule \<Rightarrow> nat \<Rightarrow> u64 list \<Rightarrow> Interp \<Rightarrow> 'a SchedState_scheme \<Rightarrow>
   ('a SchedState_scheme \<times> (u64 list \<times> Interp) res) option" where
  "call fuel h cpu m func_idx args it s =
    (let n_imports = import_func_count m in
     if func_idx < n_imports
     then map_option (\<lambda>(s, r). (s, and_then r (\<lambda>vals. Ok (vals, it)))) (call_host fuel h cpu m func_idx args it s)
     else lift_res s (\<lambda>body. lift_res s (\<lambda>ft.
       let base_sp = length (i_stack it) in
       lift_res s (\<lambda>it1.
         if length (i_stack it1) < base_sp + length (ft_params ft) then Some (s, Err (Trap ''not enough args''))
         else
           map_option (\<lambda>(s, r). (s, and_then r (call_results base_sp (length (ft_results ft)))))
             (call_loop fuel h cpu m [new_frame func_idx (init_locals ft body args) base_sp]
               (it1\<lparr>i_stack := take base_sp (i_stack it1)\<rparr>) s))
         (push_all args it))
       (ok_or (Trap ''no func type'') (func_type m func_idx)))
       (ok_or (Trap ''bad func idx'') (get_at (func_idx - n_imports) (m_code m))))"

definition set_entry :: "ElemSegment \<Rightarrow> nat \<Rightarrow> TableEntry list \<Rightarrow> TableEntry list" where
  "set_entry seg i table =
    (let ti = unat (es_offset seg) + i in
     if ti < length table then table[ti := \<lparr>te_func_idx = es_func_idxs seg ! i, te_valid = True\<rparr>] else table)"

definition init_table :: "WasmModule \<Rightarrow> TableEntry list" where
  "init_table m =
    fold (\<lambda>seg. fold (set_entry seg) [0..<length (es_func_idxs seg)]) (m_elem m)
      (replicate (max (m_table_size m) 1) \<lparr>te_func_idx = 0, te_valid = False\<rparr>)"

fun init_data :: "DataSegment list \<Rightarrow> LinearMemory \<Rightarrow> memory \<Rightarrow> memory \<times> WasmError option" where
  "init_data [] m mem = (mem, None)"
| "init_data (seg # segs) m mem =
    (if ds_mem_idx seg = 0 then
       (case lm_write_bytes m (ds_offset seg) (ds_data seg) mem of
          Some mem' \<Rightarrow> init_data segs m mem' | None \<Rightarrow> (mem, Some (MemoryFault (ds_offset seg))))
     else init_data segs m mem)"

definition Interpreter_new ::
  "nat \<Rightarrow> 'a SchedState_scheme Host \<Rightarrow> nat \<Rightarrow> WasmModule \<Rightarrow> 'a SchedState_scheme \<Rightarrow>
   ('a SchedState_scheme \<times> Interp res) option" where
  "Interpreter_new fuel h cpu m s =
    (case LinearMemory_new (max (m_mem_min m) 1) s of
       (s1, None) \<Rightarrow> Some (s1, Err OutOfMemory)
     | (s1, Some lm) \<Rightarrow>
         let it = \<lparr>i_mem = lm, i_globals = map gd_init_val (m_globals m), i_table = init_table m, i_stack = []\<rparr> in
         (case init_data (m_data m) lm (PMEM s1) of
            (mem, Some e) \<Rightarrow> Some (s1\<lparr>PMEM := mem\<rparr>, Err e)
          | (mem, None) \<Rightarrow>
              let s2 = s1\<lparr>PMEM := mem\<rparr> in
              (case m_start m of
                 None \<Rightarrow> Some (s2, Ok it)
               | Some start_idx \<Rightarrow>
                   map_option (\<lambda>(s, r). (s, and_then r (\<lambda>(_, it). Ok it))) (call fuel h cpu m start_idx [] it s2))))"

definition call_export ::
  "nat \<Rightarrow> 'a SchedState_scheme Host \<Rightarrow> nat \<Rightarrow> WasmModule \<Rightarrow> u8 list \<Rightarrow> u64 list \<Rightarrow> 'a SchedState_scheme \<Rightarrow>
   ('a SchedState_scheme \<times> u64 list res) option" where
  "call_export fuel h cpu m nm args s =
    (case find_export m nm of
       None \<Rightarrow> Some (s, Err ExportNotFound)
     | Some idx \<Rightarrow>
         (case Interpreter_new fuel h cpu m s of
            None \<Rightarrow> None
          | Some (s1, Err e) \<Rightarrow> Some (s1, Err e)
          | Some (s1, Panic) \<Rightarrow> Some (s1, Panic)
          | Some (s1, Ok it) \<Rightarrow>
              map_option (\<lambda>(s, r). (s, and_then r (\<lambda>(vals, _). Ok vals))) (call fuel h cpu m idx args it s1)))"

end
