(* ===== verification/Wasm_Sandbox.thy ===== *)
theory Wasm_Sandbox
  imports Wasm_Interp Spawn
begin

text \<open>
  The sandbox of the WebAssembly interpreter: whatever the bytecode, executing it changes physical
  memory only inside the module's linear memory and nothing else of the kernel state, the value
  stack stays within its limit, and no vector is indexed out of range.  A small calculus of
  conditions on results carries the proofs through the instructions.
\<close>

section \<open>Conditions on results\<close>

definition ok_with :: "('a \<Rightarrow> bool) \<Rightarrow> 'a res \<Rightarrow> bool" where
  "ok_with P r = (case r of Ok x \<Rightarrow> P x | Err _ \<Rightarrow> True | Panic \<Rightarrow> False)"

named_theorems ok_rules

lemma ok_with_simps [simp]: "ok_with P (Ok x) = P x" "ok_with P (Err e)" "\<not> ok_with P Panic"
  by (simp_all add: ok_with_def)

lemma ok_with_bind:
  assumes "ok_with P r" "\<And>x. P x \<Longrightarrow> ok_with Q (f x)"
  shows "ok_with Q (and_then r f)"
  using assms by (cases r) auto

lemma ok_with_mono: "ok_with P r \<Longrightarrow> (\<And>x. P x \<Longrightarrow> Q x) \<Longrightarrow> ok_with Q r"
  by (cases r) auto

lemma ok_with_ok_or [ok_rules]: "(\<And>x. r = Some x \<Longrightarrow> P x) \<Longrightarrow> ok_with P (ok_or e r)"
  by (cases r) (auto simp: ok_or_def)

lemma ok_with_index: "i < length xs \<Longrightarrow> P (xs ! i) \<Longrightarrow> ok_with P (index i xs)"
  by (simp add: index_def)

lemma ok_with_slice: "i \<le> length xs \<Longrightarrow> P (drop i xs) \<Longrightarrow> ok_with P (slice_from i xs)"
  by (simp add: slice_from_def)

section \<open>The invariant of an interpreter\<close>

text \<open>Its memory is well formed with region \<open>R\<close> and its stack within the limit.\<close>

definition itv :: "nat set \<Rightarrow> Interp \<Rightarrow> bool" where
  "itv R it \<longleftrightarrow> lm_wf (i_mem it) \<and> lm_region (i_mem it) = R \<and> length (i_stack it) \<le> MAX_STACK_DEPTH"

definition keeps :: "nat set \<Rightarrow> 'a PageState_scheme \<Rightarrow> 'a PageState_scheme \<Rightarrow> bool" where
  "keeps R s s' \<longleftrightarrow> s' = s\<lparr>PMEM := PMEM s'\<rparr> \<and> same_outside R (PMEM s) (PMEM s')"

lemma keeps_refl [simp, intro]: "keeps R s s"
  by (simp add: keeps_def)

lemma keeps_trans [trans]: "keeps R s s' \<Longrightarrow> keeps R s' s'' \<Longrightarrow> keeps R s s''"
  unfolding keeps_def by (metis PageState.surjective PageState.update_convs(5) same_outside_trans)

lemma itv_stack: "itv R it \<Longrightarrow> length st \<le> MAX_STACK_DEPTH \<Longrightarrow> itv R (it\<lparr>i_stack := st\<rparr>)"
  by (simp add: itv_def)

lemma itv_take [simp, intro]: "itv R it \<Longrightarrow> itv R (it\<lparr>i_stack := take n (i_stack it)\<rparr>)"
  by (simp add: itv_def min_def)

lemma itv_globals [simp, intro]: "itv R it \<Longrightarrow> itv R (it\<lparr>i_globals := g\<rparr>)"
  by (simp add: itv_def)

lemma ok_push [ok_rules]: "itv R it \<Longrightarrow> ok_with (itv R) (push v it)"
  by (simp add: push_def itv_def)

lemma ok_pop [ok_rules]: "itv R it \<Longrightarrow> ok_with (\<lambda>(v, it). itv R it) (pop it)"
  by (auto simp: pop_def itv_def)

lemma ok_pop2 [ok_rules]: "itv R it \<Longrightarrow> ok_with (\<lambda>(b, a, it). itv R it) (pop2 it)"
  unfolding pop2_def by (rule ok_with_bind [OF ok_pop], assumption) (auto intro: ok_with_bind [OF ok_pop])

lemma ok_pop_n [ok_rules]: "itv R it \<Longrightarrow> ok_with (\<lambda>(vs, it). itv R it) (pop_n n it)"
  by (auto simp: pop_n_def Let_def slice_from_def)

lemma ok_push_all [ok_rules]: "itv R it \<Longrightarrow> ok_with (itv R) (push_all vs it)"
proof (induction vs arbitrary: it)
  case (Cons v vs)
  then show ?case by (auto intro: ok_with_bind [OF ok_push])
qed simp

lemma ok_trim_stack [ok_rules]: "itv R it \<Longrightarrow> ok_with (itv R) (trim_stack b k it)"
  by (auto simp: trim_stack_def Let_def slice_from_def intro!: ok_push_all)

lemma ok_collect_results [ok_rules]: "itv R it \<Longrightarrow> ok_with (\<lambda>(vs, it). itv R it) (collect_results m fr it)"
  unfolding collect_results_def
  by (rule ok_with_bind [OF ok_with_ok_or, where P = "\<lambda>_. True"]) (auto simp: Let_def slice_from_def)

lemma ok_do_br [ok_rules]: "itv R it \<Longrightarrow> ok_with (\<lambda>(fr', it). itv R it \<and> f_func_idx fr' = f_func_idx fr) (do_br d fr it)"
  by (auto simp: do_br_def Let_def index_def intro!: ok_with_bind [OF ok_trim_stack])

lemma ok_imm_u32 [ok_rules]: "ok_with (\<lambda>_. True) (imm_u32 msg code pc)"
  unfolding imm_u32_def by (rule ok_with_bind [OF ok_with_ok_or, where P = "\<lambda>_. True"]) auto

lemma ok_mem_ea [ok_rules]: "itv R it \<Longrightarrow> ok_with (\<lambda>(a, pc, it). itv R it) (mem_ea code pc it)"
  unfolding mem_ea_def by (auto intro!: ok_with_bind [OF ok_imm_u32] ok_with_bind [OF ok_pop])

lemma ok_skip_memarg [ok_rules]: "ok_with (\<lambda>_. True) (skip_memarg code pc)"
  unfolding skip_memarg_def by (auto intro!: ok_with_bind [OF ok_imm_u32])

lemma ok_parse_blocktype [ok_rules]: "ok_with (\<lambda>_. True) (parse_blocktype m code pc)"
  unfolding parse_blocktype_def
  by (auto simp: index_def intro!: ok_with_bind [OF ok_with_ok_or, where P = "\<lambda>_. True"])

lemma ok_find_end [ok_rules]: "ok_with (\<lambda>_. True) (find_end code pc)"
  unfolding find_end_def by (rule ok_with_ok_or) simp

lemma ok_read_targets: "ok_with (\<lambda>(ts, pc). length ts = n) (read_targets n code pc)"
proof (induction n arbitrary: pc)
  case (Suc n)
  show ?case by (auto intro!: ok_with_bind [OF ok_imm_u32] ok_with_bind [OF Suc])
qed simp

section \<open>Every instruction\<close>

text \<open>
  The condition on the outcome of an instruction of function \<open>i\<close> from kernel state \<open>s\<close>; a callee has
  a type.
\<close>

definition callee_typed :: "WasmModule \<Rightarrow> StepResult \<Rightarrow> bool" where
  "callee_typed m r = (case r of Call c _ \<Rightarrow> func_type m c \<noteq> None | _ \<Rightarrow> True)"

lemma callee_typed_simps [simp]:
  "callee_typed m Continue" "callee_typed m (Return vs)" "callee_typed m (Call c vs) = (func_type m c \<noteq> None)"
  by (simp_all add: callee_typed_def)

definition conf_ok ::
  "WasmModule \<Rightarrow> nat \<Rightarrow> nat set \<Rightarrow> 'a PageState_scheme \<Rightarrow> 'a PageState_scheme conf res \<Rightarrow> bool" where
  "conf_ok m i R s =
    ok_with (\<lambda>(fr, it, s', r). itv R it \<and> keeps R s s' \<and> f_func_idx fr = i \<and> callee_typed m r)"

lemma conf_ok_cont [simp, intro]: "itv R it \<Longrightarrow> f_func_idx fr = i \<Longrightarrow> conf_ok m i R s (cont fr it s)"
  by (simp add: conf_ok_def cont_def)

lemma conf_ok_bind:
  assumes "ok_with P r" "\<And>x. P x \<Longrightarrow> conf_ok m i R s (f x)"
  shows "conf_ok m i R s (and_then r f)"
  using assms unfolding conf_ok_def by (rule ok_with_bind)

lemma conf_ok_simps [simp]: "conf_ok m i R s (Err e)" "conf_ok m i R s (Ok (fr, it, s, r)) = (itv R it \<and> f_func_idx fr = i \<and> callee_typed m r)"
  by (simp_all add: conf_ok_def)

lemmas conf_binds = conf_ok_bind [OF ok_push] conf_ok_bind [OF ok_pop] conf_ok_bind [OF ok_pop2]
  conf_ok_bind [OF ok_pop_n] conf_ok_bind [OF ok_trim_stack] conf_ok_bind [OF ok_collect_results]
  conf_ok_bind [OF ok_do_br] conf_ok_bind [OF ok_imm_u32] conf_ok_bind [OF ok_mem_ea]
  conf_ok_bind [OF ok_skip_memarg] conf_ok_bind [OF ok_parse_blocktype] conf_ok_bind [OF ok_find_end]

lemma conf_ok_or: "(\<And>x. r = Some x \<Longrightarrow> conf_ok m i R s (f x)) \<Longrightarrow> conf_ok m i R s (and_then (ok_or e r) f)"
  by (cases r) (simp_all add: ok_or_def)

lemma conf_block: "itv R it \<Longrightarrow> f_func_idx fr = i \<Longrightarrow> conf_ok m i R s (exec_block m code op fr it s)"
  unfolding exec_block_def Let_def by (auto simp: push_label_def intro!: conf_binds split: option.splits)

lemma conf_finish: "itv R it \<Longrightarrow> f_func_idx fr = i \<Longrightarrow> conf_ok m i R s (finish m fr it s)"
  unfolding finish_def by (auto intro!: conf_binds)

lemma conf_branch: "itv R it \<Longrightarrow> f_func_idx fr = i \<Longrightarrow> conf_ok m i R s (branch d fr it s)"
  unfolding branch_def by (auto intro!: conf_binds)

lemma conf_index:
  "k < length xs \<Longrightarrow> conf_ok m i R s (f (xs ! k)) \<Longrightarrow> conf_ok m i R s (and_then (index k xs) f)"
  by (simp add: index_def)

lemma conf_br: "itv R it \<Longrightarrow> f_func_idx fr = i \<Longrightarrow> conf_ok m i R s (exec_br code op fr it s)"
  unfolding exec_br_def
  by (auto intro!: conf_binds conf_branch conf_ok_bind [OF ok_read_targets] conf_index simp del: read_targets.simps)

lemma conf_call: "itv R it \<Longrightarrow> f_func_idx fr = i \<Longrightarrow> conf_ok m i R s (exec_call m code op fr it s)"
  unfolding exec_call_def by (auto intro!: conf_binds conf_ok_or)

lemma conf_end: "itv R it \<Longrightarrow> f_func_idx fr = i \<Longrightarrow> conf_ok m i R s (exec_end m op fr it s)"
  unfolding exec_end_def Let_def by (auto intro!: conf_binds conf_finish)

lemma conf_local: "itv R it \<Longrightarrow> f_func_idx fr = i \<Longrightarrow> conf_ok m i R s (exec_local code op fr it s)"
  unfolding exec_local_def by (auto intro!: conf_binds conf_ok_or)

lemma conf_global: "itv R it \<Longrightarrow> f_func_idx fr = i \<Longrightarrow> conf_ok m i R s (exec_global code op fr it s)"
  unfolding exec_global_def by (auto intro!: conf_binds conf_ok_or)

lemma conf_param: "itv R it \<Longrightarrow> f_func_idx fr = i \<Longrightarrow> conf_ok m i R s (exec_param op fr it s)"
  unfolding exec_param_def by (auto intro!: conf_binds)

lemma conf_const: "itv R it \<Longrightarrow> f_func_idx fr = i \<Longrightarrow> conf_ok m i R s (exec_const code op fr it s)"
  unfolding exec_const_def by (auto intro!: conf_binds conf_ok_or)

lemma conf_num: "itv R it \<Longrightarrow> f_func_idx fr = i \<Longrightarrow> conf_ok m i R s (exec_num op fr it s)"
  unfolding exec_num_def by (auto intro!: conf_binds conf_ok_or split: option.splits)

lemma keeps_store:
  assumes "itv R it" "store_op op (i_mem it) a v (PMEM s) = Some mem"
  shows "keeps R s (s\<lparr>PMEM := mem\<rparr>)"
proof -
  have w: "lm_wf (i_mem it)" "R = lm_region (i_mem it)" using assms(1) by (simp_all add: itv_def)
  show ?thesis using assms(2) store_outside [OF w(1)] unfolding w(2) keeps_def store_op_def
    by (auto split: if_splits)
qed

lemma conf_mem: "itv R it \<Longrightarrow> f_func_idx fr = i \<Longrightarrow> conf_ok m i R s (exec_mem code op fr it s)"
proof -
  have g: "itv R (it\<lparr>i_mem := mm\<rparr>)" if "itv R it" "lm_grow d (i_mem it) = (mm, x)" for it d mm x
    using that lm_grow_wf [of "i_mem it" d] lm_grow_region [of d "i_mem it"] by (simp add: itv_def)
  have st: "conf_ok m i R s (cont fr it (s\<lparr>PMEM := mem\<rparr>))"
    if "itv R it" "f_func_idx fr = i" "store_op op (i_mem it) a v (PMEM s) = Some mem" for fr it a v mem i
    using keeps_store [OF that(1,3)] that(1,2) by (simp add: conf_ok_def cont_def)
  assume "itv R it" "f_func_idx fr = i"
  then show ?thesis
    unfolding exec_mem_def by (auto intro!: conf_binds conf_ok_or st g split: prod.splits)
qed

lemma conf_exec_op: "itv R it \<Longrightarrow> f_func_idx fr = i \<Longrightarrow> conf_ok m i R s (exec_op m code op fr it s)"
  unfolding exec_op_def
  by (simp add: conf_block conf_end conf_br conf_finish conf_call conf_param conf_local conf_global conf_mem
      conf_const conf_num)

lemma step_frame_ok:
  assumes "itv R it" "step_frame n m code fr it s = Some (s', r)"
  shows "keeps R s s' \<and> ok_with (\<lambda>(fr', it, q). itv R it \<and> f_func_idx fr' = f_func_idx fr \<and> callee_typed m q) r"
  using assms
proof (induction n arbitrary: fr it s)
  case (Suc n)
  show ?case
  proof (cases "f_pc fr \<ge> length code")
    case True
    have "conf_ok m (f_func_idx fr) R s (finish m fr it s)" by (rule conf_finish [OF Suc.prems(1) refl])
    then show ?thesis using Suc.prems(2) True
      by (cases "finish m fr it s") (auto simp: conf_ok_def)
  next
    case False
    let ?e = "exec_op m code (unat (code ! f_pc fr)) (fr\<lparr>f_pc := f_pc fr + 1\<rparr>) it s"
    have ok: "conf_ok m (f_func_idx fr) R s ?e" by (rule conf_exec_op [OF Suc.prems(1)]) simp
    have step: "step_frame (Suc n) m code fr it s = (case ?e of
                 Ok (fr', it', s', Continue) \<Rightarrow> step_frame n m code fr' it' s'
               | Ok (fr', it', s', r) \<Rightarrow> Some (s', Ok (fr', it', r))
               | Err e \<Rightarrow> Some (s, Err e) | Panic \<Rightarrow> Some (s, Panic))"
      using False by (simp add: index_def)
    show ?thesis
    proof (cases ?e)
      case (Ok c)
      obtain fr' it' s1 q where c: "c = (fr', it', s1, q)" by (cases c)
      have i: "itv R it'" "keeps R s s1" "f_func_idx fr' = f_func_idx fr" "callee_typed m q" using ok Ok c by (simp_all add: conf_ok_def)
      show ?thesis
      proof (cases q)
        case Continue
        then show ?thesis using Suc.IH [OF i(1), of fr' s1] Suc.prems(2) step Ok c i(2,3) keeps_trans by simp blast
      qed (use Suc.prems(2) step Ok c i in auto)
    qed (use Suc.prems(2) step ok in \<open>auto simp: conf_ok_def\<close>)
  qed
qed simp

section \<open>Host imports and calls\<close>

text \<open>
  The imports that reach the rest of the kernel are those of the IPC, file, scheduling, inference and
  network interfaces; the others only read and write the memory of the module.
\<close>

definition quiet_import :: "u8 list \<Rightarrow> u8 list \<Rightarrow> bool" where
  "quiet_import mo nm \<longleftrightarrow>
    \<not> (mo = n_aeglos \<and> nm \<in> {n_send_ipc, n_recv_ipc, n_file_open, n_file_read, n_file_write, n_file_close, n_yield,
          n_ai_infer, n_http_get}) \<and>
    \<not> (mo = n_wasi \<and> nm \<in> {n_fd_close, n_sched_yield})"

definition run_ok ::
  "nat set \<Rightarrow> 'a PageState_scheme \<Rightarrow> ('b \<Rightarrow> bool) \<Rightarrow> ('a PageState_scheme \<times> 'b res) option \<Rightarrow> bool" where
  "run_ok R s P r = (case r of None \<Rightarrow> True | Some (s', q) \<Rightarrow> keeps R s s' \<and> ok_with P q)"

lemma run_ok_simps [simp]:
  "run_ok R s P None" "run_ok R s P (Some (s', q)) = (keeps R s s' \<and> ok_with P q)"
  by (simp_all add: run_ok_def)

lemma run_ok_trans: "keeps R s s' \<Longrightarrow> run_ok R s' P r \<Longrightarrow> run_ok R s P r"
  by (auto simp: run_ok_def keeps_trans split: option.splits)

lemma run_ok_map:
  assumes "run_ok R s P r" "\<And>x. P x \<Longrightarrow> ok_with Q (f x)"
  shows "run_ok R s Q (map_option (\<lambda>(s, q). (s, and_then q f)) r)"
  using assms by (auto simp: run_ok_def ok_with_bind split: option.splits)

lemma keeps_poke: "itv R it \<Longrightarrow> keeps R s s' \<Longrightarrow> keeps R s (poke (i_mem it) a v s')"
  using store_outside(3) [of "i_mem it" a v "PMEM s'"] keeps_trans [of R s s']
  by (auto simp: poke_def itv_def keeps_def split: option.splits)

lemma keeps_write:
  assumes "itv R it" "lm_write_bytes (i_mem it) a bs (PMEM s) = Some mem" "length bs < 2 ^ 63"
  shows "keeps R s (s\<lparr>PMEM := mem\<rparr>)"
  using assms write_bytes_outside [of "i_mem it" a bs "PMEM s" mem] by (auto simp: itv_def keeps_def)

lemma length_lcg_bytes [simp]: "length (lcg_bytes n seed) = n"
  by (induction n arbitrary: seed) (auto simp: Let_def)

lemma quiet_random: "itv R it \<Longrightarrow> run_ok R s (\<lambda>_. True) (Some (host_random_get h it args s))"
  by (auto simp: host_random_get_def Let_def intro!: keeps_write split: option.splits)

lemma run_ok_if: "(c \<Longrightarrow> run_ok R s P x) \<Longrightarrow> run_ok R s P y \<Longrightarrow> run_ok R s P (if c then x else y)"
  by simp

lemma quiet_dispatch:
  assumes "itv R it" "quiet_import mo nm"
  shows "run_ok R s (\<lambda>_. True) (dispatch_host_import fuel h cpu mo nm args it s)"
  unfolding dispatch_host_import_def Let_def
  by (intro run_ok_if quiet_random [OF assms(1)])
    (use assms in \<open>auto simp: quiet_import_def host_fd_write_def host_clock_time_get_def keeps_poke Let_def\<close>)

text \<open>Modules all of whose function imports are quiet and whose functions all have a body.\<close>

definition quiet_module :: "WasmModule \<Rightarrow> bool" where
  "quiet_module m \<longleftrightarrow> (\<forall>imp \<in> set (import_funcs m). quiet_import (imp_module imp) (imp_name imp)) \<and>
     length (m_func_types m) \<le> length (m_code m)"

lemma quiet_call_host:
  "itv R it \<Longrightarrow> quiet_module m \<Longrightarrow> run_ok R s (\<lambda>_. True) (call_host fuel h cpu m idx args it s)"
  by (auto simp: call_host_def quiet_module_def get_at_def intro!: quiet_dispatch split: option.splits)

definition frame_bodied :: "WasmModule \<Rightarrow> Frame \<Rightarrow> bool" where
  "frame_bodied m fr \<longleftrightarrow> f_func_idx fr - import_func_count m < length (m_code m)"

lemma typed_bodied:
  assumes "quiet_module m" "func_type m c = Some ft" "\<not> c < import_func_count m"
  shows "c - import_func_count m < length (m_code m)"
  using assms by (auto simp: func_type_def get_at_def quiet_module_def Let_def split: Option.bind_splits if_splits)

lemma run_ok_push_results:
  assumes "itv R it" "keeps R s s'" "\<And>it'. itv R it' \<Longrightarrow> run_ok R s P (k it')"
  shows "run_ok R s P (push_results vals it s' k)"
  using ok_push_all [OF assms(1), of vals] assms(2,3)
  by (cases "push_all vals it") (auto simp: push_results_def)

lemma frames_butlast: "\<forall>fr \<in> set fs. Q fr \<Longrightarrow> \<forall>fr \<in> set (butlast fs). Q fr"
  by (meson in_set_butlastD)

text \<open>One round of the loop, after the frame on top has run to its next call or its return.\<close>

lemma call_loop_round:
  assumes m: "quiet_module m" and i: "itv R it1" "frame_bodied m fr" "callee_typed m r"
    and s1: "keeps R s s1" and rest: "\<forall>fr \<in> set (butlast fs). frame_bodied m fr"
    and fs: "fs \<noteq> []" "\<not> length fs > MAX_CALL_DEPTH"
    and body: "index (f_func_idx (last fs) - import_func_count m) (m_code m) = Ok body"
    and step: "step_frame n m (fb_code body) (last fs) it s = Some (s1, Ok (fr, it1, r))"
    and loop: "\<And>fs' it' s'. itv R it' \<Longrightarrow> \<forall>fr \<in> set fs'. frame_bodied m fr \<Longrightarrow> keeps R s s' \<Longrightarrow>
      run_ok R s (itv R) (call_loop n h cpu m fs' it' s')"
  shows "run_ok R s (itv R) (call_loop (Suc n) h cpu m fs it s)"
proof (cases r)
  case Continue
  then show ?thesis using loop [OF i(1) _ s1] fs body step rest i(2) by simp
next
  case (Return vals)
  then show ?thesis using loop [OF _ rest s1] run_ok_push_results [OF itv_take [OF i(1)] s1] fs body step by simp
next
  case (Call k args)
  then obtain ft where ft: "func_type m k = Some ft" using i(3) by auto
  show ?thesis
  proof (cases "k < import_func_count m")
    case True
    have h: "run_ok R s1 (\<lambda>_. True) (call_host n h cpu m k args it1 s1)" by (rule quiet_call_host [OF i(1) m])
    have "run_ok R s (itv R) (push_results rets it1 s2 (\<lambda>it. call_loop n h cpu m (butlast fs @ [fr]) it s2))"
      if "keeps R s1 s2" for rets s2
      using run_ok_push_results [OF i(1), of s s2] loop [of _ "butlast fs @ [fr]" s2] keeps_trans [OF s1 that] rest i(2)
      by auto
    then show ?thesis using h keeps_trans [OF s1] Call True fs body step
      by (auto simp: run_ok_def [of R s1] split: option.splits res.splits)
  next
    case False
    then have "index (k - import_func_count m) (m_code m) = Ok (m_code m ! (k - import_func_count m))"
      "frame_bodied m (new_frame k l b)" for l b
      using typed_bodied [OF m ft] by (simp_all add: index_def frame_bodied_def new_frame_def)
    then show ?thesis using loop [OF i(1) _ s1] rest i(2) Call False ft fs body step by simp
  qed
qed

lemma call_loop_ok:
  assumes "quiet_module m" "itv R it" "\<forall>fr \<in> set fs. frame_bodied m fr"
  shows "run_ok R s (itv R) (call_loop n h cpu m fs it s)"
  using assms(2,3)
proof (induction n arbitrary: fs it s)
  case (Suc n)
  show ?case
  proof (cases "fs = [] \<or> length fs > MAX_CALL_DEPTH")
    case False
    let ?i = "f_func_idx (last fs) - import_func_count m"
    have body: "index ?i (m_code m) = Ok (m_code m ! ?i)"
      using Suc.prems(2) False by (simp add: frame_bodied_def index_def)
    show ?thesis
    proof (cases "step_frame n m (fb_code (m_code m ! ?i)) (last fs) it s")
      case (Some c)
      then obtain s1 q where st: "step_frame n m (fb_code (m_code m ! ?i)) (last fs) it s = Some (s1, q)" by (cases c) simp
      have ok: "keeps R s s1" "ok_with (\<lambda>(fr, it, q). itv R it \<and> f_func_idx fr = f_func_idx (last fs) \<and> callee_typed m q) q"
        using step_frame_ok [OF Suc.prems(1) st] by blast+
      show ?thesis
      proof (cases q)
        case (Ok d)
        obtain fr it1 r where d: "d = (fr, it1, r)" by (cases d)
        have "itv R it1" "frame_bodied m fr" "callee_typed m r"
          using ok(2) Ok d Suc.prems(2) False by (simp_all add: frame_bodied_def)
        from call_loop_round [OF assms(1) this ok(1) frames_butlast [OF Suc.prems(2)] _ _ body]
        show ?thesis using st Ok d False run_ok_trans Suc.IH by blast
      qed (use ok False body st in auto)
    qed (use False body in auto)
  qed (use Suc.prems(1) in auto)
qed simp

lemma run_ok_lift:
  assumes "ok_with P q" "\<And>x. P x \<Longrightarrow> run_ok R s Q (k x)"
  shows "run_ok R s Q (lift_res s k q)"
  using assms by (cases q) (auto simp: lift_res_def)

lemma ok_call_results: "itv R it \<Longrightarrow> ok_with (\<lambda>(vs, it). itv R it) (call_results b k it)"
  by (auto simp: call_results_def Let_def slice_from_def)

lemma call_ok:
  assumes "quiet_module m" "itv R it"
  shows "run_ok R s (\<lambda>(vs, it). itv R it) (call fuel h cpu m idx args it s)"
proof (cases "idx < import_func_count m")
  case True
  then show ?thesis using assms(2) run_ok_map [OF quiet_call_host [OF assms(2,1)], where f = "\<lambda>vals. Ok (vals, it)" and Q = "\<lambda>(vs, it). itv R it"]
    by (simp add: call_def)
next
  case False
  have 1: "ok_with (\<lambda>_. idx - import_func_count m < length (m_code m))
      (ok_or (Trap ''bad func idx'') (get_at (idx - import_func_count m) (m_code m)))"
    by (rule ok_with_ok_or) (simp add: get_at_def split: if_splits)
  have 2: "ok_with (\<lambda>_. True) (ok_or (Trap ''no func type'') (func_type m idx))" by (rule ok_with_ok_or) simp
  show ?thesis unfolding call_def Let_def if_not_P [OF False]
    by (rule run_ok_lift [OF 1], rule run_ok_lift [OF 2], rule run_ok_lift [OF ok_push_all [OF assms(2)]],
        intro run_ok_if run_ok_map [OF call_loop_ok] ok_call_results)
      (use assms(1) in \<open>auto simp: frame_bodied_def new_frame_def\<close>)
qed

section \<open>An exported function from load to result\<close>

text \<open>The linear memory of a new interpreter is a block of frames that were free.\<close>

definition fresh_block :: "nat \<Rightarrow> nat \<Rightarrow> nat set \<Rightarrow> 'a PageState_scheme \<Rightarrow> 'a PageState_scheme \<Rightarrow> bool" where
  "fresh_block a n R s s' \<longleftrightarrow> R = {a ..< a + n * 4096} \<and> frames a n \<subseteq> free_frames s \<and>
     free_frames s' = free_frames s - frames a n \<and> s' = s\<lparr>BITMAP := BITMAP s', PMEM := PMEM s'\<rparr> \<and>
     same_outside R (PMEM s) (PMEM s')"

definition wasm_frames :: "WasmModule \<Rightarrow> nat" where
  "wasm_frames m = min (max (m_mem_min m) 1) WASM_MAX_PAGES * KERNEL_PAGES_PER_WASM_PAGE"

lemma fresh_block_keeps: "fresh_block a n R s s' \<Longrightarrow> keeps R s' s'' \<Longrightarrow> fresh_block a n R s s''"
proof -
  assume f: "fresh_block a n R s s'" and k: "keeps R s' s''"
  have e: "s'' = s'\<lparr>PMEM := PMEM s''\<rparr>" using k by (simp add: keeps_def)
  have e': "s' = s\<lparr>BITMAP := BITMAP s', PMEM := PMEM s'\<rparr>" using f by (simp add: fresh_block_def)
  have b: "BITMAP s'' = BITMAP s'" by (subst e) simp
  have "s'' = s\<lparr>BITMAP := BITMAP s', PMEM := PMEM s'\<rparr>\<lparr>PMEM := PMEM s''\<rparr>" using e e' by simp
  then have "s'' = s\<lparr>BITMAP := BITMAP s'', PMEM := PMEM s''\<rparr>" using b by simp
  moreover have "free_frames s'' = free_frames s'"
    by (subst e) (simp add: free_frames_def page_is_free_def)
  ultimately show ?thesis using f k same_outside_trans by (auto simp: fresh_block_def keeps_def)
qed

lemma LinearMemory_new_fresh:
  assumes "page_wf s" "LinearMemory_new (max (m_mem_min m) 1) s = (s', Some lm)"
  shows "fresh_block (lm_base lm) (wasm_frames m) (lm_region lm) s s'"
proof -
  let ?cap = "min (max (m_mem_min m) 1) WASM_MAX_PAGES"
  obtain s1 where a: "alloc_pages (wasm_frames m) s = (s1, Some (lm_base lm))"
    and s': "s' = s1\<lparr>PMEM := zero_range (lm_base lm) (?cap * WASM_PAGE_SIZE) (PMEM s1)\<rparr>" and c: "lm_cap_pages lm = ?cap"
    using assms(2) by (auto simp: LinearMemory_new_def wasm_frames_def Let_def split: prod.splits option.splits)
  have sz: "?cap * WASM_PAGE_SIZE = wasm_frames m * 4096"
    by (simp add: wasm_frames_def WASM_PAGE_SIZE_def KERNEL_PAGES_PER_WASM_PAGE_def PAGE_SIZE_def)
  have r: "lm_region lm = {lm_base lm ..< lm_base lm + wasm_frames m * 4096}" using c sz by (simp add: lm_region_def)
  obtain k where k: "s1 = s\<lparr>BITMAP := BITMAP s1, PMEM := zero_range (lm_base lm) (wasm_frames m * PAGE_SIZE) (PMEM s)\<rparr>"
    by (rule alloc_pages_Some [OF assms(1) a]) blast
  have p: "PMEM s1 = zero_range (lm_base lm) (wasm_frames m * PAGE_SIZE) (PMEM s)" by (subst k) simp
  have "s1 = s\<lparr>BITMAP := BITMAP s1, PMEM := PMEM s1\<rparr>" using k p by simp
  then have "fresh_block (lm_base lm) (wasm_frames m) (lm_region lm) s s1"
    unfolding fresh_block_def r using alloc_pages_frames [OF assms(1) a]
    by (simp add: same_outside_def p zero_range_def PAGE_SIZE_def)
  then show ?thesis
    by (rule fresh_block_keeps) (auto simp: keeps_def s' [unfolded sz] r same_outside_def zero_range_def)
qed

lemma init_data_ok:
  assumes "itv R it" "\<forall>seg \<in> set segs. length (ds_data seg) < 2 ^ 63"
  shows "same_outside R mem (fst (init_data segs (i_mem it) mem))"
  using assms(2)
proof (induction segs arbitrary: mem)
  case (Cons seg segs)
  have w: "same_outside R mem mem'" if "lm_write_bytes (i_mem it) (ds_offset seg) (ds_data seg) mem = Some mem'" for mem'
    using write_bytes_outside [OF _ that] assms(1) Cons.prems by (simp add: itv_def)
  then show ?case using Cons.IH Cons.prems by (auto intro: same_outside_trans split: option.splits)
qed simp

definition fresh_run ::
  "WasmModule \<Rightarrow> 'a PageState_scheme \<Rightarrow> (nat set \<Rightarrow> 'b \<Rightarrow> bool) \<Rightarrow> ('a PageState_scheme \<times> 'b res) option \<Rightarrow> bool" where
  "fresh_run m s P res \<longleftrightarrow> (\<forall>s' r. res = Some (s', r) \<longrightarrow>
     (s' = s \<and> (\<exists>e. r = Err e)) \<or>
     (\<exists>a R. fresh_block a (wasm_frames m) R s s' \<and> ok_with (P R) r))"

lemma fresh_runI:
  "fresh_block a (wasm_frames m) R s s1 \<Longrightarrow> run_ok R s1 (P R) res \<Longrightarrow> fresh_run m s P res"
  unfolding fresh_run_def run_ok_def by (auto dest: fresh_block_keeps)

lemma Interpreter_new_ok:
  assumes "page_wf s" "quiet_module m" "\<forall>seg \<in> set (m_data m). length (ds_data seg) < 2 ^ 63"
  shows "fresh_run m s itv (Interpreter_new fuel h cpu m s)"
proof (cases "LinearMemory_new (max (m_mem_min m) 1) s")
  case (Pair s1 q)
  show ?thesis
  proof (cases q)
    case None
    then have "s1 = s" using Pair alloc_pages_None by (auto simp: LinearMemory_new_def Let_def split: prod.splits option.splits)
    then show ?thesis using Pair None by (simp add: Interpreter_new_def fresh_run_def)
  next
    case (Some lm)
    let ?it = "\<lparr>i_mem = lm, i_globals = map gd_init_val (m_globals m), i_table = init_table m, i_stack = []\<rparr>"
    note lm = Pair [unfolded Some]
    have it: "itv (lm_region lm) ?it" using LinearMemory_new_wf [OF lm] by (simp add: itv_def)
    obtain mem e where d: "init_data (m_data m) lm (PMEM s1) = (mem, e)" by (cases "init_data (m_data m) lm (PMEM s1)")
    have k: "keeps (lm_region lm) s1 (s1\<lparr>PMEM := mem\<rparr>)"
      using init_data_ok [OF it assms(3), of "PMEM s1"] d by (simp add: keeps_def)
    have run: "run_ok (lm_region lm) s1 (itv (lm_region lm))
        (map_option (\<lambda>(s, r). (s, and_then r (\<lambda>(_, it). Ok it))) (call fuel h cpu m i [] ?it (s1\<lparr>PMEM := mem\<rparr>)))" for i
      by (rule run_ok_trans [OF k run_ok_map [OF call_ok [OF assms(2) it]]]) auto
    show ?thesis unfolding Interpreter_new_def lm
      by (rule fresh_runI [OF LinearMemory_new_fresh [OF assms(1) lm]])
        (use it k run in \<open>auto simp: d Let_def split: option.splits\<close>)
  qed
qed

lemma call_export_ok:
  assumes "page_wf s" "quiet_module m" "\<forall>seg \<in> set (m_data m). length (ds_data seg) < 2 ^ 63"
  shows "fresh_run m s (\<lambda>_ _. True) (call_export fuel h cpu m nm args s)"
proof (cases "find_export m nm")
  case (Some idx)
  show ?thesis
  proof (cases "Interpreter_new fuel h cpu m s")
    case (Some c)
    obtain s1 q where c: "c = (s1, q)" by (cases c)
    have new: "(s1 = s \<and> (\<exists>e. q = Err e)) \<or> (\<exists>a R. fresh_block a (wasm_frames m) R s s1 \<and> ok_with (itv R) q)"
      using Interpreter_new_ok [OF assms] Some c by (auto simp: fresh_run_def)
    show ?thesis
    proof (cases q)
      case (Ok it)
      then obtain a R where f: "fresh_block a (wasm_frames m) R s s1" and it: "itv R it" using new by auto
      have "run_ok R s1 (\<lambda>_. True) (map_option (\<lambda>(s, r). (s, and_then r (\<lambda>(vals, _). Ok vals))) (call fuel h cpu m idx args it s1))"
        by (rule run_ok_map [OF call_ok [OF assms(2) it]]) auto
      then show ?thesis using fresh_runI [OF f] Some c Ok \<open>find_export m nm = Some idx\<close>
        by (simp add: call_export_def)
    qed (use new Some c \<open>find_export m nm = Some idx\<close> in \<open>auto simp: call_export_def fresh_run_def\<close>)
  qed (simp add: call_export_def fresh_run_def \<open>find_export m nm = Some idx\<close>)
qed (simp add: call_export_def fresh_run_def)


definition small_ram :: SchedState where
  "small_ram = boot_example\<lparr>BITMAP := [0xFF, 0xFF], NUM_PAGES := 16, RAM_TOP := 0x41010000\<rparr>"

definition no_host :: "SchedState Host" where
  "no_host = \<lparr>h_fat_open = (\<lambda>_ s. (s, None)), h_fat_read = (\<lambda>_ _ s. (s, - 1, [])), h_fat_write = (\<lambda>_ _ s. (s, - 1)),
    h_fat_close = (\<lambda>_ s. s), h_parse_url = (\<lambda>_. None), h_http_get = (\<lambda>_ _ _ _ s. (s, DnsError)), h_cntpct = (\<lambda>_. 0),
    h_buffer = (\<lambda>_ s. (s, 0)), h_others = (\<lambda>s. s)\<rparr>"

text \<open>A module with one function without parameters, exported as \<^verbatim>\<open>f\<close>.\<close>

definition module_example :: "u8 list \<Rightarrow> WasmModule" where
  "module_example code =
    \<lparr>m_types = [\<lparr>ft_params = [], ft_results = [I32]\<rparr>], m_imports = [], m_func_types = [0], m_table_size = 0, m_mem_min = 1,
     m_mem_max = None, m_globals = [], m_exports = [\<lparr>exp_name = [102], exp_kind = EFunc, exp_idx = 0\<rparr>], m_start = None,
     m_elem = [], m_code = [\<lparr>fb_locals = [], fb_code = code\<rparr>], m_data = [], m_caps = 0\<rparr>"


end
