(* ===== verification/Wasm_Props.thy ===== *)
theory Wasm_Props
  imports Wasm_Sandbox
begin

text \<open>
  Correctness of the parts of the WebAssembly engine: the integer instructions against the definitions
  of the WebAssembly specification, the LEB128 decoder against its encoder, the loader against the
  structural check, and the behaviours in which the interpreter departs from the specification.
\<close>

section \<open>Integer instructions\<close>

text \<open>
  The integer operators of the specification, on the unsigned values of \<open>n\<close>-bit integers; \<open>None\<close> is a
  trap.  The numbers are those of the opcodes, counted from the addition of the width.
\<close>

definition signed_val :: "nat \<Rightarrow> int \<Rightarrow> int" where
  "signed_val n i = (if i < 2 ^ (n - 1) then i else i - 2 ^ n)"

definition spec_arith :: "nat \<Rightarrow> nat \<Rightarrow> int \<Rightarrow> int \<Rightarrow> int option" where
  "spec_arith n k i j =
    (let sh = nat (j mod int n); i' = signed_val n i; j' = signed_val n j in
     if k = 0 then Some ((i + j) mod 2 ^ n)
     else if k = 1 then Some ((i - j) mod 2 ^ n)
     else if k = 2 then Some (i * j mod 2 ^ n)
     else if k = 3 then (if j = 0 \<or> i' sdiv j' = 2 ^ (n - 1) then None else Some ((i' sdiv j') mod 2 ^ n))
     else if k = 4 then (if j = 0 then None else Some (i div j))
     else if k = 5 then (if j = 0 then None else Some ((i' smod j') mod 2 ^ n))
     else if k = 6 then (if j = 0 then None else Some (i mod j))
     else if k = 7 then Some (i AND j)
     else if k = 8 then Some (i OR j)
     else if k = 9 then Some (i XOR j)
     else if k = 10 then Some (i * 2 ^ sh mod 2 ^ n)
     else if k = 11 then Some ((i' div 2 ^ sh) mod 2 ^ n)
     else if k = 12 then Some (i div 2 ^ sh)
     else if k = 13 then Some (i * 2 ^ sh mod 2 ^ n + i div 2 ^ (n - sh))
     else Some (i div 2 ^ sh + i * 2 ^ (n - sh) mod 2 ^ n))"

lemma signed_val_sint: "signed_val LENGTH('a) (uint a) = sint (a :: 'a::len word)"
proof -
  obtain n where n: "LENGTH('a) = Suc n" using gr0_implies_Suc [OF len_gt_0] by blast
  have u: "uint a < 2 * 2 ^ n" using uint_lt2p [of a] by (simp add: n)
  have "uint a div 2 ^ n = (if uint a < 2 ^ n then 0 else 1)"
  proof (cases "uint a < 2 ^ n")
    case False
    then show ?thesis using u by (simp add: int_div_pos_eq [of "uint a" "2 ^ n" 1 "uint a - 2 ^ n"])
  qed simp
  moreover have "take_bit (Suc n) (uint a) = uint a" using u by (simp add: take_bit_int_eq_self)
  ultimately show ?thesis
    unfolding signed_val_def n sint_uint signed_take_bit_eq_take_bit_minus by (simp add: n bit_iff_odd)
qed

lemma shift_mod: "unat (b :: 'a::len word) mod LENGTH('a) = nat (uint b mod int LENGTH('a))"
  by (simp add: nat_mod_distrib)

lemma uint_signed_drop_bit: "uint (signed_drop_bit k a) = (sint a div 2 ^ k) mod 2 ^ LENGTH('a)" for a :: "'a::len word"
  by (simp add: uint_sint sint_signed_drop_bit_eq take_bit_eq_mod drop_bit_eq_div)

lemma uint_shl: "uint (push_bit k a) = uint a * 2 ^ k mod 2 ^ LENGTH('a)" for a :: "'a::len word"
  by (simp add: unsigned_push_bit_eq) (simp add: take_bit_eq_mod push_bit_eq_mult)

lemma uint_shr: "uint (drop_bit k a) = uint a div 2 ^ k" for a :: "'a::len word"
  by (simp add: unsigned_drop_bit_eq) (simp add: drop_bit_eq_div take_bit_int_eq_self)

lemma uint_word_rotr:
  fixes a :: "'a::len word"
  assumes "k < LENGTH('a)"
  shows "uint (word_rotr k a) = uint a div 2 ^ k + uint a * 2 ^ (LENGTH('a) - k) mod 2 ^ LENGTH('a)"
proof -
  have p: "(2 :: int) ^ LENGTH('a) = 2 ^ k * 2 ^ (LENGTH('a) - k)" using assms by (simp add: power_add [symmetric])
  have lt: "uint a div 2 ^ k < 2 ^ (LENGTH('a) - k)"
  proof (rule ccontr)
    assume "\<not> uint a div 2 ^ k < 2 ^ (LENGTH('a) - k)"
    then have "(2 :: int) ^ k * 2 ^ (LENGTH('a) - k) \<le> 2 ^ k * (uint a div 2 ^ k)" by (intro mult_left_mono) auto
    also have "\<dots> \<le> uint a" using mult_div_mod_eq [of "2 ^ k" "uint a"] pos_mod_sign [of "2 ^ k" "uint a", OF zero_less_power]
      by linarith
    finally show False using uint_lt2p [of a] by (simp add: p)
  qed
  from lt have "take_bit (LENGTH('a) - k) (drop_bit k (uint a)) = uint a div 2 ^ k"
    by (simp add: drop_bit_eq_div take_bit_int_eq_self_iff pos_imp_zdiv_nonneg_iff)
  moreover have "push_bit (LENGTH('a) - k) (uint (take_bit k a)) = uint a * 2 ^ (LENGTH('a) - k) mod 2 ^ LENGTH('a)"
    unfolding p mod_mult_mult2 push_bit_eq_mult using assms
    by (simp add: unsigned_take_bit_eq) (simp add: take_bit_eq_mod)
  ultimately show ?thesis using assms by (simp add: uint_word_rotr_eq concat_bit_eq)
qed

lemma uint_word_rotl:
  fixes a :: "'a::len word"
  assumes "k < LENGTH('a)"
  shows "uint (word_rotl k a) = uint a * 2 ^ k mod 2 ^ LENGTH('a) + uint a div 2 ^ (LENGTH('a) - k)"
proof (cases "k = 0")
  case True
  then show ?thesis by (simp add: word_rotl_eq_word_rotr uint_word_rotr_eq concat_bit_eq take_bit_int_eq_self_iff)
next
  case False
  then have "uint (word_rotl k a) = uint (word_rotr (LENGTH('a) - k) a)" using assms by (simp add: word_rotl_eq_word_rotr)
  then show ?thesis using uint_word_rotr [of "LENGTH('a) - k" a] False assms by simp
qed

lemma int_arith_spec:
  fixes a b :: "'a::len word"
  assumes "\<not> (k = 3 \<and> sint a sdiv sint b = 2 ^ (LENGTH('a) - 1))"
  shows "map_option uint (int_arith k a b) = spec_arith LENGTH('a) k (uint a) (uint b)"
proof -
  have z: "uint b = 0 \<longleftrightarrow> b = 0" by (simp add: uint_0_iff)
  have sh: "nat (uint b mod int LENGTH('a)) < LENGTH('a)" by (simp add: nat_less_iff)
  have "k < 3 \<or> k = 3 \<or> k = 4 \<or> k = 5 \<or> k = 6 \<or> k = 7 \<or> k = 8 \<or> k = 9 \<or> k = 10 \<or> k = 11 \<or> k = 12 \<or> k = 13 \<or> k > 13"
    by presburger
  then consider "k < 3" | "k = 3" | "k = 4 \<or> k = 5 \<or> k = 6" | "k = 7 \<or> k = 8 \<or> k = 9" | "k = 10 \<or> k = 11 \<or> k = 12"
    | "k = 13" | "k > 13" by blast
  then show ?thesis
  proof cases
    case 1
    then consider "k = 0" | "k = 1" | "k = 2" by linarith
    then show ?thesis by cases (simp_all add: int_arith_def spec_arith_def uint_word_ariths)
  next
    case 2
    then show ?thesis using assms by (simp add: int_arith_def spec_arith_def signed_val_sint z uint_word_of_int)
  next
    case 3
    then show ?thesis by (auto simp: int_arith_def spec_arith_def signed_val_sint z uint_word_of_int uint_div_distrib uint_mod_distrib)
  next
    case 4
    then show ?thesis by (auto simp: int_arith_def spec_arith_def uint_and uint_or uint_xor)
  next
    case 5
    then show ?thesis
      unfolding int_arith_def spec_arith_def Let_def shift_mod signed_val_sint
      by (elim disjE) (simp_all only: option.map if_True if_False,
          simp_all add: uint_signed_drop_bit uint_shl uint_shr)
  next
    case 6
    then show ?thesis by (simp add: int_arith_def spec_arith_def shift_mod uint_word_rotl [OF sh] Let_def)
  next
    case 7
    then show ?thesis by (simp add: int_arith_def spec_arith_def shift_mod uint_word_rotr [OF sh] Let_def)
  qed
qed

lemma lo32_of [simp]: "lo32 (of_u32 x) = x" "lo32 (of_i32 x) = x"
  by (rule bit_word_eqI, auto simp: lo32_def of_u32_def of_i32_def bit_simps)+

lemma pop_last: "i_stack it = st @ [a] \<Longrightarrow> pop it = Ok (a, it\<lparr>i_stack := st\<rparr>)"
  by (simp add: pop_def)

lemma pop2_last: "i_stack it = st @ [a, b] \<Longrightarrow> pop2 it = Ok (b, a, it\<lparr>i_stack := st\<rparr>)"
  by (simp add: pop2_def pop_last [of _ "st @ [a]"] pop_last [of _ st])

lemma binop_exec:
  assumes "wasm_unop op = None" "wasm_binop op = Some f" "i_stack it = st @ [a, b]" "length st < MAX_STACK_DEPTH"
  shows "exec_num op fr it s =
    (case f a b of None \<Rightarrow> Err DivisionByZero | Some v \<Rightarrow> cont fr (it\<lparr>i_stack := st @ [v]\<rparr>) s)"
  using assms by (simp add: exec_num_def pop2_last push_def ok_or_def split: option.splits)

lemma arith_ops:
  assumes "k < 15"
  shows "wasm_unop (0x6A + k) = None" "wasm_binop (0x6A + k) = Some (i32_arith (0x6A + k))"
    "wasm_unop (0x7C + k) = None" "wasm_binop (0x7C + k) = Some (i64_arith (0x7C + k))"
  using assms
  by (auto simp: wasm_unop_def i32_unop_def i64_unop_def conv_op_def wasm_binop_def)

lemma i32_arith_lo: "map_option lo32 (i32_arith (0x6A + k) a b) = int_arith k (lo32 a) (lo32 b)"
  by (cases "int_arith k (lo32 a) (lo32 b)") (auto simp: i32_arith_def)

text \<open>What an instruction must leave on the stack \<open>st\<close> for the specified result.\<close>

definition meets :: "'b conf res \<Rightarrow> Frame \<Rightarrow> Interp \<Rightarrow> 'b \<Rightarrow> u64 list \<Rightarrow> (u64 \<Rightarrow> int) \<Rightarrow> int option \<Rightarrow> bool" where
  "meets out fr it s st val spec = (case spec of
      None \<Rightarrow> out = Err DivisionByZero
    | Some r \<Rightarrow> \<exists>v. out = cont fr (it\<lparr>i_stack := st @ [v]\<rparr>) s \<and> val v = r)"

lemma meets_intro:
  "map_option val r = spec \<Longrightarrow>
   meets (case r of None \<Rightarrow> Err DivisionByZero | Some v \<Rightarrow> cont fr (it\<lparr>i_stack := st @ [v]\<rparr>) s) fr it s st val spec"
  by (cases r) (auto simp: meets_def)

lemma i32_exec_spec:
  assumes "i_stack it = st @ [a, b]" "length st < MAX_STACK_DEPTH" "k < 15"
    "\<not> (k = 3 \<and> sint (lo32 a) sdiv sint (lo32 b) = 2 ^ 31)"
  shows "meets (exec_num (0x6A + k) fr it s) fr it s st (uint \<circ> lo32) (spec_arith 32 k (uint (lo32 a)) (uint (lo32 b)))"
  unfolding binop_exec [OF arith_ops(1,2) [OF assms(3)] assms(1,2)]
  by (rule meets_intro, subst option.map_comp [symmetric], subst i32_arith_lo)
    (use int_arith_spec [of k "lo32 a" "lo32 b"] assms(4) in simp)

lemma i64_exec_spec:
  assumes "i_stack it = st @ [a, b]" "length st < MAX_STACK_DEPTH" "k < 15" "\<not> (k = 3 \<and> sint a sdiv sint b = 2 ^ 63)"
  shows "meets (exec_num (0x7C + k) fr it s) fr it s st uint (spec_arith 64 k (uint a) (uint b))"
  unfolding binop_exec [OF arith_ops(3,4) [OF assms(3)] assms(1,2)]
  by (rule meets_intro) (use int_arith_spec [of k a b] assms(4) in \<open>simp add: i64_arith_def\<close>)

text \<open>
  C26. The integer arithmetic of both widths is that of the WebAssembly specification: on a stack with
  the operands on top, each of the fifteen operators leaves the specified result, or traps exactly
  when the specification traps, with one exception.  The signed division whose quotient does not fit
  traps in the specification and wraps around here.
\<close>

theorem wasm_arith_spec:
  assumes "i_stack it = st @ [a, b]" "length st < MAX_STACK_DEPTH" "k < 15"
  shows "(\<not> (k = 3 \<and> sint (lo32 a) sdiv sint (lo32 b) = 2 ^ 31) \<longrightarrow>
      meets (exec_num (0x6A + k) fr it s) fr it s st (uint \<circ> lo32) (spec_arith 32 k (uint (lo32 a)) (uint (lo32 b)))) \<and>
    (\<not> (k = 3 \<and> sint a sdiv sint b = 2 ^ 63) \<longrightarrow>
      meets (exec_num (0x7C + k) fr it s) fr it s st uint (spec_arith 64 k (uint a) (uint b))) \<and>
    (a = 0x80000000 \<and> b = 0xFFFFFFFF \<longrightarrow>
      spec_arith 32 3 (uint (lo32 a)) (uint (lo32 b)) = None \<and>
      exec_num 0x6D fr it s = cont fr (it\<lparr>i_stack := st @ [- 0x80000000]\<rparr>) s)"
proof -
  have "a = 0x80000000 \<and> b = 0xFFFFFFFF \<longrightarrow>
      spec_arith 32 3 (uint (lo32 a)) (uint (lo32 b)) = None \<and>
      exec_num 0x6D fr it s = cont fr (it\<lparr>i_stack := st @ [- 0x80000000]\<rparr>) s"
    using binop_exec [OF arith_ops(1,2) assms(1,2), of 3]
    by (auto simp: spec_arith_def signed_val_def lo32_def i32_arith_def int_arith_def of_i32_def)
  then show ?thesis using i32_exec_spec [OF assms, where fr = fr and s = s] i64_exec_spec [OF assms, where fr = fr and s = s]
    by blast
qed

definition interp_example :: "u64 list \<Rightarrow> Interp" where
  "interp_example st = \<lparr>i_mem = lm_example, i_globals = [], i_table = [], i_stack = st\<rparr>"

definition frame_example :: Frame where "frame_example = new_frame 0 [] 0"

theorem wasm_arith_spec_witness:
  "\<exists>v. exec_num 0x6D frame_example (interp_example [- 7, 2]) wasm_page_example =
       cont frame_example (interp_example [v]) wasm_page_example \<and> uint (lo32 v) = 4294967293"
proof -
  have "meets (exec_num (0x6A + 3) frame_example (interp_example [- 7, 2]) wasm_page_example) frame_example
      (interp_example [- 7, 2]) wasm_page_example [] (uint \<circ> lo32) (spec_arith 32 3 (uint (lo32 (- 7))) (uint (lo32 2)))"
    using wasm_arith_spec [of "interp_example [- 7, 2]" "[]" "- 7" 2 3 frame_example wasm_page_example]
    by (simp add: interp_example_def MAX_STACK_DEPTH_def lo32_def signed_divide_int_def)
  moreover have "spec_arith 32 3 (uint (lo32 (- 7))) (uint (lo32 2)) = Some 4294967293"
    by (simp add: spec_arith_def signed_val_def lo32_def signed_divide_int_def)
  ultimately show ?thesis by (simp add: meets_def interp_example_def)
qed

section \<open>The binary format\<close>

text \<open>The unsigned LEB128 encoding: seven bits a byte, least significant group first.\<close>

fun leb128 :: "nat \<Rightarrow> u8 list" where
  "leb128 v = (if v < 128 then [of_nat v] else of_nat (v mod 128 + 128) # leb128 (v div 128))"

declare leb128.simps [simp del]

lemma leb_byte:
  "(of_nat v :: u8) AND 0x7F = of_nat v" "(of_nat v :: u8) AND 0x80 = 0" if "v < 128"
proof -
  have v: "take_bit 7 (of_nat v :: u8) = of_nat v" using that by (simp add: take_bit_of_nat take_bit_nat_eq_self)
  have "(of_nat v :: u8) AND mask 7 = of_nat v" using v by (simp add: take_bit_eq_mask)
  then show "(of_nat v :: u8) AND 0x7F = of_nat v" by (simp add: mask_eq_decr_exp)
  have "\<not> bit (of_nat v :: u8) 7" using v by (metis bit_take_bit_iff less_irrefl)
  then show "(of_nat v :: u8) AND 0x80 = 0"
    using and_exp_eq_0_iff_not_bit [of "of_nat v :: u8" 7] by simp
qed

lemma leb_byte_more:
  "(of_nat (v + 128) :: u8) AND 0x7F = of_nat v" "(of_nat (v + 128) :: u8) AND 0x80 \<noteq> 0" if "v < 128"
proof -
  have o: "of_nat (v + 128) = (of_nat v OR 0x80 :: u8)"
    using leb_byte(2) [OF that] disjunctive_add_eq_or [of "of_nat v :: u8" "0x80"] by simp
  show "(of_nat (v + 128) :: u8) AND 0x7F = of_nat v"
    unfolding o bit.conj_disj_distrib2 using leb_byte(1) [OF that] by simp
  show "(of_nat (v + 128) :: u8) AND 0x80 \<noteq> 0"
    unfolding o bit.conj_disj_distrib2 using leb_byte(2) [OF that] by simp
qed

lemma leb_group: "of_nat (v mod 128) OR push_bit 7 (of_nat (v div 128)) = (of_nat v :: u32)"
proof (rule bit_word_eqI)
  fix n
  assume "n < LENGTH(32)"
  have "of_nat (v mod 128) = (of_nat (take_bit 7 v) :: u32)" "of_nat (v div 128) = (of_nat (drop_bit 7 v) :: u32)"
    by (simp_all add: take_bit_eq_mod drop_bit_eq_div)
  then show "bit (of_nat (v mod 128) OR push_bit 7 (of_nat (v div 128)) :: u32) n = bit (of_nat v :: u32) n"
    by (auto simp: bit_simps)
qed

lemma ucast_leb: "v < 128 \<Longrightarrow> ucast (of_nat v :: u8) = (of_nat v :: u32)"
  by (simp add: unsigned_of_nat take_bit_nat_eq_self)

lemma leb_loop_roundtrip:
  assumes "i \<le> length dat" "drop i dat = leb128 v @ rest" "v < 2 ^ (32 - shift)"
  shows "leb_u32_loop dat i shift r = Some (r OR push_bit shift (of_nat v), i + length (leb128 v))"
  using assms
proof (induction v arbitrary: i shift r rule: leb128.induct)
  case (1 v)
  have i: "i < length dat" using 1(3) by (subst (asm) leb128.simps) (auto split: if_splits intro: ccontr)
  show ?case
  proof (cases "v < 128")
    case True
    have b: "dat ! i = of_nat v" using 1(3) True i by (simp add: leb128.simps [of v] Cons_nth_drop_Suc [symmetric])
    show ?thesis using True i leb_byte [OF True]
      by (simp add: leb_u32_loop.simps [of dat i] leb128.simps [of v] b ucast_leb)
  next
    case False
    have b: "dat ! i = of_nat (v mod 128 + 128)" and d: "drop (Suc i) dat = leb128 (v div 128) @ rest"
      using 1(3) False i by (simp_all add: leb128.simps [of v] Cons_nth_drop_Suc [symmetric])
    have sh: "shift < 25"
    proof (rule ccontr)
      assume "\<not> shift < 25"
      then have "(2::nat) ^ (32 - shift) \<le> 2 ^ 7" by (intro power_increasing) auto
      then show False using 1(4) False by simp
    qed
    then have "(2::nat) ^ (32 - shift) = 2 ^ (32 - (shift + 7)) * 2 ^ 7" using power_add [of "2::nat" "32 - (shift + 7)" 7] by simp
    then have lt: "v div 128 < 2 ^ (32 - (shift + 7))" using 1(4) by (simp add: less_mult_imp_div_less)
    have "(r OR push_bit shift (of_nat (v mod 128))) OR push_bit (shift + 7) (of_nat (v div 128)) =
        r OR push_bit shift (of_nat v)"
      by (simp add: or.assoc leb_group [symmetric, of v] push_bit_or push_bit_push_bit add.commute)
    then show ?thesis using 1(1) [OF False _ d lt, of "r OR push_bit shift (of_nat (v mod 128))"] sh i False leb_byte_more [of "v mod 128"]
      by (simp add: leb_u32_loop.simps [of dat i] leb128.simps [of v] b ucast_leb Let_def)
  qed
qed

text \<open>
  Every unsigned integer below \<open>2^32\<close> is read back from its LEB128 encoding, wherever the encoding
  stands and whatever follows it, and exactly its bytes, five at most, are consumed.
\<close>

theorem leb128_roundtrip:
  assumes "v < 2 ^ 32"
  shows "read_leb128_u32 (pre @ leb128 v @ rest) (length pre) = Some (of_nat v, length (leb128 v)) \<and> length (leb128 v) \<le> 5"
proof
  show "read_leb128_u32 (pre @ leb128 v @ rest) (length pre) = Some (of_nat v, length (leb128 v))"
    using leb_loop_roundtrip [of "length pre" "pre @ leb128 v @ rest" v rest 0 0] assms
    by (simp add: read_leb128_u32_def)
  have l: "length (leb128 w) \<le> Suc k" if "w < 128 ^ Suc k" for w k
    using that
  proof (induction k arbitrary: w)
    case (Suc k)
    then show ?case using Suc.IH [of "w div 128"] by (subst leb128.simps) (simp add: less_mult_imp_div_less)
  qed (simp add: leb128.simps)
  show "length (leb128 v) \<le> 5" using l [of v 4] assms by simp
qed

theorem leb128_roundtrip_witness:
  "leb128 300 = [0xAC, 2] \<and> read_leb128_u32 [7, 0xAC, 2, 9] 1 = Some (300, 2)"
  using leb128_roundtrip [of 300 "[7]" "[9]"] by (simp add: leb128.simps [of 300] leb128.simps [of 2])

lemma leb_u32_shift:
  "leb_u32_loop (drop d dat) i shift r = map_option (\<lambda>(v, j). (v, j - d)) (leb_u32_loop dat (d + i) shift r)"
proof (induction "drop d dat" i shift r rule: leb_u32_loop.induct)
  case (1 i shift r)
  show ?case
    by (subst leb_u32_loop.simps, subst (2) leb_u32_loop.simps) (use 1 in \<open>auto simp: Let_def\<close>)
qed

lemma leb_u32_consumes: "leb_u32_loop dat i shift r = Some (v, j) \<Longrightarrow> i < j \<and> j \<le> length dat"
proof (induction dat i shift r rule: leb_u32_loop.induct)
  case (1 dat i shift r)
  then show ?case by (subst (asm) (2) leb_u32_loop.simps) (force simp: Let_def split: if_splits)
qed

lemma read_leb_drop: "d \<le> i \<Longrightarrow> read_leb128_u32 (drop d dat) (i - d) = read_leb128_u32 dat i"
  using leb_u32_consumes [of dat i 0 0]
  by (auto simp: read_leb128_u32_def leb_u32_shift option.map_comp intro!: option.map_cong)

text \<open>The section headers the two loops read are the same.\<close>

lemma validate_loop_step:
  assumes "8 \<le> pos" "next_section \<lparr>p_data = drop 8 bs, p_pos = pos - 8\<rparr> = Some (sid, sec, p')"
  shows "p_data p' = drop 8 bs \<and> 8 \<le> p_pos p' + 8 \<and>
    validate_loop bs pos = (if sid > 12 then Some BadSectionId else validate_loop bs (p_pos p' + 8))"
proof -
  have e: "read_leb128_u32 (drop 8 bs) (Suc (pos - 8)) = read_leb128_u32 bs (Suc pos)"
    using read_leb_drop [of 8 "Suc pos" bs] assms(1) Suc_diff_le [OF assms(1)] by simp
  have c: "Suc pos + n \<le> length bs" if "read_leb128_u32 bs (Suc pos) = Some (v, n)" for v n
    using that leb_u32_consumes [of bs "Suc pos" 0 0] by (fastforce simp: read_leb128_u32_def)
  obtain n len where l: "pos < length bs" "sid = bs ! pos" "read_leb128_u32 bs (pos + 1) = Some (len, n)"
    "unat len \<le> length bs - Suc (pos + n)" "p' = \<lparr>p_data = drop 8 bs, p_pos = pos - 8 + 1 + n + unat len\<rparr>"
    using assms e by (auto simp: next_section_def p_byte_def p_eof_def p_u32_leb_def p_remaining_def split: bind_split_asm if_splits)
  have "p_pos p' + 8 = pos + 1 + n + unat len" using l(5) assms(1) by simp
  moreover have "pos + 1 + n + unat len \<le> length bs" using l(4) c [of len n] l(3) by simp
  ultimately show ?thesis using l(1-3,5) by (subst validate_loop.simps) simp
qed

lemma load_loop_validates:
  assumes "load_loop \<lparr>p_data = drop 8 bs, p_pos = pos - 8\<rparr> m = Some m'" "8 \<le> pos"
  shows "validate_loop bs pos \<in> {None, Some BadSectionId}"
  using assms
proof (induction "length bs - pos" arbitrary: pos m rule: less_induct)
  case less
  let ?p = "\<lparr>p_data = drop 8 bs, p_pos = pos - 8\<rparr>"
  show ?case
  proof (cases "p_eof ?p")
    case True
    then show ?thesis using less.prems(2) by (subst validate_loop.simps) (auto simp: p_eof_def)
  next
    case False
    then obtain sid sec p' m1 where n: "next_section ?p = Some (sid, sec, p')"
      and r: "load_loop p' m1 = Some m'"
      using less.prems(1) by (subst (asm) load_loop.simps) (auto split: option.splits)
    have v: "p_data p' = drop 8 bs" "validate_loop bs pos = (if sid > 12 then Some BadSectionId else validate_loop bs (p_pos p' + 8))"
      using validate_loop_step [OF less.prems(2) n] by auto
    have "load_loop \<lparr>p_data = drop 8 bs, p_pos = (p_pos p' + 8) - 8\<rparr> m1 = Some m'" using r v(1) by (cases p') simp
    moreover have "length bs - (p_pos p' + 8) < length bs - pos"
      using next_section_progress(2,3) [OF n] less.prems(2) by (simp add: p_remaining_def v(1))
    ultimately show ?thesis using less.hyps [of "p_pos p' + 8" m1] v(2) by auto
  qed
qed

text \<open>
  A module that loads is structurally sound: the check \<^verbatim>\<open>validate\<close> accepts it, or rejects it
  only because a section has a number above 12, which the loader skips.
\<close>

theorem load_implies_validate:
  assumes "wasm_load bs = Inr m"
  shows "validate bs \<in> {None, Some BadSectionId}"
proof -
  have h: "wasm_header_ok bs" and l: "load_loop (Parser_new (drop 8 bs)) empty_module = Some m"
    using assms by (auto simp: wasm_load_def split: if_splits option.splits)
  have "validate_loop bs 8 \<in> {None, Some BadSectionId}"
    using load_loop_validates [of bs 8 empty_module m] l by (simp add: Parser_new_def)
  then show ?thesis using h by (simp add: validate_def wasm_header_ok_def)
qed

theorem load_implies_validate_witness:
  "\<exists>m. wasm_load [0, 0x61, 0x73, 0x6D, 1, 0, 0, 0, 13, 1, 5] = Inr m \<and>
     validate [0, 0x61, 0x73, 0x6D, 1, 0, 0, 0, 13, 1, 5] = Some BadSectionId"
proof -
  have "wasm_load [0, 0x61, 0x73, 0x6D, 1, 0, 0, 0, 13, 1, 5] = Inr empty_module" by code_simp
  moreover have "validate [0, 0x61, 0x73, 0x6D, 1, 0, 0, 0, 13, 1, 5] \<noteq> None" by code_simp
  ultimately show ?thesis using load_implies_validate [of "[0, 0x61, 0x73, 0x6D, 1, 0, 0, 0, 13, 1, 5]" empty_module] by auto
qed

section \<open>Departures from the specification\<close>

text \<open>
  C27. The stores take their operands in the wrong order.  With the address \<open>a\<close> pushed first and the value
  \<open>v\<close> second, as every compiler emits them, a store instruction writes the address as the value, to the
  place the value names.
\<close>

theorem store_operands_swapped:
  assumes "op \<in> {0x36, 0x37, 0x3A, 0x3B, 0x3C, 0x3D, 0x3E}" "i_stack it = st @ [a, v]"
    and "imm_u32 ''memarg align'' code (f_pc fr) = Ok (align, p1)" "imm_u32 ''memarg offset'' code p1 = Ok (off, p2)"
  shows "exec_mem code op fr it s =
    (case store_op op (i_mem it) (lo32 v + of_nat off) a (PMEM s) of
       None \<Rightarrow> Err (MemoryFault (lo32 v + of_nat off))
     | Some mem \<Rightarrow> cont (fr\<lparr>f_pc := p2\<rparr>) (it\<lparr>i_stack := st\<rparr>) (s\<lparr>PMEM := mem\<rparr>))"
proof -
  have ea: "mem_ea code (f_pc fr) it = Ok (lo32 v + of_nat off, p2, it\<lparr>i_stack := st @ [a]\<rparr>)"
    using assms(2-4) by (simp add: mem_ea_def pop_last [of _ "st @ [a]"])
  have "op \<noteq> 0x2A" "op \<noteq> 0x2B" "op \<noteq> 0x38" "op \<noteq> 0x39" "op \<noteq> 0x3F" "op \<noteq> 0x40" "\<not> op \<le> 0x35" using assms(1) by auto
  then show ?thesis
    by (cases "store_op op (i_mem it) (lo32 v + of_nat off) a (PMEM s)")
      (simp_all add: exec_mem_def ea pop_last [of _ st] ok_or_def)
qed

text \<open>The program stores 7 at address 16: the word at 7 becomes 16, the word at 16 stays 0.\<close>

theorem store_operands_swapped_witness:
  "\<exists>it s'. exec_mem [0x36, 2, 0] 0x36 (frame_example\<lparr>f_pc := 1\<rparr>) (interp_example [16, 7]) wasm_page_example =
       cont (frame_example\<lparr>f_pc := 3\<rparr>) it s' \<and>
     load_u32 (PMEM s') lm_example 7 = Some 16 \<and> load_u32 (PMEM s') lm_example 16 = Some 0"
proof -
  have i: "imm_u32 ''memarg align'' [0x36, 2, 0] (f_pc (frame_example\<lparr>f_pc := 1\<rparr>)) = Ok (2, 2)"
    "imm_u32 ''memarg offset'' [0x36, 2, 0] 2 = Ok (0, 3)"
    by (simp_all add: imm_u32_def read_leb128_u32_def leb_u32_loop.simps ok_or_def)
  have st: "i_stack (interp_example [16, 7]) = [] @ [16, 7]" by (simp add: interp_example_def)
  have o: "(0x36 :: nat) \<in> {0x36, 0x37, 0x3A, 0x3B, 0x3C, 0x3D, 0x3E}" by simp
  have "\<exists>mem. store_u32 lm_example 7 16 (\<lambda>_. 0) = Some mem \<and> load_u32 mem lm_example 7 = Some 16 \<and>
      load_u32 mem lm_example 16 = Some 0"
    by (simp add: store_u32_def load_u32_def lm_check_def lm_example_def WASM_PAGE_SIZE_def read_write_le_same
        read_write_le_disjoint) (simp add: read_le_zero)
  then show ?thesis
    using store_operands_swapped [OF o st i, where s = wasm_page_example]
    by (auto simp: store_op_def interp_example_def wasm_page_example_def lo32_def cont_def)
qed

text \<open>
  A module with two functions declared and one body: the first, exported as \<^verbatim>\<open>f\<close>, calls the second.
\<close>

definition missing_body_wasm :: "u8 list" where
  "missing_body_wasm = [0, 0x61, 0x73, 0x6D, 1, 0, 0, 0,  1, 4, 1, 0x60, 0, 0,  3, 3, 2, 0, 0,  7, 5, 1, 1, 102, 0, 0,
     10, 6, 1, 4, 0, 0x10, 1, 0x0B]"

definition missing_body_module :: WasmModule where
  "missing_body_module = empty_module\<lparr>m_types := [\<lparr>ft_params = [], ft_results = []\<rparr>], m_func_types := [0, 0],
     m_exports := [\<lparr>exp_name = [102], exp_kind = EFunc, exp_idx = 0\<rparr>],
     m_code := [\<lparr>fb_locals = [], fb_code = [0x10, 1, 0x0B]\<rparr>]\<rparr>"

lemma missing_body_loads: "wasm_load missing_body_wasm = Inr missing_body_module" "validate missing_body_wasm = None"
  by code_simp+

lemma call_loop_no_body:
  assumes "fs \<noteq> []" "length fs \<le> MAX_CALL_DEPTH" "index (f_func_idx (last fs) - import_func_count m) (m_code m) = Ok body"
    and "step_frame n m (fb_code body) (last fs) it s = Some (s1, Ok (fr, it1, Call k args))"
    and "import_func_count m \<le> k" "length (m_code m) \<le> k - import_func_count m"
  shows "call_loop (Suc n) h cpu m fs it s = Some (s1, Panic)"
  using assms by (simp add: index_def)

text \<open>
  A short file passes the check and loads, and calling its export panics the kernel in every state
  in which a page of linear memory is available: the loader does not compare the number of bodies with
  the number of declared functions, and the interpreter indexes the bodies without a test.
\<close>

theorem missing_body_panics:
  fixes s :: "'a SchedState_scheme"
  assumes "LinearMemory_new 1 s = (s1, Some lm)"
  shows "validate missing_body_wasm = None \<and>
    (\<exists>m s'. wasm_load missing_body_wasm = Inr m \<and> call_export 10 h cpu m [102] [] s = Some (s', Panic))"
proof -
  let ?m = missing_body_module
  have s: "find_export ?m [102] = Some 0" "import_func_count ?m = 0" "func_type ?m 0 = Some \<lparr>ft_params = [], ft_results = []\<rparr>"
    "func_type ?m 1 = Some \<lparr>ft_params = [], ft_results = []\<rparr>" "m_mem_min ?m = 1" "m_data ?m = []" "m_start ?m = None"
    "m_code ?m = [\<lparr>fb_locals = [], fb_code = [0x10, 1, 0x0B]\<rparr>]"
    by code_simp+
  have i: "imm_u32 ''call: bad leb'' [0x10, 1, 0x0B] 1 = Ok (1, 2)" by code_simp
  have st: "step_frame (Suc n) ?m [0x10, 1, 0x0B] (new_frame 0 [] 0) it t = Some (t, Ok ((new_frame 0 [] 0)\<lparr>f_pc := 2\<rparr>, it\<lparr>i_stack := i_stack it\<rparr>, Call 1 []))"
    for n it and t :: "'a SchedState_scheme"
    by (simp add: index_def new_frame_def exec_op_def exec_call_def i [simplified] s [simplified] ok_or_def pop_n_def slice_from_def)
  have l: "call_loop (Suc (Suc n)) h cpu ?m [new_frame 0 [] 0] it t = Some (t, Panic)"
    for n it and t :: "'a SchedState_scheme"
    by (rule call_loop_no_body [where body = "\<lparr>fb_locals = [], fb_code = [0x10, 1, 0x0B]\<rparr>" and n = "Suc n" and k = 1])
      (use st [of n it t] in \<open>simp_all add: MAX_CALL_DEPTH_def s index_def new_frame_def del: step_frame.simps\<close>)
  have "call_export (Suc (Suc n)) h cpu ?m [102] [] s = Some (s1, Panic)" for n
    using assms l
    by (simp add: call_export_def Interpreter_new_def s call_def Let_def get_at_def ok_or_def lift_res_def init_locals_def
        del: call_loop.simps)
  from this [of 8] have "\<exists>s'. call_export 10 h cpu ?m [102] [] s = Some (s', Panic)" by (simp add: eval_nat_numeral)
  then show ?thesis using missing_body_loads by auto
qed

theorem missing_body_panics_witness:
  "\<exists>m s'. wasm_load missing_body_wasm = Inr m \<and> call_export 10 no_host 0 m [102] [] small_ram = Some (s', Panic)"
proof -
  have "snd (LinearMemory_new 1 small_ram) \<noteq> None" by code_simp
  then obtain s1 lm where "LinearMemory_new 1 small_ram = (s1, Some lm)" by (cases "LinearMemory_new 1 small_ram") auto
  from missing_body_panics [OF this] show ?thesis by blast
qed

end
