(* ===== verification/Fat32.thy ===== *)
theory Fat32
  imports Utf8 "HOL-Library.Sublist"
begin

text \<open>
  The FAT32 driver, \<^verbatim>\<open>kernel/src/fs/fat32.rs\<close>: the sector cache, the file allocation table, directory
  scans with long names, path lookup, and the operations on open files.  The block device is a function
  from sector numbers to 512-byte sectors that serves every request.  Numbers are natural numbers;
  wrap-around at 32 bits is written out where the code can reach it.  A chain of clusters on a damaged
  disk can be cyclic, so the loops that follow a chain take fuel; \<open>Hangs\<close> is the outcome when it runs
  out, \<open>Panics\<close> that of a slice index out of range or a division by zero.
\<close>

section \<open>Outcomes\<close>

datatype 'a out = Val 'a | Panics | Hangs

definition out_bind :: "'a out \<Rightarrow> ('a \<Rightarrow> 'b out) \<Rightarrow> 'b out" where
  "out_bind r f = (case r of Val x \<Rightarrow> f x | Panics \<Rightarrow> Panics | Hangs \<Rightarrow> Hangs)"

lemma out_bind_simps [simp]:
  "out_bind (Val x) f = f x" "out_bind Panics f = Panics" "out_bind Hangs f = Hangs"
  by (simp_all add: out_bind_def)

section \<open>Constants and state\<close>

definition SECTOR_SIZE :: nat where "SECTOR_SIZE = 512"
definition MAX_OPEN :: nat where "MAX_OPEN = 8"
definition CACHE_SLOTS :: nat where "CACHE_SLOTS = 16"

definition ATTR_VOLUME_ID :: u8 where "ATTR_VOLUME_ID = 0x08"
definition ATTR_DIRECTORY :: u8 where "ATTR_DIRECTORY = 0x10"
definition ATTR_ARCHIVE :: u8 where "ATTR_ARCHIVE = 0x20"
definition ATTR_LONG_NAME :: u8 where "ATTR_LONG_NAME = 0x0F"

definition FAT_EOC_MIN :: nat where "FAT_EOC_MIN = 0x0FFFFFF8"
definition FAT_EOC :: nat where "FAT_EOC = 0x0FFFFFFF"
definition FAT_FREE :: nat where "FAT_FREE = 0"

record OpenFile =
  of_used :: bool
  of_writable :: bool
  of_size :: nat
  of_start_cluster :: nat
  of_cur_cluster :: nat
  of_cur_clus_idx :: nat
  of_offset :: nat
  of_dir_lba :: nat
  of_dir_entry_off :: nat

definition EMPTY_FILE :: OpenFile where
  "EMPTY_FILE = \<lparr>of_used = False, of_writable = False, of_size = 0, of_start_cluster = 0, of_cur_cluster = 0,
     of_cur_clus_idx = 0, of_offset = 0, of_dir_lba = 0, of_dir_entry_off = 0\<rparr>"

text \<open>The device, the parameters of the volume, the cache and the open files; an empty slot of the cache has no tag.\<close>

record FatState =
  DISK :: "nat \<Rightarrow> u8 list"
  F_READY :: bool
  PART_LBA :: nat
  BYTES_PER_SEC :: nat
  SECS_PER_CLUSTER :: nat
  FAT_START :: nat
  DATA_START :: nat
  ROOT_CLUSTER :: nat
  TOTAL_CLUSTERS :: nat
  FREE_HINT :: nat
  CTAG :: "nat option list"
  CDATA :: "u8 list list"
  OPEN_FILES :: "OpenFile list"

section \<open>The sector cache\<close>

definition csec :: "nat \<Rightarrow> FatState \<Rightarrow> FatState \<times> u8 list" where
  "csec lba s =
    (let i = lba mod CACHE_SLOTS in
     if CTAG s ! i \<noteq> Some lba
     then (s\<lparr>CDATA := (CDATA s)[i := DISK s lba], CTAG := (CTAG s)[i := Some lba]\<rparr>, DISK s lba)
     else (s, CDATA s ! i))"

text \<open>The data of a sector goes to its slot and through to the device.\<close>

definition put_sec :: "nat \<Rightarrow> u8 list \<Rightarrow> FatState \<Rightarrow> FatState" where
  "put_sec lba new s =
    (let i = lba mod CACHE_SLOTS in
     s\<lparr>CDATA := (CDATA s)[i := new], CTAG := (CTAG s)[i := Some lba], DISK := (DISK s)(lba := new)\<rparr>)"

definition wsec :: "nat \<Rightarrow> u8 list \<Rightarrow> FatState \<Rightarrow> FatState" where
  "wsec lba dat s =
    (let n = min (length dat) SECTOR_SIZE
     in put_sec lba (take n dat @ drop n (CDATA s ! (lba mod CACHE_SLOTS))) s)"

text \<open>
  The read-modify-write of \<^verbatim>\<open>fat_put\<close>, \<^verbatim>\<open>write\<close> and \<^verbatim>\<open>close\<close>: load the sector, replace the bytes
  from \<open>off\<close> on, write it through.
\<close>

definition patch_sec :: "nat \<Rightarrow> nat \<Rightarrow> u8 list \<Rightarrow> FatState \<Rightarrow> FatState" where
  "patch_sec lba off bs s =
    (let (s, sec) = csec lba s in put_sec lba (take off sec @ bs @ drop (off + length bs) sec) s)"

definition cinval :: "nat \<Rightarrow> FatState \<Rightarrow> FatState" where
  "cinval lba s =
    (let i = lba mod CACHE_SLOTS in if CTAG s ! i = Some lba then s\<lparr>CTAG := (CTAG s)[i := None]\<rparr> else s)"

section \<open>Fields\<close>

definition u8at :: "u8 list \<Rightarrow> nat \<Rightarrow> nat" where "u8at b o' = unat (b ! o')"
definition u16at :: "u8 list \<Rightarrow> nat \<Rightarrow> nat" where "u16at b o' = unat (b ! o') + 2 ^ 8 * unat (b ! (o' + 1))"
definition u32at :: "u8 list \<Rightarrow> nat \<Rightarrow> nat" where
  "u32at b o' = unat (b ! o') + 2 ^ 8 * unat (b ! (o' + 1)) + 2 ^ 16 * unat (b ! (o' + 2)) + 2 ^ 24 * unat (b ! (o' + 3))"

text \<open>\<^verbatim>\<open>u32::to_le_bytes\<close>.\<close>

definition u32_le :: "nat \<Rightarrow> u8 list" where
  "u32_le v = [of_nat v, of_nat (v div 2 ^ 8), of_nat (v div 2 ^ 16), of_nat (v div 2 ^ 24)]"

section \<open>The allocation table\<close>

definition fat_get :: "nat \<Rightarrow> FatState \<Rightarrow> FatState \<times> nat" where
  "fat_get cluster s =
    (let byte_off = cluster * 4; lba = FAT_START s + byte_off div BYTES_PER_SEC s;
         (s', sec) = csec lba s
     in (s', u32at sec (byte_off mod BYTES_PER_SEC s) mod 2 ^ 28))"

definition fat_put :: "nat \<Rightarrow> nat \<Rightarrow> FatState \<Rightarrow> FatState" where
  "fat_put cluster val s =
    (let byte_off = cluster * 4; lba = FAT_START s + byte_off div BYTES_PER_SEC s
     in patch_sec lba (byte_off mod BYTES_PER_SEC s) (u32_le (val mod 2 ^ 28)) s)"

definition is_eoc :: "nat \<Rightarrow> bool" where
  "is_eoc v \<longleftrightarrow> v mod 2 ^ 28 \<ge> FAT_EOC_MIN \<or> v mod 2 ^ 28 = 0"

definition cluster_lba :: "FatState \<Rightarrow> nat \<Rightarrow> nat" where
  "cluster_lba s n = DATA_START s + (n - 2) * SECS_PER_CLUSTER s"

definition zero_sec :: "nat \<Rightarrow> FatState \<Rightarrow> FatState" where
  "zero_sec lba s = cinval lba (s\<lparr>DISK := (DISK s)(lba := replicate SECTOR_SIZE 0)\<rparr>)"

definition zero_cluster :: "nat \<Rightarrow> FatState \<Rightarrow> FatState" where
  "zero_cluster c s = fold (\<lambda>i. zero_sec (cluster_lba s c + i)) [0..<SECS_PER_CLUSTER s] s"

text \<open>One of the two passes of \<^verbatim>\<open>alloc_cluster\<close>; 0 when no cluster of the list is free.\<close>

fun cluster_scan :: "nat list \<Rightarrow> FatState \<Rightarrow> FatState \<times> nat" where
  "cluster_scan [] s = (s, 0)"
| "cluster_scan (c # cs) s =
    (let (s, v) = fat_get c s in
     if v = FAT_FREE then (zero_cluster c ((fat_put c FAT_EOC s)\<lparr>FREE_HINT := c + 1\<rparr>), c)
     else cluster_scan cs s)"

definition alloc_cluster :: "FatState \<Rightarrow> FatState \<times> nat" where
  "alloc_cluster s =
    (let start = FREE_HINT s; end' = (TOTAL_CLUSTERS s + 2) mod 2 ^ 32; (s1, c) = cluster_scan [start..<end'] s
     in if c \<noteq> 0 then (s1, c) else cluster_scan [3..<start] s1)"

section \<open>Initialisation\<close>

definition fat_init :: "nat \<Rightarrow> FatState \<Rightarrow> (FatState \<times> bool) out" where
  "fat_init partition_lba s =
    (let (s, sec) = csec partition_lba s in
     if sec ! 510 \<noteq> 0x55 \<or> sec ! 511 \<noteq> 0xAA then Val (s, False)
     else if u16at sec 11 \<noteq> 512 then Val (s, False)
     else if u16at sec 22 \<noteq> 0 \<or> u16at sec 19 \<noteq> 0 then Val (s, False)
     else if take 5 (drop 82 sec) \<noteq> [70, 65, 84, 51, 50] then Val (s, False)
     else
       let spc = u8at sec 13;
           fat_start_sec = partition_lba + u16at sec 14;
           data_start_sec = fat_start_sec + u8at sec 16 * u32at sec 36;
           data_secs = (u32at sec 32 + 2 ^ 32 - (data_start_sec - partition_lba) mod 2 ^ 32) mod 2 ^ 32
       in if spc = 0 then Panics
          else Val (s\<lparr>F_READY := True, PART_LBA := partition_lba, BYTES_PER_SEC := 512, SECS_PER_CLUSTER := spc,
                  FAT_START := fat_start_sec, DATA_START := data_start_sec, ROOT_CLUSTER := u32at sec 44,
                  TOTAL_CLUSTERS := data_secs div spc, FREE_HINT := 3\<rparr>, True))"

section \<open>Names\<close>

definition to_lower :: "u8 \<Rightarrow> u8" where "to_lower b = (if 65 \<le> b \<and> b \<le> 90 then b + 32 else b)"
definition to_upper :: "u8 \<Rightarrow> u8" where "to_upper b = (if 97 \<le> b \<and> b \<le> 122 then b - 32 else b)"

definition trim_spaces :: "u8 list \<Rightarrow> u8 list" where "trim_spaces bs = rev (dropWhile (\<lambda>b. b = 32) (rev bs))"

definition short_name :: "u8 list \<Rightarrow> u8 list" where
  "short_name raw =
    (let nm = trim_spaces (take 8 raw); ext = trim_spaces (take 3 (drop 8 raw))
     in map to_lower nm @ (if ext = [] then [] else 46 # map to_lower ext))"

definition LFN_POS :: "nat list" where "LFN_POS = [1, 3, 5, 7, 9, 14, 16, 18, 20, 22, 24, 28, 30]"

fun lfn_loop :: "nat list \<Rightarrow> u8 list \<Rightarrow> nat \<Rightarrow> u8 list \<Rightarrow> nat \<Rightarrow> u8 list \<times> nat" where
  "lfn_loop [] ent off buf n = (buf, n)"
| "lfn_loop (p # ps) ent off buf n =
    (let lo = ent ! p; hi = ent ! (p + 1) in
     if lo = 0xFF \<and> hi = 0xFF \<or> lo = 0 \<and> hi = 0 then (buf, n)
     else if off + n < 255
     then lfn_loop ps ent off (buf[off + n := if hi = 0 \<and> lo < 128 then lo else 63]) (n + 1)
     else lfn_loop ps ent off buf n)"

definition lfn_chars :: "u8 list \<Rightarrow> u8 list \<Rightarrow> nat \<Rightarrow> u8 list \<times> nat" where
  "lfn_chars ent buf off = lfn_loop LFN_POS ent off buf 0"

definition name_eq :: "u8 list \<Rightarrow> u8 list \<Rightarrow> bool" where
  "name_eq a b \<longleftrightarrow> map to_lower a = map to_lower b"

section \<open>Directory scans\<close>

text \<open>What the callback of \<^verbatim>\<open>scan_dir\<close> gets for an entry.\<close>

record DirHit =
  dh_name :: "u8 list"
  dh_attr :: u8
  dh_cluster :: nat
  dh_size :: nat
  dh_lba :: nat
  dh_off :: nat

text \<open>The accumulator of a long name, and the state of the callback, a function that tells whether to stop.\<close>

record 'c Scan =
  sc_buf :: "u8 list"
  sc_len :: nat
  sc_active :: bool
  sc_cb :: 'c

datatype 'c ScanStep = SDone 'c | SNext "'c Scan" | SPanic

definition lfn_entry :: "u8 list \<Rightarrow> 'c Scan \<Rightarrow> 'c Scan" where
  "lfn_entry e a =
    (let sq = unat (e ! 0 AND 0x1F);
         a = (if e ! 0 AND 0x40 \<noteq> 0 then a\<lparr>sc_len := 0, sc_active := True, sc_buf := replicate 256 0\<rparr> else a)
     in if sc_active a \<and> sq \<ge> 1 then
          let base_pos = (sq - 1) * 13; (buf, added) = lfn_chars e (sc_buf a) base_pos
          in a\<lparr>sc_buf := buf, sc_len := max (sc_len a) (base_pos + added)\<rparr>
        else a)"

text \<open>
  A regular entry: a long name is copied to a buffer of 256 bytes and terminated, which panics when it
  does not fit.
\<close>

definition short_entry :: "(DirHit \<Rightarrow> 'c \<Rightarrow> bool \<times> 'c) \<Rightarrow> nat \<Rightarrow> nat \<Rightarrow> u8 list \<Rightarrow> 'c Scan \<Rightarrow> 'c ScanStep" where
  "short_entry cb lba off e a =
    (if sc_active a \<and> sc_len a > 255 then SPanic
     else let nm = (if sc_active a \<and> sc_len a > 0 then take (sc_len a) (sc_buf a) else short_name (take 11 e));
              (stop, c) = cb \<lparr>dh_name = nm, dh_attr = e ! 11, dh_cluster = 2 ^ 16 * u16at e 20 + u16at e 26,
                              dh_size = u32at e 28, dh_lba = lba, dh_off = off\<rparr> (sc_cb a)
          in if stop then SDone c else SNext (a\<lparr>sc_active := False, sc_len := 0, sc_cb := c\<rparr>))"

definition scan_entry :: "(DirHit \<Rightarrow> 'c \<Rightarrow> bool \<times> 'c) \<Rightarrow> nat \<Rightarrow> nat \<Rightarrow> u8 list \<Rightarrow> 'c Scan \<Rightarrow> 'c ScanStep" where
  "scan_entry cb lba off e a =
    (if e ! 0 = 0 then SDone (sc_cb a)
     else if e ! 0 = 0xE5 then SNext (a\<lparr>sc_active := False, sc_len := 0\<rparr>)
     else if e ! 11 = ATTR_LONG_NAME then SNext (lfn_entry e a)
     else if e ! 11 AND ATTR_VOLUME_ID \<noteq> 0 then SNext (a\<lparr>sc_active := False\<rparr>)
     else if e ! 0 = 46 then SNext (a\<lparr>sc_active := False\<rparr>)
     else short_entry cb lba off e a)"

text \<open>The sixteen entries of a sector.\<close>

definition ENTRY_OFFS :: "nat list" where "ENTRY_OFFS = map (\<lambda>i. 32 * i) [0..<16]"

fun scan_entries :: "(DirHit \<Rightarrow> 'c \<Rightarrow> bool \<times> 'c) \<Rightarrow> nat \<Rightarrow> u8 list \<Rightarrow> nat list \<Rightarrow> 'c Scan \<Rightarrow> 'c ScanStep" where
  "scan_entries cb lba sec [] a = SNext a"
| "scan_entries cb lba sec (off # offs) a =
    (case scan_entry cb lba off (take 32 (drop off sec)) a of
       SNext a' \<Rightarrow> scan_entries cb lba sec offs a' | r \<Rightarrow> r)"

fun scan_sectors :: "(DirHit \<Rightarrow> 'c \<Rightarrow> bool \<times> 'c) \<Rightarrow> nat list \<Rightarrow> 'c Scan \<Rightarrow> FatState \<Rightarrow> FatState \<times> 'c ScanStep" where
  "scan_sectors cb [] a s = (s, SNext a)"
| "scan_sectors cb (lba # lbas) a s =
    (let (s, sec) = csec lba s in
     case scan_entries cb lba sec ENTRY_OFFS a of SNext a' \<Rightarrow> scan_sectors cb lbas a' s | r \<Rightarrow> (s, r))"

definition cluster_secs :: "FatState \<Rightarrow> nat \<Rightarrow> nat list" where
  "cluster_secs s c = map (\<lambda>i. cluster_lba s c + i) [0..<SECS_PER_CLUSTER s]"

fun scan_chain :: "nat \<Rightarrow> (DirHit \<Rightarrow> 'c \<Rightarrow> bool \<times> 'c) \<Rightarrow> nat \<Rightarrow> 'c Scan \<Rightarrow> FatState \<Rightarrow> (FatState \<times> 'c) out" where
  "scan_chain 0 cb cluster a s = Hangs"
| "scan_chain (Suc n) cb cluster a s =
    (if cluster < 2 \<or> is_eoc cluster then Val (s, sc_cb a)
     else case scan_sectors cb (cluster_secs s cluster) a s of
            (s, SDone c) \<Rightarrow> Val (s, c)
          | (s, SPanic) \<Rightarrow> Panics
          | (s, SNext a) \<Rightarrow> (let (s, nxt) = fat_get cluster s in scan_chain n cb nxt a s))"

definition scan_dir :: "nat \<Rightarrow> nat \<Rightarrow> (DirHit \<Rightarrow> 'c \<Rightarrow> bool \<times> 'c) \<Rightarrow> 'c \<Rightarrow> FatState \<Rightarrow> (FatState \<times> 'c) out" where
  "scan_dir fuel dir_cluster cb c s =
    scan_chain fuel cb dir_cluster \<lparr>sc_buf = replicate 256 0, sc_len = 0, sc_active = False, sc_cb = c\<rparr> s"

section \<open>Paths\<close>

text \<open>\<^verbatim>\<open>path.split('/')\<close>.\<close>

fun split_slash :: "u8 list \<Rightarrow> u8 list list" where
  "split_slash [] = [[]]"
| "split_slash (b # bs) =
    (if b = 47 then [] # split_slash bs
     else case split_slash bs of [] \<Rightarrow> [[b]] | p # ps \<Rightarrow> (b # p) # ps)"

definition path_parts :: "u8 list \<Rightarrow> u8 list list" where
  "path_parts path = filter (\<lambda>p. p \<noteq> []) (split_slash path)"

text \<open>The cluster, size, directory flag and place of the entry a path leads to.\<close>

type_synonym resolved = "nat \<times> nat \<times> bool \<times> nat \<times> nat"

definition match_component :: "u8 list \<Rightarrow> DirHit \<Rightarrow> resolved option \<Rightarrow> bool \<times> resolved option" where
  "match_component comp' h r =
    (if name_eq (dh_name h) comp'
     then (True, Some (dh_cluster h, dh_size h, dh_attr h AND ATTR_DIRECTORY \<noteq> 0, dh_lba h, dh_off h))
     else (False, r))"

text \<open>A component that is a file does not change the directory the next one is looked up in.\<close>

fun resolve_loop :: "nat \<Rightarrow> nat \<Rightarrow> u8 list list \<Rightarrow> resolved option \<Rightarrow> FatState \<Rightarrow> (FatState \<times> resolved option) out" where
  "resolve_loop fuel dir [] r s = Val (s, r)"
| "resolve_loop fuel dir (p # ps) r s =
    out_bind (scan_dir fuel dir (match_component p) None s) (\<lambda>(s, r).
      case r of
        None \<Rightarrow> Val (s, None)
      | Some (c, sz, d, lba, off) \<Rightarrow> resolve_loop fuel (if d then c else dir) ps r s)"

definition resolve :: "nat \<Rightarrow> u8 list \<Rightarrow> FatState \<Rightarrow> (FatState \<times> resolved option) out" where
  "resolve fuel path s =
    (if path_parts path = [] then Val (s, Some (ROOT_CLUSTER s, 0, True, 0, 0))
     else resolve_loop fuel (ROOT_CLUSTER s) (path_parts path) None s)"

section \<open>Opening\<close>

definition free_fd :: "FatState \<Rightarrow> nat option" where
  "free_fd s = find (\<lambda>i. \<not> of_used (OPEN_FILES s ! i)) [0..<length (OPEN_FILES s)]"

definition set_file :: "nat \<Rightarrow> OpenFile \<Rightarrow> FatState \<Rightarrow> FatState" where
  "set_file fd f s = s\<lparr>OPEN_FILES := (OPEN_FILES s)[fd := f]\<rparr>"

text \<open>Enter a file into the table of open files, if it has room.\<close>

definition install_file :: "bool \<Rightarrow> nat \<Rightarrow> nat \<Rightarrow> nat \<Rightarrow> nat \<Rightarrow> FatState \<Rightarrow> FatState \<times> nat option" where
  "install_file writable sz cluster lba off s =
    (case free_fd s of
       None \<Rightarrow> (s, None)
     | Some fd \<Rightarrow>
         (set_file fd \<lparr>of_used = True, of_writable = writable, of_size = sz, of_start_cluster = cluster,
            of_cur_cluster = cluster, of_cur_clus_idx = 0, of_offset = 0, of_dir_lba = lba, of_dir_entry_off = off\<rparr> s,
          Some fd))"

definition fat_open :: "nat \<Rightarrow> u8 list \<Rightarrow> FatState \<Rightarrow> (FatState \<times> nat option) out" where
  "fat_open fuel path s =
    (if \<not> F_READY s then Val (s, None)
     else out_bind (resolve fuel path s) (\<lambda>(s, r).
       case r of
         None \<Rightarrow> Val (s, None)
       | Some (cluster, sz, is_dir, lba, off) \<Rightarrow>
           if is_dir then Val (s, None) else Val (install_file False sz cluster lba off s)))"

text \<open>The loops that free a chain: of \<^verbatim>\<open>open_write\<close>, and of \<^verbatim>\<open>unlink\<close> and \<^verbatim>\<open>rename\<close>.\<close>

fun free_tail :: "nat \<Rightarrow> nat \<Rightarrow> FatState \<Rightarrow> FatState out" where
  "free_tail 0 c s = Hangs"
| "free_tail (Suc n) c s =
    (if is_eoc c then Val s
     else let (s, nxt) = fat_get c s in free_tail n nxt (fat_put c FAT_FREE s))"

fun free_chain :: "nat \<Rightarrow> nat \<Rightarrow> FatState \<Rightarrow> FatState out" where
  "free_chain 0 c s = Hangs"
| "free_chain (Suc n) c s =
    (if is_eoc c \<or> c < 2 then Val s
     else let (s, nxt) = fat_get c s in free_chain n nxt (fat_put c FAT_FREE s))"

text \<open>The walk to the last cluster of a chain.\<close>

fun chain_tail :: "nat \<Rightarrow> nat \<Rightarrow> FatState \<Rightarrow> (FatState \<times> nat) out" where
  "chain_tail 0 c s = Hangs"
| "chain_tail (Suc n) c s =
    (let (s, nxt) = fat_get c s in
     if is_eoc nxt then Val (s, c) else let (s, nxt) = fat_get c s in chain_tail n nxt s)"

text \<open>The search for an empty or deleted entry.\<close>

definition slot_in :: "u8 list \<Rightarrow> nat option" where
  "slot_in sec = find (\<lambda>off. sec ! off = 0 \<or> sec ! off = 0xE5) ENTRY_OFFS"

fun slot_in_secs :: "nat list \<Rightarrow> FatState \<Rightarrow> FatState \<times> (nat \<times> nat) option" where
  "slot_in_secs [] s = (s, None)"
| "slot_in_secs (lba # lbas) s =
    (let (s, sec) = csec lba s in
     case slot_in sec of Some off \<Rightarrow> (s, Some (lba, off)) | None \<Rightarrow> slot_in_secs lbas s)"

fun find_slot :: "nat \<Rightarrow> nat \<Rightarrow> FatState \<Rightarrow> (FatState \<times> (nat \<times> nat) option) out" where
  "find_slot 0 cluster s = Hangs"
| "find_slot (Suc n) cluster s =
    (if cluster < 2 \<or> is_eoc cluster then Val (s, None)
     else case slot_in_secs (cluster_secs s cluster) s of
            (s, Some r) \<Rightarrow> Val (s, Some r)
          | (s, None) \<Rightarrow> (let (s, nxt) = fat_get cluster s in find_slot n nxt s))"

text \<open>\<^verbatim>\<open>str::rfind\<close> of an ASCII character.\<close>

definition rfind :: "u8 \<Rightarrow> u8 list \<Rightarrow> nat option" where
  "rfind b bs = find (\<lambda>i. bs ! i = b) (rev [0..<length bs])"

text \<open>\<^verbatim>\<open>str::trim\<close>: the encodings of the characters with the property White_Space are cut from both ends.\<close>

definition WHITE_SPACE :: "u8 list list" where
  "WHITE_SPACE = map (\<lambda>b. [b]) [9, 10, 11, 12, 13, 32] @ [[0xC2, 0x85], [0xC2, 0xA0], [0xE1, 0x9A, 0x80]]
     @ map (\<lambda>b. [0xE2, 0x80, b]) [0x80, 0x81, 0x82, 0x83, 0x84, 0x85, 0x86, 0x87, 0x88, 0x89, 0x8A, 0xA8, 0xA9, 0xAF]
     @ [[0xE2, 0x81, 0x9F], [0xE3, 0x80, 0x80]]"

function trim_front :: "u8 list list \<Rightarrow> u8 list \<Rightarrow> u8 list" where
  "trim_front ws bs =
    (case find (\<lambda>w. w \<noteq> [] \<and> prefix w bs) ws of None \<Rightarrow> bs | Some w \<Rightarrow> trim_front ws (drop (length w) bs))"
  by pat_completeness auto
termination
proof (relation "measure (\<lambda>(ws, bs). length bs)")
  fix ws bs w
  assume "find (\<lambda>w. w \<noteq> [] \<and> prefix w bs) ws = Some w"
  then have "w \<noteq> []" "prefix w bs" by (auto simp: find_Some_iff)
  then show "((ws, drop (length w) bs), ws, bs) \<in> measure (\<lambda>(ws, bs). length bs)"
    using prefix_length_le [of w bs] by (cases w) auto
qed simp

declare trim_front.simps [simp del]

definition str_trim :: "u8 list \<Rightarrow> u8 list" where
  "str_trim bs = rev (trim_front (map rev WHITE_SPACE) (rev (trim_front WHITE_SPACE bs)))"

definition parent_of :: "u8 list \<Rightarrow> u8 list" where
  "parent_of path = (case rfind 47 path of Some i \<Rightarrow> take (max i 1) path | None \<Rightarrow> [47])"

definition file_name_of :: "u8 list \<Rightarrow> u8 list" where
  "file_name_of path = str_trim (case rfind 47 path of Some i \<Rightarrow> drop (i + 1) path | None \<Rightarrow> path)"

text \<open>The eleven name bytes of a new entry.\<close>

definition pad_name :: "nat \<Rightarrow> u8 list \<Rightarrow> u8 list" where
  "pad_name n bs = map to_upper (take n bs) @ replicate (n - length bs) 32"

definition entry_name :: "u8 list \<Rightarrow> u8 list" where
  "entry_name fname =
    (case rfind 46 fname of
       Some i \<Rightarrow> pad_name 8 (take i fname) @ pad_name 3 (drop (i + 1) fname)
     | None \<Rightarrow> pad_name 8 fname @ pad_name 3 [])"

definition new_entry :: "u8 list \<Rightarrow> u8 list \<Rightarrow> u8 list \<Rightarrow> u8 list \<Rightarrow> u8 list" where
  "new_entry fname hi lo sz =
    entry_name fname @ [ATTR_ARCHIVE] @ replicate 8 0 @ hi @ replicate 4 0 @ lo @ sz"

text \<open>The entry of \<^verbatim>\<open>create\<close> has the cluster bytes as that function writes them.\<close>

definition created_entry :: "u8 list \<Rightarrow> nat \<Rightarrow> u8 list" where
  "created_entry fname c =
    new_entry fname [of_nat (c div 2 ^ 24), of_nat (c div 2 ^ 16)] [of_nat (c div 2 ^ 8), of_nat c] (u32_le 0)"

definition put_entry :: "nat \<Rightarrow> nat \<Rightarrow> u8 list \<Rightarrow> FatState \<Rightarrow> FatState" where
  "put_entry lba off bs s =
    (let (s, sec) = csec lba s in wsec lba (take off sec @ bs @ drop (off + length bs) sec) s)"

definition parent_cluster :: "nat \<Rightarrow> u8 list \<Rightarrow> FatState \<Rightarrow> (FatState \<times> nat option) out" where
  "parent_cluster fuel parent s =
    (if parent = [47] \<or> parent = [] then Val (s, Some (ROOT_CLUSTER s))
     else out_bind (resolve fuel parent s) (\<lambda>(s, r).
       Val (s, case r of Some (c, _, True, _, _) \<Rightarrow> Some c | _ \<Rightarrow> None)))"

text \<open>The place of a new entry in \<^verbatim>\<open>create\<close>: an unused one, or the first of a cluster added to the directory.\<close>

definition entry_place :: "nat \<Rightarrow> nat \<Rightarrow> nat \<Rightarrow> FatState \<Rightarrow> (FatState \<times> (nat \<times> nat) option) out" where
  "entry_place fuel parent new_cluster s =
    out_bind (find_slot fuel parent s) (\<lambda>(s, r).
      case r of
        Some pl \<Rightarrow> Val (s, Some pl)
      | None \<Rightarrow>
          let (s, d) = alloc_cluster s in
          if d = 0 then Val (fat_put new_cluster FAT_FREE s, None)
          else out_bind (chain_tail fuel parent s) (\<lambda>(s, c).
                 let s = fat_put c d s in Val (s, Some (cluster_lba s d, 0))))"

definition fat_create :: "nat \<Rightarrow> u8 list \<Rightarrow> FatState \<Rightarrow> (FatState \<times> nat option) out" where
  "fat_create fuel path s =
    (let fname = file_name_of path in
     if \<not> F_READY s \<or> fname = [] \<or> length fname > 11 then Val (s, None)
     else out_bind (parent_cluster fuel (parent_of path) s) (\<lambda>(s, p).
       case p of
         None \<Rightarrow> Val (s, None)
       | Some pc \<Rightarrow>
           let (s, c) = alloc_cluster s in
           if c = 0 then Val (s, None)
           else out_bind (entry_place fuel pc c s) (\<lambda>(s, pl).
                  case pl of
                    None \<Rightarrow> Val (s, None)
                  | Some (lba, off) \<Rightarrow>
                      let s = put_entry lba off (created_entry fname c) s in Val (install_file True 0 c lba off s))))"

definition fat_open_write :: "nat \<Rightarrow> u8 list \<Rightarrow> FatState \<Rightarrow> (FatState \<times> nat option) out" where
  "fat_open_write fuel path s =
    (if \<not> F_READY s then Val (s, None)
     else out_bind (resolve fuel path s) (\<lambda>(s, r).
       case r of
         None \<Rightarrow> fat_create fuel path s
       | Some (cluster, _, is_dir, lba, off) \<Rightarrow>
           if is_dir then Val (s, None)
           else let (s, c) = fat_get cluster s in
                out_bind (free_tail fuel c s) (\<lambda>s.
                  let s = put_entry lba (off + 28) [0, 0, 0, 0] (fat_put cluster FAT_EOC s)
                  in Val (install_file True 0 cluster lba off s))))"

section \<open>Reading and writing\<close>

definition cluster_bytes :: "FatState \<Rightarrow> nat" where "cluster_bytes s = SECS_PER_CLUSTER s * SECTOR_SIZE"

definition slice :: "nat \<Rightarrow> nat \<Rightarrow> u8 list \<Rightarrow> u8 list" where "slice off n xs = map (\<lambda>i. xs ! (off + i)) [0..<n]"

lemma length_slice [simp]: "length (slice off n xs) = n" by (simp add: slice_def)

text \<open>The place in the volume of the current offset of a file.\<close>

definition file_pos :: "FatState \<Rightarrow> OpenFile \<Rightarrow> nat \<times> nat" where
  "file_pos s f =
    (let o' = of_offset f mod cluster_bytes s in
     (cluster_lba s (of_cur_cluster f) + o' div SECTOR_SIZE, o' mod SECTOR_SIZE))"

lemma file_pos_off: "snd (file_pos s f) < SECTOR_SIZE"
  by (simp add: file_pos_def Let_def SECTOR_SIZE_def)

text \<open>How many of \<open>n\<close> bytes the sector of the current offset holds.\<close>

definition chunk_len :: "FatState \<Rightarrow> OpenFile \<Rightarrow> nat \<Rightarrow> nat" where
  "chunk_len s f n = min n (SECTOR_SIZE - snd (file_pos s f))"

lemma chunk_len_pos [simp]: "0 < chunk_len s f n \<longleftrightarrow> 0 < n" "chunk_len s f n = 0 \<longleftrightarrow> n = 0" "chunk_len s f n \<le> n"
  using file_pos_off [of s f] by (auto simp: chunk_len_def)

function read_loop :: "nat \<Rightarrow> u8 list \<Rightarrow> OpenFile \<Rightarrow> FatState \<Rightarrow> FatState \<times> OpenFile \<times> u8 list" where
  "read_loop want acc f s =
    (if length acc \<ge> want \<or> of_cur_cluster f < 2 \<or> is_eoc (of_cur_cluster f) then (s, f, acc)
     else let (s, sec) = csec (fst (file_pos s f)) s;
              chunk = chunk_len s f (want - length acc);
              acc' = acc @ slice (snd (file_pos s f)) chunk sec;
              f = f\<lparr>of_offset := (of_offset f + chunk) mod 2 ^ 32\<rparr>
          in if of_offset f mod cluster_bytes s = 0 \<and> length acc' < want then
               let (s, nxt) = fat_get (of_cur_cluster f) s
               in read_loop want acc' (f\<lparr>of_cur_cluster := nxt, of_cur_clus_idx := (of_cur_clus_idx f + 1) mod 2 ^ 32\<rparr>) s
             else read_loop want acc' f s)"
  by pat_completeness auto
termination
  by (relation "measure (\<lambda>(want, acc, _). want - length acc)") (simp_all add: diff_less_mono2)

declare read_loop.simps [simp del]

definition fd_valid :: "nat \<Rightarrow> FatState \<Rightarrow> bool" where
  "fd_valid fd s \<longleftrightarrow> fd < MAX_OPEN \<and> of_used (OPEN_FILES s ! fd)"

definition fat_read :: "nat \<Rightarrow> nat \<Rightarrow> FatState \<Rightarrow> FatState \<times> int \<times> u8 list" where
  "fat_read fd n s =
    (if \<not> fd_valid fd s then (s, - 1, [])
     else let f = OPEN_FILES s ! fd; remaining = of_size f - of_offset f in
          if remaining = 0 then (s, 0, [])
          else let (s, f, bs) = read_loop (min n remaining) [] f s in (set_file fd f s, int (length bs), bs))"

text \<open>\<^verbatim>\<open>write\<close> gives a file without a current cluster a new one, at the end of its chain.\<close>

definition extend_file :: "nat \<Rightarrow> OpenFile \<Rightarrow> FatState \<Rightarrow> (FatState \<times> OpenFile option) out" where
  "extend_file fuel f s =
    (if is_eoc (of_cur_cluster f) \<or> of_cur_cluster f < 2 then
       let (s, c) = alloc_cluster s in
       if c = 0 then Val (s, None)
       else if of_start_cluster f < 2 then Val (s, Some (f\<lparr>of_start_cluster := c, of_cur_cluster := c\<rparr>))
       else out_bind (chain_tail fuel (of_start_cluster f) s) (\<lambda>(s, tail).
              Val (fat_put tail c s, Some (f\<lparr>of_cur_cluster := c\<rparr>)))
     else Val (s, Some f))"

text \<open>One round of the loop: the part of the data that fits the current sector.\<close>

definition write_chunk :: "u8 list \<Rightarrow> nat \<Rightarrow> OpenFile \<Rightarrow> FatState \<Rightarrow> FatState \<times> OpenFile \<times> nat" where
  "write_chunk buf dn f s =
    (let chunk = chunk_len s f (length buf - dn);
         s = patch_sec (fst (file_pos s f)) (snd (file_pos s f)) (take chunk (drop dn buf)) s;
         o' = (of_offset f + chunk) mod 2 ^ 32;
         f = f\<lparr>of_offset := o', of_size := max (of_size f) o'\<rparr>
     in if o' mod cluster_bytes s = 0 then
          let (s, nxt) = fat_get (of_cur_cluster f) s
          in (s, if is_eoc nxt then f
                 else f\<lparr>of_cur_cluster := nxt, of_cur_clus_idx := (of_cur_clus_idx f + 1) mod 2 ^ 32\<rparr>, dn + chunk)
        else (s, f, dn + chunk))"

lemma write_chunk_done: "write_chunk buf dn f s = (s', f', dn') \<Longrightarrow> dn' = dn + chunk_len s f (length buf - dn)"
  by (auto simp: write_chunk_def Let_def split: prod.splits if_splits)

function write_loop :: "nat \<Rightarrow> u8 list \<Rightarrow> nat \<Rightarrow> OpenFile \<Rightarrow> FatState \<Rightarrow> (FatState \<times> OpenFile \<times> nat) out" where
  "write_loop fuel buf dn f s =
    (if dn \<ge> length buf then Val (s, f, dn)
     else out_bind (extend_file fuel f s) (\<lambda>(s, fo).
       case fo of
         None \<Rightarrow> Val (s, f, dn)
       | Some f \<Rightarrow> (case write_chunk buf dn f s of (s, f, d) \<Rightarrow> write_loop fuel buf d f s)))"
  by pat_completeness auto
termination
  by (relation "measure (\<lambda>(fuel, buf, dn, _). length buf - dn)")
    (auto intro: diff_less_mono2 dest!: write_chunk_done [OF sym])

declare write_loop.simps [simp del]

definition flush_size :: "OpenFile \<Rightarrow> FatState \<Rightarrow> FatState" where
  "flush_size f s =
    (if of_dir_lba f \<noteq> 0 then patch_sec (of_dir_lba f) (of_dir_entry_off f + 28) (u32_le (of_size f)) s else s)"

definition fat_write :: "nat \<Rightarrow> nat \<Rightarrow> u8 list \<Rightarrow> FatState \<Rightarrow> (FatState \<times> int) out" where
  "fat_write fuel fd buf s =
    (if \<not> fd_valid fd s \<or> \<not> of_writable (OPEN_FILES s ! fd) then Val (s, - 1)
     else out_bind (write_loop fuel buf 0 (OPEN_FILES s ! fd) s) (\<lambda>(s, f, dn).
       Val (flush_size f (set_file fd f s), int dn)))"

definition fat_close :: "nat \<Rightarrow> FatState \<Rightarrow> FatState" where
  "fat_close fd s =
    (if \<not> fd_valid fd s then s
     else let f = OPEN_FILES s ! fd
          in set_file fd EMPTY_FILE (if of_writable f then flush_size f s else s))"

fun seek_loop :: "nat \<Rightarrow> nat \<Rightarrow> nat \<Rightarrow> FatState \<Rightarrow> FatState \<times> nat \<times> nat" where
  "seek_loop 0 c idx s = (s, c, idx)"
| "seek_loop (Suc n) c idx s =
    (if is_eoc c then (s, c, idx) else let (s, c) = fat_get c s in seek_loop n c (idx + 1) s)"

definition fat_seek :: "nat \<Rightarrow> nat \<Rightarrow> FatState \<Rightarrow> FatState \<times> int" where
  "fat_seek fd offset s =
    (if \<not> fd_valid fd s then (s, - 1)
     else let f = OPEN_FILES s ! fd in
          if offset > of_size f then (s, - 1)
          else let target = offset div cluster_bytes s;
                   (c, idx) = (if target \<ge> of_cur_clus_idx f then (of_cur_cluster f, of_cur_clus_idx f)
                               else (of_start_cluster f, 0));
                   (s, c, idx) = seek_loop (target - idx) c idx s
               in (set_file fd (f\<lparr>of_cur_cluster := c, of_cur_clus_idx := idx, of_offset := offset\<rparr>) s, 0))"

section \<open>Directories\<close>

definition NAME_MAX :: nat where "NAME_MAX = 255"

record DirEntry =
  de_name :: "u8 list"
  de_is_dir :: u8
  de_size :: nat

definition list_entry :: "nat \<Rightarrow> DirHit \<Rightarrow> DirEntry list \<Rightarrow> bool \<times> DirEntry list" where
  "list_entry max' h out =
    (if length out \<ge> max' then (True, out)
     else (False, out @ [\<lparr>de_name = take NAME_MAX (dh_name h),
                          de_is_dir = (if dh_attr h AND ATTR_DIRECTORY \<noteq> 0 then 1 else 0), de_size = dh_size h\<rparr>]))"

definition fat_readdir :: "nat \<Rightarrow> u8 list \<Rightarrow> nat \<Rightarrow> FatState \<Rightarrow> (FatState \<times> DirEntry list) out" where
  "fat_readdir fuel path max' s =
    (if \<not> F_READY s then Val (s, [])
     else out_bind (parent_cluster fuel path s) (\<lambda>(s, p).
       case p of None \<Rightarrow> Val (s, []) | Some c \<Rightarrow> scan_dir fuel c (list_entry max') [] s))"

text \<open>Free the chain of a file and mark its entry as deleted.\<close>

definition drop_file :: "nat \<Rightarrow> nat \<Rightarrow> nat \<Rightarrow> nat \<Rightarrow> FatState \<Rightarrow> FatState out" where
  "drop_file fuel cluster lba off s =
    out_bind (free_chain fuel cluster s) (\<lambda>s. Val (put_entry lba off [0xE5] s))"

definition fat_unlink :: "nat \<Rightarrow> u8 list \<Rightarrow> FatState \<Rightarrow> (FatState \<times> bool) out" where
  "fat_unlink fuel path s =
    (if \<not> F_READY s then Val (s, False)
     else out_bind (resolve fuel path s) (\<lambda>(s, r).
       case r of
         None \<Rightarrow> Val (s, False)
       | Some (cluster, _, is_dir, lba, off) \<Rightarrow>
           if is_dir then Val (s, False)
           else out_bind (drop_file fuel cluster lba off s) (\<lambda>s. Val (s, True))))"

definition renamed_entry :: "u8 list \<Rightarrow> nat \<Rightarrow> nat \<Rightarrow> u8 list" where
  "renamed_entry fname c sz =
    new_entry fname [of_nat (c div 2 ^ 16), of_nat (c div 2 ^ 24)] [of_nat c, of_nat (c div 2 ^ 8)] (u32_le sz)"

definition fat_rename :: "nat \<Rightarrow> u8 list \<Rightarrow> u8 list \<Rightarrow> FatState \<Rightarrow> (FatState \<times> bool) out" where
  "fat_rename fuel src dst s =
    (if \<not> F_READY s then Val (s, False)
     else out_bind (resolve fuel src s) (\<lambda>(s, r).
       case r of
         None \<Rightarrow> Val (s, False)
       | Some (src_cluster, src_size, src_is_dir, src_lba, src_off) \<Rightarrow>
           let fname = file_name_of dst in
           if src_is_dir \<or> \<not> name_eq (parent_of src) (parent_of dst) \<or> fname = [] \<or> length fname > 11
           then Val (s, False)
           else out_bind (resolve fuel dst s) (\<lambda>(s, d).
                out_bind (case d of Some (c, _, False, lba, off) \<Rightarrow> drop_file fuel c lba off s | _ \<Rightarrow> Val s) (\<lambda>s.
                out_bind (parent_cluster fuel (parent_of src) s) (\<lambda>(s, p).
                  case p of
                    None \<Rightarrow> Val (s, False)
                  | Some pc \<Rightarrow> out_bind (find_slot fuel pc s) (\<lambda>(s, pl).
                      case pl of
                        None \<Rightarrow> Val (s, False)
                      | Some (lba, off) \<Rightarrow>
                          let s = put_entry lba off (renamed_entry fname src_cluster src_size) s
                          in Val (put_entry src_lba src_off [0xE5] s, True)))))))"

text \<open>\<^verbatim>\<open>read_file_alloc\<close>: the bytes it leaves in a heap buffer, none when it fails; \<open>mal\<close> is whether the heap has room.\<close>

definition read_file_alloc :: "nat \<Rightarrow> (nat \<Rightarrow> bool) \<Rightarrow> u8 list \<Rightarrow> FatState \<Rightarrow> (FatState \<times> u8 list option) out" where
  "read_file_alloc fuel mal path s =
    (if \<not> F_READY s then Val (s, None)
     else out_bind (fat_open fuel path s) (\<lambda>(s, r).
       case r of
         None \<Rightarrow> Val (s, None)
       | Some fd \<Rightarrow>
           let sz = of_size (OPEN_FILES s ! fd) in
           if sz = 0 \<or> \<not> mal sz then Val (fat_close fd s, None)
           else let (s, n, bs) = fat_read fd sz s; s = fat_close fd s
                in Val (s, if n < 0 then None else Some bs)))"

end
