(* ===== verification/Fat32_Cache.thy ===== *)
theory Fat32_Cache
  imports Fat32
begin

text \<open>
  The sector cache of the FAT32 driver is transparent: two states that differ only in what their caches
  hold, both coherent with the device, behave the same under every operation.  The proof is a simulation
  that follows the structure of the operations.
\<close>

section \<open>Coherence and the simulation\<close>

definition coh :: "FatState \<Rightarrow> bool" where
  "coh s \<longleftrightarrow> length (CTAG s) = CACHE_SLOTS \<and> length (CDATA s) = CACHE_SLOTS \<and>
     (\<forall>i < CACHE_SLOTS. \<forall>l. CTAG s ! i = Some l \<longrightarrow> l mod CACHE_SLOTS = i \<and> CDATA s ! i = DISK s l)"

definition sim :: "FatState \<Rightarrow> FatState \<Rightarrow> bool" where
  "sim s t \<longleftrightarrow> coh s \<and> coh t \<and> t = s\<lparr>CTAG := CTAG t, CDATA := CDATA t\<rparr>"

lemma slot_lt [simp]: "l mod CACHE_SLOTS < CACHE_SLOTS"
  by (simp add: CACHE_SLOTS_def)

lemma sim_fields:
  assumes "sim s t"
  shows "DISK t = DISK s" "F_READY t = F_READY s" "PART_LBA t = PART_LBA s" "BYTES_PER_SEC t = BYTES_PER_SEC s"
    "SECS_PER_CLUSTER t = SECS_PER_CLUSTER s" "FAT_START t = FAT_START s" "DATA_START t = DATA_START s"
    "ROOT_CLUSTER t = ROOT_CLUSTER s" "TOTAL_CLUSTERS t = TOTAL_CLUSTERS s" "FREE_HINT t = FREE_HINT s"
    "OPEN_FILES t = OPEN_FILES s"
proof -
  have t: "t = s\<lparr>CTAG := CTAG t, CDATA := CDATA t\<rparr>" using assms by (simp add: sim_def)
  show "DISK t = DISK s" "F_READY t = F_READY s" "PART_LBA t = PART_LBA s" "BYTES_PER_SEC t = BYTES_PER_SEC s"
    "SECS_PER_CLUSTER t = SECS_PER_CLUSTER s" "FAT_START t = FAT_START s" "DATA_START t = DATA_START s"
    "ROOT_CLUSTER t = ROOT_CLUSTER s" "TOTAL_CLUSTERS t = TOTAL_CLUSTERS s" "FREE_HINT t = FREE_HINT s"
    "OPEN_FILES t = OPEN_FILES s"
    by (subst t, simp)+
qed

lemma sim_geometry:
  assumes "sim s t"
  shows "cluster_lba t = cluster_lba s" "cluster_bytes t = cluster_bytes s" "cluster_secs t = cluster_secs s"
    "file_pos t = file_pos s" "chunk_len t = chunk_len s" "free_fd t = free_fd s" "fd_valid fd t = fd_valid fd s"
  by (auto simp: fun_eq_iff cluster_lba_def cluster_bytes_def cluster_secs_def file_pos_def chunk_len_def free_fd_def
      fd_valid_def sim_fields [OF assms])

lemmas sim_eqs = sim_fields sim_geometry

text \<open>Results agree when the states are similar and the values the same.\<close>

definition rel :: "FatState \<times> 'a \<Rightarrow> FatState \<times> 'a \<Rightarrow> bool" where
  "rel p q \<longleftrightarrow> sim (fst p) (fst q) \<and> snd q = snd p"

fun rel_out :: "('a \<Rightarrow> 'a \<Rightarrow> bool) \<Rightarrow> 'a out \<Rightarrow> 'a out \<Rightarrow> bool" where
  "rel_out R (Val x) (Val y) = R x y"
| "rel_out R Panics Panics = True"
| "rel_out R Hangs Hangs = True"
| "rel_out R _ _ = False"

named_theorems sim_rules

lemma rel_pair [simp]: "rel (s, x) (t, y) \<longleftrightarrow> sim s t \<and> y = x"
  by (simp add: rel_def)

lemma rel_case: "rel p q \<Longrightarrow> (\<And>s t x. sim s t \<Longrightarrow> R (f s x) (g t x)) \<Longrightarrow> R (case p of (s, x) \<Rightarrow> f s x) (case q of (t, x) \<Rightarrow> g t x)"
  by (cases p; cases q) simp

lemma rel_bind:
  assumes "rel_out R p q" "\<And>x y. R x y \<Longrightarrow> rel_out S (f x) (g y)"
  shows "rel_out S (out_bind p f) (out_bind q g)"
  using assms by (cases p; cases q) auto

lemma rel_bind_state:
  assumes "rel_out rel p q" "\<And>s t x. sim s t \<Longrightarrow> rel_out S (f s x) (g t x)"
  shows "rel_out S (out_bind p (\<lambda>(s, x). f s x)) (out_bind q (\<lambda>(t, x). g t x))"
  by (rule rel_bind [OF assms(1)]) (auto simp: rel_def intro: assms(2))

lemma rel_if: "(c \<Longrightarrow> R x x') \<Longrightarrow> (\<not> c \<Longrightarrow> R y y') \<Longrightarrow> R (if c then x else y) (if c then x' else y')"
  by simp

section \<open>The primitives\<close>

lemma coh_put:
  assumes "coh s" "i = l mod CACHE_SLOTS"
  shows "coh (s\<lparr>CDATA := (CDATA s)[i := DISK s l], CTAG := (CTAG s)[i := Some l]\<rparr>)"
  using assms unfolding coh_def by (auto simp: nth_list_update)

lemma coh_put_sec: "coh s \<Longrightarrow> coh (put_sec l new s)"
  unfolding coh_def put_sec_def Let_def by (auto simp: nth_list_update)

lemma coh_csec: "coh s \<Longrightarrow> coh (fst (csec l s)) \<and> snd (csec l s) = DISK s l"
proof (cases "CTAG s ! (l mod CACHE_SLOTS) = Some l")
  case True
  moreover assume "coh s"
  ultimately have "CDATA s ! (l mod CACHE_SLOTS) = DISK s l" unfolding coh_def using slot_lt by blast
  then show ?thesis using True \<open>coh s\<close> by (simp add: csec_def)
next
  case False
  then show "coh s \<Longrightarrow> ?thesis" using coh_put [of s "l mod CACHE_SLOTS" l] by (simp add: csec_def Let_def)
qed

lemma sim_put: "sim s t \<Longrightarrow> coh s' \<Longrightarrow> coh t' \<Longrightarrow> t'\<lparr>CTAG := [], CDATA := []\<rparr> = s'\<lparr>CTAG := [], CDATA := []\<rparr> \<Longrightarrow> sim s' t'"
  by (cases s'; cases t') (simp add: sim_def)

lemma sim_erase: "sim s t \<Longrightarrow> t\<lparr>CTAG := [], CDATA := []\<rparr> = s\<lparr>CTAG := [], CDATA := []\<rparr>"
  by (cases s; cases t) (simp add: sim_def)

lemma erase_csec: "(fst (csec l s))\<lparr>CTAG := [], CDATA := []\<rparr> = s\<lparr>CTAG := [], CDATA := []\<rparr>"
  by (simp add: csec_def Let_def)

lemma sim_coh: "sim s t \<Longrightarrow> coh s" "sim s t \<Longrightarrow> coh t"
  by (simp_all add: sim_def)

lemma rel_csec [sim_rules]:
  assumes "sim s t"
  shows "rel (csec l s) (csec l t)"
proof -
  have "sim (fst (csec l s)) (fst (csec l t))"
    by (rule sim_put [OF assms]) (simp_all add: coh_csec sim_coh [OF assms] erase_csec sim_erase [OF assms])
  then show ?thesis using coh_csec [OF sim_coh(1) [OF assms]] coh_csec [OF sim_coh(2) [OF assms]] sim_fields(1) [OF assms]
    by (simp add: rel_def)
qed

lemma sim_put_sec:
  assumes "sim s t"
  shows "sim (put_sec l new s) (put_sec l new t)"
proof (rule sim_put [OF assms])
  show "(put_sec l new t)\<lparr>CTAG := [], CDATA := []\<rparr> = (put_sec l new s)\<lparr>CTAG := [], CDATA := []\<rparr>"
    using sim_erase [OF assms] by (cases s; cases t) (simp add: put_sec_def Let_def)
qed (simp_all add: coh_put_sec sim_coh [OF assms])

lemma csec_slot:
  assumes "coh s"
  shows "CDATA (fst (csec l s)) ! (l mod CACHE_SLOTS) = DISK s l"
proof -
  have "length (CDATA s) = CACHE_SLOTS" using assms by (simp add: coh_def)
  then show ?thesis using coh_csec [OF assms, of l]
    by (cases "CTAG s ! (l mod CACHE_SLOTS) = Some l") (simp_all add: csec_def Let_def)
qed

lemma sim_patch_sec [sim_rules]: "sim s t \<Longrightarrow> sim (patch_sec l off bs s) (patch_sec l off bs t)"
  unfolding patch_sec_def Let_def by (rule rel_case [where R = sim, OF rel_csec]) (auto intro: sim_put_sec)

lemma sim_put_entry [sim_rules]:
  assumes "sim s t"
  shows "sim (put_entry l off bs s) (put_entry l off bs t)"
proof -
  have s: "CDATA (fst (csec l s)) ! (l mod CACHE_SLOTS) = snd (csec l s)"
    "CDATA (fst (csec l t)) ! (l mod CACHE_SLOTS) = snd (csec l t)"
    using coh_csec csec_slot sim_coh [OF assms] by simp_all
  show ?thesis
    using rel_csec [OF assms, of l] unfolding put_entry_def wsec_def Let_def rel_def
    by (simp add: case_prod_beta s sim_put_sec)
qed

lemma sim_cinval_disk:
  assumes "sim s t"
  shows "sim (zero_sec l s) (zero_sec l t)"
proof (rule sim_put [OF assms])
  have z: "coh (zero_sec l u)" if "coh u" for u
    using that unfolding coh_def zero_sec_def cinval_def Let_def by (auto simp: nth_list_update)
  show "coh (zero_sec l s)" "coh (zero_sec l t)" using z sim_coh [OF assms] by blast+
  show "(zero_sec l t)\<lparr>CTAG := [], CDATA := []\<rparr> = (zero_sec l s)\<lparr>CTAG := [], CDATA := []\<rparr>"
    using sim_erase [OF assms] by (cases s; cases t) (simp add: zero_sec_def cinval_def Let_def)
qed

lemma sim_fold: "(\<And>x s t. sim s t \<Longrightarrow> sim (f x s) (f x t)) \<Longrightarrow> sim s t \<Longrightarrow> sim (fold f xs s) (fold f xs t)"
  by (induction xs arbitrary: s t) auto

lemma sim_zero_cluster [sim_rules]: "sim s t \<Longrightarrow> sim (zero_cluster c s) (zero_cluster c t)"
  unfolding zero_cluster_def by (simp add: sim_eqs) (auto intro: sim_fold sim_cinval_disk)

lemma sim_update [sim_rules]:
  "sim s t \<Longrightarrow> sim (s\<lparr>FREE_HINT := h\<rparr>) (t\<lparr>FREE_HINT := h\<rparr>)"
  "sim s t \<Longrightarrow> sim (set_file fd f s) (set_file fd f t)"
  by (cases s; cases t; auto simp: sim_def coh_def set_file_def)+

lemma rel_fat_get [sim_rules]: "sim s t \<Longrightarrow> rel (fat_get c s) (fat_get c t)"
  unfolding fat_get_def Let_def by (simp add: sim_eqs) (rule rel_case [OF rel_csec], auto simp: sim_eqs)

lemma sim_fat_put [sim_rules]: "sim s t \<Longrightarrow> sim (fat_put c v s) (fat_put c v t)"
  unfolding fat_put_def Let_def by (simp add: sim_eqs sim_patch_sec)

section \<open>The operations\<close>

lemma rel_cluster_scan: "sim s t \<Longrightarrow> rel (cluster_scan cs s) (cluster_scan cs t)"
proof (induction cs arbitrary: s t)
  case (Cons c cs)
  show ?case unfolding cluster_scan.simps Let_def
    by (rule rel_case [OF rel_fat_get [OF Cons.prems]]) (auto intro: Cons.IH sim_rules)
qed simp

lemma rel_alloc_cluster [sim_rules]:
  assumes "sim s t"
  shows "rel (alloc_cluster s) (alloc_cluster t)"
  unfolding alloc_cluster_def Let_def sim_eqs [OF assms]
  by (rule rel_case [OF rel_cluster_scan [OF assms]]) (auto intro: rel_cluster_scan)

lemma rel_scan_sectors: "sim s t \<Longrightarrow> rel (scan_sectors cb lbas a s) (scan_sectors cb lbas a t)"
proof (induction lbas arbitrary: a s t)
  case (Cons l lbas)
  show ?case unfolding scan_sectors.simps Let_def
    by (rule rel_case [OF rel_csec [OF Cons.prems]]) (auto intro: Cons.IH split: ScanStep.splits)
qed simp

lemma rel_scan_chain: "sim s t \<Longrightarrow> rel_out rel (scan_chain n cb c a s) (scan_chain n cb c a t)"
proof (induction n arbitrary: c a s t)
  case (Suc n)
  have r: "rel (scan_sectors cb (cluster_secs s c) a s) (scan_sectors cb (cluster_secs t c) a t)"
    using rel_scan_sectors [OF Suc.prems] by (simp add: sim_eqs [OF Suc.prems])
  have k: "rel_out rel (case fat_get c s' of (s, nxt) \<Rightarrow> scan_chain n cb nxt a' s) (case fat_get c t' of (s, nxt) \<Rightarrow> scan_chain n cb nxt a' s)"
    if "sim s' t'" for s' t' a'
    by (rule rel_case [OF rel_fat_get [OF that]]) (rule Suc.IH)
  show ?case unfolding scan_chain.simps Let_def
    by (rule rel_if, simp add: Suc.prems, rule rel_case [OF r]) (auto intro: k split: ScanStep.splits)
qed simp

lemma rel_scan_dir [sim_rules]: "sim s t \<Longrightarrow> rel_out rel (scan_dir n c cb x s) (scan_dir n c cb x t)"
  unfolding scan_dir_def by (rule rel_scan_chain)

lemma rel_resolve_loop: "sim s t \<Longrightarrow> rel_out rel (resolve_loop n dir ps r s) (resolve_loop n dir ps r t)"
proof (induction ps arbitrary: dir r s t)
  case (Cons p ps)
  show ?case unfolding resolve_loop.simps
    by (rule rel_bind_state [OF rel_scan_dir [OF Cons.prems]]) (auto intro: Cons.IH split: option.splits)
qed simp

lemma rel_resolve [sim_rules]:
  assumes "sim s t"
  shows "rel_out rel (resolve n path s) (resolve n path t)"
  unfolding resolve_def sim_eqs [OF assms] using assms by (auto intro: rel_resolve_loop)

lemma rel_install_file [sim_rules]:
  assumes "sim s t"
  shows "rel (install_file w sz c l off s) (install_file w sz c l off t)"
  unfolding install_file_def sim_eqs [OF assms] using assms by (auto intro: sim_rules split: option.splits)

lemma sim_free_tail [sim_rules]: "sim s t \<Longrightarrow> rel_out sim (free_tail n c s) (free_tail n c t)"
proof (induction n arbitrary: c s t)
  case (Suc n)
  show ?case unfolding free_tail.simps Let_def
    by (rule rel_if, simp add: Suc.prems, rule rel_case [OF rel_fat_get [OF Suc.prems]]) (auto intro: Suc.IH sim_fat_put)
qed simp

lemma sim_free_chain [sim_rules]: "sim s t \<Longrightarrow> rel_out sim (free_chain n c s) (free_chain n c t)"
proof (induction n arbitrary: c s t)
  case (Suc n)
  show ?case unfolding free_chain.simps Let_def
    by (rule rel_if, simp add: Suc.prems, rule rel_case [OF rel_fat_get [OF Suc.prems]]) (auto intro: Suc.IH sim_fat_put)
qed simp

lemma rel_chain_tail [sim_rules]: "sim s t \<Longrightarrow> rel_out rel (chain_tail n c s) (chain_tail n c t)"
proof (induction n arbitrary: c s t)
  case (Suc n)
  show ?case unfolding chain_tail.simps Let_def
    by (rule rel_case [OF rel_fat_get [OF Suc.prems]], rule rel_if, simp, rule rel_case [OF rel_fat_get])
      (auto intro: Suc.IH)
qed simp

lemma rel_slot_in_secs: "sim s t \<Longrightarrow> rel (slot_in_secs ls s) (slot_in_secs ls t)"
proof (induction ls arbitrary: s t)
  case (Cons l ls)
  show ?case unfolding slot_in_secs.simps Let_def
    by (rule rel_case [OF rel_csec [OF Cons.prems]]) (auto intro: Cons.IH split: option.splits)
qed simp

lemma rel_find_slot [sim_rules]: "sim s t \<Longrightarrow> rel_out rel (find_slot n c s) (find_slot n c t)"
proof (induction n arbitrary: c s t)
  case (Suc n)
  have r: "rel (slot_in_secs (cluster_secs s c) s) (slot_in_secs (cluster_secs t c) t)"
    using rel_slot_in_secs [OF Suc.prems] by (simp add: sim_eqs [OF Suc.prems])
  have k: "rel_out rel (case fat_get c s' of (s, nxt) \<Rightarrow> find_slot n nxt s) (case fat_get c t' of (s, nxt) \<Rightarrow> find_slot n nxt s)"
    if "sim s' t'" for s' t'
    by (rule rel_case [OF rel_fat_get [OF that]]) (rule Suc.IH)
  show ?case unfolding find_slot.simps Let_def
    by (rule rel_if, simp add: Suc.prems, rule rel_case [OF r]) (auto intro: k split: option.splits)
qed simp

lemma rel_parent_cluster [sim_rules]:
  assumes "sim s t"
  shows "rel_out rel (parent_cluster n path s) (parent_cluster n path t)"
  unfolding parent_cluster_def sim_eqs [OF assms]
  by (rule rel_if, simp add: assms, rule rel_bind_state [OF rel_resolve [OF assms]]) simp

lemma lba_put: "sim s t \<Longrightarrow> cluster_lba (fat_put c d t) n = cluster_lba (fat_put c d s) n"
  using sim_geometry(1) [OF sim_fat_put] by metis

lemma rel_entry_place [sim_rules]:
  assumes "sim s t"
  shows "rel_out rel (entry_place n p c s) (entry_place n p c t)"
proof -
  have k: "rel_out rel (out_bind (chain_tail n p s') (\<lambda>(s, c). let s = fat_put c d s in Val (s, Some (cluster_lba s d, 0))))
      (out_bind (chain_tail n p t') (\<lambda>(s, c). let s = fat_put c d s in Val (s, Some (cluster_lba s d, 0))))" if "sim s' t'" for s' t' d
    by (rule rel_bind_state [OF rel_chain_tail [OF that]]) (auto simp: Let_def intro: sim_fat_put lba_put)
  have a: "rel_out rel
      (case alloc_cluster s' of (s, d) \<Rightarrow> if d = 0 then Val (fat_put c FAT_FREE s, None)
        else out_bind (chain_tail n p s) (\<lambda>(s, c). let s = fat_put c d s in Val (s, Some (cluster_lba s d, 0))))
      (case alloc_cluster t' of (s, d) \<Rightarrow> if d = 0 then Val (fat_put c FAT_FREE s, None)
        else out_bind (chain_tail n p s) (\<lambda>(s, c). let s = fat_put c d s in Val (s, Some (cluster_lba s d, 0))))" if "sim s' t'" for s' t'
    by (rule rel_case [OF rel_alloc_cluster [OF that]], rule rel_if) (auto intro: sim_fat_put k)
  show ?thesis unfolding entry_place_def
    by (rule rel_bind_state [OF rel_find_slot [OF assms]]) (auto intro: a split: option.splits)
qed

lemma rel_create [sim_rules]:
  assumes "sim s t"
  shows "rel_out rel (fat_create n path s) (fat_create n path t)"
proof -
  let ?f = "file_name_of path"
  have e: "rel_out rel (out_bind (entry_place n pc c s') (\<lambda>(s, pl). case pl of None \<Rightarrow> Val (s, None)
        | Some (lba, off) \<Rightarrow> let s = put_entry lba off (created_entry ?f c) s in Val (install_file True 0 c lba off s)))
      (out_bind (entry_place n pc c t') (\<lambda>(s, pl). case pl of None \<Rightarrow> Val (s, None)
        | Some (lba, off) \<Rightarrow> let s = put_entry lba off (created_entry ?f c) s in Val (install_file True 0 c lba off s)))"
    if "sim s' t'" for s' t' pc c
    by (rule rel_bind_state [OF rel_entry_place [OF that]]) (auto simp: Let_def intro: rel_install_file sim_put_entry split: option.splits)
  have a: "rel_out rel
      (let (s, c) = alloc_cluster s' in if c = 0 then Val (s, None)
       else out_bind (entry_place n pc c s) (\<lambda>(s, pl). case pl of None \<Rightarrow> Val (s, None)
        | Some (lba, off) \<Rightarrow> let s = put_entry lba off (created_entry ?f c) s in Val (install_file True 0 c lba off s)))
      (let (s, c) = alloc_cluster t' in if c = 0 then Val (s, None)
       else out_bind (entry_place n pc c s) (\<lambda>(s, pl). case pl of None \<Rightarrow> Val (s, None)
        | Some (lba, off) \<Rightarrow> let s = put_entry lba off (created_entry ?f c) s in Val (install_file True 0 c lba off s)))"
    if "sim s' t'" for s' t' pc
    unfolding Let_def [of "alloc_cluster _"]
    by (rule rel_case [OF rel_alloc_cluster [OF that]], rule rel_if) (auto intro: e [unfolded Let_def])
  show ?thesis unfolding fat_create_def Let_def sim_eqs [OF assms]
    by (rule rel_if, simp add: assms, rule rel_bind_state [OF rel_parent_cluster [OF assms]])
      (auto intro: a [unfolded Let_def] split: option.splits)
qed

lemma rel_open [sim_rules]:
  assumes "sim s t"
  shows "rel_out rel (fat_open n path s) (fat_open n path t)"
  unfolding fat_open_def sim_eqs [OF assms]
  by (rule rel_if, simp add: assms, rule rel_bind_state [OF rel_resolve [OF assms]])
    (auto intro: rel_install_file split: option.splits)

lemma rel_open_write [sim_rules]:
  assumes "sim s t"
  shows "rel_out rel (fat_open_write n path s) (fat_open_write n path t)"
proof -
  have k: "rel_out rel
      (let (s, d) = fat_get c s' in out_bind (free_tail n d s) (\<lambda>s. let s = put_entry l (off + 28) [0, 0, 0, 0] (fat_put c FAT_EOC s)
         in Val (install_file True 0 c l off s)))
      (let (s, d) = fat_get c t' in out_bind (free_tail n d s) (\<lambda>s. let s = put_entry l (off + 28) [0, 0, 0, 0] (fat_put c FAT_EOC s)
         in Val (install_file True 0 c l off s)))" if "sim s' t'" for s' t' c l off
    unfolding Let_def [of "fat_get _ _"]
    by (rule rel_case [OF rel_fat_get [OF that]], rule rel_bind [OF sim_free_tail]) (auto simp: Let_def intro: rel_install_file sim_put_entry sim_fat_put)
  show ?thesis unfolding fat_open_write_def sim_eqs [OF assms]
    by (rule rel_if, simp add: assms, rule rel_bind_state [OF rel_resolve [OF assms]])
      (auto intro: k [unfolded Let_def] rel_create split: option.splits)
qed

lemma rel_read_loop: "sim s t \<Longrightarrow> rel (read_loop want acc f s) (read_loop want acc f t)"
proof (induction "want - length acc" arbitrary: acc f s t rule: less_induct)
  case less
  have IH: "rel (read_loop want acc' f' s') (read_loop want acc' f' t')"
    if "sim s' t'" "want - length acc' < want - length acc" for acc' f' s' t'
    using less.hyps that by blast
  have adv: "rel (case fat_get c s' of (s, nxt) \<Rightarrow> read_loop want acc' (f' nxt) s) (case fat_get c t' of (s, nxt) \<Rightarrow> read_loop want acc' (f' nxt) s)"
    if "sim s' t'" "want - length acc' < want - length acc" for c acc' f' s' t'
    by (rule rel_case [OF rel_fat_get [OF that(1)]]) (rule IH [OF _ that(2)])
  show ?case
    unfolding read_loop.simps [of want acc f s] read_loop.simps [of want acc f t] Let_def sim_eqs [OF less.prems]
    by (rule rel_if, simp add: less.prems, rule rel_case [OF rel_csec [OF less.prems]])
      (auto simp: sim_eqs intro!: adv IH diff_less_mono2)
qed

lemma rel_read [sim_rules]:
  assumes "sim s t"
  shows "rel (fat_read fd n s) (fat_read fd n t)"
  unfolding fat_read_def Let_def sim_eqs [OF assms]
  by (rule rel_if, simp add: assms, rule rel_if, simp add: assms, rule rel_case [OF rel_read_loop [OF assms]])
    (auto intro: sim_update(2))

lemma rel_extend_file:
  assumes "sim s t"
  shows "rel_out rel (extend_file n f s) (extend_file n f t)"
proof -
  have k: "rel_out rel (out_bind (chain_tail n (of_start_cluster f) s') (\<lambda>(s, tail). Val (fat_put tail c s, Some (f\<lparr>of_cur_cluster := c\<rparr>))))
      (out_bind (chain_tail n (of_start_cluster f) t') (\<lambda>(s, tail). Val (fat_put tail c s, Some (f\<lparr>of_cur_cluster := c\<rparr>))))"
    if "sim s' t'" for s' t' c
    by (rule rel_bind_state [OF rel_chain_tail [OF that]]) (auto intro: sim_fat_put)
  show ?thesis unfolding extend_file_def Let_def
    by (rule rel_if, rule rel_case [OF rel_alloc_cluster [OF assms]]) (auto intro: k assms)
qed

lemma rel_write_chunk:
  assumes "sim s t"
  shows "rel (write_chunk buf dn f s) (write_chunk buf dn f t)"
proof -
  have p: "sim (patch_sec l off bs s) (patch_sec l off bs t)" for l off bs by (rule sim_patch_sec [OF assms])
  show ?thesis unfolding write_chunk_def Let_def sim_eqs [OF assms] sim_eqs [OF p]
    by (rule rel_if, rule rel_case [OF rel_fat_get [OF p]]) (auto intro: p)
qed

lemma rel_write_loop: "sim s t \<Longrightarrow> rel_out rel (write_loop n buf dn f s) (write_loop n buf dn f t)"
proof (induction "length buf - dn" arbitrary: dn f s t rule: less_induct)
  case less
  have k: "rel_out rel (case write_chunk buf dn g s' of (s, f, d) \<Rightarrow> write_loop n buf d f s)
      (case write_chunk buf dn g t' of (s, f, d) \<Rightarrow> write_loop n buf d f s)" if h: "sim s' t'" "dn < length buf" for g s' t'
  proof -
    obtain s1 f1 d1 where c: "write_chunk buf dn g s' = (s1, f1, d1)" by (cases "write_chunk buf dn g s'")
    then obtain t1 where "write_chunk buf dn g t' = (t1, f1, d1)" "sim s1 t1"
      using rel_write_chunk [OF h(1), of buf dn g] by (cases "write_chunk buf dn g t'") (auto simp: rel_def)
    moreover have "length buf - d1 < length buf - dn" using write_chunk_done [OF c] h(2) by (simp add: diff_less_mono2)
    ultimately show ?thesis using less.hyps c by simp
  qed
  show ?case unfolding write_loop.simps [of n buf dn f s] write_loop.simps [of n buf dn f t]
    by (rule rel_if, simp add: less.prems, rule rel_bind_state [OF rel_extend_file [OF less.prems]])
      (auto intro: k split: option.splits)
qed

lemma sim_flush_size [sim_rules]: "sim s t \<Longrightarrow> sim (flush_size f s) (flush_size f t)"
  by (simp add: flush_size_def sim_patch_sec)

lemma rel_write [sim_rules]:
  assumes "sim s t"
  shows "rel_out rel (fat_write n fd buf s) (fat_write n fd buf t)"
  unfolding fat_write_def sim_eqs [OF assms]
  by (rule rel_if, simp add: assms, rule rel_bind_state [OF rel_write_loop [OF assms]]) (auto intro!: sim_flush_size sim_update(2))

lemma sim_close [sim_rules]:
  assumes "sim s t"
  shows "sim (fat_close fd s) (fat_close fd t)"
  unfolding fat_close_def Let_def sim_eqs [OF assms] using assms by (auto intro: sim_rules)

lemma rel_seek_loop: "sim s t \<Longrightarrow> rel (seek_loop n c i s) (seek_loop n c i t)"
proof (induction n arbitrary: c i s t)
  case (Suc n)
  show ?case unfolding seek_loop.simps Let_def
    by (rule rel_if, simp add: Suc.prems, rule rel_case [OF rel_fat_get [OF Suc.prems]]) (rule Suc.IH)
qed simp

lemma rel_seek [sim_rules]:
  assumes "sim s t"
  shows "rel (fat_seek fd off s) (fat_seek fd off t)"
proof -
  have k: "rel (case seek_loop m c i s of (s, c, i) \<Rightarrow> (set_file fd (f c i) s, 0 :: int)) (case seek_loop m c i t of (s, c, i) \<Rightarrow> (set_file fd (f c i) s, 0))"
    for m c i f
    by (rule rel_case [OF rel_seek_loop [OF assms]]) (auto intro: sim_update(2))
  show ?thesis unfolding fat_seek_def Let_def sim_eqs [OF assms] using assms k
    by (auto simp: case_prod_beta' split: prod.splits)
qed

lemma rel_readdir [sim_rules]:
  assumes "sim s t"
  shows "rel_out rel (fat_readdir n path m s) (fat_readdir n path m t)"
  unfolding fat_readdir_def sim_eqs [OF assms]
  by (rule rel_if, simp add: assms, rule rel_bind_state [OF rel_parent_cluster [OF assms]])
    (auto intro: rel_scan_dir split: option.splits)

lemma sim_drop_file: "sim s t \<Longrightarrow> rel_out sim (drop_file n c l off s) (drop_file n c l off t)"
  unfolding drop_file_def by (rule rel_bind [OF sim_free_chain]) (auto intro: sim_put_entry)

lemma rel_unlink [sim_rules]:
  assumes "sim s t"
  shows "rel_out rel (fat_unlink n path s) (fat_unlink n path t)"
proof -
  have k: "rel_out rel (out_bind (drop_file n c l off s') (\<lambda>s. Val (s, True))) (out_bind (drop_file n c l off t') (\<lambda>s. Val (s, True)))"
    if "sim s' t'" for s' t' c l off
    by (rule rel_bind [OF sim_drop_file [OF that]]) simp
  show ?thesis unfolding fat_unlink_def sim_eqs [OF assms]
    by (rule rel_if, simp add: assms, rule rel_bind_state [OF rel_resolve [OF assms]]) (auto intro: k split: option.splits)
qed

lemma sim_drop_resolved:
  "sim s t \<Longrightarrow> rel_out sim (case d of Some (c, _, False, lba, off) \<Rightarrow> drop_file n c lba off s | _ \<Rightarrow> Val s)
     (case d of Some (c, _, False, lba, off) \<Rightarrow> drop_file n c lba off t | _ \<Rightarrow> Val t)"
  by (auto intro: sim_drop_file split: option.splits bool.splits)

lemma rel_rename [sim_rules]:
  assumes "sim s t"
  shows "rel_out rel (fat_rename n src dst s) (fat_rename n src dst t)"
proof -
  have p: "rel_out rel
      (out_bind (parent_cluster n q s') (\<lambda>(s, p). case p of None \<Rightarrow> Val (s, False)
        | Some pc \<Rightarrow> out_bind (find_slot n pc s) (\<lambda>(s, pl). case pl of None \<Rightarrow> Val (s, False)
        | Some (lba, off) \<Rightarrow> Val (put_entry l o' [0xE5] (put_entry lba off e s), True))))
      (out_bind (parent_cluster n q t') (\<lambda>(s, p). case p of None \<Rightarrow> Val (s, False)
        | Some pc \<Rightarrow> out_bind (find_slot n pc s) (\<lambda>(s, pl). case pl of None \<Rightarrow> Val (s, False)
        | Some (lba, off) \<Rightarrow> Val (put_entry l o' [0xE5] (put_entry lba off e s), True))))" if "sim s' t'" for s' t' q l o' e
    by (rule rel_bind_state [OF rel_parent_cluster [OF that]])
      (auto intro!: rel_bind_state [OF rel_find_slot] sim_put_entry split: option.splits)
  show ?thesis unfolding fat_rename_def Let_def sim_eqs [OF assms]
    by (rule rel_if, simp add: assms, rule rel_bind_state [OF rel_resolve [OF assms]])
      (auto intro!: rel_bind_state [OF rel_resolve] rel_bind [OF sim_drop_resolved] intro: p split: option.splits)
qed

section \<open>Runs\<close>

datatype fat_op = FOpen "u8 list" | FOpenWrite "u8 list" | FCreate "u8 list" | FRead nat nat | FWrite nat "u8 list"
  | FClose nat | FSeek nat nat | FReaddir "u8 list" nat | FUnlink "u8 list" | FRename "u8 list" "u8 list"

datatype fat_res = RFd "nat option" | RData int "u8 list" | RInt int | RUnit | REntries "DirEntry list" | RBool bool

definition out_map :: "('a \<Rightarrow> 'b) \<Rightarrow> (FatState \<times> 'a) out \<Rightarrow> (FatState \<times> 'b) out" where
  "out_map f r = out_bind r (\<lambda>(s, x). Val (s, f x))"

fun fat_step :: "nat \<Rightarrow> fat_op \<Rightarrow> FatState \<Rightarrow> (FatState \<times> fat_res) out" where
  "fat_step n (FOpen p) s = out_map RFd (fat_open n p s)"
| "fat_step n (FOpenWrite p) s = out_map RFd (fat_open_write n p s)"
| "fat_step n (FCreate p) s = out_map RFd (fat_create n p s)"
| "fat_step n (FRead fd k) s = (case fat_read fd k s of (s, r, bs) \<Rightarrow> Val (s, RData r bs))"
| "fat_step n (FWrite fd bs) s = out_map RInt (fat_write n fd bs s)"
| "fat_step n (FClose fd) s = Val (fat_close fd s, RUnit)"
| "fat_step n (FSeek fd k) s = (case fat_seek fd k s of (s, r) \<Rightarrow> Val (s, RInt r))"
| "fat_step n (FReaddir p k) s = out_map REntries (fat_readdir n p k s)"
| "fat_step n (FUnlink p) s = out_map RBool (fat_unlink n p s)"
| "fat_step n (FRename p q) s = out_map RBool (fat_rename n p q s)"

fun fat_run :: "nat \<Rightarrow> fat_op list \<Rightarrow> FatState \<Rightarrow> (FatState \<times> fat_res list) out" where
  "fat_run n [] s = Val (s, [])"
| "fat_run n (c # cs) s = out_bind (fat_step n c s) (\<lambda>(s, r). out_map (\<lambda>rs. r # rs) (fat_run n cs s))"

lemma rel_out_map: "rel_out rel p q \<Longrightarrow> rel_out rel (out_map f p) (out_map f q)"
  unfolding out_map_def by (rule rel_bind_state) auto

lemma rel_fat_step:
  assumes "sim s t"
  shows "rel_out rel (fat_step n c s) (fat_step n c t)"
proof (cases c)
  case (FRead fd k)
  show ?thesis unfolding FRead fat_step.simps by (rule rel_case [OF rel_read [OF assms]]) auto
next
  case (FSeek fd k)
  show ?thesis unfolding FSeek fat_step.simps by (rule rel_case [OF rel_seek [OF assms]]) auto
qed (simp_all add: rel_out_map rel_open rel_open_write rel_create rel_write sim_close rel_readdir rel_unlink rel_rename assms)

lemma rel_fat_run: "sim s t \<Longrightarrow> rel_out rel (fat_run n cs s) (fat_run n cs t)"
proof (induction cs arbitrary: s t)
  case (Cons c cs)
  show ?case unfolding fat_run.simps
    by (rule rel_bind_state [OF rel_fat_step [OF Cons.prems]]) (rule rel_out_map [OF Cons.IH])
qed simp

definition empty_cache :: "FatState \<Rightarrow> FatState" where
  "empty_cache s = s\<lparr>CTAG := replicate CACHE_SLOTS None, CDATA := replicate CACHE_SLOTS (replicate SECTOR_SIZE 0)\<rparr>"

end
