(* ===== verification/Fat32_Props.thy ===== *)
theory Fat32_Props
  imports Fat32_Cache
begin

text \<open>
  What the operations of the FAT32 driver do to the bytes of a file, and three behaviours in which the
  driver damages data or panics.  All statements are about the device behind the cache.
\<close>

section \<open>Sectors and the table on the device\<close>

lemma DISK_csec [simp]: "DISK (fst (csec l s)) = DISK s"
  by (simp add: csec_def Let_def)

lemma csec_fields [simp]:
  "BYTES_PER_SEC (fst (csec l s)) = BYTES_PER_SEC s" "SECS_PER_CLUSTER (fst (csec l s)) = SECS_PER_CLUSTER s"
  "FAT_START (fst (csec l s)) = FAT_START s" "DATA_START (fst (csec l s)) = DATA_START s"
  "OPEN_FILES (fst (csec l s)) = OPEN_FILES s" "ROOT_CLUSTER (fst (csec l s)) = ROOT_CLUSTER s"
  "F_READY (fst (csec l s)) = F_READY s"
  by (simp_all add: csec_def Let_def)

lemma csec_read: "coh s \<Longrightarrow> csec l s = (s', sec) \<Longrightarrow> sec = DISK s l \<and> coh s' \<and> DISK s' = DISK s"
  using coh_csec [of s l] DISK_csec [of l s] by auto

definition same_volume :: "FatState \<Rightarrow> FatState \<Rightarrow> bool" where
  "same_volume s t \<longleftrightarrow> BYTES_PER_SEC t = BYTES_PER_SEC s \<and> SECS_PER_CLUSTER t = SECS_PER_CLUSTER s \<and>
     FAT_START t = FAT_START s \<and> DATA_START t = DATA_START s \<and> OPEN_FILES t = OPEN_FILES s"

lemma same_volume_refl [simp]: "same_volume s s" by (simp add: same_volume_def)

lemma same_volume_trans: "same_volume s t \<Longrightarrow> same_volume t u \<Longrightarrow> same_volume s u"
  by (simp add: same_volume_def)

lemma same_volume_geometry:
  assumes "same_volume s t"
  shows "cluster_lba t = cluster_lba s" "cluster_bytes t = cluster_bytes s" "cluster_secs t = cluster_secs s"
    "file_pos t = file_pos s" "chunk_len t = chunk_len s"
  using assms
  by (auto simp: fun_eq_iff cluster_lba_def cluster_bytes_def cluster_secs_def file_pos_def chunk_len_def same_volume_def)

definition fat_lba :: "FatState \<Rightarrow> nat \<Rightarrow> nat" where "fat_lba s c = FAT_START s + c * 4 div BYTES_PER_SEC s"

definition fat_entry :: "FatState \<Rightarrow> nat \<Rightarrow> nat" where
  "fat_entry s c = u32at (DISK s (fat_lba s c)) (c * 4 mod BYTES_PER_SEC s) mod 2 ^ 28"

lemma fat_get_read:
  assumes "coh s" "fat_get c s = (s', v)"
  shows "v = fat_entry s c" "coh s'" "DISK s' = DISK s" "same_volume s s'"
proof -
  obtain sec where c: "csec (fat_lba s c) s = (s', sec)" and v: "v = u32at sec (c * 4 mod BYTES_PER_SEC s) mod 2 ^ 28"
    using assms(2) by (auto simp: fat_get_def fat_lba_def Let_def split: prod.splits)
  show "v = fat_entry s c" "coh s'" "DISK s' = DISK s" using csec_read [OF assms(1) c] v by (auto simp: fat_entry_def)
  have "s' = fst (csec (fat_lba s c) s)" using c by simp
  then show "same_volume s s'" by (simp add: same_volume_def)
qed

lemma put_sec_effect:
  "DISK (put_sec l new s) = (DISK s)(l := new)" "same_volume s (put_sec l new s)"
  by (simp_all add: put_sec_def Let_def same_volume_def)

lemma patch_sec_effect:
  assumes "coh s"
  shows "DISK (patch_sec l off bs s) = (DISK s)(l := take off (DISK s l) @ bs @ drop (off + length bs) (DISK s l))"
    "coh (patch_sec l off bs s)" "same_volume s (patch_sec l off bs s)"
proof -
  obtain s' sec where c: "csec l s = (s', sec)" by (cases "csec l s")
  then have s': "s' = fst (csec l s)" by simp
  have v: "same_volume s s'" by (simp add: s' same_volume_def)
  show "DISK (patch_sec l off bs s) = (DISK s)(l := take off (DISK s l) @ bs @ drop (off + length bs) (DISK s l))"
    "coh (patch_sec l off bs s)"
    using csec_read [OF assms c] by (simp_all add: patch_sec_def c put_sec_effect coh_put_sec)
  show "same_volume s (patch_sec l off bs s)"
    using same_volume_trans [OF v put_sec_effect(2)] by (simp add: patch_sec_def c)
qed

section \<open>The bytes of a cluster\<close>

definition byte_at :: "FatState \<Rightarrow> nat \<Rightarrow> nat \<Rightarrow> u8" where
  "byte_at s c i = DISK s (cluster_lba s c + i div SECTOR_SIZE) ! (i mod SECTOR_SIZE)"

text \<open>A file of one cluster: the cluster is in the data area, ends its chain, and its sectors are whole.\<close>

definition lone_cluster :: "FatState \<Rightarrow> nat \<Rightarrow> bool" where
  "lone_cluster s c \<longleftrightarrow> 2 \<le> c \<and> \<not> is_eoc c \<and> is_eoc (fat_entry s c) \<and> 0 < SECS_PER_CLUSTER s \<and>
     fat_lba s c \<notin> set (cluster_secs s c) \<and> (\<forall>l \<in> set (cluster_secs s c). length (DISK s l) = SECTOR_SIZE)"

lemma file_sector:
  assumes "0 < SECS_PER_CLUSTER s"
  shows "fst (file_pos s f) \<in> set (cluster_secs s (of_cur_cluster f))"
proof -
  have "of_offset f mod cluster_bytes s < SECS_PER_CLUSTER s * SECTOR_SIZE"
    using assms by (simp add: cluster_bytes_def SECTOR_SIZE_def)
  then have "of_offset f mod cluster_bytes s div SECTOR_SIZE < SECS_PER_CLUSTER s"
    by (simp add: less_mult_imp_div_less)
  then show ?thesis by (auto simp: file_pos_def cluster_secs_def Let_def)
qed

lemma same_cluster_secs: "same_volume s t \<Longrightarrow> cluster_secs t c = cluster_secs s c"
  by (simp add: same_volume_geometry)

lemma nth_patch:
  assumes "off + length bs \<le> length xs" "i < length xs"
  shows "(take off xs @ bs @ drop (off + length bs) xs) ! i =
    (if off \<le> i \<and> i < off + length bs then bs ! (i - off) else xs ! i)"
  using assms by (auto simp: nth_append min_def)

text \<open>Positions in a cluster and in its sectors.\<close>

lemma chunk_in_sector:
  assumes "0 < SECS_PER_CLUSTER s" "o' = of_offset f mod cluster_bytes s" "n = chunk_len s f k"
  shows "o' mod SECTOR_SIZE + n \<le> SECTOR_SIZE" "o' + n \<le> cluster_bytes s"
    "o' \<le> i \<and> i < o' + n \<longleftrightarrow> i div SECTOR_SIZE = o' div SECTOR_SIZE \<and>
       o' mod SECTOR_SIZE \<le> i mod SECTOR_SIZE \<and> i mod SECTOR_SIZE < o' mod SECTOR_SIZE + n"
    "i div SECTOR_SIZE = o' div SECTOR_SIZE \<Longrightarrow> i mod SECTOR_SIZE - o' mod SECTOR_SIZE = i - o'"
proof -
  have n: "n \<le> SECTOR_SIZE - o' mod SECTOR_SIZE" using assms(2,3) by (simp add: chunk_len_def file_pos_def Let_def)
  have m: "o' mod SECTOR_SIZE < SECTOR_SIZE" by (simp add: SECTOR_SIZE_def)
  show 1: "o' mod SECTOR_SIZE + n \<le> SECTOR_SIZE" using n m by linarith
  have o: "o' = o' div SECTOR_SIZE * SECTOR_SIZE + o' mod SECTOR_SIZE" and i: "i = i div SECTOR_SIZE * SECTOR_SIZE + i mod SECTOR_SIZE"
    by simp_all
  have "o' < SECS_PER_CLUSTER s * SECTOR_SIZE" using assms(1,2) by (simp add: cluster_bytes_def SECTOR_SIZE_def)
  then have "Suc (o' div SECTOR_SIZE) \<le> SECS_PER_CLUSTER s" by (simp add: less_mult_imp_div_less Suc_leI)
  then have "Suc (o' div SECTOR_SIZE) * SECTOR_SIZE \<le> cluster_bytes s"
    unfolding cluster_bytes_def by (rule mult_le_mono1)
  then show "o' + n \<le> cluster_bytes s" using o 1 unfolding mult_Suc by linarith
  have same: "i div SECTOR_SIZE = o' div SECTOR_SIZE" if "o' \<le> i" "i < o' + n"
  proof (rule antisym)
    show "o' div SECTOR_SIZE \<le> i div SECTOR_SIZE" using that(1) by (rule div_le_mono)
    have "i < Suc (o' div SECTOR_SIZE) * SECTOR_SIZE" using that(2) o 1 unfolding mult_Suc by linarith
    then show "i div SECTOR_SIZE \<le> o' div SECTOR_SIZE" by (simp add: less_mult_imp_div_less less_Suc_eq_le [symmetric])
  qed
  show "o' \<le> i \<and> i < o' + n \<longleftrightarrow> i div SECTOR_SIZE = o' div SECTOR_SIZE \<and>
       o' mod SECTOR_SIZE \<le> i mod SECTOR_SIZE \<and> i mod SECTOR_SIZE < o' mod SECTOR_SIZE + n"
    using same o i by (metis add.assoc nat_add_left_cancel_le nat_add_left_cancel_less)
  show "i div SECTOR_SIZE = o' div SECTOR_SIZE \<Longrightarrow> i mod SECTOR_SIZE - o' mod SECTOR_SIZE = i - o'"
    using o i by (metis diff_add_inverse2 diff_diff_left add_diff_cancel_left)
qed

lemma patch_byte:
  assumes "coh s" "lone_cluster s c" "of_cur_cluster f = c" "o' = of_offset f mod cluster_bytes s" "n = chunk_len s f k"
    "length bs = n" "i < cluster_bytes s"
  shows "byte_at (patch_sec (fst (file_pos s f)) (snd (file_pos s f)) bs s) c i =
    (if o' \<le> i \<and> i < o' + n then bs ! (i - o') else byte_at s c i)"
proof -
  have spc: "0 < SECS_PER_CLUSTER s" using assms(2) by (simp add: lone_cluster_def)
  note ch = chunk_in_sector [OF spc assms(4,5)]
  have pos: "fst (file_pos s f) = cluster_lba s c + o' div SECTOR_SIZE" "snd (file_pos s f) = o' mod SECTOR_SIZE"
    using assms(3,4) by (simp_all add: file_pos_def Let_def)
  have len: "length (DISK s (cluster_lba s c + o' div SECTOR_SIZE)) = SECTOR_SIZE"
    using file_sector [OF spc, of f] assms(2,3) unfolding pos by (simp add: lone_cluster_def)
  let ?t = "patch_sec (fst (file_pos s f)) (snd (file_pos s f)) bs s"
  have v: "cluster_lba ?t = cluster_lba s" using same_volume_geometry(1) [OF patch_sec_effect(3) [OF assms(1)]] .
  have d: "DISK ?t = (DISK s)(cluster_lba s c + o' div SECTOR_SIZE :=
      take (o' mod SECTOR_SIZE) (DISK s (cluster_lba s c + o' div SECTOR_SIZE)) @ bs @
      drop (o' mod SECTOR_SIZE + length bs) (DISK s (cluster_lba s c + o' div SECTOR_SIZE)))"
    unfolding patch_sec_effect(1) [OF assms(1)] pos ..
  have "i mod SECTOR_SIZE < SECTOR_SIZE" by (simp add: SECTOR_SIZE_def)
  then have "DISK ?t (cluster_lba s c + i div SECTOR_SIZE) ! (i mod SECTOR_SIZE) =
      (if i div SECTOR_SIZE = o' div SECTOR_SIZE \<and> o' mod SECTOR_SIZE \<le> i mod SECTOR_SIZE \<and> i mod SECTOR_SIZE < o' mod SECTOR_SIZE + n
       then bs ! (i mod SECTOR_SIZE - o' mod SECTOR_SIZE) else DISK s (cluster_lba s c + i div SECTOR_SIZE) ! (i mod SECTOR_SIZE))"
    unfolding d using ch(1) len assms(6) nth_patch [of "o' mod SECTOR_SIZE" bs "DISK s (cluster_lba s c + o' div SECTOR_SIZE)" "i mod SECTOR_SIZE"]
    by simp
  then show ?thesis unfolding byte_at_def v using ch(3) [of i] ch(4) [of i] by simp
qed

lemma lone_cluster_patch:
  assumes "coh s" "lone_cluster s c" "of_cur_cluster f = c" "snd (file_pos s f) + length bs \<le> SECTOR_SIZE"
  shows "lone_cluster (patch_sec (fst (file_pos s f)) (snd (file_pos s f)) bs s) c"
    "l \<notin> set (cluster_secs s c) \<Longrightarrow> DISK (patch_sec (fst (file_pos s f)) (snd (file_pos s f)) bs s) l = DISK s l"
proof -
  let ?l = "fst (file_pos s f)" and ?t = "patch_sec (fst (file_pos s f)) (snd (file_pos s f)) bs s"
  have l: "?l \<in> set (cluster_secs s c)" using file_sector [of s f] assms(2,3) by (simp add: lone_cluster_def)
  note e = patch_sec_effect [OF assms(1), of ?l "snd (file_pos s f)" bs]
  have v: "cluster_secs ?t = cluster_secs s" "fat_lba ?t c = fat_lba s c" "BYTES_PER_SEC ?t = BYTES_PER_SEC s" "SECS_PER_CLUSTER ?t = SECS_PER_CLUSTER s"
    using e(3) by (simp_all add: same_volume_geometry fat_lba_def) (simp_all add: same_volume_def)
  show out: "l \<notin> set (cluster_secs s c) \<Longrightarrow> DISK ?t l = DISK s l" for l using e(1) l by auto
  have "fat_entry ?t c = fat_entry s c" using assms(2) out v by (simp add: fat_entry_def lone_cluster_def)
  moreover have "length (DISK ?t k) = SECTOR_SIZE" if "k \<in> set (cluster_secs s c)" for k
    using that assms(2,4) l by (auto simp: e(1) lone_cluster_def min_def)
  ultimately show "lone_cluster ?t c" using assms(2) v by (simp add: lone_cluster_def)
qed

lemma write_chunk_effect:
  assumes "coh s" "lone_cluster s c" "of_cur_cluster f = c" "dn < length buf" "of_offset f + (length buf - dn) < 2 ^ 32"
    and w: "write_chunk buf dn f s = (s', f', dn')" and n: "n = chunk_len s f (length buf - dn)"
    and o: "o' = of_offset f mod cluster_bytes s"
  shows "coh s'" "same_volume s s'" "lone_cluster s' c" "\<And>l. l \<notin> set (cluster_secs s c) \<Longrightarrow> DISK s' l = DISK s l"
    "f' = f\<lparr>of_offset := of_offset f + n, of_size := max (of_size f) (of_offset f + n)\<rparr>"
    "\<And>i. i < cluster_bytes s \<Longrightarrow> byte_at s' c i = (if o' \<le> i \<and> i < o' + n then buf ! (dn + (i - o')) else byte_at s c i)"
proof -
  let ?bs = "take n (drop dn buf)"
  let ?t = "patch_sec (fst (file_pos s f)) (snd (file_pos s f)) ?bs s"
  let ?f = "f\<lparr>of_offset := of_offset f + n, of_size := max (of_size f) (of_offset f + n)\<rparr>"
  have nle: "n \<le> length buf - dn" using n by simp
  have len: "length ?bs = n" using nle by simp
  have nth_chunk: "?bs ! (i - o') = buf ! (dn + (i - o'))" if "i < o' + n" "o' \<le> i" for i using that nle by simp
  have spc: "0 < SECS_PER_CLUSTER s" using assms(2) by (simp add: lone_cluster_def)
  have fit: "snd (file_pos s f) + length ?bs \<le> SECTOR_SIZE"
    using chunk_in_sector(1) [OF spc o n] o len by (simp add: file_pos_def Let_def)
  note e = patch_sec_effect [OF assms(1), of "fst (file_pos s f)" "snd (file_pos s f)" ?bs]
  note lone = lone_cluster_patch [OF assms(1-3) fit]
  have off: "(of_offset f + n) mod 2 ^ 32 = of_offset f + n" using assms(5) nle by simp
  have "coh s' \<and> same_volume s s' \<and> DISK s' = DISK ?t \<and> f' = ?f"
  proof (cases "(of_offset f + n) mod cluster_bytes ?t = 0")
    case True
    obtain u nx where g: "fat_get (of_cur_cluster f) ?t = (u, nx)" by (cases "fat_get (of_cur_cluster f) ?t")
    note r = fat_get_read [OF e(2) g]
    have "is_eoc nx" using r(1) lone(1) assms(3) by (simp add: lone_cluster_def)
    then show ?thesis using w n off True g r(2,3) same_volume_trans [OF e(3) r(4)]
      by (auto simp: write_chunk_def Let_def)
  next
    case False
    then show ?thesis using w n off e(2,3) by (auto simp: write_chunk_def Let_def)
  qed
  then have *: "coh s'" "same_volume s s'" "DISK s' = DISK ?t" "f' = ?f" by auto
  show "coh s'" "same_volume s s'" "f' = ?f" using * by auto
  show "\<And>l. l \<notin> set (cluster_secs s c) \<Longrightarrow> DISK s' l = DISK s l" using lone(2) *(3) by simp
  show "lone_cluster s' c" using lone(1) *(2,3) e(3)
    by (simp add: lone_cluster_def fat_entry_def fat_lba_def same_volume_def cluster_secs_def cluster_lba_def)
  have "byte_at s' c i = byte_at ?t c i" for i
    using *(2,3) e(3) by (simp add: byte_at_def same_volume_geometry)
  then have b: "byte_at s' c = byte_at ?t c" ..
  show "\<And>i. i < cluster_bytes s \<Longrightarrow> byte_at s' c i = (if o' \<le> i \<and> i < o' + n then buf ! (dn + (i - o')) else byte_at s c i)"
    unfolding b patch_byte [OF assms(1-3) o n len] by (auto simp: nth_chunk simp del: nth_take)
qed

section \<open>Writing in a cluster that ends its chain\<close>

text \<open>What writing bytes one after another, around the \<open>cb\<close> bytes of a cluster, makes of its contents \<open>g\<close>.\<close>

fun wrap_write :: "nat \<Rightarrow> nat \<Rightarrow> u8 list \<Rightarrow> (nat \<Rightarrow> u8) \<Rightarrow> nat \<Rightarrow> u8" where
  "wrap_write cb o' [] g = g"
| "wrap_write cb o' (b # bs) g = wrap_write cb (o' + 1) bs (g(o' mod cb := b))"

lemma wrap_append: "wrap_write cb o' (xs @ ys) g = wrap_write cb (o' + length xs) ys (wrap_write cb o' xs g)"
  by (induction xs arbitrary: o' g) auto

lemma wrap_cong:
  assumes "\<And>i. i < cb \<Longrightarrow> g i = h i" "i < cb"
  shows "wrap_write cb o' bs g i = wrap_write cb o' bs h i"
  using assms(1)
proof (induction bs arbitrary: o' g h)
  case (Cons b bs)
  show ?case unfolding wrap_write.simps by (rule Cons.IH) (use Cons.prems in simp)
qed (use assms(2) in simp)

lemma wrap_chunk:
  assumes "o' mod cb + length bs \<le> cb"
  shows "wrap_write cb o' bs g i = (if o' mod cb \<le> i \<and> i < o' mod cb + length bs then bs ! (i - o' mod cb) else g i)"
  using assms
proof (induction bs arbitrary: o' g)
  case (Cons b bs)
  show ?case
  proof (cases bs)
    case Nil
    then show ?thesis by auto
  next
    case (Cons b' bs')
    then have "Suc (o' mod cb) < cb" using Cons.prems by simp
    then have m: "Suc o' mod cb = Suc (o' mod cb)" by (simp add: mod_Suc)
    have "wrap_write cb o' (b # bs) g i = wrap_write cb (o' + 1) bs (g(o' mod cb := b)) i" by simp
    also have "\<dots> = (if (o' + 1) mod cb \<le> i \<and> i < (o' + 1) mod cb + length bs then bs ! (i - (o' + 1) mod cb)
        else (g(o' mod cb := b)) i)"
      by (rule Cons.IH) (use Cons.prems m in simp)
    finally show ?thesis using m by (auto simp: nth_Cons')
  qed
qed auto

lemma write_loop_lone:
  assumes "coh s" "lone_cluster s c" "of_cur_cluster f = c" "dn \<le> length buf"
    "of_offset f + (length buf - dn) < 2 ^ 32" "of_offset f \<le> of_size f"
  shows "\<exists>s'. write_loop fuel buf dn f s =
      Val (s', f\<lparr>of_offset := of_offset f + (length buf - dn), of_size := max (of_size f) (of_offset f + (length buf - dn))\<rparr>, length buf) \<and>
    coh s' \<and> same_volume s s' \<and> lone_cluster s' c \<and> (\<forall>l. l \<notin> set (cluster_secs s c) \<longrightarrow> DISK s' l = DISK s l) \<and>
    (\<forall>i < cluster_bytes s. byte_at s' c i = wrap_write (cluster_bytes s) (of_offset f) (drop dn buf) (byte_at s c) i)"
  using assms
proof (induction "length buf - dn" arbitrary: dn f s rule: less_induct)
  case less
  show ?case
  proof (cases "dn = length buf")
    case True
    then show ?thesis using less.prems by (subst write_loop.simps) (auto simp: max_def)
  next
    case False
    then have dn: "dn < length buf" using less.prems by simp
    obtain s1 f1 dn1 where w: "write_chunk buf dn f s = (s1, f1, dn1)" by (cases "write_chunk buf dn f s")
    let ?n = "chunk_len s f (length buf - dn)" and ?o = "of_offset f mod cluster_bytes s"
    note e = write_chunk_effect [OF less.prems(1-3) dn less.prems(5) w refl refl]
    have n: "0 < ?n" "?n \<le> length buf - dn" using dn by simp_all
    have d: "dn1 = dn + ?n" by (rule write_chunk_done [OF w])
    have rem: "?n + (length buf - dn1) = length buf - dn" "length buf - dn1 < length buf - dn" "dn1 \<le> length buf"
      using n d by linarith+
    have off: "of_offset f1 + (length buf - dn1) < 2 ^ 32" "of_offset f1 \<le> of_size f1" "of_cur_cluster f1 = c"
      using e(5) rem(1) less.prems(3,5) by simp_all
    have step: "write_loop fuel buf dn f s = write_loop fuel buf dn1 f1 s1"
      using dn less.prems(2,3) w by (subst write_loop.simps) (simp add: extend_file_def lone_cluster_def)
    have "\<exists>s'. write_loop fuel buf dn1 f1 s1 =
        Val (s', f1\<lparr>of_offset := of_offset f1 + (length buf - dn1), of_size := max (of_size f1) (of_offset f1 + (length buf - dn1))\<rparr>, length buf) \<and>
      coh s' \<and> same_volume s1 s' \<and> lone_cluster s' c \<and> (\<forall>l. l \<notin> set (cluster_secs s1 c) \<longrightarrow> DISK s' l = DISK s1 l) \<and>
      (\<forall>i < cluster_bytes s1. byte_at s' c i = wrap_write (cluster_bytes s1) (of_offset f1) (drop dn1 buf) (byte_at s1 c) i)"
      by (rule less.hyps [OF rem(2) e(1,3) off(3) rem(3) off(1,2)])
    then obtain s' where s': "write_loop fuel buf dn1 f1 s1 =
        Val (s', f1\<lparr>of_offset := of_offset f1 + (length buf - dn1), of_size := max (of_size f1) (of_offset f1 + (length buf - dn1))\<rparr>, length buf)"
      "coh s'" "same_volume s1 s'" "lone_cluster s' c" "\<forall>l. l \<notin> set (cluster_secs s c) \<longrightarrow> DISK s' l = DISK s1 l"
      "\<forall>i < cluster_bytes s. byte_at s' c i = wrap_write (cluster_bytes s) (of_offset f + ?n) (drop dn1 buf) (byte_at s1 c) i"
      using same_volume_geometry [OF e(2)] e(5) by auto
    have spc: "0 < SECS_PER_CLUSTER s" using less.prems(2) by (simp add: lone_cluster_def)
    have split: "drop dn buf = take ?n (drop dn buf) @ drop dn1 buf"
      unfolding d by (metis append_take_drop_id drop_drop add.commute)
    have b1: "byte_at s1 c i = wrap_write (cluster_bytes s) (of_offset f) (take ?n (drop dn buf)) (byte_at s c) i" if "i < cluster_bytes s" for i
    proof -
      have ln: "length (take ?n (drop dn buf)) = ?n" using n by simp
      have nth: "take ?n (drop dn buf) ! (i - ?o) = buf ! (dn + (i - ?o))" if "?o \<le> i" "i < ?o + ?n" for i
        using that dn by simp
      have "wrap_write (cluster_bytes s) (of_offset f) (take ?n (drop dn buf)) (byte_at s c) i =
          (if ?o \<le> i \<and> i < ?o + ?n then take ?n (drop dn buf) ! (i - ?o) else byte_at s c i)"
        using wrap_chunk [of "of_offset f" "cluster_bytes s" "take ?n (drop dn buf)" "byte_at s c" i]
          chunk_in_sector(2) [OF spc refl refl, of f "length buf - dn"] unfolding ln by blast
      then show ?thesis using e(6) [OF that] nth [of i] by (simp del: nth_take)
    qed
    have "\<forall>i < cluster_bytes s. byte_at s' c i = wrap_write (cluster_bytes s) (of_offset f) (drop dn buf) (byte_at s c) i"
    proof (intro allI impI)
      fix i assume i: "i < cluster_bytes s"
      have "wrap_write (cluster_bytes s) (of_offset f) (drop dn buf) (byte_at s c) i =
          wrap_write (cluster_bytes s) (of_offset f + ?n) (drop dn1 buf) (wrap_write (cluster_bytes s) (of_offset f) (take ?n (drop dn buf)) (byte_at s c)) i"
        by (subst split, subst wrap_append) (use n in simp)
      then show "byte_at s' c i = wrap_write (cluster_bytes s) (of_offset f) (drop dn buf) (byte_at s c) i"
        using s'(6) i wrap_cong [OF b1 i] by simp
    qed
    moreover have "\<forall>l. l \<notin> set (cluster_secs s c) \<longrightarrow> DISK s' l = DISK s l" using s'(5) e(4) by simp
    ultimately show ?thesis using step s'(1-4) same_volume_trans [OF e(2)] e(5) rem by (auto simp: add.assoc max_def)
  qed
qed

section \<open>Reading it back\<close>

lemma read_loop_lone:
  assumes "coh s" "lone_cluster s c" "of_cur_cluster f = c" "of_offset f + (want - length acc) \<le> cluster_bytes s"
    "cluster_bytes s < 2 ^ 32" "length acc \<le> want"
  shows "\<exists>s' f'. read_loop want acc f s = (s', f', acc @ map (byte_at s c) [of_offset f..<of_offset f + (want - length acc)])"
  using assms
proof (induction "want - length acc" arbitrary: acc f s rule: less_induct)
  case less
  show ?case
  proof (cases "length acc = want")
    case True
    then show ?thesis by (subst read_loop.simps) auto
  next
    case False
    then have lt: "length acc < want" using less.prems by simp
    have o: "of_offset f < cluster_bytes s" using lt less.prems(4) by simp
    then have om: "of_offset f mod cluster_bytes s = of_offset f" by simp
    obtain s1 sec where c: "csec (fst (file_pos s f)) s = (s1, sec)" by (cases "csec (fst (file_pos s f)) s")
    have r: "sec = DISK s (fst (file_pos s f))" "coh s1" "DISK s1 = DISK s" using csec_read [OF less.prems(1) c] by auto
    have v: "same_volume s s1" using c by (metis csec_fields(1-5) fst_conv same_volume_def)
    note g = same_volume_geometry [OF v]
    have lone: "lone_cluster s1 c" using less.prems(2) r(3) v g
      by (simp add: lone_cluster_def fat_entry_def fat_lba_def same_volume_def)
    have spc: "0 < SECS_PER_CLUSTER s" using less.prems(2) by (simp add: lone_cluster_def)
    let ?n = "chunk_len s f (want - length acc)"
    let ?acc = "acc @ slice (snd (file_pos s f)) ?n sec" and ?f = "f\<lparr>of_offset := of_offset f + ?n\<rparr>"
    have n: "0 < ?n" "?n \<le> want - length acc" using lt by simp_all
    have "of_offset f + ?n < 2 ^ 32" using n(2) less.prems(4,5) by linarith
    then have wrap: "(of_offset f + ?n) mod 2 ^ 32 = of_offset f + ?n" by simp
    have chunk: "slice (snd (file_pos s f)) ?n sec = map (byte_at s c) [of_offset f..<of_offset f + ?n]"
    proof (rule nth_equalityI)
      fix j assume "j < length (slice (snd (file_pos s f)) ?n sec)"
      then have j: "j < ?n" by simp
      have k: "(of_offset f + j) div SECTOR_SIZE = of_offset f div SECTOR_SIZE"
        "(of_offset f + j) mod SECTOR_SIZE = of_offset f mod SECTOR_SIZE + j"
        using chunk_in_sector(3) [OF spc refl refl, where f = f and i = "of_offset f + j" and k = "want - length acc"]
          chunk_in_sector(4) [OF spc refl refl, where f = f and i = "of_offset f + j"] j unfolding om by auto
      show "slice (snd (file_pos s f)) ?n sec ! j = map (byte_at s c) [of_offset f..<of_offset f + ?n] ! j"
        using j k less.prems(3) r(1) om by (simp add: slice_def byte_at_def file_pos_def Let_def)
    qed simp
    have stay: "\<not> ((of_offset f + ?n) mod cluster_bytes s = 0 \<and> length ?acc < want)"
    proof
      assume h: "(of_offset f + ?n) mod cluster_bytes s = 0 \<and> length ?acc < want"
      then have "length acc + ?n < want" by simp
      then have "of_offset f + ?n < cluster_bytes s" using less.prems(4) by linarith
      then show False using h n(1) by simp
    qed
    have m: "want - (length acc + ?n) < want - length acc" "of_offset f + ?n + (want - (length acc + ?n)) \<le> cluster_bytes s"
      "length acc + ?n \<le> want" "of_offset f + ?n + (want - (length acc + ?n)) = of_offset f + (want - length acc)"
      using n less.prems(4) by linarith+
    have step: "read_loop want acc f s = read_loop want ?acc ?f s1"
      using lt less.prems(2,3) stay by (subst read_loop.simps) (auto simp: c g lone_cluster_def wrap [simplified] Let_def)
    have "\<exists>s' f'. read_loop want ?acc ?f s1 = (s', f', ?acc @ map (byte_at s1 c) [of_offset ?f..<of_offset ?f + (want - length ?acc)])"
      by (rule less.hyps) (use m less.prems(3,5) r(2) lone g in auto)
    moreover have "byte_at s1 c = byte_at s c" using r(3) g by (simp add: fun_eq_iff byte_at_def)
    moreover have "[of_offset f..<of_offset f + (want - length acc)] =
        [of_offset f..<of_offset f + ?n] @ [of_offset f + ?n..<of_offset f + ?n + (want - (length acc + ?n))]"
      unfolding m(4) [symmetric] by (rule upt_add_eq_append) simp
    ultimately show ?thesis using step chunk by simp
  qed
qed

section \<open>Round trips through an open file\<close>

text \<open>The file of a descriptor lies in one cluster and is positioned there.\<close>

definition small_file :: "FatState \<Rightarrow> nat \<Rightarrow> nat \<Rightarrow> bool" where
  "small_file s fd c \<longleftrightarrow> (let f = OPEN_FILES s ! fd in
     fd < MAX_OPEN \<and> length (OPEN_FILES s) = MAX_OPEN \<and> of_used f \<and> of_writable f \<and> lone_cluster s c \<and>
     of_start_cluster f = c \<and> of_cur_cluster f = c \<and> of_cur_clus_idx f = 0 \<and> of_offset f \<le> of_size f \<and>
     of_dir_lba f \<notin> set (cluster_secs s c) \<and> of_dir_lba f \<noteq> fat_lba s c \<and> cluster_bytes s < 2 ^ 31 \<and> of_offset f < 2 ^ 31)"

lemma flush_size_effect:
  assumes "coh s" "of_dir_lba f \<notin> set (cluster_secs s c)" "lone_cluster s c" "of_dir_lba f \<noteq> fat_lba s c"
  shows "coh (flush_size f s)" "same_volume s (flush_size f s)" "lone_cluster (flush_size f s) c"
    "i < cluster_bytes s \<Longrightarrow> byte_at (flush_size f s) c i = byte_at s c i"
proof -
  note e = patch_sec_effect [OF assms(1), of "of_dir_lba f" "of_dir_entry_off f + 28" "u32_le (of_size f)"]
  have d: "DISK (flush_size f s) l = DISK s l" if "l \<noteq> of_dir_lba f" for l using that e(1) by (simp add: flush_size_def)
  show "coh (flush_size f s)" using assms(1) e(2) by (simp add: flush_size_def)
  show v: "same_volume s (flush_size f s)" using e(3) by (simp add: flush_size_def)
  note g = same_volume_geometry [OF v]
  have "fat_lba (flush_size f s) c = fat_lba s c" using v by (simp add: fat_lba_def same_volume_def)
  moreover have "fat_entry (flush_size f s) c = fat_entry s c"
    using v d [of "fat_lba s c"] assms(4) by (simp add: fat_entry_def fat_lba_def same_volume_def)
  moreover have "length (DISK (flush_size f s) l) = length (DISK s l)" if "l \<in> set (cluster_secs s c)" for l
    using d [of l] that assms(2) by fastforce
  ultimately show "lone_cluster (flush_size f s) c"
    using assms(3) v g by (simp add: lone_cluster_def same_volume_def)
  assume "i < cluster_bytes s"
  then have "i div SECTOR_SIZE < SECS_PER_CLUSTER s" by (simp add: cluster_bytes_def less_mult_imp_div_less)
  then have "cluster_lba s c + i div SECTOR_SIZE \<in> set (cluster_secs s c)" by (auto simp: cluster_secs_def)
  then show "byte_at (flush_size f s) c i = byte_at s c i" using d assms(2) g by (metis byte_at_def)
qed

text \<open>Writing to a file of one cluster: the state afterwards, and what a seek and a read then give.\<close>

lemma write_small:
  assumes "coh s" "small_file s fd c" "length bs < 2 ^ 31"
  defines "f \<equiv> OPEN_FILES s ! fd"
  shows "\<exists>s1. fat_write fuel fd bs s = Val (s1, int (length bs)) \<and> coh s1 \<and> lone_cluster s1 c \<and> cluster_bytes s1 = cluster_bytes s \<and>
    OPEN_FILES s1 = (OPEN_FILES s)[fd := f\<lparr>of_offset := of_offset f + length bs, of_size := max (of_size f) (of_offset f + length bs)\<rparr>] \<and>
    (\<forall>i < cluster_bytes s. byte_at s1 c i = wrap_write (cluster_bytes s) (of_offset f) bs (byte_at s c) i)"
proof -
  have sf: "fd < MAX_OPEN" "length (OPEN_FILES s) = MAX_OPEN" "of_used f" "of_writable f" "lone_cluster s c"
    "of_cur_cluster f = c" "of_offset f \<le> of_size f" "of_dir_lba f \<notin> set (cluster_secs s c)" "of_dir_lba f \<noteq> fat_lba s c"
    "of_offset f < 2 ^ 31"
    using assms(2) by (simp_all add: small_file_def f_def Let_def)
  have "of_offset f + (length bs - 0) < 2 ^ 32" using sf(10) assms(3) by simp
  from write_loop_lone [OF assms(1) sf(5,6) _ this sf(7), of fuel]
  obtain s1 where w: "write_loop fuel bs 0 f s =
      Val (s1, f\<lparr>of_offset := of_offset f + length bs, of_size := max (of_size f) (of_offset f + length bs)\<rparr>, length bs)"
    "coh s1" "same_volume s s1" "lone_cluster s1 c"
    "\<forall>i < cluster_bytes s. byte_at s1 c i = wrap_write (cluster_bytes s) (of_offset f) bs (byte_at s c) i"
    by auto
  let ?f = "f\<lparr>of_offset := of_offset f + length bs, of_size := max (of_size f) (of_offset f + length bs)\<rparr>"
  let ?t = "set_file fd ?f s1"
  have t: "coh ?t" "lone_cluster ?t c" "byte_at ?t = byte_at s1" "cluster_secs ?t = cluster_secs s1" "fat_lba ?t = fat_lba s1"
    "cluster_bytes ?t = cluster_bytes s1" "OPEN_FILES ?t = (OPEN_FILES s)[fd := ?f]"
    using w(2,3,4)
    by (auto simp: set_file_def coh_def lone_cluster_def fat_entry_def fat_lba_def cluster_secs_def cluster_lba_def byte_at_def
        cluster_bytes_def fun_eq_iff same_volume_def)
  have g: "cluster_secs s1 = cluster_secs s" "fat_lba s1 c = fat_lba s c" "cluster_bytes s1 = cluster_bytes s"
    using same_volume_geometry [OF w(3)] w(3) by (simp_all add: fat_lba_def same_volume_def)
  have d: "of_dir_lba ?f \<notin> set (cluster_secs ?t c)" "of_dir_lba ?f \<noteq> fat_lba ?t c" using sf(8,9) t g by simp_all
  note e = flush_size_effect [OF t(1) d(1) t(2) d(2)]
  have "fat_write fuel fd bs s = Val (flush_size ?f ?t, int (length bs))"
    using w(1) sf by (simp add: fat_write_def fd_valid_def f_def)
  moreover have "OPEN_FILES (flush_size ?f ?t) = (OPEN_FILES s)[fd := ?f]" using e(2) t(7) by (simp add: same_volume_def)
  moreover have "cluster_bytes (flush_size ?f ?t) = cluster_bytes s" using same_volume_geometry(2) [OF e(2)] t(6) g(3) by simp
  ultimately show ?thesis using e(1,3,4) w(5) t(3,6) g(3) by auto
qed

lemma seek_read_small:
  assumes "coh s" "lone_cluster s c" "fd < MAX_OPEN" "length (OPEN_FILES s) = MAX_OPEN" "cluster_bytes s < 2 ^ 31"
    and f: "OPEN_FILES s ! fd = f" "of_used f" "of_cur_cluster f = c" "of_cur_clus_idx f = 0"
    and k: "0 < k" "p + k \<le> cluster_bytes s" "p + k \<le> of_size f"
  shows "\<exists>s1 s2. fat_seek fd p s = (s1, 0) \<and> fat_read fd k s1 = (s2, int k, map (byte_at s c) [p..<p + k])"
proof -
  let ?f = "f\<lparr>of_cur_cluster := c, of_cur_clus_idx := 0, of_offset := p\<rparr>"
  let ?t = "set_file fd ?f s"
  have seek: "fat_seek fd p s = (?t, 0)"
    using assms k by (simp add: fat_seek_def fd_valid_def)
  have t: "coh ?t" "lone_cluster ?t c" "byte_at ?t c = byte_at s c" "cluster_bytes ?t = cluster_bytes s" "OPEN_FILES ?t ! fd = ?f"
    using assms(1-4)
    by (auto simp: set_file_def coh_def lone_cluster_def fat_entry_def fat_lba_def cluster_secs_def cluster_lba_def byte_at_def
        cluster_bytes_def fun_eq_iff)
  obtain u g where "read_loop k [] ?f ?t = (u, g, [] @ map (byte_at ?t c) [of_offset ?f..<of_offset ?f + (k - length ([] :: u8 list))])"
    using read_loop_lone [OF t(1,2), of ?f k "[]"] k t(4) assms(5) by auto
  moreover have "min k (of_size f - p) = k" "of_size f - p \<noteq> 0" using k by linarith+
  ultimately have "fat_read fd k ?t = (set_file fd g u, int k, map (byte_at s c) [p..<p + k])"
    using assms(3,4) f t(3,5) by (simp add: fat_read_def fd_valid_def Let_def)
  then show ?thesis using seek by blast
qed

text \<open>A volume of eight clusters of one sector with one open file in cluster 3, whose table sector is cached.\<close>

definition fat_table_example :: "u8 list" where
  "fat_table_example = u32_le 0x0FFFFFF8 @ u32_le 0x0FFFFFFF @ u32_le 0x0FFFFFFF @ u32_le 0x0FFFFFFF @ replicate 496 0"

definition file_example :: OpenFile where
  "file_example = EMPTY_FILE\<lparr>of_used := True, of_writable := True, of_start_cluster := 3, of_cur_cluster := 3, of_dir_lba := 2\<rparr>"

definition fat_example :: FatState where
  "fat_example = \<lparr>DISK = (\<lambda>l. if l = 1 then fat_table_example else replicate 512 0), F_READY = True, PART_LBA = 0,
     BYTES_PER_SEC = 512, SECS_PER_CLUSTER = 1, FAT_START = 1, DATA_START = 2, ROOT_CLUSTER = 2, TOTAL_CLUSTERS = 6, FREE_HINT = 4,
     CTAG = (replicate 16 None)[1 := Some 1], CDATA = (replicate 16 [])[1 := fat_table_example],
     OPEN_FILES = file_example # replicate 7 EMPTY_FILE\<rparr>"

lemma fat_example_coh: "coh fat_example"
  by (auto simp: coh_def fat_example_def CACHE_SLOTS_def nth_list_update split: if_splits)

lemma fat_example_file:
  "OPEN_FILES fat_example ! 0 = file_example" "cluster_bytes fat_example = 512" "small_file fat_example 0 3"
proof -
  show 1: "OPEN_FILES fat_example ! 0 = file_example" "cluster_bytes fat_example = 512"
    by (simp_all add: fat_example_def cluster_bytes_def SECTOR_SIZE_def)
  have e: "fat_entry fat_example 3 = 0x0FFFFFFF" by code_simp
  have "cluster_secs fat_example 3 = [3]" "fat_lba fat_example 3 = 1"
    by (simp_all add: cluster_secs_def cluster_lba_def fat_example_def fat_lba_def)
  then show "small_file fat_example 0 3"
    using 1 e by (simp add: small_file_def lone_cluster_def is_eoc_def FAT_EOC_MIN_def MAX_OPEN_def)
      (simp add: fat_example_def file_example_def EMPTY_FILE_def SECTOR_SIZE_def)
qed

text \<open>
  C28. The sector cache is transparent.  From a state whose cache is coherent with the device, every
  sequence of operations gives the same results as from the same state with an empty cache, leaves the
  same contents on the device and the same open files, and keeps the cache coherent; it hangs or panics
  exactly when the run without cached sectors does.
\<close>

theorem cache_transparent:
  assumes "coh s"
  shows "rel_out (\<lambda>(s', rs) (t', rs'). rs' = rs \<and> DISK t' = DISK s' \<and> OPEN_FILES t' = OPEN_FILES s' \<and> coh s')
    (fat_run fuel ops s) (fat_run fuel ops (empty_cache s))"
proof -
  have "coh (empty_cache s)" by (simp add: coh_def empty_cache_def)
  then have "sim s (empty_cache s)" using assms by (simp add: sim_def empty_cache_def)
  then have r: "rel_out rel (fat_run fuel ops s) (fat_run fuel ops (empty_cache s))" by (rule rel_fat_run)
  have "(\<lambda>(s', rs) (t', rs'). rs' = rs \<and> DISK t' = DISK s' \<and> OPEN_FILES t' = OPEN_FILES s' \<and> coh s') x y"
    if "rel x y" for x y :: "FatState \<times> fat_res list"
    using that sim_fields(1,11) [of "fst x" "fst y"] sim_coh [of "fst x" "fst y"] by (auto simp: rel_def)
  with r show ?thesis
    by (cases "fat_run fuel ops s"; cases "fat_run fuel ops (empty_cache s)") auto
qed

theorem cache_transparent_witness:
  "\<exists>s' t'. fat_run 1 [FOpen [47, 65]] fat_example = Val (s', [RFd None]) \<and> coh s' \<and>
     fat_run 1 [FOpen [47, 65]] (empty_cache fat_example) = Val (t', [RFd None]) \<and> DISK t' = DISK s'"
proof -
  have "\<exists>s'. fat_run 1 [FOpen [47, 65]] fat_example = Val (s', [RFd None])"
    by (simp add: out_map_def fat_open_def resolve_def path_parts_def scan_dir_def cluster_secs_def cluster_lba_def is_eoc_def FAT_EOC_MIN_def
        csec_def CACHE_SLOTS_def ENTRY_OFFS_def scan_entry_def fat_example_def upt_conv_Cons)
  then show ?thesis
    using cache_transparent [OF fat_example_coh, of 1 "[FOpen [47, 65]]"]
    by (cases "fat_run 1 [FOpen [47, 65]] (empty_cache fat_example)") auto
qed

text \<open>
  C29. What is written to a file that lies in one cluster is read back: after a write of at least one
  byte that ends within the cluster, seeking to where it started and reading as many bytes gives the
  bytes written, whatever the file held and whatever the cache holds.
\<close>

theorem fat_write_read:
  assumes "coh s" "small_file s fd c" "bs \<noteq> []" "of_offset (OPEN_FILES s ! fd) + length bs \<le> cluster_bytes s"
  shows "\<exists>s1 s2 s3. fat_write fuel fd bs s = Val (s1, int (length bs)) \<and>
    fat_seek fd (of_offset (OPEN_FILES s ! fd)) s1 = (s2, 0) \<and> fat_read fd (length bs) s2 = (s3, int (length bs), bs)"
proof -
  let ?f = "OPEN_FILES s ! fd" and ?cb = "cluster_bytes s"
  let ?g = "?f\<lparr>of_offset := of_offset ?f + length bs, of_size := max (of_size ?f) (of_offset ?f + length bs)\<rparr>"
  have sf: "fd < MAX_OPEN" "length (OPEN_FILES s) = MAX_OPEN" "of_used ?f" "of_cur_cluster ?f = c" "of_cur_clus_idx ?f = 0" "?cb < 2 ^ 31"
    using assms(2) by (simp_all add: small_file_def Let_def)
  have "length bs < 2 ^ 31" using assms(4) sf(6) by linarith
  then obtain s1 where w: "fat_write fuel fd bs s = Val (s1, int (length bs))" "coh s1" "lone_cluster s1 c" "cluster_bytes s1 = ?cb"
    "OPEN_FILES s1 = (OPEN_FILES s)[fd := ?g]" "\<forall>i < ?cb. byte_at s1 c i = wrap_write ?cb (of_offset ?f) bs (byte_at s c) i"
    using write_small [OF assms(1,2)] by blast
  have "\<exists>s2 s3. fat_seek fd (of_offset ?f) s1 = (s2, 0) \<and>
      fat_read fd (length bs) s2 = (s3, int (length bs), map (byte_at s1 c) [of_offset ?f..<of_offset ?f + length bs])"
    by (rule seek_read_small [where f = ?g]) (use sf w assms(3,4) in auto)
  moreover have "map (byte_at s1 c) [of_offset ?f..<of_offset ?f + length bs] = bs"
  proof (rule nth_equalityI)
    fix j assume "j < length (map (byte_at s1 c) [of_offset ?f..<of_offset ?f + length bs])"
    then have j: "j < length bs" by simp
    have o: "of_offset ?f mod ?cb = of_offset ?f" using j assms(4) by simp
    show "map (byte_at s1 c) [of_offset ?f..<of_offset ?f + length bs] ! j = bs ! j"
      using j w(6) assms(4) wrap_chunk [of "of_offset ?f" ?cb bs "byte_at s c" "of_offset ?f + j"] by (simp add: o)
  qed simp
  ultimately show ?thesis using w(1) by auto
qed

theorem fat_write_read_witness:
  "\<exists>s1 s2 s3. fat_write 0 0 [10, 20, 30] fat_example = Val (s1, 3) \<and> fat_seek 0 0 s1 = (s2, 0) \<and>
     fat_read 0 3 s2 = (s3, 3, [10, 20, 30])"
  using fat_write_read [OF fat_example_coh fat_example_file(3), of "[10, 20, 30]" 0] fat_example_file(1,2)
  by (simp add: file_example_def EMPTY_FILE_def eval_nat_numeral)

text \<open>
  A file does not grow beyond its first cluster.  Writing a cluster and \<open>k\<close> more bytes to an empty
  one-cluster file from its start reports every byte written, but the excess goes to the start of the same
  cluster: reading the first \<open>k\<close> bytes back gives the last ones written.
\<close>

theorem fat_write_wraps:
  assumes "coh s" "small_file s fd c" "of_offset (OPEN_FILES s ! fd) = 0"
    and "length bs = cluster_bytes s + k" "0 < k" "k \<le> cluster_bytes s" "length bs < 2 ^ 31"
  shows "\<exists>s1 s2 s3. fat_write fuel fd bs s = Val (s1, int (length bs)) \<and>
    fat_seek fd 0 s1 = (s2, 0) \<and> fat_read fd k s2 = (s3, int k, drop (cluster_bytes s) bs)"
proof -
  let ?f = "OPEN_FILES s ! fd" and ?cb = "cluster_bytes s"
  let ?g = "?f\<lparr>of_offset := of_offset ?f + length bs, of_size := max (of_size ?f) (of_offset ?f + length bs)\<rparr>"
  have sf: "fd < MAX_OPEN" "length (OPEN_FILES s) = MAX_OPEN" "of_used ?f" "of_cur_cluster ?f = c" "of_cur_clus_idx ?f = 0" "?cb < 2 ^ 31"
    using assms(2) by (simp_all add: small_file_def Let_def)
  obtain s1 where w: "fat_write fuel fd bs s = Val (s1, int (length bs))" "coh s1" "lone_cluster s1 c" "cluster_bytes s1 = ?cb"
    "OPEN_FILES s1 = (OPEN_FILES s)[fd := ?g]" "\<forall>i < ?cb. byte_at s1 c i = wrap_write ?cb (of_offset ?f) bs (byte_at s c) i"
    using write_small [OF assms(1,2,7)] by blast
  have "\<exists>s2 s3. fat_seek fd 0 s1 = (s2, 0) \<and> fat_read fd k s2 = (s3, int k, map (byte_at s1 c) [0..<0 + k])"
    by (rule seek_read_small [where f = ?g]) (use sf w assms(3-6) in auto)
  moreover have "map (byte_at s1 c) [0..<0 + k] = drop ?cb bs"
  proof (rule nth_equalityI)
    show "length (map (byte_at s1 c) [0..<0 + k]) = length (drop ?cb bs)" using assms(4) by simp
    fix j assume "j < length (map (byte_at s1 c) [0..<0 + k])"
    then have j: "j < k" by simp
    have ln: "length (take ?cb bs) = ?cb" "length (drop ?cb bs) = k" using assms(4) by simp_all
    have "wrap_write ?cb 0 bs (byte_at s c) j = wrap_write ?cb ?cb (drop ?cb bs) (wrap_write ?cb 0 (take ?cb bs) (byte_at s c)) j"
      using wrap_append [of ?cb 0 "take ?cb bs" "drop ?cb bs" "byte_at s c"] ln unfolding append_take_drop_id by simp
    also have "\<dots> = drop ?cb bs ! j"
      by (subst wrap_chunk) (use j assms(6) ln in \<open>simp_all del: length_drop length_take\<close>)
    finally show "map (byte_at s1 c) [0..<0 + k] ! j = drop ?cb bs ! j" using j w(6) assms(3,6) by simp
  qed
  ultimately show ?thesis using w(1) by auto
qed

theorem fat_write_wraps_witness:
  "\<exists>s1 s2 s3. fat_write 0 0 (replicate 512 7 @ [9]) fat_example = Val (s1, 513) \<and> fat_seek 0 0 s1 = (s2, 0) \<and>
     fat_read 0 1 s2 = (s3, 1, [9])"
  using fat_write_wraps [OF fat_example_coh fat_example_file(3), of "replicate 512 7 @ [9]" 1 0] fat_example_file(1,2)
  by (simp add: file_example_def EMPTY_FILE_def)

section \<open>Directory entries\<close>

definition entry_cluster :: "u8 list \<Rightarrow> nat" where "entry_cluster e = 2 ^ 16 * u16at e 20 + u16at e 26"

lemma u32_powers: "(2 :: nat) ^ 8 = 256" "(2 :: nat) ^ 16 = 65536" "(2 :: nat) ^ 24 = 16777216"
  by simp_all

lemma u32_bytes:
  "(c :: nat) = 2 ^ 24 * (c div 2 ^ 24) + 2 ^ 16 * (c div 2 ^ 16 mod 2 ^ 8) + 2 ^ 8 * (c div 2 ^ 8 mod 2 ^ 8) + c mod 2 ^ 8"
proof -
  have "c div 256 = 256 * (c div 65536) + c div 256 mod 256" "c div 65536 = 256 * (c div 16777216) + c div 65536 mod 256"
    using mult_div_mod_eq [of 256 "c div 256"] mult_div_mod_eq [of 256 "c div 65536"] by (simp_all flip: div_mult2_eq)
  then show ?thesis using mult_div_mod_eq [of 256 c] unfolding u32_powers by linarith
qed

lemma length_entry_name: "length (entry_name fname) = 11"
  by (auto simp: entry_name_def pad_name_def min_def split: option.splits)

lemma new_entry_cluster:
  "entry_cluster (new_entry fname [h0, h1] [l0, l1] sz) =
    2 ^ 16 * (unat h0 + 2 ^ 8 * unat h1) + (unat l0 + 2 ^ 8 * unat l1)"
proof -
  have [simp]: "replicate 8 (0 :: u8) = [0, 0, 0, 0, 0, 0, 0, 0]" "replicate 4 (0 :: u8) = [0, 0, 0, 0]"
    by (simp_all add: eval_nat_numeral)
  show ?thesis
    by (simp add: entry_cluster_def u16at_def new_entry_def nth_append length_entry_name)
qed



section \<open>Long names\<close>

definition dir_entry :: "FatState \<Rightarrow> nat \<Rightarrow> nat \<Rightarrow> u8 list" where
  "dir_entry s lba i = take 32 (drop (32 * i) (DISK s lba))"

text \<open>The last part of a long name, numbered 21 or higher, and an entry that names a file.\<close>

definition high_long_entry :: "u8 list \<Rightarrow> bool" where
  "high_long_entry e \<longleftrightarrow> e ! 0 \<noteq> 0 \<and> e ! 0 \<noteq> 0xE5 \<and> e ! 0 AND 0x40 \<noteq> 0 \<and> 21 \<le> unat (e ! 0 AND 0x1F) \<and> e ! 11 = ATTR_LONG_NAME"

definition file_entry :: "u8 list \<Rightarrow> bool" where
  "file_entry e \<longleftrightarrow> e ! 0 \<noteq> 0 \<and> e ! 0 \<noteq> 0xE5 \<and> e ! 0 \<noteq> 46 \<and> e ! 11 \<noteq> ATTR_LONG_NAME \<and> e ! 11 AND ATTR_VOLUME_ID = 0"

lemma high_long_entry_scanned:
  assumes "high_long_entry e"
  obtains a' where "scan_entry cb lba off e a = SNext a'" "sc_active a'" "sc_len a' > 255"
proof -
  have "sc_active (lfn_entry e a) \<and> sc_len (lfn_entry e a) > 255"
    using assms by (auto simp: high_long_entry_def lfn_entry_def Let_def split: prod.splits)
  then show ?thesis using assms that by (auto simp: scan_entry_def high_long_entry_def)
qed

lemma scan_dir_panics:
  assumes "coh s" "2 \<le> c" "\<not> is_eoc c" "0 < SECS_PER_CLUSTER s" "0 < fuel"
    and "high_long_entry (dir_entry s (cluster_lba s c) 0)" "file_entry (dir_entry s (cluster_lba s c) 1)"
  shows "scan_dir fuel c cb r s = Panics"
proof -
  obtain n where n: "fuel = Suc n" using assms(5) by (cases fuel) auto
  obtain m where m: "SECS_PER_CLUSTER s = Suc m" using assms(4) by (cases "SECS_PER_CLUSTER s") auto
  obtain os where offs: "ENTRY_OFFS = 0 # 32 # os" by (simp add: ENTRY_OFFS_def upt_conv_Cons)
  let ?l = "cluster_lba s c"
  have "scan_entries cb ?l (DISK s ?l) ENTRY_OFFS a = SPanic" for a
  proof -
    obtain a' where a': "scan_entry cb ?l 0 (take 32 (DISK s ?l)) a = SNext a'" "sc_active a'" "sc_len a' > 255"
      using high_long_entry_scanned [OF assms(6), of cb ?l 0 a] by (auto simp: dir_entry_def)
    then have "scan_entry cb ?l 32 (take 32 (drop 32 (DISK s ?l))) a' = SPanic"
      using assms(7) by (simp add: file_entry_def dir_entry_def scan_entry_def short_entry_def)
    then show ?thesis unfolding offs using a' by simp
  qed
  moreover have "snd (csec ?l s) = DISK s ?l" using assms(1) by (simp add: coh_csec)
  ultimately show ?thesis
    using assms(2,3) by (cases "csec ?l s") (simp add: scan_dir_def n cluster_secs_def m upt_conv_Cons del: upt_Suc)
qed

text \<open>
  A directory entry can bring the kernel down.  The buffer for a long name holds 255 bytes, but the number of
  a part is taken from the disk and only masked to five bits: a last part numbered 21 or higher claims a name of
  at least 260 bytes, and the next regular entry copies it.  With such a pair at the start of the root directory,
  opening any path but the root itself panics.
\<close>

theorem long_name_panics:
  assumes "coh s" "F_READY s" "2 \<le> ROOT_CLUSTER s" "\<not> is_eoc (ROOT_CLUSTER s)" "0 < SECS_PER_CLUSTER s" "0 < fuel"
    and "high_long_entry (dir_entry s (cluster_lba s (ROOT_CLUSTER s)) 0)" "file_entry (dir_entry s (cluster_lba s (ROOT_CLUSTER s)) 1)"
    and "path_parts path \<noteq> []"
  shows "fat_open fuel path s = Panics"
proof -
  obtain p ps where "path_parts path = p # ps" using assms(9) by (cases "path_parts path") auto
  then have "resolve fuel path s = Panics"
    by (simp add: resolve_def scan_dir_panics [OF assms(1,3,4,5,6,7,8)])
  then show ?thesis using assms(2) by (simp add: fat_open_def)
qed

definition long_name_example :: FatState where
  "long_name_example = fat_example\<lparr>DISK := (DISK fat_example)(2 :=
     [0x55] @ replicate 10 65 @ [0x0F] @ replicate 20 65 @ replicate 11 65 @ [0x20] @ replicate 20 0 @ replicate 448 0)\<rparr>"

theorem long_name_panics_witness: "fat_open 1 [47, 65] long_name_example = Panics"
proof (rule long_name_panics)
  show "coh long_name_example"
    using fat_example_coh
    by (auto simp: coh_def long_name_example_def fat_example_def CACHE_SLOTS_def nth_list_update split: if_splits)
  have [simp]: "cluster_lba long_name_example 2 = 2" "ROOT_CLUSTER long_name_example = 2"
    by (simp_all add: long_name_example_def fat_example_def cluster_lba_def)
  have "dir_entry long_name_example 2 0 = [0x55] @ replicate 10 65 @ [0x0F] @ replicate 20 65"
    "dir_entry long_name_example 2 1 = replicate 11 65 @ [0x20] @ replicate 20 0"
    by (simp_all add: dir_entry_def long_name_example_def)
  then have "high_long_entry (dir_entry long_name_example 2 0)" "file_entry (dir_entry long_name_example 2 1)"
    by (simp_all add: high_long_entry_def file_entry_def nth_append ATTR_LONG_NAME_def ATTR_VOLUME_ID_def)
  then show "high_long_entry (dir_entry long_name_example (cluster_lba long_name_example (ROOT_CLUSTER long_name_example)) 0)"
    "file_entry (dir_entry long_name_example (cluster_lba long_name_example (ROOT_CLUSTER long_name_example)) 1)" by simp_all
  show "F_READY long_name_example" "2 \<le> ROOT_CLUSTER long_name_example" "\<not> is_eoc (ROOT_CLUSTER long_name_example)"
    "0 < SECS_PER_CLUSTER long_name_example" "path_parts [47, 65] \<noteq> []"
    by (simp_all add: long_name_example_def fat_example_def is_eoc_def FAT_EOC_MIN_def path_parts_def)
qed simp

end
