(* ===== verification/Pipe.thy ===== *)
theory Pipe
  imports Fifo
begin

text \<open>
  The kernel pipe of \<^verbatim>\<open>fs/mod.rs\<close>: a circular buffer of 4096 bytes with the flags of its two ends.  It keeps the
  laws of a bounded byte stream, so that whatever is written is read exactly once and in order.
\<close>

definition PIPE_CAP :: nat where "PIPE_CAP = 4096"
definition MAX_PIPES :: nat where "MAX_PIPES = 8"

record PipeBuf =
  pb_data :: "u8 list"
  pb_read_pos :: nat
  pb_write_pos :: nat
  pb_count :: nat
  pb_open_read :: bool
  pb_open_write :: bool

definition PipeBuf_new :: PipeBuf where
  "PipeBuf_new = \<lparr>pb_data = replicate PIPE_CAP 0, pb_read_pos = 0, pb_write_pos = 0, pb_count = 0,
     pb_open_read = False, pb_open_write = False\<rparr>"

definition PipeBuf_read_bytes :: "nat \<Rightarrow> PipeBuf \<Rightarrow> PipeBuf \<times> u8 list" where
  "PipeBuf_read_bytes len p =
    (let n = min len (pb_count p); (out, r) = ring_get PIPE_CAP (pb_data p) (pb_read_pos p) n
     in (p\<lparr>pb_read_pos := r, pb_count := pb_count p - n\<rparr>, out))"

definition PipeBuf_write_bytes :: "u8 list \<Rightarrow> PipeBuf \<Rightarrow> PipeBuf \<times> nat" where
  "PipeBuf_write_bytes src p =
    (let space = PIPE_CAP - pb_count p; n = min (length src) space;
         (d, w) = ring_put PIPE_CAP (pb_data p) (pb_write_pos p) (take n src)
     in (p\<lparr>pb_data := d, pb_write_pos := w, pb_count := pb_count p + n\<rparr>, n))"

section \<open>The pipe as a byte stream\<close>

definition pipe_wf :: "PipeBuf \<Rightarrow> bool" where
  "pipe_wf p \<longleftrightarrow> ring_ok PIPE_CAP (pb_data p) (pb_read_pos p) (pb_write_pos p) (pb_count p)"

definition pipe_contents :: "PipeBuf \<Rightarrow> u8 list" where
  "pipe_contents p = ring_window (pb_data p) (pb_read_pos p) (pb_count p)"

lemma pipe_wf_new: "pipe_wf PipeBuf_new" and pipe_contents_new: "pipe_contents PipeBuf_new = []"
  by (simp_all add: pipe_wf_def pipe_contents_def PipeBuf_new_def ring_ok_def PIPE_CAP_def)

lemma pipe_write:
  assumes "pipe_wf p" "PipeBuf_write_bytes xs p = (p', n)"
  shows "pipe_wf p'" "n = min (length xs) (PIPE_CAP - length (pipe_contents p))"
    "pipe_contents p' = pipe_contents p @ take n xs" "pb_open_read p' = pb_open_read p" "pb_open_write p' = pb_open_write p"
proof -
  have ok: "ring_ok PIPE_CAP (pb_data p) (pb_read_pos p) (pb_write_pos p) (pb_count p)" using assms(1) by (simp add: pipe_wf_def)
  show n: "n = min (length xs) (PIPE_CAP - length (pipe_contents p))"
    using assms(2) by (auto simp: PipeBuf_write_bytes_def pipe_contents_def Let_def split: prod.splits)
  have "pb_count p + length (take n xs) \<le> PIPE_CAP" using ok n by (auto simp: ring_ok_def pipe_contents_def)
  from ring_put_ok [OF ok this] n assms(2)
  show "pipe_wf p'" "pipe_contents p' = pipe_contents p @ take n xs" "pb_open_read p' = pb_open_read p" "pb_open_write p' = pb_open_write p"
    by (auto simp: PipeBuf_write_bytes_def pipe_wf_def pipe_contents_def Let_def split: prod.splits)
qed

lemma pipe_read:
  assumes "pipe_wf p" "PipeBuf_read_bytes k p = (p', out)"
  shows "pipe_wf p'" "out = take k (pipe_contents p)" "pipe_contents p' = drop k (pipe_contents p)"
    "pb_open_read p' = pb_open_read p" "pb_open_write p' = pb_open_write p"
proof -
  have ok: "ring_ok PIPE_CAP (pb_data p) (pb_read_pos p) (pb_write_pos p) (pb_count p)" using assms(1) by (simp add: pipe_wf_def)
  from ring_get_ok [OF ok, of "min k (pb_count p)"] assms(2)
  show "pipe_wf p'" "out = take k (pipe_contents p)" "pipe_contents p' = drop k (pipe_contents p)"
    "pb_open_read p' = pb_open_read p" "pb_open_write p' = pb_open_write p"
    by (auto simp: PipeBuf_read_bytes_def pipe_wf_def pipe_contents_def Let_def min_def split: prod.splits if_splits)
qed

interpretation pipe: byte_stream PipeBuf_write_bytes PipeBuf_read_bytes pipe_wf pipe_contents PIPE_CAP
proof unfold_locales
  fix p :: PipeBuf and xs :: "u8 list" and k :: nat
  assume p: "pipe_wf p"
  obtain p' n where w: "PipeBuf_write_bytes xs p = (p', n)" by fastforce
  obtain q out where r: "PipeBuf_read_bytes k p = (q, out)" by fastforce
  show "pipe_wf (fst (PipeBuf_write_bytes xs p))" using pipe_write [OF p w] w by simp
  show "snd (PipeBuf_write_bytes xs p) = min (length xs) (PIPE_CAP - length (pipe_contents p))" using pipe_write [OF p w] w by simp
  show "pipe_contents (fst (PipeBuf_write_bytes xs p)) = pipe_contents p @ take (PIPE_CAP - length (pipe_contents p)) xs"
    using pipe_write [OF p w] w by (simp add: min_def)
  show "pipe_wf (fst (PipeBuf_read_bytes k p))" "snd (PipeBuf_read_bytes k p) = take k (pipe_contents p)"
    "pipe_contents (fst (PipeBuf_read_bytes k p)) = drop k (pipe_contents p)" using pipe_read [OF p r] r by simp_all
  show "length (pipe_contents p) \<le> PIPE_CAP" using p by (simp add: pipe_wf_def pipe_contents_def ring_ok_def)
qed

text \<open>
  A pipe is a reliable stream: for every sequence of writes and reads on a new pipe, the bytes the writes
  accepted are the bytes the reads delivered, in order, followed by those still inside, of which there are never
  more than the capacity.
\<close>

theorem pipe_delivery:
  assumes "fifo_run (stream_step PipeBuf_write_bytes PipeBuf_read_bytes) ops PipeBuf_new = (p, acc, del)"
  shows "acc = del @ pipe_contents p \<and> length (pipe_contents p) \<le> PIPE_CAP"
  using pipe.sm.run_fifo [OF pipe_wf_new assms] pipe.sm.run_bounded [OF pipe_wf_new assms] by (simp add: pipe_contents_new)

theorem pipe_delivery_witness:
  "\<exists>p. fifo_run (stream_step PipeBuf_write_bytes PipeBuf_read_bytes) [Inl [1, 2, 3], Inr 2] PipeBuf_new = (p, [1, 2, 3], [1, 2]) \<and>
     pipe_contents p = [3]"
proof -
  obtain p where p: "fifo_run (stream_step PipeBuf_write_bytes PipeBuf_read_bytes) [Inl [1, 2, 3], Inr 2] PipeBuf_new = (p, [1, 2, 3], [1, 2])"
    by (simp add: PipeBuf_write_bytes_def PipeBuf_read_bytes_def PipeBuf_new_def PIPE_CAP_def numeral_2_eq_2)
  with pipe_delivery [OF p] show ?thesis by auto
qed

end
