(* ===== verification/Net_Checksum.thy ===== *)
theory Net_Checksum
  imports Prelude
begin

text \<open>
  Big-endian fields and the Internet checksum of \<^verbatim>\<open>kernel/src/net/mod.rs\<close>.  The running sum of the code is a
  \<^verbatim>\<open>u32\<close> over a packet of at most 2048 bytes, so it never reaches its width and is a natural number here.
  The lemmas show that a packet carrying its own checksum sums to the value a receiver expects.
\<close>

section \<open>Big-endian fields\<close>

definition be16 :: "u8 list \<Rightarrow> nat \<Rightarrow> nat" where "be16 b i = 256 * unat (b ! i) + unat (b ! (i + 1))"

definition be32 :: "u8 list \<Rightarrow> nat \<Rightarrow> u32" where
  "be32 b i = of_nat (2 ^ 16 * be16 b i + be16 b (i + 2))"

definition put16 :: "nat \<Rightarrow> u8 list" where "put16 n = [of_nat (n div 256), of_nat n]"

definition put32 :: "u32 \<Rightarrow> u8 list" where "put32 w = put16 (unat w div 2 ^ 16) @ put16 (unat w)"

definition sub_bytes :: "nat \<Rightarrow> nat \<Rightarrow> u8 list \<Rightarrow> u8 list" where "sub_bytes i n b = take n (drop i b)"

lemma length_put16 [simp]: "length (put16 n) = 2"
  by (simp add: put16_def)

lemma length_put32 [simp]: "length (put32 w) = 4"
  by (simp add: put32_def)

section \<open>The checksum\<close>

text \<open>The sum of the big-endian words of a slice, the last byte of an odd one padded with zero.\<close>

fun be_sum :: "u8 list \<Rightarrow> nat" where
  "be_sum (a # b # bs) = 256 * unat a + unat b + be_sum bs"
| "be_sum [a] = 256 * unat a"
| "be_sum [] = 0"

lemma fold16_less: "n div 2 ^ 16 \<noteq> 0 \<Longrightarrow> n mod 2 ^ 16 + n div 2 ^ 16 < (n :: nat)"
proof -
  assume "n div 2 ^ 16 \<noteq> 0"
  moreover have "n div 65536 * 65536 + n mod 65536 = n" by (rule div_mult_mod_eq)
  ultimately show ?thesis by (simp del: div_mult_mod_eq; linarith)
qed

function fold16 :: "nat \<Rightarrow> nat" where
  "fold16 n = (if n div 2 ^ 16 \<noteq> 0 then fold16 (n mod 2 ^ 16 + n div 2 ^ 16) else n)"
  by pat_completeness auto
termination
  by (relation "measure id") (use fold16_less in auto)

declare fold16.simps [simp del]

definition ones_complement_sum :: "u8 list \<Rightarrow> nat \<Rightarrow> nat" where
  "ones_complement_sum b ini = 2 ^ 16 - 1 - fold16 (ini + be_sum b)"

definition ip_checksum :: "u8 list \<Rightarrow> nat" where
  "ip_checksum b = 2 ^ 16 - 1 - fold16 (be_sum b)"

definition ipv6_upper_checksum :: "u8 list \<Rightarrow> u8 list \<Rightarrow> nat \<Rightarrow> u8 list \<Rightarrow> nat" where
  "ipv6_upper_checksum src dst nh b =
    ones_complement_sum b
      (be_sum src + be_sum dst + length b div 2 ^ 16 mod 2 ^ 16 + length b mod 2 ^ 16 + nh)"

text \<open>A checksum is stored in the two bytes at \<open>i\<close>.\<close>

definition put_csum :: "nat \<Rightarrow> nat \<Rightarrow> u8 list \<Rightarrow> u8 list" where
  "put_csum i c b = b[i := of_nat (c div 256), i + 1 := of_nat c]"

lemma length_put_csum [simp]: "length (put_csum i c b) = length b"
  by (simp add: put_csum_def)

section \<open>A packet with its checksum verifies\<close>

lemma fold16_mod: "fold16 n mod 65535 = n mod 65535"
proof (induction n rule: fold16.induct)
  case (1 n)
  have "(n mod 2 ^ 16 + n div 2 ^ 16) mod 65535 = (65535 * (n div 2 ^ 16) + (n mod 2 ^ 16 + n div 2 ^ 16)) mod 65535"
    by (simp only: mod_mult_self4)
  also have "65535 * (n div 2 ^ 16) + (n mod 2 ^ 16 + n div 2 ^ 16) = n"
    using div_mult_mod_eq [of n 65536] by simp
  finally show ?case using 1 by (subst fold16.simps) simp
qed

lemma fold16_bound: "fold16 n \<le> 65535"
  by (induction n rule: fold16.induct) (subst fold16.simps, auto)

lemma fold16_pos: "0 < n \<Longrightarrow> 0 < fold16 n"
proof (induction n rule: fold16.induct)
  case (1 n)
  then show ?case by (subst fold16.simps) simp
qed

lemma fold16_complete: "fold16 (n + (65535 - fold16 n)) = 65535"
proof -
  let ?m = "n + (65535 - fold16 n)"
  have "fold16 n mod 65535 = n mod 65535" by (rule fold16_mod)
  then have "(n + (65535 - fold16 n)) mod 65535 = (fold16 n + (65535 - fold16 n)) mod 65535"
    by (metis mod_add_left_eq)
  then have "fold16 ?m mod 65535 = 0" using fold16_bound [of n] by (simp add: fold16_mod)
  moreover have "0 < ?m"
  proof (cases "n = 0")
    case True
    then show ?thesis by (subst fold16.simps) simp
  qed simp
  then have "0 < fold16 ?m" by (rule fold16_pos)
  ultimately show ?thesis using fold16_bound [of ?m] by (auto elim!: dvdE)
qed

lemma be_sum_put:
  assumes "even i" "i + 1 < length b" "b ! i = 0" "b ! (i + 1) = 0" "c \<le> 65535"
  shows "be_sum (put_csum i c b) = be_sum b + c"
  using assms unfolding put_csum_def
proof (induction b arbitrary: i rule: be_sum.induct)
  case (1 x y bs)
  show ?case
  proof (cases i)
    case 0
    have "unat (of_nat (c div 256) :: u8) = c div 256" "unat (of_nat c :: u8) = c mod 256"
      using 1(6) by (auto simp: unsigned_of_nat take_bit_eq_mod)
    then show ?thesis using 0 1 by simp
  next
    case (Suc k)
    then obtain j where "i = Suc (Suc j)" using 1(2) by (cases k) auto
    then show ?thesis using 1 by simp
  qed
qed auto

lemma ip_checksum_verifies:
  assumes "even i" "i + 1 < length b" "b ! i = 0" "b ! (i + 1) = 0"
  shows "ip_checksum (put_csum i (ip_checksum b) b) = 0"
  using be_sum_put [OF assms, of "ip_checksum b"] fold16_complete [of "be_sum b"]
  by (simp add: ip_checksum_def)

lemma ipv6_upper_checksum_verifies:
  assumes "even i" "i + 1 < length b" "b ! i = 0" "b ! (i + 1) = 0"
  shows "ipv6_upper_checksum src dst nh (put_csum i (ipv6_upper_checksum src dst nh b) b) = 0"
proof -
  let ?p = "be_sum src + be_sum dst + length b div 2 ^ 16 mod 2 ^ 16 + length b mod 2 ^ 16 + nh"
  have "be_sum (put_csum i (ones_complement_sum b ?p) b) = be_sum b + ones_complement_sum b ?p"
    by (rule be_sum_put [OF assms]) (simp add: ones_complement_sum_def)
  then show ?thesis using fold16_complete [of "?p + be_sum b"]
    by (simp add: ipv6_upper_checksum_def ones_complement_sum_def add.assoc)
qed

end
