(* ===== verification/Net.thy ===== *)
theory Net
  imports Net_Checksum
begin

text \<open>
  The state of the network stack (\<^verbatim>\<open>kernel/src/net/mod.rs\<close>), the Ethernet and IP headers, ARP (\<^verbatim>\<open>arp.rs\<close>) and
  the sending side of UDP (\<^verbatim>\<open>udp.rs\<close>).  The network card is a log \<open>SENT\<close> of the frames handed to it and a
  function \<open>NIC_OK\<close> giving the driver's answer.  Every sender fills the used prefix of the one static transmit buffer
  completely, so a frame is the list of its bytes.  \<open>TICKS\<close> and \<open>TIMER\<close> are the values of \<^verbatim>\<open>tick_count()\<close>, cut to
  32 bits as the code does, and of \<^verbatim>\<open>physical_timer_count()\<close>.
\<close>

section \<open>State\<close>

datatype IpAddr = V4 "u8 list" | V6 "u8 list"

text \<open>Both neighbour tables have entries of this shape.\<close>

record ArpEntry =
  ae_ip :: "u8 list"
  ae_mac :: "u8 list"
  ae_valid :: bool

record ArpPending =
  ap_ip :: "u8 list"
  ap_retry_count :: nat
  ap_next_retry :: u32
  ap_valid :: bool

record NetState =
  NET_IP :: "u8 list"
  NET_MASK :: "u8 list"
  NET_GW :: "u8 list"
  NET_MAC :: "u8 list"
  NET_UP :: bool
  NET_IP6 :: "u8 list"
  NET_GW6 :: "u8 list"
  NET_IP6G :: "u8 list"
  NET_IP6_UP :: bool
  ARP_TABLE :: "ArpEntry list"
  ARP_CURSOR :: nat
  ARP_PENDING :: "ArpPending list"
  NDP_CACHE :: "ArpEntry list"
  NDP_PENDING :: "ArpPending list"
  ICMP_PING_REPLY_TICKS :: "nat option"
  PING6_REPLY :: "u32 option"
  TICKS :: u32
  TIMER :: nat
  NIC_OK :: "u8 list \<Rightarrow> bool"
  SENT :: "u8 list list"

definition ARP_RETRY_MAX :: nat where "ARP_RETRY_MAX = 3"
definition ARP_RETRY_TICKS :: u32 where "ARP_RETRY_TICKS = 10"
definition TX_BUF_LEN :: nat where "TX_BUF_LEN = 2048"
definition BROADCAST :: "u8 list" where "BROADCAST = replicate 6 0xFF"
definition ZERO4 :: "u8 list" where "ZERO4 = replicate 4 0"
definition ZERO16 :: "u8 list" where "ZERO16 = replicate 16 0"

definition net_send_frame :: "u8 list \<Rightarrow> 'a NetState_scheme \<Rightarrow> 'a NetState_scheme \<times> bool" where
  "net_send_frame b s = (s\<lparr>SENT := SENT s @ [b]\<rparr>, NIC_OK s b)"

definition set_ip :: "u8 list \<Rightarrow> u8 list \<Rightarrow> u8 list \<Rightarrow> 'a NetState_scheme \<Rightarrow> 'a NetState_scheme" where
  "set_ip ip netmask gw s = s\<lparr>NET_IP := ip, NET_MASK := netmask, NET_GW := gw\<rparr>"

section \<open>Headers\<close>

definition eth_header :: "u8 list \<Rightarrow> u8 list \<Rightarrow> nat \<Rightarrow> u8 list" where
  "eth_header dst src typ = dst @ src @ put16 typ"

definition ip4_header :: "nat \<Rightarrow> nat \<Rightarrow> u8 \<Rightarrow> u8 list \<Rightarrow> u8 list \<Rightarrow> u8 list" where
  "ip4_header len ident proto src dst =
    (let h = [0x45, 0] @ put16 len @ put16 ident @ [0x40, 0, 64, proto, 0, 0] @ src @ dst
     in put_csum 10 (ip_checksum h) h)"

definition ip6_header :: "nat \<Rightarrow> u8 \<Rightarrow> u8 \<Rightarrow> u8 list \<Rightarrow> u8 list \<Rightarrow> u8 list" where
  "ip6_header len nh hops src dst = [0x60, 0, 0, 0] @ put16 len @ [nh, hops] @ src @ dst"

section \<open>ARP\<close>

definition arp_lookup :: "u8 list \<Rightarrow> 'a NetState_scheme \<Rightarrow> u8 list option" where
  "arp_lookup ip s = map_option ae_mac (find (\<lambda>e. ae_valid e \<and> ae_ip e = ip) (ARP_TABLE s))"

definition arp_learn :: "u8 list \<Rightarrow> u8 list \<Rightarrow> 'a NetState_scheme \<Rightarrow> 'a NetState_scheme" where
  "arp_learn ip mac s =
    (case find_index (\<lambda>i. ae_valid (ARP_TABLE s ! i) \<and> ae_ip (ARP_TABLE s ! i) = ip) (length (ARP_TABLE s)) of
       Some i \<Rightarrow> s\<lparr>ARP_TABLE := (ARP_TABLE s)[i := (ARP_TABLE s ! i)\<lparr>ae_mac := mac\<rparr>]\<rparr>
     | None \<Rightarrow> s\<lparr>ARP_TABLE := (ARP_TABLE s)[ARP_CURSOR s mod 16 := \<lparr>ae_ip = ip, ae_mac = mac, ae_valid = True\<rparr>],
                  ARP_CURSOR := ARP_CURSOR s + 1\<rparr>)"

definition arp_frame :: "u8 list \<Rightarrow> nat \<Rightarrow> u8 list \<Rightarrow> u8 list \<Rightarrow> 'a NetState_scheme \<Rightarrow> u8 list" where
  "arp_frame dst oper tmac tip s =
    eth_header dst (NET_MAC s) 0x0806 @ put16 1 @ put16 0x0800 @ [6, 4] @ put16 oper
      @ NET_MAC s @ NET_IP s @ tmac @ tip"

definition send_arp_request :: "u8 list \<Rightarrow> 'a NetState_scheme \<Rightarrow> 'a NetState_scheme" where
  "send_arp_request ip s = fst (net_send_frame (arp_frame BROADCAST 1 (replicate 6 0) ip s) s)"

definition send_arp_reply :: "u8 list \<Rightarrow> u8 list \<Rightarrow> 'a NetState_scheme \<Rightarrow> 'a NetState_scheme" where
  "send_arp_reply ip mac s = fst (net_send_frame (arp_frame mac 2 mac ip s) s)"

definition arp_announce :: "'a NetState_scheme \<Rightarrow> 'a NetState_scheme" where
  "arp_announce s = fst (net_send_frame (arp_frame BROADCAST 1 (replicate 6 0) (NET_IP s) s) s)"

definition handle_arp :: "u8 list \<Rightarrow> 'a NetState_scheme \<Rightarrow> 'a NetState_scheme" where
  "handle_arp p s =
    (if length p < 28 \<or> be16 p 0 \<noteq> 1 \<or> be16 p 2 \<noteq> 0x0800 then s
     else let sender_mac = sub_bytes 8 6 p; sender_ip = sub_bytes 14 4 p; s = arp_learn sender_ip sender_mac s
          in if be16 p 6 = 1 \<and> sub_bytes 24 4 p = NET_IP s then send_arp_reply sender_ip sender_mac s else s)"

definition next_hop :: "u8 list \<Rightarrow> 'a NetState_scheme \<Rightarrow> u8 list" where
  "next_hop dst s =
    (let same = list_all (\<lambda>i. dst ! i AND NET_MASK s ! i = NET_IP s ! i AND NET_MASK s ! i) [0..<4]
     in if same \<or> NET_IP s = ZERO4 then dst else NET_GW s)"

definition resolve_mac_nonblocking :: "u8 list \<Rightarrow> 'a NetState_scheme \<Rightarrow> 'a NetState_scheme \<times> u8 list" where
  "resolve_mac_nonblocking dst s =
    (if dst = replicate 4 0xFF then (s, BROADCAST)
     else case arp_lookup (next_hop dst s) s of
            Some m \<Rightarrow> (s, m)
          | None \<Rightarrow> (send_arp_request (next_hop dst s) s, BROADCAST))"

text \<open>One entry of the pending list, and the loop over them.\<close>

definition arp_retry :: "nat \<Rightarrow> 'a NetState_scheme \<Rightarrow> 'a NetState_scheme" where
  "arp_retry i s =
    (let p = ARP_PENDING s ! i; put = (\<lambda>q s. s\<lparr>ARP_PENDING := (ARP_PENDING s)[i := q]\<rparr>) in
     if \<not> ap_valid p \<or> TICKS s < ap_next_retry p then s
     else if ap_retry_count p \<ge> ARP_RETRY_MAX \<or> arp_lookup (ap_ip p) s \<noteq> None then put (p\<lparr>ap_valid := False\<rparr>) s
     else put (p\<lparr>ap_retry_count := ap_retry_count p + 1, ap_next_retry := TICKS s + ARP_RETRY_TICKS\<rparr>)
            (send_arp_request (ap_ip p) s))"

definition arp_tick :: "'a NetState_scheme \<Rightarrow> 'a NetState_scheme" where
  "arp_tick s = fold arp_retry [0..<length (ARP_PENDING s)] s"

section \<open>Sending UDP\<close>

definition udp_header :: "nat \<Rightarrow> nat \<Rightarrow> nat \<Rightarrow> u8 list" where
  "udp_header src_port dst_port len = put16 src_port @ put16 dst_port @ put16 len @ [0, 0]"

definition udp_send :: "u8 list \<Rightarrow> nat \<Rightarrow> nat \<Rightarrow> u8 list \<Rightarrow> 'a NetState_scheme \<Rightarrow> 'a NetState_scheme \<times> bool" where
  "udp_send dst_ip dst_port src_port d s =
    (if \<not> NET_UP s \<or> 14 + 20 + 8 + length d > TX_BUF_LEN then (s, False)
     else let (s, dst_mac) = resolve_mac_nonblocking dst_ip s
          in net_send_frame (eth_header dst_mac (NET_MAC s) 0x0800
                @ ip4_header (20 + 8 + length d) 1 17 (NET_IP s) dst_ip
                @ udp_header src_port dst_port (8 + length d) @ d) s)"

end
