(* ===== verification/Vfs.thy ===== *)
theory Vfs
  imports Syscall Fat32 Pipe Net
begin

text \<open>
  The virtual file system of \<^verbatim>\<open>fs/mod.rs\<close> and the file system calls of \<^verbatim>\<open>syscall/mod.rs\<close>: the table of
  descriptors, the pipes, the generated files under \<^verbatim>\<open>/proc\<close>, the keys of the semantic store under
  \<^verbatim>\<open>/mem\<close>, and the FAT32 volume for every other path.  A call works on the whole kernel state, which is extended
  by the tables of this component, and gives an outcome of \<^typ>\<open>'a out\<close>, since the volume may make it panic.
\<close>

section \<open>State\<close>

definition VFS_MAX_FD :: nat where "VFS_MAX_FD = 16"
definition INLINE_CAP :: nat where "INLINE_CAP = 512"

datatype VfsFd =
    VFat32 nat
  | VInline "u8 list" nat nat bool
  | VPipe nat bool

record FsState = SchedState +
  FS_FAT :: FatState
  VFS_FDS :: "VfsFd option list"
  PIPES :: "PipeBuf list"
  FS_NET :: NetState

definition vfs_alloc :: "VfsFd \<Rightarrow> 'a FsState_scheme \<Rightarrow> 'a FsState_scheme \<times> nat option" where
  "vfs_alloc fd s =
    (case find_index (\<lambda>i. VFS_FDS s ! i = None) VFS_MAX_FD of
       Some i \<Rightarrow> (s\<lparr>VFS_FDS := (VFS_FDS s)[i := Some fd]\<rparr>, Some i)
     | None \<Rightarrow> (s, None))"

text \<open>\<^verbatim>\<open>vfs_alloc(fd).map(|i| i as isize).unwrap_or(-1)\<close>\<close>

definition vfs_install :: "VfsFd \<Rightarrow> 'a FsState_scheme \<Rightarrow> 'a FsState_scheme \<times> int" where
  "vfs_install fd s = (case vfs_alloc fd s of (s, Some i) \<Rightarrow> (s, int i) | (s, None) \<Rightarrow> (s, - 1))"

definition set_pipe :: "nat \<Rightarrow> PipeBuf \<Rightarrow> 'a FsState_scheme \<Rightarrow> 'a FsState_scheme" where
  "set_pipe i p s = s\<lparr>PIPES := (PIPES s)[i := p]\<rparr>"

text \<open>Run an operation of the volume on its part of the state.\<close>

definition on_fat :: "(FatState \<Rightarrow> (FatState \<times> 'b) out) \<Rightarrow> 'a FsState_scheme \<Rightarrow> ('a FsState_scheme \<times> 'b) out" where
  "on_fat f s = out_bind (f (FS_FAT s)) (\<lambda>(v, r). Val (s\<lparr>FS_FAT := v\<rparr>, r))"

section \<open>Paths\<close>

definition ascii :: "string \<Rightarrow> u8 list" where "ascii cs = map of_char cs"

datatype Backend = BFat32 | BProc | BMem

definition route :: "u8 list \<Rightarrow> Backend" where
  "route path =
    (if prefix (ascii ''/proc'') path then BProc
     else if prefix (ascii ''/mem'') path then BMem
     else BFat32)"

definition trim_slashes :: "u8 list \<Rightarrow> u8 list" where "trim_slashes bs = dropWhile (\<lambda>b. b = 47) bs"

definition strip_prefix :: "u8 list \<Rightarrow> u8 list \<Rightarrow> u8 list option" where
  "strip_prefix p bs = (if prefix p bs then Some (drop (length p) bs) else None)"

definition unwrap_or :: "'b \<Rightarrow> 'b option \<Rightarrow> 'b" where
  "unwrap_or d r = (case r of Some x \<Rightarrow> x | None \<Rightarrow> d)"

section \<open>Text in a buffer\<close>

text \<open>A buffer and the position of the next byte.\<close>

type_synonym textbuf = "u8 list \<times> nat"

definition put_ch :: "u8 \<Rightarrow> textbuf \<Rightarrow> textbuf" where
  "put_ch b t = (case t of (buf, p) \<Rightarrow> if p < length buf then (buf[p := b], p + 1) else (buf, p))"

function dec_loop :: "nat \<Rightarrow> textbuf \<Rightarrow> textbuf" where
  "dec_loop n (buf, p) =
    (if n > 0 \<and> p < length buf then dec_loop (n div 10) (buf[p := 48 + of_nat (n mod 10)], p + 1) else (buf, p))"
  by pat_completeness auto
termination
  by (relation "measure fst") auto

fun swap_loop :: "u8 list \<Rightarrow> nat \<Rightarrow> nat \<Rightarrow> u8 list" where
  "swap_loop buf l r = (if l < r then swap_loop (buf[l := buf ! r, r := buf ! l]) (l + 1) (r - 1) else buf)"

declare dec_loop.simps [simp del] swap_loop.simps [simp del]

definition write_dec :: "nat \<Rightarrow> textbuf \<Rightarrow> textbuf" where
  "write_dec n t =
    (if n = 0 then put_ch 48 t
     else let (buf, p) = dec_loop n t in (swap_loop buf (snd t) (p - 1), p))"

definition write_str :: "u8 list \<Rightarrow> textbuf \<Rightarrow> textbuf" where
  "write_str s t =
    (case t of (buf, pos) \<Rightarrow>
       let n = min (length s) (length buf - pos) in (take pos buf @ take n s @ drop (pos + n) buf, pos + n))"

definition text_of :: "(textbuf \<Rightarrow> textbuf) list \<Rightarrow> textbuf \<Rightarrow> textbuf" where
  "text_of fs t = foldl (\<lambda>t f. f t) t fs"

definition write_ip :: "u8 list \<Rightarrow> textbuf \<Rightarrow> textbuf" where
  "write_ip ip t =
    text_of (concat (map (\<lambda>i. write_dec (unat (ip ! i)) # (if i < 3 then [write_str [46]] else [])) [0..<4])) t"

definition hex_digit :: "u8 \<Rightarrow> u8" where "hex_digit d = (if d < 10 then 48 + d else 97 + d - 10)"

section \<open>Generated files\<close>

definition proc_version :: "textbuf \<Rightarrow> textbuf" where
  "proc_version t = write_str (ascii ''Aeglos OS 1.0 (AArch64 bare-metal)'' @ [10]) t"

definition proc_uptime :: "'a FsState_scheme \<Rightarrow> textbuf \<Rightarrow> textbuf" where
  "proc_uptime s = text_of [write_dec (total_ticks s div 100), write_str (ascii '' seconds'' @ [10])]"

definition proc_meminfo :: "'a FsState_scheme \<Rightarrow> textbuf \<Rightarrow> textbuf" where
  "proc_meminfo s =
    (let free_mb = free_pages s * PAGE_SIZE div (1024 * 1024);
         total_mb = total_pages s * PAGE_SIZE div (1024 * 1024)
     in text_of
          [write_str (ascii ''MemTotal:  ''), write_dec total_mb, write_str (ascii '' MB'' @ [10] @ ascii ''MemFree:   ''),
           write_dec free_mb, write_str (ascii '' MB'' @ [10] @ ascii ''MemUsed:   ''),
           write_dec (total_mb - free_mb), write_str (ascii '' MB'' @ [10])])"

definition proc_net_ip :: "'a FsState_scheme \<Rightarrow> textbuf \<Rightarrow> textbuf" where
  "proc_net_ip s = text_of [write_ip (NET_IP (FS_NET s)), write_str [10]]"

definition proc_net_mac :: "'a FsState_scheme \<Rightarrow> textbuf \<Rightarrow> textbuf" where
  "proc_net_mac s =
    text_of (concat (map (\<lambda>i. let b = NET_MAC (FS_NET s) ! i in
        [put_ch (hex_digit (drop_bit 4 b)), put_ch (hex_digit (b AND 0xF))] @ (if i < 5 then [put_ch 58] else [])) [0..<6])
      @ [write_str [10]])"

definition proc_cpuinfo :: "textbuf \<Rightarrow> textbuf" where
  "proc_cpuinfo =
    text_of [write_str (ascii ''Architecture: AArch64'' @ [10] @ ascii ''CPUs:         ''), write_dec MAX_CPUS,
      write_str ([10] @ ascii ''Model:        QEMU virt (ARMv8.2-A)'' @ [10])]"

text \<open>The shifts of the capability column: \<^verbatim>\<open>(0..64).rev().step_by(4)\<close>.\<close>

definition CAP_SHIFTS :: "nat list" where "CAP_SHIFTS = map (\<lambda>i. 63 - 4 * i) [0..<16]"

definition caps_hex :: "u64 \<Rightarrow> u8 list" where
  "caps_hex caps = map (\<lambda>shift. hex_digit (ucast (drop_bit shift caps AND 0xF))) CAP_SHIFTS"

definition task_line :: "TaskRecord \<Rightarrow> textbuf \<Rightarrow> textbuf" where
  "task_line r =
    (let nlen = length (takeWhile (\<lambda>b. b \<noteq> 0) (rec_name r)) in
     text_of ([write_dec (unat (rec_tid r)), write_str (ascii ''    ''), write_str (take nlen (rec_name r))]
       @ replicate (17 - nlen) (put_ch 32) @ [write_str (ascii ''0x'')] @ map put_ch (caps_hex (rec_caps r)) @ [write_str [10]]))"

fun task_lines :: "TaskRecord list \<Rightarrow> textbuf \<Rightarrow> textbuf" where
  "task_lines [] t = t"
| "task_lines (r # rs) t = (let t' = task_line r t in if snd t' + 40 > length (fst t') then t' else task_lines rs t')"

definition proc_tasks :: "'a FsState_scheme \<Rightarrow> textbuf \<Rightarrow> textbuf" where
  "proc_tasks s = text_of [write_str (ascii ''TID  NAME             CAPS'' @ [10]), task_lines (list_tasks 16 s)]"

definition proc_stats :: "'a FsState_scheme \<Rightarrow> textbuf \<Rightarrow> textbuf" where
  "proc_stats s =
    (let idle = of_nat (idle_ticks s) :: u64; total = of_nat (total_ticks s) :: u64;
         cpu_pct = (if total > 0 then 100 - (idle * 100) div total else 0)
     in text_of [write_str (ascii ''cpu_pct:   ''), write_dec (unat cpu_pct), write_str (ascii ''%'' @ [10] @ ascii ''task_cnt:  ''),
          write_dec (task_count s), write_str [10]])"

definition proc_node :: "u8 list \<Rightarrow> u8 list" where
  "proc_node path =
    (let node = trim_slashes path in trim_slashes (unwrap_or node (strip_prefix (ascii ''proc'') node)))"

definition proc_text :: "u8 list \<Rightarrow> 'a FsState_scheme \<Rightarrow> (textbuf \<Rightarrow> textbuf) option" where
  "proc_text node s =
    (if node = ascii ''version'' then Some proc_version
     else if node = ascii ''uptime'' then Some (proc_uptime s)
     else if node = ascii ''meminfo'' then Some (proc_meminfo s)
     else if node = ascii ''net/ip'' \<or> node = ascii ''net'' then Some (proc_net_ip s)
     else if node = ascii ''net/mac'' then Some (proc_net_mac s)
     else if node = ascii ''cpuinfo'' then Some proc_cpuinfo
     else if node = ascii ''tasks'' then Some (proc_tasks s)
     else if node = ascii ''stats'' then Some (proc_stats s)
     else None)"

definition proc_open :: "u8 list \<Rightarrow> 'a FsState_scheme \<Rightarrow> VfsFd option" where
  "proc_open path s =
    (case proc_text (proc_node path) s of
       Some f \<Rightarrow> (let (buf, p) = f (replicate INLINE_CAP 0, 0) in Some (VInline buf p 0 False))
     | None \<Rightarrow> None)"

definition proc_root :: "(u8 list \<times> bool) list" where
  "proc_root = [(ascii ''version'', False), (ascii ''uptime'', False), (ascii ''meminfo'', False), (ascii ''cpuinfo'', False),
     (ascii ''tasks'', False), (ascii ''stats'', False), (ascii ''net'', True)]"

definition proc_net :: "(u8 list \<times> bool) list" where "proc_net = [(ascii ''ip'', False), (ascii ''mac'', False)]"

definition proc_readdir :: "u8 list \<Rightarrow> nat \<Rightarrow> DirEntry list" where
  "proc_readdir path max' =
    (let node = proc_node path;
         entries = (if node = [] then proc_root else if node = ascii ''net'' then proc_net else [])
     in map (\<lambda>(nm, d). \<lparr>de_name = take NAME_MAX nm, de_is_dir = (if d then 1 else 0), de_size = 0\<rparr>) (take max' entries))"

section \<open>Keys of the semantic store\<close>

definition mem_key :: "u8 list \<Rightarrow> u8 list" where
  "mem_key path =
    (let key = trim_slashes path
     in unwrap_or (unwrap_or [] (strip_prefix (ascii ''mem'') key)) (strip_prefix (ascii ''mem/'') key))"

definition mem_request :: "nat \<Rightarrow> nat \<Rightarrow> nat \<Rightarrow> Message" where
  "mem_request tid key_ptr key_len =
    \<lparr>sender = tid, data = le_bytes 8 (101 :: u64) @ le_bytes 8 (of_nat key_ptr :: u64) @ le_bytes 8 (of_nat key_len :: u64)
       @ replicate 8 0\<rparr>"

text \<open>A reply with operation 101 carries its length and up to 16 bytes.\<close>

definition mem_reply :: "Message \<Rightarrow> VfsFd option" where
  "mem_reply msg =
    (if take 8 (data msg) = le_bytes 8 (101 :: u64)
     then let len = min (unat (read_le 8 (\<lambda>i. data msg ! i) 8 :: u64)) 16
          in Some (VInline (map (\<lambda>i. if i < len then data msg ! (16 + i) else 0) [0..<INLINE_CAP]) len 0 False)
     else None)"

text \<open>
  The polling loop: between two polls the other CPUs change the state, by one function of the list for each round
  until the timeout.
\<close>

fun mem_poll :: "nat \<Rightarrow> ('a FsState_scheme \<Rightarrow> 'a FsState_scheme) list \<Rightarrow> 'a FsState_scheme \<Rightarrow> 'a FsState_scheme \<times> VfsFd option" where
  "mem_poll cpu [] s = (s, None)"
| "mem_poll cpu (e # es) s =
    (case try_recv_message cpu (e s) of
       (s, Some msg) \<Rightarrow> (case mem_reply msg of Some fd \<Rightarrow> (s, Some fd) | None \<Rightarrow> mem_poll cpu es s)
     | (s, None) \<Rightarrow> mem_poll cpu es s)"

definition mem_open ::
  "nat \<Rightarrow> ('a FsState_scheme \<Rightarrow> 'a FsState_scheme) list \<Rightarrow> nat \<Rightarrow> u8 list \<Rightarrow> 'a FsState_scheme \<Rightarrow>
   'a FsState_scheme \<times> VfsFd option" where
  "mem_open cpu env path_ptr path s =
    (let key = mem_key path in
     if key = [] then (s, None)
     else case send_message 2 (mem_request (current_tid cpu s) (path_ptr + (length path - length key)) (length key)) s of
            (s, False) \<Rightarrow> (s, None)
          | (s, True) \<Rightarrow> mem_poll cpu ((\<lambda>s. s) # env) s)"

section \<open>System calls\<close>

definition path_at :: "'a FsState_scheme \<Rightarrow> nat \<Rightarrow> nat \<Rightarrow> u8 list option" where
  "path_at s p len = (let bs = read_bytes (PMEM s) p len in if utf8_valid bs then Some bs else None)"

definition sys_open ::
  "nat \<Rightarrow> nat \<Rightarrow> ('a FsState_scheme \<Rightarrow> 'a FsState_scheme) list \<Rightarrow> nat \<Rightarrow> nat \<Rightarrow> 'a FsState_scheme \<Rightarrow>
   ('a FsState_scheme \<times> int) out" where
  "sys_open fuel cpu env path_ptr path_len s =
    (let path = unwrap_or [] (path_at s path_ptr path_len) in
     if path_ptr = 0 \<or> path_len = 0 \<or> path = [] then Val (s, - 1)
     else case route path of
            BProc \<Rightarrow> (case proc_open path s of Some fd \<Rightarrow> Val (vfs_install fd s) | None \<Rightarrow> Val (s, - 1))
          | BMem \<Rightarrow> (case mem_open cpu env path_ptr path s of (s, Some fd) \<Rightarrow> Val (vfs_install fd s) | (s, None) \<Rightarrow> Val (s, - 1))
          | BFat32 \<Rightarrow> out_bind (on_fat (fat_open fuel path) s) (\<lambda>(s, r).
              case r of Some fat_fd \<Rightarrow> Val (vfs_install (VFat32 fat_fd) s) | None \<Rightarrow> Val (s, - 1)))"

definition user_write :: "nat \<Rightarrow> u8 list \<Rightarrow> 'a FsState_scheme \<Rightarrow> 'a FsState_scheme" where
  "user_write p bs s = s\<lparr>PMEM := write_bytes_at p bs (PMEM s)\<rparr>"

definition sys_read_fd :: "nat \<Rightarrow> nat \<Rightarrow> nat \<Rightarrow> 'a FsState_scheme \<Rightarrow> 'a FsState_scheme \<times> int" where
  "sys_read_fd fd buf_ptr len s =
    (if buf_ptr = 0 \<or> len = 0 \<or> fd \<ge> VFS_MAX_FD then (s, - 1)
     else case VFS_FDS s ! fd of
            Some (VFat32 fat_fd) \<Rightarrow>
              (let (v, n, bs) = fat_read fat_fd len (FS_FAT s) in (user_write buf_ptr bs (s\<lparr>FS_FAT := v\<rparr>), n))
          | Some (VInline ibuf ilen pos w) \<Rightarrow>
              (let n = min (ilen - pos) len in
               if n = 0 then (s, 0)
               else (user_write buf_ptr (take n (drop pos ibuf)) (s\<lparr>VFS_FDS := (VFS_FDS s)[fd := Some (VInline ibuf ilen (pos + n) w)]\<rparr>),
                     int n))
          | Some (VPipe i False) \<Rightarrow>
              (let (p, bs) = PipeBuf_read_bytes len (PIPES s ! i) in (user_write buf_ptr bs (set_pipe i p s), int (length bs)))
          | Some (VPipe i True) \<Rightarrow> (s, - 1)
          | None \<Rightarrow> (s, - 1))"

definition sys_write_fd :: "nat \<Rightarrow> nat \<Rightarrow> nat \<Rightarrow> nat \<Rightarrow> 'a FsState_scheme \<Rightarrow> ('a FsState_scheme \<times> int) out" where
  "sys_write_fd fuel fd buf_ptr len s =
    (if buf_ptr = 0 \<or> len = 0 \<or> fd \<ge> VFS_MAX_FD then Val (s, - 1)
     else let bs = read_bytes (PMEM s) buf_ptr len in
          case VFS_FDS s ! fd of
            Some (VFat32 fat_fd) \<Rightarrow> on_fat (fat_write fuel fat_fd bs) s
          | Some (VInline _ _ _ writable) \<Rightarrow> Val (s, if writable then int len else - 1)
          | Some (VPipe i True) \<Rightarrow> (let (p, n) = PipeBuf_write_bytes bs (PIPES s ! i) in Val (set_pipe i p s, int n))
          | Some (VPipe i False) \<Rightarrow> Val (s, - 1)
          | None \<Rightarrow> Val (s, - 1))"

definition sys_close :: "nat \<Rightarrow> 'a FsState_scheme \<Rightarrow> 'a FsState_scheme \<times> int" where
  "sys_close fd s =
    (if fd \<ge> VFS_MAX_FD then (s, - 1)
     else let s' = s\<lparr>VFS_FDS := (VFS_FDS s)[fd := None]\<rparr> in
          case VFS_FDS s ! fd of
            Some (VFat32 fat_fd) \<Rightarrow> (s'\<lparr>FS_FAT := fat_close fat_fd (FS_FAT s)\<rparr>, 0)
          | Some (VInline _ _ _ _) \<Rightarrow> (s', 0)
          | Some (VPipe i write_end) \<Rightarrow>
              (set_pipe i (if write_end then (PIPES s ! i)\<lparr>pb_open_write := False\<rparr> else (PIPES s ! i)\<lparr>pb_open_read := False\<rparr>) s', 0)
          | None \<Rightarrow> (s', - 1))"

definition sys_create :: "nat \<Rightarrow> nat \<Rightarrow> nat \<Rightarrow> 'a FsState_scheme \<Rightarrow> ('a FsState_scheme \<times> int) out" where
  "sys_create fuel path_ptr path_len s =
    (let path = unwrap_or [] (path_at s path_ptr path_len) in
     if path_ptr = 0 \<or> path_len = 0 \<or> path = [] then Val (s, - 1)
     else case route path of
            BProc \<Rightarrow> Val (s, - 1)
          | BMem \<Rightarrow> Val (vfs_install (VInline (replicate INLINE_CAP 0) 0 0 True) s)
          | BFat32 \<Rightarrow> out_bind (on_fat (fat_open_write fuel path) s) (\<lambda>(s, r).
              case r of Some fat_fd \<Rightarrow> Val (vfs_install (VFat32 fat_fd) s) | None \<Rightarrow> Val (s, - 1)))"

text \<open>A \<^verbatim>\<open>repr(C)\<close> directory entry of 264 bytes; the bytes of the name field after its terminator are left as they are.\<close>

definition write_dir_entry :: "nat \<Rightarrow> DirEntry \<Rightarrow> memory \<Rightarrow> memory" where
  "write_dir_entry p e mem =
    write_bytes_at (p + 260) (u32_le (de_size e)) (write_bytes_at (p + 256) [de_is_dir e, 0, 0]
      (write_bytes_at p (de_name e @ [0]) mem))"

fun write_dir_entries :: "nat \<Rightarrow> DirEntry list \<Rightarrow> memory \<Rightarrow> memory" where
  "write_dir_entries p [] mem = mem"
| "write_dir_entries p (e # es) mem = write_dir_entries (p + 264) es (write_dir_entry p e mem)"

definition sys_readdir :: "nat \<Rightarrow> nat \<Rightarrow> nat \<Rightarrow> nat \<Rightarrow> nat \<Rightarrow> 'a FsState_scheme \<Rightarrow> ('a FsState_scheme \<times> int) out" where
  "sys_readdir fuel path_ptr path_len out_ptr max' s =
    (if path_ptr = 0 \<or> out_ptr = 0 \<or> max' = 0 then Val (s, - 1)
     else let path = unwrap_or [] (path_at s path_ptr path_len);
              put = (\<lambda>s es. (s\<lparr>PMEM := write_dir_entries out_ptr es (PMEM s)\<rparr>, int (length es)))
          in case route path of
               BProc \<Rightarrow> Val (put s (proc_readdir path max'))
             | BMem \<Rightarrow> Val (s, 0)
             | BFat32 \<Rightarrow> out_bind (on_fat (fat_readdir fuel path max') s) (\<lambda>(s, es). Val (put s es)))"

definition open_pipe :: "PipeBuf \<Rightarrow> PipeBuf" where
  "open_pipe p = p\<lparr>pb_open_read := True, pb_open_write := True, pb_read_pos := 0, pb_write_pos := 0, pb_count := 0\<rparr>"

definition drop_pipe :: "PipeBuf \<Rightarrow> PipeBuf" where
  "drop_pipe p = p\<lparr>pb_open_read := False, pb_open_write := False\<rparr>"

definition sys_pipe :: "nat \<Rightarrow> 'a FsState_scheme \<Rightarrow> 'a FsState_scheme \<times> int" where
  "sys_pipe out_ptr s =
    (if out_ptr = 0 then (s, - 1)
     else case find_index (\<lambda>i. \<not> pb_open_read (PIPES s ! i) \<and> \<not> pb_open_write (PIPES s ! i)) MAX_PIPES of
            None \<Rightarrow> (s, - 1)
          | Some i \<Rightarrow>
              let p = open_pipe (PIPES s ! i); s = set_pipe i p s in
              case vfs_alloc (VPipe i False) s of
                (s, None) \<Rightarrow> (set_pipe i (drop_pipe p) s, - 1)
              | (s, Some rfd) \<Rightarrow>
                  (case vfs_alloc (VPipe i True) s of
                     (s, None) \<Rightarrow> (set_pipe i (drop_pipe p) (s\<lparr>VFS_FDS := (VFS_FDS s)[rfd := None]\<rparr>), - 1)
                   | (s, Some wfd) \<Rightarrow>
                       (user_write (out_ptr + 4) (u32_le wfd) (user_write out_ptr (u32_le rfd) s), 0)))"

section \<open>System calls on the volume itself\<close>

definition char_boundary :: "u8 list \<Rightarrow> nat \<Rightarrow> bool" where
  "char_boundary bs i \<longleftrightarrow> i = length bs \<or> i < length bs \<and> \<not> utf8_cont (bs ! i)"

text \<open>The name of the temporary file; slicing a string inside a character panics.\<close>

definition tmp_path :: "u8 list \<Rightarrow> u8 list out" where
  "tmp_path path =
    (let base = trim_slashes path; dot = unwrap_or (length base) (rfind 46 base); n = min dot 7
     in if char_boundary base n then Val ([47] @ take n base @ ascii ''.t'') else Panics)"

definition sys_atomic_write ::
  "nat \<Rightarrow> nat \<Rightarrow> nat \<Rightarrow> nat \<Rightarrow> nat \<Rightarrow> 'a FsState_scheme \<Rightarrow> ('a FsState_scheme \<times> int) out" where
  "sys_atomic_write fuel path_ptr path_len data_ptr data_len s =
    (if path_ptr = 0 \<or> path_len = 0 \<or> data_ptr = 0 then Val (s, - 1)
     else case path_at s path_ptr path_len of
            None \<Rightarrow> Val (s, - 1)
          | Some path \<Rightarrow>
              out_bind (tmp_path path) (\<lambda>tmp.
              out_bind (on_fat (fat_open_write fuel tmp) s) (\<lambda>(s, r).
                case r of
                  None \<Rightarrow> Val (s, - 1)
                | Some fd \<Rightarrow>
                    out_bind (on_fat (fat_write fuel fd (read_bytes (PMEM s) data_ptr data_len)) s) (\<lambda>(s, _).
                      let s = s\<lparr>FS_FAT := fat_close fd (FS_FAT s)\<rparr> in
                      out_bind (on_fat (fat_rename fuel tmp path) s) (\<lambda>(s, ok). Val (s, if ok then 0 else - 1))))))"

definition sys_unlink :: "nat \<Rightarrow> nat \<Rightarrow> nat \<Rightarrow> 'a FsState_scheme \<Rightarrow> ('a FsState_scheme \<times> int) out" where
  "sys_unlink fuel path_ptr path_len s =
    (if path_ptr = 0 \<or> path_len = 0 then Val (s, - 1)
     else case path_at s path_ptr path_len of
            None \<Rightarrow> Val (s, - 1)
          | Some path \<Rightarrow> out_bind (on_fat (fat_unlink fuel path) s) (\<lambda>(s, ok). Val (s, if ok then 0 else - 1)))"

definition sys_rename :: "nat \<Rightarrow> nat \<Rightarrow> nat \<Rightarrow> nat \<Rightarrow> nat \<Rightarrow> 'a FsState_scheme \<Rightarrow> ('a FsState_scheme \<times> int) out" where
  "sys_rename fuel src_ptr src_len dst_ptr dst_len s =
    (if src_ptr = 0 \<or> src_len = 0 \<or> dst_ptr = 0 \<or> dst_len = 0 then Val (s, - 1)
     else case (path_at s src_ptr src_len, path_at s dst_ptr dst_len) of
            (Some src, Some dst) \<Rightarrow> out_bind (on_fat (fat_rename fuel src dst) s) (\<lambda>(s, ok). Val (s, if ok then 0 else - 1))
          | _ \<Rightarrow> Val (s, - 1))"

end
