(* ===== verification/Fat32_Files.thy ===== *)
theory Fat32_Files
  imports Fat32
begin

text \<open>
  The table of open files of \<^verbatim>\<open>fat32.rs\<close>: which operations change it and how.  Everything below the
  level of descriptors leaves it alone; opening and creating take a free slot, reading and writing keep the
  slots in use, closing frees one.
\<close>

lemma out_bind_Val: "out_bind m f = Val y \<longleftrightarrow> (\<exists>x. m = Val x \<and> f x = Val y)"
  by (cases m) (auto simp: out_bind_def)

lemma files_sectors [simp]:
  "OPEN_FILES (fst (csec l s)) = OPEN_FILES s" "OPEN_FILES (put_sec l d s) = OPEN_FILES s"
  "OPEN_FILES (wsec l d s) = OPEN_FILES s" "OPEN_FILES (patch_sec l off bs s) = OPEN_FILES s"
  "OPEN_FILES (cinval l s) = OPEN_FILES s"
  by (simp_all add: csec_def put_sec_def wsec_def patch_sec_def cinval_def Let_def)

lemma csec_files: "csec l s = (s', x) \<Longrightarrow> OPEN_FILES s' = OPEN_FILES s"
  using files_sectors(1) [of l s] by simp

lemma files_entries [simp]:
  "OPEN_FILES (fst (fat_get c s)) = OPEN_FILES s" "OPEN_FILES (fat_put c v s) = OPEN_FILES s"
  "OPEN_FILES (put_entry l off bs s) = OPEN_FILES s" "OPEN_FILES (flush_size f s) = OPEN_FILES s"
  by (auto simp: fat_get_def fat_put_def put_entry_def flush_size_def Let_def csec_files split: prod.splits)

lemma fat_get_files: "fat_get c s = (s', x) \<Longrightarrow> OPEN_FILES s' = OPEN_FILES s"
  using files_entries(1) [of c s] by simp

lemma fold_files: "(\<And>x s. OPEN_FILES (f x s) = OPEN_FILES s) \<Longrightarrow> OPEN_FILES (fold f xs s) = OPEN_FILES s"
  by (induction xs arbitrary: s) auto

lemma zero_cluster_files [simp]: "OPEN_FILES (zero_cluster c s) = OPEN_FILES s"
  unfolding zero_cluster_def by (rule fold_files) (simp add: zero_sec_def)

lemma cluster_scan_files: "cluster_scan cs s = (s', r) \<Longrightarrow> OPEN_FILES s' = OPEN_FILES s"
  by (induction cs arbitrary: s) (auto simp: Let_def dest: fat_get_files split: prod.splits if_splits)

lemma alloc_cluster_files: "alloc_cluster s = (s', r) \<Longrightarrow> OPEN_FILES s' = OPEN_FILES s"
  by (auto simp: alloc_cluster_def Let_def dest!: cluster_scan_files split: prod.splits option.splits if_splits)

lemma scan_sectors_files: "scan_sectors cb ls a s = (s', r) \<Longrightarrow> OPEN_FILES s' = OPEN_FILES s"
  by (induction ls arbitrary: s a) (auto simp: Let_def dest: csec_files split: prod.splits ScanStep.splits)

lemma scan_chain_files: "scan_chain n cb c a s = Val (s', r) \<Longrightarrow> OPEN_FILES s' = OPEN_FILES s"
proof (induction n arbitrary: c a s)
  case (Suc n)
  obtain s1 st where 1: "scan_sectors cb (cluster_secs s c) a s = (s1, st)" by fastforce
  show ?case
    using Suc.prems scan_sectors_files [OF 1] Suc.IH
    by (auto simp: 1 Let_def split: if_splits ScanStep.splits prod.splits dest!: fat_get_files)
qed simp

lemma scan_dir_files: "scan_dir n c cb x s = Val (s', r) \<Longrightarrow> OPEN_FILES s' = OPEN_FILES s"
  unfolding scan_dir_def by (rule scan_chain_files)

lemma resolve_loop_files: "resolve_loop n d ps r s = Val (s', r') \<Longrightarrow> OPEN_FILES s' = OPEN_FILES s"
proof (induction ps arbitrary: d r s)
  case (Cons p ps)
  then obtain s1 q where 1: "scan_dir n d (match_component p) None s = Val (s1, q)" by (auto simp: out_bind_Val)
  show ?case using Cons.prems Cons.IH scan_dir_files [OF 1] by (fastforce simp: 1 split: option.splits)
qed simp

lemma resolve_files: "resolve n path s = Val (s', r) \<Longrightarrow> OPEN_FILES s' = OPEN_FILES s"
  by (auto simp: resolve_def dest: resolve_loop_files split: if_splits)

lemma free_tail_files: "free_tail n c s = Val s' \<Longrightarrow> OPEN_FILES s' = OPEN_FILES s"
  by (induction n arbitrary: c s) (auto simp: Let_def split: if_splits prod.splits dest!: fat_get_files)

lemma free_chain_files: "free_chain n c s = Val s' \<Longrightarrow> OPEN_FILES s' = OPEN_FILES s"
  by (induction n arbitrary: c s) (auto simp: Let_def split: if_splits prod.splits dest!: fat_get_files)

lemma chain_tail_files: "chain_tail n c s = Val (s', r) \<Longrightarrow> OPEN_FILES s' = OPEN_FILES s"
  by (induction n arbitrary: c s) (auto simp: Let_def split: if_splits prod.splits dest!: fat_get_files)

lemma slot_in_secs_files: "slot_in_secs ls s = (s', r) \<Longrightarrow> OPEN_FILES s' = OPEN_FILES s"
  by (induction ls arbitrary: s) (auto simp: Let_def dest: csec_files split: prod.splits option.splits)

lemma find_slot_files: "find_slot n c s = Val (s', r) \<Longrightarrow> OPEN_FILES s' = OPEN_FILES s"
proof (induction n arbitrary: c s)
  case (Suc n)
  obtain s1 o1 where 1: "slot_in_secs (cluster_secs s c) s = (s1, o1)" by fastforce
  show ?case
    using Suc.prems slot_in_secs_files [OF 1] Suc.IH
    by (auto simp: 1 Let_def split: if_splits option.splits prod.splits dest!: fat_get_files)
qed simp

lemma parent_cluster_files: "parent_cluster n p s = Val (s', r) \<Longrightarrow> OPEN_FILES s' = OPEN_FILES s"
  by (auto simp: parent_cluster_def out_bind_Val dest: resolve_files split: if_splits)

lemma entry_place_files: "entry_place n p c s = Val (s', r) \<Longrightarrow> OPEN_FILES s' = OPEN_FILES s"
  by (auto simp: entry_place_def out_bind_Val Let_def split: option.splits prod.splits if_splits
      dest!: find_slot_files alloc_cluster_files chain_tail_files)

lemma drop_file_files: "drop_file n c l off s = Val s' \<Longrightarrow> OPEN_FILES s' = OPEN_FILES s"
  by (auto simp: drop_file_def out_bind_Val dest: free_chain_files)

section \<open>Slots taken and freed\<close>

text \<open>A descriptor was free and is now in use; no other slot changed.\<close>

definition takes_slot :: "FatState \<Rightarrow> FatState \<Rightarrow> nat option \<Rightarrow> bool" where
  "takes_slot s s' r \<longleftrightarrow>
    (case r of
       None \<Rightarrow> OPEN_FILES s' = OPEN_FILES s
     | Some fd \<Rightarrow> fd < length (OPEN_FILES s) \<and> \<not> of_used (OPEN_FILES s ! fd) \<and>
         of_used (OPEN_FILES s' ! fd) \<and> OPEN_FILES s' = (OPEN_FILES s)[fd := OPEN_FILES s' ! fd])"

text \<open>The slots in use are the same.\<close>

definition keeps_slots :: "FatState \<Rightarrow> FatState \<Rightarrow> bool" where
  "keeps_slots s s' \<longleftrightarrow> map of_used (OPEN_FILES s') = map of_used (OPEN_FILES s)"

lemma takes_slot_cong: "OPEN_FILES s1 = OPEN_FILES s \<Longrightarrow> takes_slot s1 s' r \<longleftrightarrow> takes_slot s s' r"
  by (simp add: takes_slot_def split: option.splits)

lemma install_file_takes:
  assumes "install_file w sz c l off s = (s', r)"
  shows "takes_slot s s' r"
proof (cases "free_fd s")
  case None
  then show ?thesis using assms by (simp add: install_file_def takes_slot_def)
next
  case (Some fd)
  then have "fd < length (OPEN_FILES s)" "\<not> of_used (OPEN_FILES s ! fd)" by (auto simp: free_fd_def find_Some_iff)
  moreover have "r = Some fd"
    "OPEN_FILES s' = (OPEN_FILES s)[fd := \<lparr>of_used = True, of_writable = w, of_size = sz, of_start_cluster = c,
       of_cur_cluster = c, of_cur_clus_idx = 0, of_offset = 0, of_dir_lba = l, of_dir_entry_off = off\<rparr>]"
    using assms Some by (auto simp: install_file_def set_file_def)
  ultimately show ?thesis by (simp add: takes_slot_def)
qed

lemma open_takes:
  assumes "fat_open n path s = Val (s', r)"
  shows "takes_slot s s' r"
proof (cases "F_READY s")
  case True
  obtain s1 q where r1: "resolve n path s = Val (s1, q)" using assms True by (auto simp: fat_open_def out_bind_Val)
  have f: "OPEN_FILES s1 = OPEN_FILES s" using resolve_files [OF r1] .
  show ?thesis
  proof (cases "\<exists>c sz l off. q = Some (c, sz, False, l, off)")
    case True
    then obtain c sz l off where "q = Some (c, sz, False, l, off)" by blast
    then have "install_file False sz c l off s1 = (s', r)" using assms \<open>F_READY s\<close> r1 by (simp add: fat_open_def)
    then show ?thesis using install_file_takes takes_slot_cong [OF f] by blast
  next
    case False
    then show ?thesis
      using assms \<open>F_READY s\<close> r1 f by (cases q) (auto simp: fat_open_def takes_slot_def split: if_splits)
  qed
qed (use assms in \<open>simp add: fat_open_def takes_slot_def\<close>)

lemma create_takes:
  assumes "fat_create n path s = Val (s', r)"
  shows "takes_slot s s' r"
proof (cases "\<not> F_READY s \<or> file_name_of path = [] \<or> length (file_name_of path) > 11")
  case True
  then show ?thesis using assms by (simp add: fat_create_def takes_slot_def)
next
  case False
  obtain s1 p where p: "parent_cluster n (parent_of path) s = Val (s1, p)"
    using assms False by (auto simp: fat_create_def Let_def out_bind_Val)
  note 1 = parent_cluster_files [OF p]
  obtain s2 c where a: "alloc_cluster s1 = (s2, c)" by fastforce
  note 2 = alloc_cluster_files [OF a]
  show ?thesis
  proof (cases "p = None \<or> c = 0")
    case True
    then show ?thesis using assms False p a 1 2 by (cases p) (auto simp: fat_create_def takes_slot_def Let_def)
  next
    case False': False
    then obtain pc where pc: "p = Some pc" by auto
    obtain s3 pl where e: "entry_place n pc c s2 = Val (s3, pl)"
      using assms False False' p a pc by (auto simp: fat_create_def Let_def out_bind_Val)
    note 3 = entry_place_files [OF e]
    show ?thesis
    proof (cases pl)
      case None
      then show ?thesis using assms False False' p a pc e 1 2 3 by (simp add: fat_create_def takes_slot_def)
    next
      case (Some lo)
      obtain l off where "lo = (l, off)" by fastforce
      then have "install_file True 0 c l off (put_entry l off (created_entry (file_name_of path) c) s3) = (s', r)"
        using assms False False' p a pc e Some by (simp add: fat_create_def)
      moreover have "OPEN_FILES (put_entry l off (created_entry (file_name_of path) c) s3) = OPEN_FILES s" using 1 2 3 by simp
      ultimately show ?thesis using install_file_takes takes_slot_cong by blast
    qed
  qed
qed

lemma open_write_takes:
  assumes "fat_open_write n path s = Val (s', r)"
  shows "takes_slot s s' r"
proof (cases "F_READY s")
  case True
  obtain s1 q where r1: "resolve n path s = Val (s1, q)" using assms True by (auto simp: fat_open_write_def out_bind_Val)
  have f: "OPEN_FILES s1 = OPEN_FILES s" using resolve_files [OF r1] .
  show ?thesis
  proof (cases q)
    case None
    then have "fat_create n path s1 = Val (s', r)" using assms True r1 by (simp add: fat_open_write_def out_bind_def)
    then show ?thesis using create_takes takes_slot_cong [OF f] by blast
  next
    case (Some t)
    obtain cl sz d l off where t: "t = (cl, sz, d, l, off)" by (cases t)
    show ?thesis
    proof (cases d)
      case True
      then show ?thesis using assms \<open>F_READY s\<close> r1 Some t f by (simp add: fat_open_write_def out_bind_def takes_slot_def)
    next
      case False
      obtain s2 c where g: "fat_get cl s1 = (s2, c)" by fastforce
      obtain s3 where t3: "free_tail n c s2 = Val s3"
        and i: "install_file True 0 cl l off (put_entry l (off + 28) [0, 0, 0, 0] (fat_put cl FAT_EOC s3)) = (s', r)"
        using assms \<open>F_READY s\<close> r1 Some t False g by (auto simp: fat_open_write_def out_bind_def Let_def split: out.splits)
      have "OPEN_FILES (put_entry l (off + 28) [0, 0, 0, 0] (fat_put cl FAT_EOC s3)) = OPEN_FILES s"
        using f fat_get_files [OF g] free_tail_files [OF t3] by simp
      from takes_slot_cong [OF this] show ?thesis using install_file_takes [OF i] by blast
    qed
  qed
qed (use assms in \<open>simp add: fat_open_write_def takes_slot_def\<close>)

lemma read_loop_files: "read_loop want acc f s = (s', f', bs) \<Longrightarrow> OPEN_FILES s' = OPEN_FILES s \<and> of_used f' = of_used f"
proof (induction "want - length acc" arbitrary: acc f s rule: less_induct)
  case less
  show ?case
  proof (cases "length acc \<ge> want \<or> of_cur_cluster f < 2 \<or> is_eoc (of_cur_cluster f)")
    case True
    then show ?thesis using less.prems unfolding read_loop.simps [of want acc f s] by simp
  next
    case False
    obtain s1 sec where c: "csec (fst (file_pos s f)) s = (s1, sec)" by fastforce
    let ?n = "chunk_len s1 f (want - length acc)"
    let ?a = "acc @ slice (snd (file_pos s1 f)) ?n sec" and ?g = "f\<lparr>of_offset := (of_offset f + ?n) mod 2 ^ 32\<rparr>"
    obtain s2 nxt where g: "fat_get (of_cur_cluster f) s1 = (s2, nxt)" by fastforce
    have "0 < ?n" using False by simp
    then have lt: "want - length ?a < want - length acc" using False by (simp add: diff_less_mono2 del: chunk_len_pos)
    have o: "OPEN_FILES s1 = OPEN_FILES s" "OPEN_FILES s2 = OPEN_FILES s" using csec_files [OF c] fat_get_files [OF g] by simp_all
    have u: "of_used (f\<lparr>of_offset := x\<rparr>) = of_used f" "of_used (f\<lparr>of_offset := x, of_cur_cluster := y, of_cur_clus_idx := z\<rparr>) = of_used f" for x y z
      by simp_all
    from less.prems False show ?thesis
      unfolding read_loop.simps [of want acc f s]
      by (simp add: c g Let_def split: if_splits) (use less.hyps [OF lt] o in \<open>fastforce+\<close>)
  qed
qed

lemma extend_file_files:
  "extend_file n f s = Val (s', r) \<Longrightarrow> OPEN_FILES s' = OPEN_FILES s \<and> (\<forall>g. r = Some g \<longrightarrow> of_used g = of_used f)"
  by (auto simp: extend_file_def out_bind_Val Let_def split: if_splits prod.splits dest!: alloc_cluster_files chain_tail_files)

lemma write_chunk_files: "write_chunk buf d f s = (s', f', d') \<Longrightarrow> OPEN_FILES s' = OPEN_FILES s \<and> of_used f' = of_used f"
  by (auto simp: write_chunk_def Let_def split: if_splits prod.splits dest!: fat_get_files)

lemma write_loop_files: "write_loop n buf d f s = Val (s', f', d') \<Longrightarrow> OPEN_FILES s' = OPEN_FILES s \<and> of_used f' = of_used f"
proof (induction "length buf - d" arbitrary: d f s rule: less_induct)
  case less
  show ?case
  proof (cases "d \<ge> length buf")
    case True
    then show ?thesis using less.prems unfolding write_loop.simps [of n buf d f s] by simp
  next
    case False
    obtain s1 fo where e: "extend_file n f s = Val (s1, fo)"
      using less.prems False unfolding write_loop.simps [of n buf d f s] by (auto simp: out_bind_Val)
    show ?thesis
    proof (cases fo)
      case None
      then show ?thesis using less.prems False e extend_file_files [OF e] unfolding write_loop.simps [of n buf d f s] by simp
    next
      case (Some g)
      obtain s2 g' d2 where c: "write_chunk buf d g s1 = (s2, g', d2)" by (cases "write_chunk buf d g s1")
      have "0 < chunk_len s1 g (length buf - d)" using False by simp
      then have "length buf - d2 < length buf - d"
        using False write_chunk_done [OF c] by (simp add: diff_less_mono2 del: chunk_len_pos)
      moreover have "write_loop n buf d2 g' s2 = Val (s', f', d')"
        using less.prems False e c Some unfolding write_loop.simps [of n buf d f s] by simp
      ultimately have "OPEN_FILES s' = OPEN_FILES s2 \<and> of_used f' = of_used g'" by (rule less.hyps)
      moreover have "OPEN_FILES s1 = OPEN_FILES s" "of_used g = of_used f" using extend_file_files [OF e] Some by blast+
      ultimately show ?thesis using write_chunk_files [OF c] by simp
    qed
  qed
qed

lemma set_file_keeps: "of_used f = of_used (OPEN_FILES s ! fd) \<Longrightarrow> keeps_slots s (set_file fd f s)"
  by (cases "fd < length (OPEN_FILES s)") (simp_all add: keeps_slots_def set_file_def map_update list_update_same_conv list_update_beyond)

lemma keeps_slots_cong: "OPEN_FILES s1 = OPEN_FILES s \<Longrightarrow> keeps_slots s1 s' \<longleftrightarrow> keeps_slots s s'"
  "OPEN_FILES s2 = OPEN_FILES s' \<Longrightarrow> keeps_slots s s2 \<longleftrightarrow> keeps_slots s s'"
  by (simp_all add: keeps_slots_def)

lemma keeps_slots_same: "OPEN_FILES s' = OPEN_FILES s \<Longrightarrow> keeps_slots s s'" by (simp add: keeps_slots_def)

lemma read_keeps: "fat_read fd n s = (s', r, bs) \<Longrightarrow> keeps_slots s s'"
proof (cases "fd_valid fd s \<and> of_size (OPEN_FILES s ! fd) - of_offset (OPEN_FILES s ! fd) \<noteq> 0")
  case True
  assume r: "fat_read fd n s = (s', r, bs)"
  obtain s1 f1 b1 where l: "read_loop (min n (of_size (OPEN_FILES s ! fd) - of_offset (OPEN_FILES s ! fd))) [] (OPEN_FILES s ! fd) s = (s1, f1, b1)"
    by (cases "read_loop (min n (of_size (OPEN_FILES s ! fd) - of_offset (OPEN_FILES s ! fd))) [] (OPEN_FILES s ! fd) s") auto
  then have "s' = set_file fd f1 s1" using r True by (auto simp: fat_read_def Let_def)
  then show ?thesis using set_file_keeps [of f1 s1 fd] read_loop_files [OF l] keeps_slots_cong(1) [of s1 s] by simp
qed (auto simp: fat_read_def Let_def keeps_slots_def split: if_splits)

lemma write_keeps: "fat_write n fd bs s = Val (s', r) \<Longrightarrow> keeps_slots s s'"
proof (cases "\<not> fd_valid fd s \<or> \<not> of_writable (OPEN_FILES s ! fd)")
  case False
  assume r: "fat_write n fd bs s = Val (s', r)"
  obtain s1 f1 d1 where l: "write_loop n bs 0 (OPEN_FILES s ! fd) s = Val (s1, f1, d1)" and s': "s' = flush_size f1 (set_file fd f1 s1)"
    using r False by (auto simp: fat_write_def out_bind_Val)
  have "keeps_slots s1 (set_file fd f1 s1)" using write_loop_files [OF l] by (intro set_file_keeps) simp
  then show ?thesis using s' keeps_slots_cong(1) [of s1 s] write_loop_files [OF l] by (simp add: keeps_slots_def)
qed (auto simp: fat_write_def keeps_slots_def)

lemma close_files: "OPEN_FILES (fat_close fd s) = (if fd_valid fd s then (OPEN_FILES s)[fd := EMPTY_FILE] else OPEN_FILES s)"
  by (simp add: fat_close_def Let_def set_file_def)

lemma readdir_files: "fat_readdir n path m s = Val (s', r) \<Longrightarrow> OPEN_FILES s' = OPEN_FILES s"
  by (auto simp: fat_readdir_def out_bind_Val split: if_splits option.splits dest!: parent_cluster_files scan_dir_files)

lemma unlink_files:
  assumes "fat_unlink n path s = Val (s', r)"
  shows "OPEN_FILES s' = OPEN_FILES s"
proof (cases "F_READY s")
  case True
  then obtain s1 q where 1: "resolve n path s = Val (s1, q)" using assms by (auto simp: fat_unlink_def out_bind_Val)
  show ?thesis
    using assms True resolve_files [OF 1]
    by (cases q) (auto simp: fat_unlink_def 1 out_bind_Val split: if_splits dest!: drop_file_files)
qed (use assms in \<open>simp add: fat_unlink_def\<close>)

lemma rename_tail_files:
  assumes "out_bind (parent_cluster n p s) (\<lambda>(s, q). case q of None \<Rightarrow> Val (s, False)
      | Some pc \<Rightarrow> out_bind (find_slot n pc s) (\<lambda>(s, pl). case pl of None \<Rightarrow> Val (s, False)
          | Some (lba, off) \<Rightarrow> Val (put_entry l off' e' (put_entry lba off e s), True))) = Val (s', r)"
  shows "OPEN_FILES s' = OPEN_FILES s"
proof -
  obtain s1 q where 1: "parent_cluster n p s = Val (s1, q)" using assms by (auto simp: out_bind_Val)
  show ?thesis
  proof (cases q)
    case None
    then show ?thesis using assms 1 parent_cluster_files [OF 1] by simp
  next
    case (Some pc)
    then obtain s2 pl where 2: "find_slot n pc s1 = Val (s2, pl)" using assms 1 by (auto simp: out_bind_Val)
    show ?thesis
      using assms 1 2 Some parent_cluster_files [OF 1] find_slot_files [OF 2] by (auto simp: Let_def split: option.splits)
  qed
qed

lemma rename_files:
  assumes "fat_rename n src dst s = Val (s', r)"
  shows "OPEN_FILES s' = OPEN_FILES s"
proof (cases "F_READY s")
  case True
  then obtain s1 q where 1: "resolve n src s = Val (s1, q)" using assms by (auto simp: fat_rename_def out_bind_Val)
  show ?thesis
  proof (cases q)
    case None
    then show ?thesis using assms True resolve_files [OF 1] by (simp add: fat_rename_def 1)
  next
    case (Some t)
    obtain c sz d l off where t: "t = (c, sz, d, l, off)" by (cases t)
    show ?thesis
    proof (cases "d \<or> \<not> name_eq (parent_of src) (parent_of dst) \<or> file_name_of dst = [] \<or> length (file_name_of dst) > 11")
      case True
      then show ?thesis using assms \<open>F_READY s\<close> Some t resolve_files [OF 1] by (auto simp: fat_rename_def 1)
    next
      case False
      then obtain s2 q2 where 2: "resolve n dst s1 = Val (s2, q2)"
        using assms \<open>F_READY s\<close> Some t by (auto simp: fat_rename_def 1 Let_def out_bind_Val)
      let ?drop = "case q2 of Some (c, _, False, lba, off) \<Rightarrow> drop_file n c lba off s2 | _ \<Rightarrow> Val s2"
      obtain s3 where 3: "?drop = Val s3"
        using assms \<open>F_READY s\<close> Some t False 2 by (auto simp: fat_rename_def 1 Let_def out_bind_Val)
      have f: "OPEN_FILES s3 = OPEN_FILES s2"
        using 3 by (auto split: option.splits prod.splits bool.splits dest!: drop_file_files)
      have "OPEN_FILES s' = OPEN_FILES s3"
        by (rule rename_tail_files [of n "parent_of src" s3 l off "[0xE5]" "renamed_entry (file_name_of dst) c sz" s' r])
          (use assms \<open>F_READY s\<close> Some t False 2 3 in \<open>simp add: fat_rename_def 1 Let_def\<close>)
      then show ?thesis using resolve_files [OF 1] resolve_files [OF 2] f by simp
    qed
  qed
qed (use assms in \<open>simp add: fat_rename_def\<close>)

end
