(* ===== verification/Ndp.thy ===== *)
theory Ndp
  imports Net
begin

text \<open>
  Neighbour discovery and address autoconfiguration (\<^verbatim>\<open>kernel/src/net/ndp.rs\<close>), the IPv6 address helpers of
  \<^verbatim>\<open>mod.rs\<close>, and the receiving sides of both ICMP versions (\<^verbatim>\<open>icmp.rs\<close>, \<^verbatim>\<open>icmpv6.rs\<close>).
\<close>

section \<open>IPv6 addresses\<close>

definition mac_to_link_local :: "u8 list \<Rightarrow> u8 list" where
  "mac_to_link_local mac =
    [0xFE, 0x80, 0, 0, 0, 0, 0, 0, mac ! 0 XOR 0x02, mac ! 1, mac ! 2, 0xFF, 0xFE, mac ! 3, mac ! 4, mac ! 5]"

text \<open>The byte \<open>0xFF\<close> the code stores at index 13 is overwritten by the address.\<close>

definition solicited_node_mc :: "u8 list \<Rightarrow> u8 list" where
  "solicited_node_mc addr = [0xFF, 0x02, 0, 0, 0, 0, 0, 0, 0, 0, 0, 0x00, 0x01, addr ! 13, addr ! 14, addr ! 15]"

definition mc_ipv6_to_mac :: "u8 list \<Rightarrow> u8 list" where
  "mc_ipv6_to_mac mc = [0x33, 0x33, mc ! 12, mc ! 13, mc ! 14, mc ! 15]"

section \<open>The neighbour cache\<close>

definition NDP_RETRY_MAX :: nat where "NDP_RETRY_MAX = 3"
definition NDP_RETRY_TICKS :: u32 where "NDP_RETRY_TICKS = 15"

definition ndp_lookup :: "u8 list \<Rightarrow> 'a NetState_scheme \<Rightarrow> u8 list option" where
  "ndp_lookup ip s = map_option ae_mac (find (\<lambda>e. ae_valid e \<and> ae_ip e = ip) (NDP_CACHE s))"

definition ndp_learn :: "u8 list \<Rightarrow> u8 list \<Rightarrow> 'a NetState_scheme \<Rightarrow> 'a NetState_scheme" where
  "ndp_learn ip mac s =
    (if ip = ZERO16 then s
     else case find_index (\<lambda>i. ae_valid (NDP_CACHE s ! i) \<and> ae_ip (NDP_CACHE s ! i) = ip) (length (NDP_CACHE s)) of
            Some i \<Rightarrow> s\<lparr>NDP_CACHE := (NDP_CACHE s)[i := (NDP_CACHE s ! i)\<lparr>ae_mac := mac\<rparr>]\<rparr>
          | None \<Rightarrow>
              let i = (case find_index (\<lambda>i. \<not> ae_valid (NDP_CACHE s ! i)) (length (NDP_CACHE s)) of Some i \<Rightarrow> i | None \<Rightarrow> 0)
              in s\<lparr>NDP_CACHE := (NDP_CACHE s)[i := \<lparr>ae_ip = ip, ae_mac = mac, ae_valid = True\<rparr>]\<rparr>)"

section \<open>Sending\<close>

definition icmp6_body :: "u8 list \<Rightarrow> u8 list \<Rightarrow> u8 list \<Rightarrow> u8 list" where
  "icmp6_body src dst b = put_csum 2 (ipv6_upper_checksum src dst 58 b) b"

definition build_and_send_v6 :: "u8 list \<Rightarrow> u8 list \<Rightarrow> u8 list \<Rightarrow> u8 list \<Rightarrow> u8 list \<Rightarrow> 'a NetState_scheme \<Rightarrow> 'a NetState_scheme" where
  "build_and_send_v6 src_ip dst_ip dst_mac src_mac body s =
    (if 14 + 40 + length body > TX_BUF_LEN then s
     else fst (net_send_frame
       (eth_header dst_mac src_mac 0x86DD @ ip6_header (length body) 58 255 src_ip dst_ip @ body) s))"

definition rs_body :: "u8 list \<Rightarrow> u8 list" where "rs_body mac = [133, 0, 0, 0, 0, 0, 0, 0, 1, 1] @ mac"

definition ns_body :: "u8 list \<Rightarrow> u8 list \<Rightarrow> u8 list" where
  "ns_body target mac = [135, 0, 0, 0] @ target @ [1, 1] @ mac @ [0, 0, 0, 0]"

definition na_body :: "u8 list \<Rightarrow> u8 list \<Rightarrow> u8 list" where
  "na_body target mac = [136, 0, 0, 0, 0x60, 0, 0, 0] @ target @ [2, 1] @ mac"

definition send_rs :: "'a NetState_scheme \<Rightarrow> 'a NetState_scheme" where
  "send_rs s =
    (let all_routers = [0xFF, 0x02, 0, 0, 0, 0, 0, 0, 0, 0, 0, 0, 0, 0, 0, 2] in
     if NET_IP6 s = ZERO16 then s
     else build_and_send_v6 (NET_IP6 s) all_routers [0x33, 0x33, 0, 0, 0, 2] (NET_MAC s)
            (icmp6_body (NET_IP6 s) all_routers (rs_body (NET_MAC s))) s)"

definition send_ns :: "u8 list \<Rightarrow> 'a NetState_scheme \<Rightarrow> 'a NetState_scheme" where
  "send_ns target s =
    (let mc = solicited_node_mc target in
     if NET_IP6 s = ZERO16 then s
     else build_and_send_v6 (NET_IP6 s) mc (mc_ipv6_to_mac mc) (NET_MAC s)
            (icmp6_body (NET_IP6 s) mc (ns_body target (NET_MAC s))) s)"

definition send_na :: "u8 list \<Rightarrow> u8 list \<Rightarrow> u8 list \<Rightarrow> 'a NetState_scheme \<Rightarrow> 'a NetState_scheme" where
  "send_na dst_ip dst_mac target s =
    build_and_send_v6 (NET_IP6 s) dst_ip dst_mac (NET_MAC s)
      (icmp6_body (NET_IP6 s) dst_ip (na_body target (NET_MAC s))) s"

section \<open>Receiving\<close>

text \<open>Options are a type, a length in units of eight bytes, and data.\<close>

function parse_option_tll :: "u8 list \<Rightarrow> u8 list option" where
  "parse_option_tll opts =
    (if length opts < 2 then None
     else let opt_len = unat (opts ! 1) * 8 in
          if opt_len = 0 \<or> opt_len > length opts then None
          else if opts ! 0 = 2 \<and> opt_len \<ge> 8 then Some (sub_bytes 2 6 opts)
          else parse_option_tll (drop opt_len opts))"
  by pat_completeness auto
termination
  by (relation "measure length") auto

declare parse_option_tll.simps [simp del]

definition handle_na :: "u8 list \<Rightarrow> 'a NetState_scheme \<Rightarrow> 'a NetState_scheme" where
  "handle_na d s =
    (if length d < 20 then s
     else case parse_option_tll (drop 20 d) of Some m \<Rightarrow> ndp_learn (sub_bytes 4 16 d) m s | None \<Rightarrow> s)"

definition handle_ns :: "u8 list \<Rightarrow> u8 list \<Rightarrow> u8 list \<Rightarrow> 'a NetState_scheme \<Rightarrow> 'a NetState_scheme" where
  "handle_ns src_ip src_mac d s =
    (if length d < 20 then s
     else let target = sub_bytes 4 16 d in
          if target \<noteq> NET_IP6 s \<and> target \<noteq> NET_IP6G s then s
          else send_na src_ip src_mac target (ndp_learn src_ip src_mac s))"

text \<open>A prefix option of a router advertisement gives the global address.\<close>

definition ra_prefix :: "u8 list \<Rightarrow> 'a NetState_scheme \<Rightarrow> 'a NetState_scheme" where
  "ra_prefix opt s =
    (if opt ! 3 AND 0x80 \<noteq> 0 \<and> opt ! 3 AND 0x40 \<noteq> 0 \<and> opt ! 2 = 64
     then s\<lparr>NET_IP6G := sub_bytes 8 8 opt @ drop 8 (mac_to_link_local (NET_MAC s)), NET_IP6_UP := True\<rparr>
     else s)"

function ra_options :: "u8 list \<Rightarrow> 'a NetState_scheme \<Rightarrow> 'a NetState_scheme" where
  "ra_options opts s =
    (if length opts < 2 then s
     else let opt_len = unat (opts ! 1) * 8 in
          if opt_len = 0 \<or> opt_len > length opts then s
          else ra_options (drop opt_len opts) (if opts ! 0 = 3 \<and> opt_len \<ge> 32 then ra_prefix opts s else s))"
  by pat_completeness auto
termination
  by (relation "measure (\<lambda>(opts, s). length opts)") auto

declare ra_options.simps [simp del]

definition handle_ra :: "u8 list \<Rightarrow> u8 list \<Rightarrow> u8 list \<Rightarrow> 'a NetState_scheme \<Rightarrow> 'a NetState_scheme" where
  "handle_ra src_ip src_mac d s =
    (if length d < 12 then s else ra_options (drop 12 d) (ndp_learn src_ip src_mac (s\<lparr>NET_GW6 := src_ip\<rparr>)))"

definition ndp_retry :: "nat \<Rightarrow> 'a NetState_scheme \<Rightarrow> 'a NetState_scheme" where
  "ndp_retry i s =
    (let p = NDP_PENDING s ! i; put = (\<lambda>q s. s\<lparr>NDP_PENDING := (NDP_PENDING s)[i := q]\<rparr>) in
     if \<not> ap_valid p \<or> TICKS s < ap_next_retry p then s
     else if ap_retry_count p \<ge> NDP_RETRY_MAX then put (p\<lparr>ap_valid := False\<rparr>) s
     else put (p\<lparr>ap_retry_count := ap_retry_count p + 1, ap_next_retry := TICKS s + NDP_RETRY_TICKS\<rparr>) (send_ns (ap_ip p) s))"

definition ndp_tick :: "'a NetState_scheme \<Rightarrow> 'a NetState_scheme" where
  "ndp_tick s = fold ndp_retry [0..<length (NDP_PENDING s)] s"

section \<open>ICMP\<close>

definition send_icmp_echo_reply :: "u8 list \<Rightarrow> u8 list \<Rightarrow> u8 list \<Rightarrow> 'a NetState_scheme \<Rightarrow> 'a NetState_scheme" where
  "send_icmp_echo_reply dst_mac dst_ip req s =
    (let n = 20 + length req; b = req[0 := 0, 1 := 0, 2 := 0, 3 := 0] in
     if 14 + n > TX_BUF_LEN then s
     else fst (net_send_frame (eth_header dst_mac (NET_MAC s) 0x0800 @ ip4_header n 0 1 (NET_IP s) dst_ip
            @ put_csum 2 (ip_checksum b) b) s))"

definition handle_icmp :: "u8 list \<Rightarrow> u8 list \<Rightarrow> u8 list \<Rightarrow> 'a NetState_scheme \<Rightarrow> 'a NetState_scheme" where
  "handle_icmp src_mac src_ip p s =
    (if length p < 8 then s
     else if p ! 0 = 8 then send_icmp_echo_reply src_mac src_ip p s
     else if p ! 0 = 0 then s\<lparr>ICMP_PING_REPLY_TICKS := Some (TIMER s)\<rparr>
     else s)"

text \<open>The echo request of \<^verbatim>\<open>send_ping\<close>: its checksum is taken over the first 26 of its 40 bytes.\<close>

definition ping_frame :: "u8 list \<Rightarrow> u8 list \<Rightarrow> 'a NetState_scheme \<Rightarrow> u8 list" where
  "ping_frame dst_mac dst_ip s =
    (let b = [8, 0, 0, 0, 0, 1, 0, 1] @ map of_nat [0..<32] in
     eth_header dst_mac (NET_MAC s) 0x0800 @ ip4_header 60 0x1234 1 (NET_IP s) dst_ip @ put_csum 2 (ip_checksum (take 26 b)) b)"

definition PING6_ID :: nat where "PING6_ID = 0xAE60"

definition handle_echo_request6 :: "u8 list \<Rightarrow> u8 list \<Rightarrow> u8 list \<Rightarrow> 'a NetState_scheme \<Rightarrow> 'a NetState_scheme" where
  "handle_echo_request6 src_ip my_ip d s =
    (if length d < 8 \<or> 14 + 40 + length d > TX_BUF_LEN then s
     else case ndp_lookup src_ip s of
            None \<Rightarrow> s
          | Some dst_mac \<Rightarrow>
              let b = d[0 := 129, 2 := 0, 3 := 0]
              in fst (net_send_frame (eth_header dst_mac (NET_MAC s) 0x86DD @ ip6_header (length d) 58 255 my_ip src_ip
                   @ icmp6_body my_ip src_ip b) s))"

definition handle_echo_reply6 :: "u8 list \<Rightarrow> 'a NetState_scheme \<Rightarrow> 'a NetState_scheme" where
  "handle_echo_reply6 d s = (if length d < 8 \<or> be16 d 4 \<noteq> PING6_ID then s else s\<lparr>PING6_REPLY := Some (TICKS s)\<rparr>)"

definition handle_icmpv6 :: "u8 list \<Rightarrow> u8 list \<Rightarrow> u8 list \<Rightarrow> u8 list \<Rightarrow> 'a NetState_scheme \<Rightarrow> 'a NetState_scheme" where
  "handle_icmpv6 src_mac src_ip dst_ip d s =
    (if length d < 4 then s
     else if d ! 0 = 128 then handle_echo_request6 src_ip dst_ip d s
     else if d ! 0 = 129 then handle_echo_reply6 d s
     else if d ! 0 = 134 then handle_ra src_ip src_mac (drop 4 d) s
     else if d ! 0 = 135 then handle_ns src_ip src_mac (drop 4 d) s
     else if d ! 0 = 136 then handle_na (drop 4 d) s
     else s)"

end
