(* ===== verification/Neighbour.thy ===== *)
theory Neighbour
  imports Ndp
begin

text \<open>
  The contract shared by the two address caches, ARP's and neighbour discovery's: a learned address is found, and
  learning another one leaves it alone or evicts it, but never changes what is answered for it.  The contract is
  a locale, interpreted for both tables.
\<close>

section \<open>The contract\<close>

locale neighbour_cache =
  fixes learn :: "'ip \<Rightarrow> 'mac \<Rightarrow> 's \<Rightarrow> 's"
    and lookup :: "'ip \<Rightarrow> 's \<Rightarrow> 'mac option"
    and wf :: "'s \<Rightarrow> bool"
    and usable :: "'ip \<Rightarrow> bool"
  assumes learn_wf: "wf s \<Longrightarrow> wf (learn ip mac s)"
    and lookup_same: "wf s \<Longrightarrow> usable ip \<Longrightarrow> lookup ip (learn ip mac s) = Some mac"
    and lookup_other: "wf s \<Longrightarrow> ip' \<noteq> ip \<Longrightarrow> lookup ip' (learn ip mac s) = Some m \<Longrightarrow> lookup ip' s = Some m"
    and learn_unusable: "\<not> usable ip \<Longrightarrow> learn ip mac s = s"
begin

definition learns :: "('ip \<times> 'mac) list \<Rightarrow> 's \<Rightarrow> 's" where
  "learns = fold (\<lambda>(ip, mac). learn ip mac)"

lemma learns_snoc: "learns (ps @ [(ip, mac)]) s = learn ip mac (learns ps s)"
  by (simp add: learns_def)

lemma learns_wf: "wf s \<Longrightarrow> wf (learns ps s)"
  by (induction ps arbitrary: s) (auto simp: learns_def learn_wf)

lemma answer_is_latest:
  assumes "wf s" "lookup ip s = None" "usable ip" "lookup ip (learns ps s) = Some m"
  shows "map_of (rev ps) ip = Some m"
  using assms(4)
proof (induction ps rule: rev_induct)
  case Nil
  then show ?case using assms(2) by (simp add: learns_def)
next
  case (snoc p ps)
  obtain ip' mac where p: "p = (ip', mac)" by force
  have wf: "wf (learns ps s)" using assms(1) by (rule learns_wf)
  show ?case
  proof (cases "ip' = ip")
    case True
    then show ?thesis using snoc.prems wf assms(3) by (simp add: p learns_snoc lookup_same)
  next
    case False
    then show ?thesis using snoc lookup_other [OF wf, of ip ip' mac m] by (simp add: p learns_snoc)
  qed
qed

end

section \<open>Tables\<close>

definition table_lookup :: "u8 list \<Rightarrow> ArpEntry list \<Rightarrow> u8 list option" where
  "table_lookup ip t = map_option ae_mac (find (\<lambda>e. ae_valid e \<and> ae_ip e = ip) t)"

definition holds :: "ArpEntry list \<Rightarrow> nat \<Rightarrow> u8 list \<Rightarrow> bool" where
  "holds t i ip \<longleftrightarrow> i < length t \<and> ae_valid (t ! i) \<and> ae_ip (t ! i) = ip"

definition table_wf :: "ArpEntry list \<Rightarrow> bool" where
  "table_wf t \<longleftrightarrow> length t = 16 \<and> (\<forall>ip i j. holds t i ip \<longrightarrow> holds t j ip \<longrightarrow> i = j)"

lemma table_lookup_Some:
  assumes "table_wf t"
  shows "table_lookup ip t = Some m \<longleftrightarrow> (\<exists>i. holds t i ip \<and> ae_mac (t ! i) = m)"
proof
  assume "\<exists>i. holds t i ip \<and> ae_mac (t ! i) = m"
  then obtain i where i: "holds t i ip" "ae_mac (t ! i) = m" by blast
  have "find (\<lambda>e. ae_valid e \<and> ae_ip e = ip) t = Some (t ! i)"
    using i(1) assms unfolding find_Some_iff table_wf_def holds_def
    by (intro exI [of _ i]) (metis less_trans nat_neq_iff)
  then show "table_lookup ip t = Some m" using i(2) by (simp add: table_lookup_def)
qed (auto simp: table_lookup_def find_Some_iff holds_def)

lemma table_refresh:
  fixes mac :: "u8 list"
  assumes "table_wf t" "holds t i ip"
  defines "t' \<equiv> t[i := (t ! i)\<lparr>ae_mac := mac\<rparr>]"
  shows "table_wf t'" "table_lookup ip t' = Some mac"
    "ip' \<noteq> ip \<Longrightarrow> table_lookup ip' t' = Some m \<Longrightarrow> table_lookup ip' t = Some m"
proof -
  have n: "length t' = length t" "t' ! j = (if j = i then (t ! i)\<lparr>ae_mac := mac\<rparr> else t ! j)" for j
    using assms(2) by (auto simp: holds_def t'_def nth_list_update)
  have h: "holds t' j a = holds t j a" for j a by (simp add: holds_def n)
  show wf: "table_wf t'" using assms(1) by (simp add: table_wf_def h n)
  show "table_lookup ip t' = Some mac"
    unfolding table_lookup_Some [OF wf] h using assms(2) by (intro exI [of _ i]) (simp add: n)
  assume "ip' \<noteq> ip" "table_lookup ip' t' = Some m"
  then show "table_lookup ip' t = Some m"
    using assms(2) unfolding table_lookup_Some [OF wf] table_lookup_Some [OF assms(1)] h
    by (auto simp: n holds_def split: if_splits)
qed

lemma table_insert:
  fixes mac :: "u8 list"
  assumes "table_wf t" "\<forall>j. \<not> holds t j ip" "i < 16"
  defines "t' \<equiv> t[i := \<lparr>ae_ip = ip, ae_mac = mac, ae_valid = True\<rparr>]"
  shows "table_wf t'" "table_lookup ip t' = Some mac"
    "ip' \<noteq> ip \<Longrightarrow> table_lookup ip' t' = Some m \<Longrightarrow> table_lookup ip' t = Some m"
proof -
  have n: "length t' = length t"
      "t' ! j = (if j = i then \<lparr>ae_ip = ip, ae_mac = mac, ae_valid = True\<rparr> else t ! j)" for j
    using assms(1,3) by (auto simp: table_wf_def t'_def nth_list_update)
  have h: "holds t' j a \<longleftrightarrow> (if j = i then a = ip else holds t j a)" for j a
    using assms(1,3) by (auto simp: holds_def n table_wf_def)
  show wf: "table_wf t'"
    unfolding table_wf_def n h using assms(1,2) unfolding table_wf_def by (auto split: if_splits)
  show "table_lookup ip t' = Some mac"
    unfolding table_lookup_Some [OF wf] h by (intro exI [of _ i]) (simp add: n)
  assume "ip' \<noteq> ip" "table_lookup ip' t' = Some m"
  then show "table_lookup ip' t = Some m"
    unfolding table_lookup_Some [OF wf] table_lookup_Some [OF assms(1)] h by (auto simp: n split: if_splits)
qed

section \<open>The two caches keep the contract\<close>

definition arp_wf :: "'a NetState_scheme \<Rightarrow> bool" where "arp_wf s \<longleftrightarrow> table_wf (ARP_TABLE s)"
definition ndp_wf :: "'a NetState_scheme \<Rightarrow> bool" where "ndp_wf s \<longleftrightarrow> table_wf (NDP_CACHE s)"

lemma arp_lookup_table: "arp_lookup ip s = table_lookup ip (ARP_TABLE s)"
  by (simp add: arp_lookup_def table_lookup_def)

lemma ndp_lookup_table: "ndp_lookup ip s = table_lookup ip (NDP_CACHE s)"
  by (simp add: ndp_lookup_def table_lookup_def)

text \<open>Learning is a refresh or an insertion of the table.\<close>

definition table_learned :: "u8 list \<Rightarrow> u8 list \<Rightarrow> ArpEntry list \<Rightarrow> ArpEntry list \<Rightarrow> bool" where
  "table_learned ip mac t t' \<longleftrightarrow>
    (\<exists>i. holds t i ip \<and> t' = t[i := (t ! i)\<lparr>ae_mac := mac\<rparr>]) \<or>
    (\<exists>i < 16. (\<forall>j. \<not> holds t j ip) \<and> t' = t[i := \<lparr>ae_ip = ip, ae_mac = mac, ae_valid = True\<rparr>])"

lemma table_learned_laws:
  assumes "table_wf t" "table_learned ip mac t t'"
  shows "table_wf t' \<and> table_lookup ip t' = Some mac \<and>
    (\<forall>ip' m. ip' \<noteq> ip \<longrightarrow> table_lookup ip' t' = Some m \<longrightarrow> table_lookup ip' t = Some m)"
proof -
  consider (refresh) i where "holds t i ip" "t' = t[i := (t ! i)\<lparr>ae_mac := mac\<rparr>]"
    | (insert) i where "\<forall>j. \<not> holds t j ip" "i < 16" "t' = t[i := \<lparr>ae_ip = ip, ae_mac = mac, ae_valid = True\<rparr>]"
    using assms(2) unfolding table_learned_def by (elim disjE exE conjE)
  then show ?thesis
  proof cases
    case refresh
    show ?thesis unfolding refresh(2)
      by (intro conjI allI impI table_refresh(1,2) [OF assms(1) refresh(1)])
        (rule table_refresh(3) [OF assms(1) refresh(1)])
  next
    case insert
    show ?thesis unfolding insert(3)
      by (intro conjI allI impI table_insert(1,2) [OF assms(1) insert(1,2)])
        (rule table_insert(3) [OF assms(1) insert(1,2)])
  qed
qed

lemma arp_learn_table: "table_learned ip mac (ARP_TABLE s) (ARP_TABLE (arp_learn ip mac s))"
proof (cases "find_index (\<lambda>i. ae_valid (ARP_TABLE s ! i) \<and> ae_ip (ARP_TABLE s ! i) = ip) (length (ARP_TABLE s))")
  case None
  then have "\<forall>j. \<not> holds (ARP_TABLE s) j ip" by (auto simp: find_index_None_iff holds_def)
  then show ?thesis using None unfolding table_learned_def
    by (intro disjI2 exI [of _ "ARP_CURSOR s mod 16"]) (simp add: arp_learn_def)
next
  case (Some i)
  then have "holds (ARP_TABLE s) i ip" by (auto simp: find_index_Some_iff holds_def)
  then show ?thesis using Some unfolding table_learned_def
    by (intro disjI1 exI [of _ i]) (simp add: arp_learn_def)
qed

lemma ndp_learn_table:
  assumes "ip \<noteq> ZERO16" "ndp_wf s"
  shows "table_learned ip mac (NDP_CACHE s) (NDP_CACHE (ndp_learn ip mac s))"
proof (cases "find_index (\<lambda>i. ae_valid (NDP_CACHE s ! i) \<and> ae_ip (NDP_CACHE s ! i) = ip) (length (NDP_CACHE s))")
  case None
  define i where "i = (case find_index (\<lambda>i. \<not> ae_valid (NDP_CACHE s ! i)) (length (NDP_CACHE s)) of Some i \<Rightarrow> i | None \<Rightarrow> 0)"
  have "i < 16" using assms(2)
    by (auto simp: i_def ndp_wf_def table_wf_def dest: find_index_SomeD split: option.splits)
  moreover have "\<forall>j. \<not> holds (NDP_CACHE s) j ip" using None by (auto simp: find_index_None_iff holds_def)
  ultimately show ?thesis using None assms(1) unfolding table_learned_def
    by (intro disjI2 exI [of _ i]) (simp add: ndp_learn_def i_def)
next
  case (Some i)
  then have "holds (NDP_CACHE s) i ip" by (auto simp: find_index_Some_iff holds_def)
  then show ?thesis using Some assms(1) unfolding table_learned_def
    by (intro disjI1 exI [of _ i]) (simp add: ndp_learn_def)
qed

interpretation arpc: neighbour_cache arp_learn arp_lookup arp_wf "\<lambda>_. True"
proof
  fix s :: "'a NetState_scheme" and ip mac
  assume "arp_wf s"
  note laws = table_learned_laws [OF this [unfolded arp_wf_def] arp_learn_table [of ip mac s]]
  show "arp_wf (arp_learn ip mac s)" using laws by (simp add: arp_wf_def)
  show "arp_lookup ip (arp_learn ip mac s) = Some mac" using laws by (simp add: arp_lookup_table)
  show "arp_lookup ip' s = Some m" if "ip' \<noteq> ip" "arp_lookup ip' (arp_learn ip mac s) = Some m" for ip' m
    using laws that by (simp add: arp_lookup_table)
qed simp

interpretation ndpc: neighbour_cache ndp_learn ndp_lookup ndp_wf "\<lambda>ip. ip \<noteq> ZERO16"
proof
  fix s :: "'a NetState_scheme" and ip mac
  show "ndp_learn ip mac s = s" if "\<not> ip \<noteq> ZERO16" using that by (simp add: ndp_learn_def)
  assume wf: "ndp_wf s"
  have laws: "ip \<noteq> ZERO16 \<Longrightarrow> table_wf (NDP_CACHE (ndp_learn ip mac s))
      \<and> table_lookup ip (NDP_CACHE (ndp_learn ip mac s)) = Some mac
      \<and> (\<forall>ip' m. ip' \<noteq> ip \<longrightarrow> table_lookup ip' (NDP_CACHE (ndp_learn ip mac s)) = Some m
           \<longrightarrow> table_lookup ip' (NDP_CACHE s) = Some m)"
    using wf by (intro table_learned_laws ndp_learn_table) (simp_all add: ndp_wf_def)
  show "ndp_wf (ndp_learn ip mac s)"
    using laws wf by (cases "ip = ZERO16") (simp_all add: ndp_wf_def ndp_learn_def)
  show "ndp_lookup ip (ndp_learn ip mac s) = Some mac" if "ip \<noteq> ZERO16"
    using laws that by (simp add: ndp_lookup_table)
  show "ndp_lookup ip' s = Some m" if "ip' \<noteq> ip" "ndp_lookup ip' (ndp_learn ip mac s) = Some m" for ip' m
    using laws that by (cases "ip = ZERO16") (simp_all add: ndp_lookup_table, simp add: ndp_learn_def)
qed

end
