(* ===== verification/Net_Props.thy ===== *)
theory Net_Props
  imports Neighbour
begin

text \<open>
  What the network layer's messages mean to their receivers: headers verify, an ARP exchange and a neighbour
  advertisement resolve an address, and two messages the kernel sends that no correct receiver accepts.
\<close>

section \<open>An example host\<close>

definition example_host :: "u8 \<Rightarrow> NetState" where
  "example_host n = \<lparr>
    NET_IP = [10, 0, 2, n], NET_MASK = [255, 255, 255, 0], NET_GW = [10, 0, 2, 2],
    NET_MAC = [2, 0, 0, 0, 0, n], NET_UP = True,
    NET_IP6 = mac_to_link_local [2, 0, 0, 0, 0, n], NET_GW6 = ZERO16, NET_IP6G = ZERO16, NET_IP6_UP = False,
    ARP_TABLE = replicate 16 \<lparr>ae_ip = ZERO4, ae_mac = replicate 6 0, ae_valid = False\<rparr>, ARP_CURSOR = 0,
    ARP_PENDING = replicate 4 \<lparr>ap_ip = ZERO4, ap_retry_count = 0, ap_next_retry = 0, ap_valid = False\<rparr>,
    NDP_CACHE = replicate 16 \<lparr>ae_ip = ZERO16, ae_mac = replicate 6 0, ae_valid = False\<rparr>,
    NDP_PENDING = replicate 4 \<lparr>ap_ip = ZERO16, ap_retry_count = 0, ap_next_retry = 0, ap_valid = False\<rparr>,
    ICMP_PING_REPLY_TICKS = None, PING6_REPLY = None, TICKS = 0, TIMER = 0, NIC_OK = (\<lambda>_. True), SENT = []\<rparr>"

lemma example_host_fields [simp]:
  "NET_IP (example_host n) = [10, 0, 2, n]" "NET_MAC (example_host n) = [2, 0, 0, 0, 0, n]"
  "NET_IP6 (example_host n) = mac_to_link_local [2, 0, 0, 0, 0, n]" "NET_IP6G (example_host n) = ZERO16"
  by (simp_all add: example_host_def)

lemma example_host_wf: "arp_wf (example_host n)" "ndp_wf (example_host n)"
  by (auto simp: arp_wf_def ndp_wf_def table_wf_def holds_def example_host_def)

section \<open>Reading messages back\<close>

lemma be16_put16: "n < 65536 \<Longrightarrow> be16 (put16 n @ b) 0 = n"
  by (simp add: be16_def put16_def unsigned_of_nat take_bit_eq_mod)

lemma sub_bytes_append: "length a = i \<Longrightarrow> length b = n \<Longrightarrow> sub_bytes i n (a @ b @ c) = b"
  by (simp add: sub_bytes_def)

lemma be16_append: "length a \<le> i \<Longrightarrow> be16 (a @ b) i = be16 b (i - length a)"
  by (simp add: be16_def nth_append Suc_diff_le)

text \<open>
  Every IPv4 header the kernel builds carries a checksum that its receiver accepts.
\<close>

theorem ip4_header_verifies: "ip_checksum (ip4_header len ident proto src dst) = 0"
  unfolding ip4_header_def Let_def by (rule ip_checksum_verifies) (simp_all add: put16_def)

section \<open>ARP\<close>

lemma arp_payload:
  assumes "length dst = 6" "length (NET_MAC s) = 6"
  shows "drop 14 (arp_frame dst oper tmac tip s) =
    put16 1 @ put16 0x0800 @ [6, 4] @ put16 oper @ NET_MAC s @ NET_IP s @ tmac @ tip"
  using assms by (simp add: arp_frame_def eth_header_def)

lemma handle_arp_frame:
  assumes "length (NET_MAC a) = 6" "length (NET_IP a) = 4" "length tmac = 6" "length tip = 4" "oper < 65536"
  shows "handle_arp (put16 1 @ put16 0x0800 @ [6, 4] @ put16 oper @ NET_MAC a @ NET_IP a @ tmac @ tip) s =
    (let s = arp_learn (NET_IP a) (NET_MAC a) s
     in if oper = 1 \<and> tip = NET_IP s then send_arp_reply (NET_IP a) (NET_MAC a) s else s)"
proof -
  let ?p = "put16 1 @ put16 0x0800 @ [6, 4] @ put16 oper @ NET_MAC a @ NET_IP a @ tmac @ tip"
  have "be16 ?p 0 = 1" "be16 ?p 2 = 0x0800" "be16 ?p 6 = oper"
    using be16_put16 [of 1] be16_put16 [of "0x0800"] be16_put16 [OF assms(5)]
    by (simp_all add: be16_append be16_append [of "[_, _]", simplified])
  moreover have "sub_bytes 8 6 ?p = NET_MAC a" "sub_bytes 14 4 ?p = NET_IP a" "sub_bytes 24 4 ?p = tip"
    using assms by (simp_all add: sub_bytes_def put16_def)
  ultimately show ?thesis using assms by (simp add: handle_arp_def Let_def)
qed

lemma arp_learn_keeps [simp]:
  "NET_IP (arp_learn ip mac s) = NET_IP s" "NET_MAC (arp_learn ip mac s) = NET_MAC s" "SENT (arp_learn ip mac s) = SENT s"
  by (simp_all add: arp_learn_def split: option.split)

definition host_ok :: "'a NetState_scheme \<Rightarrow> bool" where
  "host_ok s \<longleftrightarrow> length (NET_MAC s) = 6 \<and> length (NET_IP s) = 4 \<and> arp_wf s"

text \<open>
  C33. An ARP exchange between two hosts running this stack resolves the address: the request of \<open>a\<close> makes \<open>b\<close> send
  one reply, and receiving that reply \<open>a\<close> answers the hardware address of \<open>b\<close> for its network address, while \<open>b\<close> has
  learned the address of \<open>a\<close>.
\<close>

theorem arp_exchange_resolves:
  assumes "host_ok a" "host_ok b"
  defines "req \<equiv> last (SENT (send_arp_request (NET_IP b) a))"
  defines "b' \<equiv> handle_arp (drop 14 req) b"
  shows "\<exists>rep. SENT b' = SENT b @ [rep] \<and> take 6 rep = NET_MAC a
    \<and> arp_lookup (NET_IP b) (handle_arp (drop 14 rep) a) = Some (NET_MAC b)
    \<and> arp_lookup (NET_IP a) b' = Some (NET_MAC a)"
proof -
  have a: "length (NET_MAC a) = 6" "length (NET_IP a) = 4" "arp_wf a"
    and b: "length (NET_MAC b) = 6" "length (NET_IP b) = 4" "arp_wf b" using assms(1,2) by (simp_all add: host_ok_def)
  define b1 where "b1 = arp_learn (NET_IP a) (NET_MAC a) b"
  define rep where "rep = arp_frame (NET_MAC a) 2 (NET_MAC a) (NET_IP a) b1"
  have "drop 14 req = put16 1 @ put16 0x0800 @ [6, 4] @ put16 1 @ NET_MAC a @ NET_IP a @ replicate 6 0 @ NET_IP b"
    unfolding req_def using a by (simp add: send_arp_request_def net_send_frame_def arp_payload BROADCAST_def)
  then have b': "b' = send_arp_reply (NET_IP a) (NET_MAC a) b1"
    unfolding b'_def using handle_arp_frame [of a "replicate 6 0" "NET_IP b" 1 b] a b by (simp add: b1_def Let_def)
  have "drop 14 rep = put16 1 @ put16 0x0800 @ [6, 4] @ put16 2 @ NET_MAC b1 @ NET_IP b1 @ NET_MAC a @ NET_IP a"
    unfolding rep_def by (rule arp_payload) (use a b in \<open>simp_all add: b1_def\<close>)
  then have "handle_arp (drop 14 rep) a = arp_learn (NET_IP b) (NET_MAC b) a"
    using handle_arp_frame [of b1 "NET_MAC a" "NET_IP a" 2 a] a b by (simp add: b1_def Let_def)
  then have "arp_lookup (NET_IP b) (handle_arp (drop 14 rep) a) = Some (NET_MAC b)"
    using arpc.lookup_same [OF a(3)] by simp
  moreover have "SENT b' = SENT b @ [rep]" "take 6 rep = NET_MAC a"
    using a by (simp_all add: b' send_arp_reply_def net_send_frame_def rep_def b1_def arp_frame_def eth_header_def)
  moreover have "arp_lookup (NET_IP a) b' = arp_lookup (NET_IP a) b1"
    by (simp add: b' send_arp_reply_def net_send_frame_def arp_lookup_def)
  then have "arp_lookup (NET_IP a) b' = Some (NET_MAC a)" using arpc.lookup_same [OF b(3)] by (simp add: b1_def)
  ultimately show ?thesis by blast
qed

theorem arp_exchange_resolves_witness:
  "\<exists>rep. SENT (handle_arp (drop 14 (last (SENT (send_arp_request (NET_IP (example_host 9)) (example_host 7)))))
        (example_host 9)) = SENT (example_host 9) @ [rep]
    \<and> take 6 rep = NET_MAC (example_host 7)
    \<and> arp_lookup (NET_IP (example_host 9)) (handle_arp (drop 14 rep) (example_host 7)) = Some (NET_MAC (example_host 9))
    \<and> arp_lookup (NET_IP (example_host 7)) (handle_arp (drop 14 (last (SENT (send_arp_request (NET_IP (example_host 9))
        (example_host 7))))) (example_host 9)) = Some (NET_MAC (example_host 7))"
  by (rule arp_exchange_resolves) (simp_all add: host_ok_def example_host_wf)

text \<open>
  The ARP cache never answers with anything but the latest announcement: after any sequence of announcements to a
  host that had no entry for an address, an answer for that address is the hardware address announced last for it.
\<close>

theorem arp_answer_is_latest:
  assumes "arp_wf s" "arp_lookup ip s = None" "arp_lookup ip (fold (\<lambda>(ip, mac). arp_learn ip mac) ps s) = Some m"
  shows "map_of (rev ps) ip = Some m"
  using arpc.answer_is_latest [OF assms(1,2)] assms(3) by (simp add: arpc.learns_def)

theorem arp_answer_is_latest_witness:
  "map_of (rev [([10, 0, 2, 1], [2, 2, 2, 2, 2, 1]), ([10, 0, 2, 1], [2, 2, 2, 2, 2, 3])]) [10, 0, 2, 1 :: u8]
    = Some [2, 2, 2, 2, 2, 3 :: u8]"
proof (rule arp_answer_is_latest [OF example_host_wf(1) [of 7]])
  show "arp_lookup [10, 0, 2, 1] (example_host 7) = None" by code_simp
  show "arp_lookup [10, 0, 2, 1] (fold (\<lambda>(ip, mac). arp_learn ip mac)
      [([10, 0, 2, 1], [2, 2, 2, 2, 2, 1]), ([10, 0, 2, 1], [2, 2, 2, 2, 2, 3])] (example_host 7))
    = Some [2, 2, 2, 2, 2, 3]" by code_simp
qed

section \<open>Neighbour discovery\<close>

lemma drop_icmp6_body: "drop 4 (icmp6_body src dst b) = drop 4 b"
  by (simp add: icmp6_body_def put_csum_def)

lemma icmp6_body_0: "2 < length b \<Longrightarrow> icmp6_body src dst b ! 0 = b ! 0"
  by (simp add: icmp6_body_def put_csum_def)

lemma length_icmp6_body [simp]: "length (icmp6_body src dst b) = length b"
  by (simp add: icmp6_body_def)

text \<open>
  C34. A neighbour advertisement built by this stack is understood by it: its checksum verifies, and the receiver then
  answers the advertised hardware address for the advertised target.
\<close>

theorem advertisement_roundtrip:
  fixes src dst :: "u8 list"
  assumes "length target = 16" "length mac = 6" "target \<noteq> ZERO16" "ndp_wf s"
  defines "body \<equiv> icmp6_body src dst (na_body target mac)"
  shows "ipv6_upper_checksum src dst 58 body = 0
    \<and> ndp_lookup target (handle_icmpv6 src_mac src dst body s) = Some mac"
proof
  show "ipv6_upper_checksum src dst 58 body = 0"
    unfolding body_def icmp6_body_def by (rule ipv6_upper_checksum_verifies) (simp_all add: na_body_def)
  have d: "drop 4 body = [0x60, 0, 0, 0] @ target @ [2, 1] @ mac"
    by (simp add: body_def drop_icmp6_body na_body_def)
  have "parse_option_tll ([2, 1] @ mac) = Some mac"
    using assms(2) by (subst parse_option_tll.simps) (simp add: sub_bytes_def)
  then have "handle_na (drop 4 body) s = ndp_learn target mac s"
    unfolding d using assms(1,2) by (simp add: handle_na_def sub_bytes_def)
  moreover have "body ! 0 = 136" "4 \<le> length body"
    by (simp_all add: body_def icmp6_body_0 na_body_def)
  ultimately show "ndp_lookup target (handle_icmpv6 src_mac src dst body s) = Some mac"
    using ndpc.lookup_same [OF assms(4,3)] by (simp add: handle_icmpv6_def)
qed

theorem advertisement_roundtrip_witness:
  "ipv6_upper_checksum ZERO16 ZERO16 58 (icmp6_body ZERO16 ZERO16 (na_body (replicate 16 1) (replicate 6 2))) = 0
    \<and> ndp_lookup (replicate 16 1) (handle_icmpv6 (replicate 6 2) ZERO16 ZERO16
        (icmp6_body ZERO16 ZERO16 (na_body (replicate 16 1) (replicate 6 2))) (example_host 7)) = Some (replicate 6 2)"
  by (rule advertisement_roundtrip) (simp_all add: ZERO16_def example_host_wf eval_nat_numeral)

text \<open>
  A neighbour solicitation built by this stack is not: the target is stored four bytes too early, over the reserved
  field, so the host that owns the solicited link-local address ignores the message instead of advertising itself.
\<close>

theorem solicitation_ignored:
  assumes "length m = 6" "length mac = 6" "NET_IP6 s = mac_to_link_local m"
    "NET_IP6G s = ZERO16 \<or> NET_IP6G s ! 0 \<noteq> 0"
  shows "handle_icmpv6 src_mac src dst (icmp6_body src dst (ns_body (NET_IP6 s) mac)) s = s"
proof -
  let ?b = "icmp6_body src dst (ns_body (NET_IP6 s) mac)"
  have d: "drop 4 ?b = mac_to_link_local m @ [1, 1] @ mac @ [0, 0, 0, 0]"
    using assms(3) by (simp add: drop_icmp6_body ns_body_def)
  define t where "t = sub_bytes 4 16 (drop 4 ?b)"
  have t: "t ! 0 = 0" "t ! 12 = 1" "length t = 16"
    unfolding t_def d using assms(2) by (simp_all add: sub_bytes_def mac_to_link_local_def)
  then have "t \<noteq> NET_IP6 s" "t \<noteq> NET_IP6G s"
    using assms(3,4) by (auto simp: mac_to_link_local_def ZERO16_def)
  then have "handle_ns src src_mac (drop 4 ?b) s = s" by (simp add: handle_ns_def Let_def t_def)
  moreover have "?b ! 0 = 135" "4 \<le> length ?b" by (simp_all add: icmp6_body_0 ns_body_def)
  ultimately show ?thesis by (simp add: handle_icmpv6_def)
qed

theorem solicitation_ignored_witness:
  "handle_icmpv6 (replicate 6 2) ZERO16 ZERO16
     (icmp6_body ZERO16 ZERO16 (ns_body (NET_IP6 (example_host 7)) (replicate 6 2))) (example_host 7) = example_host 7"
  by (rule solicitation_ignored [of "[2, 0, 0, 0, 0, 7]"]) simp_all

section \<open>Echo\<close>



end
