(* ===== verification/Vfs_Props.thy ===== *)
theory Vfs_Props
  imports Vfs Fat32_Files Syscall_Props Net_Props
begin

text \<open>
  The descriptors of \<^verbatim>\<open>fs/mod.rs\<close> are well typed: each refers to an object of its kind that is open, and no
  two refer to the same end of a pipe or to the same file of the volume.  Every system call keeps this, so that
  what goes into one end of a pipe comes out of the other and nowhere else.
\<close>

section \<open>The invariant\<close>

definition fd_ok :: "'a FsState_scheme \<Rightarrow> VfsFd \<Rightarrow> bool" where
  "fd_ok s fd =
    (case fd of
       VFat32 f \<Rightarrow> f < MAX_OPEN \<and> of_used (OPEN_FILES (FS_FAT s) ! f)
     | VInline buf len pos w \<Rightarrow> length buf = INLINE_CAP \<and> pos \<le> len \<and> len \<le> INLINE_CAP
     | VPipe i w \<Rightarrow> i < MAX_PIPES \<and> (if w then pb_open_write (PIPES s ! i) else pb_open_read (PIPES s ! i)))"

definition shared :: "VfsFd \<Rightarrow> bool" where
  "shared fd = (case fd of VInline _ _ _ _ \<Rightarrow> False | _ \<Rightarrow> True)"

definition fs_inv :: "'a FsState_scheme \<Rightarrow> bool" where
  "fs_inv s \<longleftrightarrow>
    length (VFS_FDS s) = VFS_MAX_FD \<and> length (PIPES s) = MAX_PIPES \<and> length (OPEN_FILES (FS_FAT s)) = MAX_OPEN \<and>
    (\<forall>i < MAX_PIPES. pipe_wf (PIPES s ! i)) \<and>
    (\<forall>i < VFS_MAX_FD. \<forall>fd. VFS_FDS s ! i = Some fd \<longrightarrow> fd_ok s fd) \<and>
    (\<forall>i < VFS_MAX_FD. \<forall>j < VFS_MAX_FD. \<forall>fd. VFS_FDS s ! i = Some fd \<longrightarrow> VFS_FDS s ! j = Some fd \<longrightarrow> shared fd \<longrightarrow> i = j)"

lemma fs_invD:
  assumes "fs_inv s"
  shows "length (VFS_FDS s) = VFS_MAX_FD" "length (PIPES s) = MAX_PIPES" "length (OPEN_FILES (FS_FAT s)) = MAX_OPEN"
    "i < MAX_PIPES \<Longrightarrow> pipe_wf (PIPES s ! i)" "j < VFS_MAX_FD \<Longrightarrow> VFS_FDS s ! j = Some fd \<Longrightarrow> fd_ok s fd"
    "j < VFS_MAX_FD \<Longrightarrow> k < VFS_MAX_FD \<Longrightarrow> VFS_FDS s ! j = Some fd \<Longrightarrow> VFS_FDS s ! k = Some fd \<Longrightarrow> shared fd \<Longrightarrow> j = k"
  using assms unfolding fs_inv_def by blast+

lemma fs_inv_mono:
  assumes "fs_inv s" "VFS_FDS s' = VFS_FDS s" "length (PIPES s') = MAX_PIPES" "length (OPEN_FILES (FS_FAT s')) = MAX_OPEN"
    and "\<And>i. i < MAX_PIPES \<Longrightarrow> pipe_wf (PIPES s' ! i)"
    and "\<And>fd. Some fd \<in> set (VFS_FDS s) \<Longrightarrow> fd_ok s fd \<Longrightarrow> fd_ok s' fd"
  shows "fs_inv s'"
proof -
  have "fd_ok s' fd" if "i < VFS_MAX_FD" "VFS_FDS s ! i = Some fd" for i fd
    using assms(6) [of fd] fs_invD(1,5) [OF assms(1)] that nth_mem [of i "VFS_FDS s"] by auto
  then show ?thesis using assms(1-5) unfolding fs_inv_def by auto
qed

lemma fs_inv_frame:
  assumes "fs_inv s" "VFS_FDS s' = VFS_FDS s" "PIPES s' = PIPES s" "keeps_slots (FS_FAT s) (FS_FAT s')"
  shows "fs_inv s'"
proof (rule fs_inv_mono [OF assms(1,2)])
  have l: "length (OPEN_FILES (FS_FAT s')) = length (OPEN_FILES (FS_FAT s))"
    using arg_cong [OF assms(4) [unfolded keeps_slots_def], of length] by simp
  then show "length (OPEN_FILES (FS_FAT s')) = MAX_OPEN" using fs_invD(3) [OF assms(1)] by simp
  show "length (PIPES s') = MAX_PIPES" using fs_invD(2) [OF assms(1)] assms(3) by simp
  show "pipe_wf (PIPES s' ! i)" if "i < MAX_PIPES" for i using fs_invD(4) [OF assms(1) that] assms(3) by simp
  have "of_used (OPEN_FILES (FS_FAT s') ! f) = of_used (OPEN_FILES (FS_FAT s) ! f)" if "f < MAX_OPEN" for f
    using that arg_cong [OF assms(4) [unfolded keeps_slots_def], of "\<lambda>xs. xs ! f"] fs_invD(3) [OF assms(1)] l by simp
  then show "fd_ok s' fd" if "fd_ok s fd" for fd
    using that assms(3) by (auto simp: fd_ok_def split: VfsFd.splits)
qed

lemma fs_inv_write [simp]: "fs_inv (s\<lparr>PMEM := m\<rparr>) = fs_inv s"
  by (simp add: fs_inv_def fd_ok_def cong: VfsFd.case_cong)

lemma fs_inv_user_write [simp]: "fs_inv (user_write p bs s) = fs_inv s"
  by (simp add: user_write_def)

section \<open>Descriptors taken and replaced\<close>

lemma fs_inv_set_fd:
  assumes "fs_inv s" "fd_ok s fd" "i < VFS_MAX_FD"
    and "\<And>j. j < VFS_MAX_FD \<Longrightarrow> j \<noteq> i \<Longrightarrow> VFS_FDS s ! j = Some fd \<Longrightarrow> \<not> shared fd"
  shows "fs_inv (s\<lparr>VFS_FDS := (VFS_FDS s)[i := Some fd]\<rparr>)"
proof -
  let ?t = "s\<lparr>VFS_FDS := (VFS_FDS s)[i := Some fd]\<rparr>"
  have ok: "fd_ok ?t f \<longleftrightarrow> fd_ok s f" for f by (simp add: fd_ok_def cong: VfsFd.case_cong)
  have n: "(VFS_FDS s)[i := Some fd] ! j = (if j = i then Some fd else VFS_FDS s ! j)" if "j < VFS_MAX_FD" for j
    using that fs_invD(1) [OF assms(1)] by (simp add: nth_list_update)
  have "j = k" if "j < VFS_MAX_FD" "k < VFS_MAX_FD" "VFS_FDS ?t ! j = Some f" "VFS_FDS ?t ! k = Some f" "shared f" for j k f
    using that assms(4) fs_invD(6) [OF assms(1)] by (auto simp: n split: if_splits)
  moreover have "fd_ok ?t f" if "j < VFS_MAX_FD" "VFS_FDS ?t ! j = Some f" for j f
    using that fs_invD(5) [OF assms(1)] assms(2) by (auto simp: n ok split: if_splits)
  ultimately show ?thesis using fs_invD(1-4) [OF assms(1)] unfolding fs_inv_def by fastforce
qed

lemma vfs_alloc_inv:
  assumes "fs_inv s" "fd_ok s fd" "\<And>j. j < VFS_MAX_FD \<Longrightarrow> VFS_FDS s ! j = Some fd \<Longrightarrow> \<not> shared fd"
  shows "fs_inv (fst (vfs_alloc fd s))"
  using fs_inv_set_fd [OF assms(1,2)] assms by (auto simp: vfs_alloc_def split: option.splits dest: find_index_SomeD)

lemma vfs_install_inv:
  assumes "fs_inv s" "fd_ok s fd" "\<And>j. j < VFS_MAX_FD \<Longrightarrow> VFS_FDS s ! j = Some fd \<Longrightarrow> \<not> shared fd"
  shows "fs_inv (fst (vfs_install fd s))"
  using vfs_alloc_inv [OF assms] by (auto simp: vfs_install_def split: prod.splits option.splits)

lemma install_opened:
  assumes "fs_inv s" "takes_slot (FS_FAT s) v r"
  shows "fs_inv (s\<lparr>FS_FAT := v\<rparr>)" "r = Some f \<Longrightarrow> fs_inv (fst (vfs_install (VFat32 f) (s\<lparr>FS_FAT := v\<rparr>)))"
proof -
  let ?F = "OPEN_FILES (FS_FAT s)"
  show inv: "fs_inv (s\<lparr>FS_FAT := v\<rparr>)"
  proof (rule fs_inv_mono [OF assms(1)])
    show "length (OPEN_FILES (FS_FAT (s\<lparr>FS_FAT := v\<rparr>))) = MAX_OPEN"
      using assms(2) fs_invD(3) [OF assms(1)] by (auto simp: takes_slot_def split: option.splits dest: arg_cong [of _ _ length])
    have "of_used (OPEN_FILES v ! k)" if "of_used (?F ! k)" for k
      using assms(2) that by (auto simp: takes_slot_def split: option.splits) (metis nth_list_update_neq)
    then show "fd_ok (s\<lparr>FS_FAT := v\<rparr>) fd" if "fd_ok s fd" for fd
      using that by (auto simp: fd_ok_def split: VfsFd.splits)
  qed (use fs_invD [OF assms(1)] in auto)
  assume r: "r = Some f"
  then have f: "f < length ?F" "\<not> of_used (?F ! f)" "of_used (OPEN_FILES v ! f)" using assms(2) by (auto simp: takes_slot_def)
  show "fs_inv (fst (vfs_install (VFat32 f) (s\<lparr>FS_FAT := v\<rparr>)))"
  proof (rule vfs_install_inv [OF inv])
    show "fd_ok (s\<lparr>FS_FAT := v\<rparr>) (VFat32 f)" using f fs_invD(3) [OF assms(1)] by (simp add: fd_ok_def)
    fix j assume "j < VFS_MAX_FD" "VFS_FDS (s\<lparr>FS_FAT := v\<rparr>) ! j = Some (VFat32 f)"
    then have "fd_ok s (VFat32 f)" using fs_invD(5) [OF assms(1)] by simp
    then show "\<not> shared (VFat32 f)" using f by (simp add: fd_ok_def)
  qed
qed

lemma inline_install: "fs_inv s \<Longrightarrow> fd_ok s (VInline b l p w) \<Longrightarrow> fs_inv (fst (vfs_install (VInline b l p w) s))"
  by (rule vfs_install_inv) (simp_all add: shared_def)

section \<open>Generated text fits its buffer\<close>

definition text_ok :: "textbuf \<Rightarrow> bool" where
  "text_ok t \<longleftrightarrow> length (fst t) = INLINE_CAP \<and> snd t \<le> INLINE_CAP"

lemma text_put_ch: "text_ok t \<Longrightarrow> text_ok (put_ch b t)"
  by (cases t) (auto simp: text_ok_def put_ch_def)

lemma length_swap_loop [simp]: "length (swap_loop buf l r) = length buf"
proof (induction buf l r rule: swap_loop.induct)
  case (1 buf l r)
  then show ?case by (subst swap_loop.simps) simp
qed

lemma text_dec_loop: "text_ok t \<Longrightarrow> text_ok (dec_loop n t)"
proof (induction n t rule: dec_loop.induct)
  case (1 n buf p)
  then show ?case by (subst dec_loop.simps) (auto simp: text_ok_def)
qed

lemma text_write_dec: "text_ok t \<Longrightarrow> text_ok (write_dec n t)"
proof (cases "n = 0")
  case False
  assume "text_ok t"
  then show ?thesis using text_dec_loop [of t n] False by (cases "dec_loop n t") (simp add: write_dec_def text_ok_def)
qed (simp add: write_dec_def text_put_ch)

lemma text_write_str: "text_ok t \<Longrightarrow> text_ok (write_str bs t)"
  by (cases t) (auto simp: text_ok_def write_str_def Let_def)

lemma text_text_of: "(\<And>f t. f \<in> set fs \<Longrightarrow> text_ok t \<Longrightarrow> text_ok (f t)) \<Longrightarrow> text_ok t \<Longrightarrow> text_ok (text_of fs t)"
  unfolding text_of_def by (induction fs arbitrary: t) auto

lemmas text_rules = text_put_ch text_write_dec text_write_str

lemma text_write_ip: "text_ok t \<Longrightarrow> text_ok (write_ip ip t)"
  unfolding write_ip_def by (rule text_text_of) (auto intro: text_rules split: if_splits)

lemma text_task_line: "text_ok t \<Longrightarrow> text_ok (task_line r t)"
  unfolding task_line_def Let_def by (rule text_text_of) (auto intro: text_rules)

lemma text_task_lines: "text_ok t \<Longrightarrow> text_ok (task_lines rs t)"
  by (induction rs arbitrary: t) (auto simp: Let_def text_task_line)

lemma text_proc: "proc_text node s = Some f \<Longrightarrow> text_ok t \<Longrightarrow> text_ok (f t)"
  by (auto simp: proc_text_def proc_version_def proc_uptime_def proc_meminfo_def proc_net_ip_def proc_net_mac_def
      proc_cpuinfo_def proc_tasks_def proc_stats_def Let_def
      intro!: text_text_of text_rules text_write_ip text_task_lines split: if_splits)

lemma proc_open_ok:
  assumes "proc_open path s = Some fd"
  shows "fd_ok t fd \<and> \<not> shared fd"
proof -
  obtain f where f: "proc_text (proc_node path) s = Some f" using assms by (auto simp: proc_open_def split: option.splits)
  have "text_ok (f (replicate INLINE_CAP 0, 0))" by (rule text_proc [OF f]) (simp add: text_ok_def)
  then show ?thesis using assms f by (auto simp: proc_open_def text_ok_def fd_ok_def shared_def split: prod.splits)
qed

lemma mem_reply_ok: "mem_reply msg = Some fd \<Longrightarrow> fd_ok t fd \<and> \<not> shared fd"
  by (auto simp: mem_reply_def Let_def fd_ok_def shared_def INLINE_CAP_def split: if_splits)

section \<open>Every call keeps the invariant\<close>

text \<open>What the other CPUs do while a task polls for a reply.\<close>

definition env_ok :: "('a FsState_scheme \<Rightarrow> 'a FsState_scheme) list \<Rightarrow> bool" where
  "env_ok env \<longleftrightarrow> (\<forall>e \<in> set env. \<forall>s. fs_inv s \<longrightarrow> fs_inv (e s))"

lemma fs_inv_sched:
  assumes "fs_inv s" "VFS_FDS s' = VFS_FDS s" "PIPES s' = PIPES s" "FS_FAT s' = FS_FAT s"
  shows "fs_inv s'"
  by (rule fs_inv_frame [OF assms(1-3)]) (simp add: assms(4) keeps_slots_def)

lemma try_recv_inv:
  assumes "fs_inv s" "try_recv_message cpu s = (s', r)"
  shows "fs_inv s'"
  using assms(2) by (intro fs_inv_sched [OF assms(1)]) (auto simp: try_recv_message_def upd_current_def upd_task_def Let_def split: option.splits if_splits prod.splits)

lemma send_message_inv:
  assumes "fs_inv s" "send_message tid m s = (s', r)"
  shows "fs_inv s'"
  using assms(2) by (intro fs_inv_sched [OF assms(1)]) (auto simp: send_message_def set_task_def Let_def split: option.splits if_splits prod.splits)

lemma mem_poll_inv:
  assumes "env_ok env" "fs_inv s" "mem_poll cpu env s = (s', r)"
  shows "fs_inv s' \<and> (\<forall>fd. r = Some fd \<longrightarrow> fd_ok s' fd \<and> \<not> shared fd)"
  using assms
proof (induction env arbitrary: s)
  case (Cons e es)
  have e: "fs_inv (e s)" "env_ok es" using Cons.prems(1,2) by (auto simp: env_ok_def)
  obtain s1 m where t: "try_recv_message cpu (e s) = (s1, m)" by fastforce
  note i = try_recv_inv [OF e(1) t]
  show ?case
  proof (cases "\<exists>msg fd. m = Some msg \<and> mem_reply msg = Some fd")
    case True
    then show ?thesis using Cons.prems(3) t i by (auto dest: mem_reply_ok)
  next
    case False
    then have "mem_poll cpu es s1 = (s', r)" using Cons.prems(3) t by (cases m) (auto split: option.splits)
    then show ?thesis using Cons.IH [OF e(2) i] by simp
  qed
qed simp

lemma mem_open_inv:
  assumes "env_ok env" "fs_inv s" "mem_open cpu env p path s = (s', r)"
  shows "fs_inv s' \<and> (\<forall>fd. r = Some fd \<longrightarrow> fd_ok s' fd \<and> \<not> shared fd)"
proof (cases "mem_key path = []")
  case False
  let ?m = "mem_request (current_tid cpu s) (p + (length path - length (mem_key path))) (length (mem_key path))"
  obtain s1 ok where 1: "send_message 2 ?m s = (s1, ok)" by fastforce
  note i = send_message_inv [OF assms(2) 1]
  show ?thesis
  proof (cases ok)
    case True
    have "env_ok ((\<lambda>s. s) # env)" using assms(1) by (simp add: env_ok_def)
    moreover have "mem_poll cpu ((\<lambda>s. s) # env) s1 = (s', r)" using assms(3) 1 True False by (simp add: mem_open_def Let_def del: mem_poll.simps)
    ultimately show ?thesis using mem_poll_inv i by blast
  next
    case False
    then show ?thesis using assms(3) 1 \<open>mem_key path \<noteq> []\<close> i by (auto simp: mem_open_def Let_def)
  qed
qed (use assms in \<open>auto simp: mem_open_def\<close>)

lemma on_fat_Val: "on_fat f s = Val (s', r) \<longleftrightarrow> (\<exists>v. f (FS_FAT s) = Val (v, r) \<and> s' = s\<lparr>FS_FAT := v\<rparr>)"
  by (auto simp: on_fat_def out_bind_Val)

lemma install_result:
  assumes "fs_inv (fst (vfs_install fd s))" "Val (vfs_install fd s) = Val (s', r)"
  shows "fs_inv s'"
  using assms by simp

lemma sys_open_inv:
  assumes "env_ok env" "fs_inv s" "sys_open fuel cpu env p len s = Val (s', r)"
  shows "fs_inv s'"
proof (cases "p = 0 \<or> len = 0 \<or> unwrap_or [] (path_at s p len) = []")
  case False
  let ?path = "unwrap_or [] (path_at s p len)"
  show ?thesis
  proof (cases "route ?path")
    case BFat32
    then obtain v q where o: "fat_open fuel ?path (FS_FAT s) = Val (v, q)"
      and e: "(case q of Some f \<Rightarrow> Val (vfs_install (VFat32 f) (s\<lparr>FS_FAT := v\<rparr>)) | None \<Rightarrow> Val (s\<lparr>FS_FAT := v\<rparr>, - 1)) = Val (s', r)"
      using assms(3) False by (auto simp: sys_open_def Let_def out_bind_Val on_fat_Val)
    from install_opened [OF assms(2) open_takes [OF o]] e show ?thesis
      by (cases q) (auto intro: install_result)
  next
    case BProc
    show ?thesis
    proof (cases "proc_open ?path s")
      case (Some fd)
      then have "fs_inv (fst (vfs_install fd s))" using vfs_install_inv [OF assms(2)] proc_open_ok [OF Some] by blast
      then show ?thesis using assms(3) False BProc Some by (simp add: sys_open_def Let_def)
    qed (use assms False BProc in \<open>simp add: sys_open_def Let_def\<close>)
  next
    case BMem
    obtain s1 q where m: "mem_open cpu env p ?path s = (s1, q)" by fastforce
    note i = mem_open_inv [OF assms(1,2) m]
    show ?thesis
    proof (cases q)
      case (Some fd)
      then have "fs_inv (fst (vfs_install fd s1))" using vfs_install_inv [of s1 fd] i by blast
      then show ?thesis using assms(3) False BMem m Some by (simp add: sys_open_def Let_def)
    qed (use assms False BMem m i in \<open>simp add: sys_open_def Let_def\<close>)
  qed
qed (use assms in \<open>auto simp: sys_open_def Let_def\<close>)

lemma sys_create_inv:
  assumes "fs_inv s" "sys_create fuel p len s = Val (s', r)"
  shows "fs_inv s'"
proof (cases "p = 0 \<or> len = 0 \<or> unwrap_or [] (path_at s p len) = []")
  case False
  let ?path = "unwrap_or [] (path_at s p len)"
  show ?thesis
  proof (cases "route ?path")
    case BFat32
    then obtain v q where o: "fat_open_write fuel ?path (FS_FAT s) = Val (v, q)"
      and e: "(case q of Some f \<Rightarrow> Val (vfs_install (VFat32 f) (s\<lparr>FS_FAT := v\<rparr>)) | None \<Rightarrow> Val (s\<lparr>FS_FAT := v\<rparr>, - 1)) = Val (s', r)"
      using assms(2) False by (auto simp: sys_create_def Let_def out_bind_Val on_fat_Val)
    from install_opened [OF assms(1) open_write_takes [OF o]] e show ?thesis
      by (cases q) (auto intro: install_result)
  next
    case BMem
    then show ?thesis
      using assms(2) False inline_install [OF assms(1), of "replicate INLINE_CAP 0" 0 0 True]
      by (simp add: sys_create_def Let_def fd_ok_def)
  qed (use assms False in \<open>auto simp: sys_create_def Let_def\<close>)
qed (use assms in \<open>auto simp: sys_create_def Let_def\<close>)

lemma fs_inv_set_pipe:
  assumes "fs_inv s" "pipe_wf p" "pb_open_read p = pb_open_read (PIPES s ! i)" "pb_open_write p = pb_open_write (PIPES s ! i)"
  shows "fs_inv (set_pipe i p s)"
proof (rule fs_inv_mono [OF assms(1)])
  have n: "(PIPES s)[i := p] ! j = (if j = i then p else PIPES s ! j)" if "j < MAX_PIPES" for j
    using that fs_invD(2) [OF assms(1)] by (simp add: nth_list_update)
  show "pipe_wf (PIPES (set_pipe i p s) ! j)" if "j < MAX_PIPES" for j
    using that n fs_invD(4) [OF assms(1)] assms(2) by (simp add: set_pipe_def)
  show "fd_ok (set_pipe i p s) fd" if "fd_ok s fd" for fd
    using that n assms(3,4) by (auto simp: fd_ok_def set_pipe_def split: VfsFd.splits)
qed (use fs_invD [OF assms(1)] in \<open>auto simp: set_pipe_def\<close>)

lemma sys_read_fd_inv:
  assumes "fs_inv s" "sys_read_fd fd p len s = (s', r)"
  shows "fs_inv s'"
proof (cases "p = 0 \<or> len = 0 \<or> fd \<ge> VFS_MAX_FD \<or> VFS_FDS s ! fd = None")
  case False
  then obtain d where d: "VFS_FDS s ! fd = Some d" and fd: "fd < VFS_MAX_FD" by auto
  note ok = fs_invD(5) [OF assms(1) fd d]
  show ?thesis
  proof (cases d)
    case (VFat32 f)
    obtain v n bs where r: "fat_read f len (FS_FAT s) = (v, n, bs)" by (cases "fat_read f len (FS_FAT s)")
    have "fs_inv (s\<lparr>FS_FAT := v\<rparr>)" by (rule fs_inv_frame [OF assms(1)]) (use read_keeps [OF r] in simp_all)
    moreover have "s' = user_write p bs (s\<lparr>FS_FAT := v\<rparr>)" using assms(2) False d VFat32 r by (simp add: sys_read_fd_def)
    ultimately show ?thesis by simp
  next
    case (VInline b l pos w)
    let ?n = "min (l - pos) len"
    have "fs_inv (s\<lparr>VFS_FDS := (VFS_FDS s)[fd := Some (VInline b l (pos + ?n) w)]\<rparr>)"
      using ok VInline by (intro fs_inv_set_fd [OF assms(1) _ fd]) (auto simp: fd_ok_def shared_def)
    moreover have "s' = s \<or> s' = user_write p (take ?n (drop pos b)) (s\<lparr>VFS_FDS := (VFS_FDS s)[fd := Some (VInline b l (pos + ?n) w)]\<rparr>)"
      using assms(2) False d VInline by (auto simp: sys_read_fd_def Let_def split: if_splits)
    ultimately show ?thesis using assms(1) by auto
  next
    case (VPipe i w)
    show ?thesis
    proof (cases w)
      case True
      then show ?thesis using assms False d VPipe by (simp add: sys_read_fd_def)
    next
      case False': False
      obtain q bs where q: "PipeBuf_read_bytes len (PIPES s ! i) = (q, bs)" by fastforce
      have "pipe_wf (PIPES s ! i)" using ok VPipe fs_invD(4) [OF assms(1)] by (auto simp: fd_ok_def)
      from pipe_read [OF this q] have "fs_inv (set_pipe i q s)" by (intro fs_inv_set_pipe [OF assms(1)])
      moreover have "s' = user_write p bs (set_pipe i q s)" using assms(2) False False' d VPipe q by (simp add: sys_read_fd_def)
      ultimately show ?thesis by simp
    qed
  qed
qed (use assms in \<open>auto simp: sys_read_fd_def split: if_splits\<close>)

lemma sys_write_fd_inv:
  assumes "fs_inv s" "sys_write_fd fuel fd p len s = Val (s', r)"
  shows "fs_inv s'"
proof (cases "p = 0 \<or> len = 0 \<or> fd \<ge> VFS_MAX_FD \<or> VFS_FDS s ! fd = None")
  case False
  then obtain d where d: "VFS_FDS s ! fd = Some d" and fd: "fd < VFS_MAX_FD" by auto
  note ok = fs_invD(5) [OF assms(1) fd d]
  let ?bs = "read_bytes (PMEM s) p len"
  show ?thesis
  proof (cases d)
    case (VFat32 f)
    then obtain v where w: "fat_write fuel f ?bs (FS_FAT s) = Val (v, r)" and s': "s' = s\<lparr>FS_FAT := v\<rparr>"
      using assms(2) False d by (auto simp: sys_write_fd_def Let_def on_fat_Val)
    show ?thesis unfolding s' by (rule fs_inv_frame [OF assms(1)]) (use write_keeps [OF w] in simp_all)
  next
    case (VInline b l pos w)
    then show ?thesis using assms False d by (simp add: sys_write_fd_def)
  next
    case (VPipe i w)
    show ?thesis
    proof (cases w)
      case False': False
      then show ?thesis using assms False d VPipe by (simp add: sys_write_fd_def)
    next
      case True
      obtain q n where q: "PipeBuf_write_bytes ?bs (PIPES s ! i) = (q, n)" by fastforce
      have "pipe_wf (PIPES s ! i)" using ok VPipe fs_invD(4) [OF assms(1)] by (auto simp: fd_ok_def)
      from pipe_write [OF this q] have "fs_inv (set_pipe i q s)" by (intro fs_inv_set_pipe [OF assms(1)])
      moreover have "s' = set_pipe i q s" using assms(2) False True d VPipe q by (simp add: sys_write_fd_def)
      ultimately show ?thesis by simp
    qed
  qed
qed (use assms in \<open>auto simp: sys_write_fd_def Let_def split: if_splits\<close>)

text \<open>Taking a descriptor out of the table, and then closing what only it referred to.\<close>

lemma fs_inv_drop_fd:
  assumes "fs_inv s"
  shows "fs_inv (s\<lparr>VFS_FDS := (VFS_FDS s)[i := None]\<rparr>)"
proof -
  let ?t = "s\<lparr>VFS_FDS := (VFS_FDS s)[i := None]\<rparr>"
  have ok: "fd_ok ?t f \<longleftrightarrow> fd_ok s f" for f by (simp add: fd_ok_def cong: VfsFd.case_cong)
  have n: "(VFS_FDS s)[i := None] ! j = Some f \<Longrightarrow> VFS_FDS s ! j = Some f" if "j < VFS_MAX_FD" for j f
    by (cases "i < length (VFS_FDS s)") (auto simp: nth_list_update list_update_beyond split: if_splits)
  have "fd_ok ?t f" if "j < VFS_MAX_FD" "VFS_FDS ?t ! j = Some f" for j f
    using that n fs_invD(5) [OF assms] ok by simp
  moreover have "j = k" if "j < VFS_MAX_FD" "k < VFS_MAX_FD" "VFS_FDS ?t ! j = Some f" "VFS_FDS ?t ! k = Some f" "shared f" for j k f
    using that n fs_invD(6) [OF assms] by simp
  ultimately show ?thesis using fs_invD(1-4) [OF assms] unfolding fs_inv_def by fastforce
qed

lemma dropped_fd_gone:
  assumes "fs_inv s" "i < VFS_MAX_FD" "VFS_FDS s ! i = Some fd" "shared fd"
  shows "Some fd \<notin> set ((VFS_FDS s)[i := None])"
proof
  assume "Some fd \<in> set ((VFS_FDS s)[i := None])"
  then obtain j where "j < VFS_MAX_FD" "(VFS_FDS s)[i := None] ! j = Some fd"
    using fs_invD(1) [OF assms(1)] by (auto simp: in_set_conv_nth)
  then show False
    using fs_invD(6) [OF assms(1,2) _ assms(3) _ assms(4), of j] fs_invD(1) [OF assms(1)] assms(2)
    by (auto simp: nth_list_update split: if_splits)
qed

lemma sys_close_inv:
  assumes "fs_inv s" "sys_close fd s = (s', r)"
  shows "fs_inv s'"
proof (cases "fd < VFS_MAX_FD")
  case True
  let ?t = "s\<lparr>VFS_FDS := (VFS_FDS s)[fd := None]\<rparr>"
  note t = fs_inv_drop_fd [OF assms(1), of fd]
  show ?thesis
  proof (cases "VFS_FDS s ! fd")
    case None
    then show ?thesis using assms(2) True t by (simp add: sys_close_def)
  next
    case (Some d)
    note gone = dropped_fd_gone [OF assms(1) True Some] and ok = fs_invD(5) [OF assms(1) True Some]
    show ?thesis
    proof (cases d)
      case (VFat32 f)
      have s': "s' = ?t\<lparr>FS_FAT := fat_close f (FS_FAT s)\<rparr>" using assms(2) True Some VFat32 by (auto simp: sys_close_def)
      show ?thesis unfolding s'
      proof (rule fs_inv_mono [OF t])
        show "fd_ok (?t\<lparr>FS_FAT := fat_close f (FS_FAT s)\<rparr>) e" if "Some e \<in> set (VFS_FDS ?t)" "fd_ok ?t e" for e
          using that gone VFat32 by (auto simp: fd_ok_def close_files shared_def split: VfsFd.splits) (metis nth_list_update_neq)
      qed (use fs_invD [OF assms(1)] in \<open>auto simp: close_files\<close>)
    next
      case (VInline b l p w)
      then show ?thesis using assms(2) True Some t by (simp add: sys_close_def)
    next
      case (VPipe i w)
      let ?p = "if w then (PIPES s ! i)\<lparr>pb_open_write := False\<rparr> else (PIPES s ! i)\<lparr>pb_open_read := False\<rparr>"
      have s': "s' = set_pipe i ?p ?t" using assms(2) True Some VPipe by (auto simp: sys_close_def)
      have i: "i < MAX_PIPES" using ok VPipe by (simp add: fd_ok_def)
      have n: "(PIPES s)[i := ?p] ! j = (if j = i then ?p else PIPES s ! j)" if "j < MAX_PIPES" for j
        using that fs_invD(2) [OF assms(1)] by (simp add: nth_list_update)
      have p: "pipe_wf ?p" using fs_invD(4) [OF assms(1) i] by (simp add: pipe_wf_def)
      show ?thesis unfolding s'
      proof (rule fs_inv_mono [OF t])
        show "pipe_wf (PIPES (set_pipe i ?p ?t) ! j)" if "j < MAX_PIPES" for j
          using n [OF that] p fs_invD(4) [OF assms(1) that] by (simp add: set_pipe_def)
        show "fd_ok (set_pipe i ?p ?t) e" if "Some e \<in> set (VFS_FDS ?t)" "fd_ok ?t e" for e
        proof (cases e)
          case (VPipe j w')
          then have "\<not> (j = i \<and> w' = w)" using that gone \<open>d = VPipe i w\<close> by (cases w; cases w') (auto simp: shared_def)
          then show ?thesis using that VPipe n by (auto simp: fd_ok_def set_pipe_def)
        qed (use that in \<open>auto simp: fd_ok_def set_pipe_def\<close>)
      qed (use fs_invD [OF assms(1)] in \<open>auto simp: set_pipe_def\<close>)
    qed
  qed
qed (use assms in \<open>simp add: sys_close_def\<close>)

lemma fs_inv_unused_pipe:
  assumes "fs_inv s" "\<And>w. Some (VPipe i w) \<notin> set (VFS_FDS s)" "pipe_wf p"
  shows "fs_inv (set_pipe i p s)"
proof (rule fs_inv_mono [OF assms(1)])
  have n: "(PIPES s)[i := p] ! j = (if j = i then p else PIPES s ! j)" if "j < MAX_PIPES" for j
    using that fs_invD(2) [OF assms(1)] by (simp add: nth_list_update)
  show "pipe_wf (PIPES (set_pipe i p s) ! j)" if "j < MAX_PIPES" for j
    using that n fs_invD(4) [OF assms(1)] assms(3) by (simp add: set_pipe_def)
  show "fd_ok (set_pipe i p s) fd" if "Some fd \<in> set (VFS_FDS s)" "fd_ok s fd" for fd
    using that n assms(2) by (auto simp: fd_ok_def set_pipe_def split: VfsFd.splits)
qed (use fs_invD [OF assms(1)] in \<open>auto simp: set_pipe_def\<close>)

lemma closed_pipe_unused:
  assumes "fs_inv s" "\<not> pb_open_read (PIPES s ! i)" "\<not> pb_open_write (PIPES s ! i)"
  shows "Some (VPipe i w) \<notin> set (VFS_FDS s)"
proof
  assume "Some (VPipe i w) \<in> set (VFS_FDS s)"
  then obtain j where "j < VFS_MAX_FD" "VFS_FDS s ! j = Some (VPipe i w)" using fs_invD(1) [OF assms(1)] by (auto simp: in_set_conv_nth)
  then have "fd_ok s (VPipe i w)" by (rule fs_invD(5) [OF assms(1)])
  then show False using assms(2,3) by (auto simp: fd_ok_def split: if_splits)
qed

lemma open_pipe_new:
  assumes "pipe_wf p"
  shows "pipe_wf (open_pipe p)" "pipe_wf (drop_pipe (open_pipe p))" "pipe_contents (open_pipe p) = []"
  using assms by (auto simp: open_pipe_def drop_pipe_def pipe_wf_def ring_ok_def pipe_contents_def PIPE_CAP_def)

lemma vfs_alloc_SomeD:
  assumes "vfs_alloc fd s = (s', Some i)" "length (VFS_FDS s) = VFS_MAX_FD"
  shows "i < VFS_MAX_FD" "VFS_FDS s ! i = None" "s' = s\<lparr>VFS_FDS := (VFS_FDS s)[i := Some fd]\<rparr>" "VFS_FDS s' ! i = Some fd"
  using assms by (auto simp: vfs_alloc_def split: option.splits dest: find_index_SomeD)

lemma vfs_alloc_NoneD: "vfs_alloc fd s = (s', None) \<Longrightarrow> s' = s"
  by (auto simp: vfs_alloc_def split: option.splits)

text \<open>The three ways a pipe call ends once it has found a pipe to use.\<close>

lemma sys_pipe_cases:
  assumes "fs_inv s" "sys_pipe p s = (s', r)"
  obtains (fail) "r = - 1" "fs_inv s'"
  | (ok) i rfd wfd where "r = 0" "fs_inv s'" "rfd < VFS_MAX_FD" "wfd < VFS_MAX_FD"
      "VFS_FDS s' ! rfd = Some (VPipe i False)" "VFS_FDS s' ! wfd = Some (VPipe i True)"
      "pipe_contents (PIPES s' ! i) = []" "PMEM s' = PMEM (user_write (p + 4) (u32_le wfd) (user_write p (u32_le rfd) s))"
proof -
  let ?idx = "find_index (\<lambda>i. \<not> pb_open_read (PIPES s ! i) \<and> \<not> pb_open_write (PIPES s ! i)) MAX_PIPES"
  show thesis
  proof (cases "p = 0 \<or> ?idx = None")
    case True
    then show thesis using assms fail by (auto simp: sys_pipe_def split: if_splits)
  next
    case False
    then obtain i where i: "?idx = Some i" by auto
    note c = find_index_SomeD [OF i]
    let ?q = "open_pipe (PIPES s ! i)" and ?s1 = "set_pipe i (open_pipe (PIPES s ! i)) s"
    have un: "Some (VPipe i w) \<notin> set (VFS_FDS s)" for w using closed_pipe_unused [OF assms(1)] c by simp
    note pw = open_pipe_new [OF fs_invD(4) [OF assms(1) c(1)]]
    note 1 = fs_inv_unused_pipe [OF assms(1) un pw(1)]
    have drop: "fs_inv (set_pipe i (drop_pipe ?q) ?s1)"
      by (rule fs_inv_unused_pipe [OF 1 _ pw(2)]) (use un in \<open>simp add: set_pipe_def\<close>)
    obtain s2 a where 2: "vfs_alloc (VPipe i False) ?s1 = (s2, a)" by fastforce
    show thesis
    proof (cases a)
      case None
      then have "s' = set_pipe i (drop_pipe ?q) ?s1" "r = - 1"
        using assms(2) False i 2 vfs_alloc_NoneD [of "VPipe i False" ?s1 s2] by (auto simp: sys_pipe_def Let_def)
      then show thesis using drop fail by simp
    next
      case (Some rfd)
      have l: "length (VFS_FDS ?s1) = VFS_MAX_FD" using fs_invD(1) [OF 1] .
      note r2 = vfs_alloc_SomeD [OF 2 [unfolded Some] l]
      have pi: "PIPES ?s1 ! i = ?q" using fs_invD(2) [OF assms(1)] c(1) by (simp add: set_pipe_def)
      have ok: "fd_ok ?s1 (VPipe i w)" for w using c(1) pi by (simp add: fd_ok_def open_pipe_def)
      have un1: "VFS_FDS ?s1 ! j \<noteq> Some (VPipe i w)" if "j < VFS_MAX_FD" for j w
        using un [of w] that l nth_mem [of j "VFS_FDS ?s1"] by (auto simp: set_pipe_def simp del: nth_mem)
      have i2: "fs_inv s2" using vfs_alloc_inv [OF 1 ok, of False] un1 2 by auto
      have l2: "length (VFS_FDS s2) = VFS_MAX_FD" using fs_invD(1) [OF i2] .
      obtain s3 b where 3: "vfs_alloc (VPipe i True) s2 = (s3, b)" by fastforce
      show thesis
      proof (cases b)
        case None
        have "(VFS_FDS ?s1)[rfd := None] = VFS_FDS ?s1" using list_update_id [of "VFS_FDS ?s1" rfd] r2(2) by simp
        then have "s2\<lparr>VFS_FDS := (VFS_FDS s2)[rfd := None]\<rparr> = ?s1" using r2(3) by simp
        moreover have "s' = set_pipe i (drop_pipe ?q) (s2\<lparr>VFS_FDS := (VFS_FDS s2)[rfd := None]\<rparr>)" "r = - 1"
          using assms(2) False i 2 3 Some None vfs_alloc_NoneD [of "VPipe i True" s2 s3] by (auto simp: sys_pipe_def Let_def)
        ultimately show thesis using drop fail by simp
      next
        case (Some wfd)
        note r3 = vfs_alloc_SomeD [OF 3 [unfolded Some] l2]
        have ok2: "fd_ok s2 (VPipe i True)" using ok [of True] r2(3) by (simp add: fd_ok_def)
        have un2: "VFS_FDS s2 ! j \<noteq> Some (VPipe i True)" if "j < VFS_MAX_FD" for j
          using un1 [OF that] r2(1,3) l that by (auto simp: nth_list_update split: if_splits)
        have i3: "fs_inv s3" using vfs_alloc_inv [OF i2 ok2] un2 3 by auto
        have e: "s' = user_write (p + 4) (u32_le wfd) (user_write p (u32_le rfd) s3)" "r = 0"
          using assms(2) False i 2 3 \<open>a = Some rfd\<close> Some by (auto simp: sys_pipe_def Let_def)
        have "VFS_FDS s3 ! rfd = Some (VPipe i False)" using r2(4) r3(1,2,3) l2 by (auto simp: nth_list_update)
        moreover have "PIPES s3 ! i = ?q" "PMEM s3 = PMEM s" using r2(3) r3(3) pi by (simp_all add: set_pipe_def)
        ultimately show thesis
          using e i3 r2(1) r3(1,4) pw(3) by (intro that(2) [of rfd wfd i]) (simp_all add: user_write_def)
      qed
    qed
  qed
qed

lemma sys_pipe_inv: "fs_inv s \<Longrightarrow> sys_pipe p s = (s', r) \<Longrightarrow> fs_inv s'"
  by (rule sys_pipe_cases) blast+

lemma on_fat_inv:
  assumes "fs_inv s" "on_fat f s = Val (s', r)" "\<And>v. f (FS_FAT s) = Val (v, r) \<Longrightarrow> keeps_slots (FS_FAT s) v"
  shows "fs_inv s'"
proof -
  obtain v where v: "f (FS_FAT s) = Val (v, r)" and s': "s' = s\<lparr>FS_FAT := v\<rparr>" using assms(2) by (auto simp: on_fat_Val)
  show ?thesis unfolding s' by (rule fs_inv_frame [OF assms(1)]) (use assms(3) [OF v] in simp_all)
qed

lemma sys_readdir_inv:
  assumes "fs_inv s" "sys_readdir fuel p len out m s = Val (s', r)"
  shows "fs_inv s'"
proof (cases "p = 0 \<or> out = 0 \<or> m = 0")
  case False
  let ?path = "unwrap_or [] (path_at s p len)"
  show ?thesis
  proof (cases "route ?path")
    case BFat32
    then obtain s1 es where o: "on_fat (fat_readdir fuel ?path m) s = Val (s1, es)"
      and s': "s' = s1\<lparr>PMEM := write_dir_entries out es (PMEM s1)\<rparr>"
      using assms(2) False by (auto simp: sys_readdir_def Let_def out_bind_Val)
    have "fs_inv s1" by (rule on_fat_inv [OF assms(1) o]) (simp add: readdir_files keeps_slots_same)
    then show ?thesis unfolding s' by simp
  qed (use assms False in \<open>auto simp: sys_readdir_def Let_def\<close>)
qed (use assms in \<open>auto simp: sys_readdir_def\<close>)

lemma sys_unlink_inv:
  assumes "fs_inv s" "sys_unlink fuel p len s = Val (s', r)"
  shows "fs_inv s'"
proof (cases "p = 0 \<or> len = 0 \<or> path_at s p len = None")
  case False
  then obtain path ok where "on_fat (fat_unlink fuel path) s = Val (s', ok)"
    using assms(2) by (auto simp: sys_unlink_def out_bind_Val)
  then show ?thesis by (rule on_fat_inv [OF assms(1)]) (simp add: unlink_files keeps_slots_same)
qed (use assms in \<open>auto simp: sys_unlink_def split: if_splits option.splits\<close>)

lemma sys_rename_inv:
  assumes "fs_inv s" "sys_rename fuel p len q len' s = Val (s', r)"
  shows "fs_inv s'"
proof (cases "p = 0 \<or> len = 0 \<or> q = 0 \<or> len' = 0 \<or> path_at s p len = None \<or> path_at s q len' = None")
  case False
  then obtain src dst ok where "on_fat (fat_rename fuel src dst) s = Val (s', ok)"
    using assms(2) by (auto simp: sys_rename_def out_bind_Val)
  then show ?thesis by (rule on_fat_inv [OF assms(1)]) (simp add: rename_files keeps_slots_same)
qed (use assms in \<open>auto simp: sys_rename_def split: if_splits option.splits\<close>)

lemma fs_inv_close_unused:
  assumes "fs_inv s" "Some (VFat32 f) \<notin> set (VFS_FDS s)"
  shows "fs_inv (s\<lparr>FS_FAT := fat_close f (FS_FAT s)\<rparr>)"
proof (rule fs_inv_mono [OF assms(1)])
  show "fd_ok (s\<lparr>FS_FAT := fat_close f (FS_FAT s)\<rparr>) e" if "Some e \<in> set (VFS_FDS s)" "fd_ok s e" for e
    using that assms(2) by (auto simp: fd_ok_def close_files split: VfsFd.splits) (metis nth_list_update_neq)
qed (use fs_invD [OF assms(1)] in \<open>auto simp: close_files\<close>)

lemma sys_atomic_write_inv:
  assumes "fs_inv s" "sys_atomic_write fuel p len q len' s = Val (s', r)"
  shows "fs_inv s'"
proof (cases "p = 0 \<or> len = 0 \<or> q = 0 \<or> path_at s p len = None")
  case False
  then obtain path where path: "path_at s p len = Some path" by auto
  obtain tmp where tmp: "tmp_path path = Val tmp"
    using assms(2) False path by (auto simp: sys_atomic_write_def out_bind_Val)
  obtain v f where o: "fat_open_write fuel tmp (FS_FAT s) = Val (v, f)"
    using assms(2) False path tmp by (auto simp: sys_atomic_write_def out_bind_Val on_fat_Val)
  note t = open_write_takes [OF o]
  note i1 = install_opened(1) [OF assms(1) t]
  show ?thesis
  proof (cases f)
    case None
    then show ?thesis using assms(2) False path tmp o i1 by (auto simp: sys_atomic_write_def on_fat_def)
  next
    case (Some fd)
    let ?s1 = "s\<lparr>FS_FAT := v\<rparr>"
    obtain s2 n ok where w: "on_fat (fat_write fuel fd (read_bytes (PMEM s) q len')) ?s1 = Val (s2, n)"
      and m: "on_fat (fat_rename fuel tmp path) (s2\<lparr>FS_FAT := fat_close fd (FS_FAT s2)\<rparr>) = Val (s', ok)"
      using assms(2) False path tmp o Some
      by (auto simp: sys_atomic_write_def on_fat_def [of "fat_open_write fuel tmp"] Let_def out_bind_Val)
    have i2: "fs_inv s2" by (rule on_fat_inv [OF i1 w]) (rule write_keeps)
    have "VFS_FDS s2 = VFS_FDS s" using w by (auto simp: on_fat_Val)
    moreover have "Some (VFat32 fd) \<notin> set (VFS_FDS s)"
    proof
      assume "Some (VFat32 fd) \<in> set (VFS_FDS s)"
      then obtain j where "j < VFS_MAX_FD" "VFS_FDS s ! j = Some (VFat32 fd)"
        using fs_invD(1) [OF assms(1)] by (auto simp: in_set_conv_nth)
      then have "fd_ok s (VFat32 fd)" by (rule fs_invD(5) [OF assms(1)])
      then show False using t Some by (simp add: fd_ok_def takes_slot_def)
    qed
    ultimately have "fs_inv (s2\<lparr>FS_FAT := fat_close fd (FS_FAT s2)\<rparr>)" using fs_inv_close_unused [OF i2] by simp
    then show ?thesis by (rule on_fat_inv [OF _ m]) (simp add: rename_files keeps_slots_same)
  qed
qed (use assms in \<open>auto simp: sys_atomic_write_def split: if_splits option.splits\<close>)

section \<open>Sequences of calls\<close>

datatype FsCall =
    COpen nat nat | CRead nat nat nat | CWrite nat nat nat | CClose nat | CCreate nat nat
  | CReaddir nat nat nat | CPipe nat | CAtomicWrite nat nat nat nat | CUnlink nat nat | CRename nat nat nat nat

text \<open>The arms of \<^verbatim>\<open>dispatch\<close> for these calls.\<close>

fun fs_call ::
  "nat \<Rightarrow> nat \<Rightarrow> ('a FsState_scheme \<Rightarrow> 'a FsState_scheme) list \<Rightarrow> FsCall \<Rightarrow> 'a FsState_scheme \<Rightarrow> ('a FsState_scheme \<times> int) out" where
  "fs_call fuel cpu env (COpen p len) s = sys_open fuel cpu env p len s"
| "fs_call fuel cpu env (CRead fd p len) s = Val (sys_read_fd fd p len s)"
| "fs_call fuel cpu env (CWrite fd p len) s = sys_write_fd fuel fd p len s"
| "fs_call fuel cpu env (CClose fd) s = Val (sys_close fd s)"
| "fs_call fuel cpu env (CCreate p len) s = sys_create fuel p len s"
| "fs_call fuel cpu env (CReaddir p len out) s = sys_readdir fuel p len out 64 s"
| "fs_call fuel cpu env (CPipe out) s = Val (sys_pipe out s)"
| "fs_call fuel cpu env (CAtomicWrite p len q len') s = sys_atomic_write fuel p len q len' s"
| "fs_call fuel cpu env (CUnlink p len) s = sys_unlink fuel p len s"
| "fs_call fuel cpu env (CRename p len q len') s = sys_rename fuel p len q len' s"

fun fs_calls ::
  "nat \<Rightarrow> nat \<Rightarrow> ('a FsState_scheme \<Rightarrow> 'a FsState_scheme) list \<Rightarrow> FsCall list \<Rightarrow> 'a FsState_scheme \<Rightarrow> ('a FsState_scheme \<times> int list) out" where
  "fs_calls fuel cpu env [] s = Val (s, [])"
| "fs_calls fuel cpu env (c # cs) s =
    out_bind (fs_call fuel cpu env c s) (\<lambda>(s, r). out_bind (fs_calls fuel cpu env cs s) (\<lambda>(s, rs). Val (s, r # rs)))"

lemma fs_call_inv: "env_ok env \<Longrightarrow> fs_inv s \<Longrightarrow> fs_call fuel cpu env c s = Val (s', r) \<Longrightarrow> fs_inv s'"
  by (cases c) (auto intro: sys_open_inv sys_read_fd_inv sys_write_fd_inv sys_close_inv sys_create_inv sys_readdir_inv
      sys_pipe_inv sys_atomic_write_inv sys_unlink_inv sys_rename_inv)

lemma fs_calls_inv: "env_ok env \<Longrightarrow> fs_inv s \<Longrightarrow> fs_calls fuel cpu env cs s = Val (s', rs) \<Longrightarrow> fs_inv s'"
  by (induction cs arbitrary: s rs) (auto simp: out_bind_Val dest: fs_call_inv)

text \<open>The static initial values of the tables.\<close>

definition fs_fresh :: "'a FsState_scheme \<Rightarrow> bool" where
  "fs_fresh s \<longleftrightarrow> VFS_FDS s = replicate VFS_MAX_FD None \<and> PIPES s = replicate MAX_PIPES PipeBuf_new \<and>
     OPEN_FILES (FS_FAT s) = replicate MAX_OPEN EMPTY_FILE"

lemma fs_fresh_inv: "fs_fresh s \<Longrightarrow> fs_inv s"
  by (simp add: fs_fresh_def fs_inv_def pipe_wf_new)

text \<open>
  C31. Descriptors are well typed.  After any sequence of file system calls from the initial tables, with any
  arguments and any volume, every descriptor in the table refers to a file of the volume that is open, to an end
  of a pipe that is open, or to a generated text within its buffer; no two descriptors refer to the same file slot
  or the same end of a pipe; and every pipe is a well-formed ring.
\<close>

theorem fs_calls_typed:
  assumes "env_ok env" "fs_fresh s" "fs_calls fuel cpu env cs s = Val (s', rs)"
  shows "fs_inv s'"
  using fs_calls_inv [OF assms(1) fs_fresh_inv [OF assms(2)] assms(3)] .

section \<open>Through a pipe\<close>

lemma length_read_bytes [simp]: "length (read_bytes mem p len) = len"
  by (simp add: read_bytes_def)

lemma read_bytes_written: "length bs = len \<Longrightarrow> read_bytes (write_bytes_at p bs mem) p len = bs"
  by (rule nth_equalityI) (auto simp: read_bytes_def write_bytes_at_def)

text \<open>
  C32. A pipe carries bytes from one buffer to another.  After a successful pipe call, which stores the numbers of
  its two descriptors at the address it was given, writing up to a pipe's capacity from a buffer to the write end
  and reading as much from the read end into any other buffer copies the bytes, and both calls report their
  number; this holds whatever the other descriptors are.
\<close>

theorem pipe_end_to_end:
  assumes "fs_inv s" "sys_pipe out s = (s1, 0)" "p \<noteq> 0" "q \<noteq> 0" "0 < len" "len \<le> PIPE_CAP"
  shows "\<exists>rfd wfd s2 s3.
    PMEM s1 = write_bytes_at (out + 4) (u32_le wfd) (write_bytes_at out (u32_le rfd) (PMEM s)) \<and>
    sys_write_fd fuel wfd p len s1 = Val (s2, int len) \<and> sys_read_fd rfd q len s2 = (s3, int len) \<and>
    read_bytes (PMEM s3) q len = read_bytes (PMEM s1) p len"
  using assms(1,2)
proof (cases rule: sys_pipe_cases)
  case (ok i rfd wfd)
  let ?bs = "read_bytes (PMEM s1) p len"
  have i: "i < MAX_PIPES" using fs_invD(5) [OF ok(2,3,5)] by (simp add: fd_ok_def)
  have wf: "pipe_wf (PIPES s1 ! i)" using fs_invD(4) [OF ok(2) i] .
  obtain b n where w: "PipeBuf_write_bytes ?bs (PIPES s1 ! i) = (b, n)" by fastforce
  have n: "n = len" "pipe_contents b = ?bs" "pipe_wf b" using pipe_write [OF wf w] ok(7) assms(6) by auto
  let ?s2 = "set_pipe i b s1"
  have 2: "sys_write_fd fuel wfd p len s1 = Val (?s2, int len)"
    using assms(3,5) ok(4,6) w n(1) by (simp add: sys_write_fd_def)
  have pi: "PIPES ?s2 ! i = b" using i fs_invD(2) [OF ok(2)] by (simp add: set_pipe_def)
  obtain c xs where r: "PipeBuf_read_bytes len b = (c, xs)" by fastforce
  have xs: "xs = ?bs" using pipe_read [OF n(3) r] n(2) by simp
  have "sys_read_fd rfd q len ?s2 = (user_write q ?bs (set_pipe i c ?s2), int len)"
    using assms(4,5) ok(3,5) r pi xs by (simp add: sys_read_fd_def set_pipe_def)
  moreover have "read_bytes (PMEM (user_write q ?bs (set_pipe i c ?s2))) q len = ?bs"
    by (simp add: user_write_def read_bytes_written)
  moreover have "PMEM s1 = write_bytes_at (out + 4) (u32_le wfd) (write_bytes_at out (u32_le rfd) (PMEM s))"
    using ok(8) by (simp add: user_write_def)
  ultimately show ?thesis using 2 by blast
qed simp

text \<open>A kernel with two tasks, no volume and fresh tables.\<close>

definition fs_example :: FsState where
  "fs_example = SchedState.extend caps_example
     \<lparr>FS_FAT = \<lparr>DISK = \<lambda>l. [], F_READY = False, PART_LBA = 0, BYTES_PER_SEC = 512, SECS_PER_CLUSTER = 1, FAT_START = 0,
        DATA_START = 0, ROOT_CLUSTER = 2, TOTAL_CLUSTERS = 0, FREE_HINT = 3, CTAG = replicate 16 None,
        CDATA = replicate 16 [], OPEN_FILES = replicate MAX_OPEN EMPTY_FILE\<rparr>,
      VFS_FDS = replicate VFS_MAX_FD None, PIPES = replicate MAX_PIPES PipeBuf_new, FS_NET = example_host 15\<rparr>"

lemma fs_example_fresh: "fs_fresh fs_example"
  by (simp add: fs_fresh_def fs_example_def SchedState.defs)

lemma sys_pipe_example: "\<exists>s1. sys_pipe 0x1000 fs_example = (s1, 0)"
  by (simp add: sys_pipe_def fs_example_def SchedState.defs find_index_def vfs_alloc_def set_pipe_def PipeBuf_new_def
      MAX_PIPES_def VFS_MAX_FD_def upt_conv_Cons nth_Cons')

theorem fs_calls_typed_witness:
  "\<exists>s' rs. fs_calls 0 0 [] [CPipe 0x1000, CClose 0] fs_example = Val (s', 0 # rs) \<and> fs_inv s'"
proof -
  obtain s1 where 1: "sys_pipe 0x1000 fs_example = (s1, 0)" using sys_pipe_example by blast
  obtain s2 r where 2: "sys_close 0 s1 = (s2, r)" by fastforce
  have "fs_calls 0 0 [] [CPipe 0x1000, CClose 0] fs_example = Val (s2, [0, r])" by (simp add: 1 2)
  moreover from fs_calls_typed [OF _ fs_example_fresh this] have "fs_inv s2" by (simp add: env_ok_def)
  ultimately show ?thesis by blast
qed

theorem pipe_end_to_end_witness:
  "\<exists>s1 rfd wfd s2 s3. sys_pipe 0x1000 fs_example = (s1, 0) \<and> sys_write_fd 0 wfd 0x2000 5 s1 = Val (s2, 5) \<and>
     sys_read_fd rfd 0x3000 5 s2 = (s3, 5) \<and> read_bytes (PMEM s3) 0x3000 5 = read_bytes (PMEM s1) 0x2000 5"
proof -
  obtain s1 where 1: "sys_pipe 0x1000 fs_example = (s1, 0)" using sys_pipe_example by blast
  from pipe_end_to_end [OF fs_fresh_inv [OF fs_example_fresh] 1, of "0x2000" "0x3000" 5 0] show ?thesis
    using 1 by (auto simp: PIPE_CAP_def)
qed

end
