(* ===== verification/Dhcp.thy ===== *)
theory Dhcp
  imports Ndp
begin

text \<open>
  The UDP dispatch table (\<^verbatim>\<open>kernel/src/net/udp.rs\<close>) and the DHCP client (\<^verbatim>\<open>dhcp.rs\<close>).  A handler is named by the
  module that registers it; only the DHCP client and the resolver do.
\<close>

section \<open>Port table\<close>

datatype UdpHandlerFn = handle_dhcp_packet_fn | handle_dns_response_fn

record UdpHandler =
  h_port :: nat
  h_handler :: UdpHandlerFn
  h_valid :: bool

datatype DhcpState = Idle | Discovering | Requesting | Bound | Renewing

record DhcpClient =
  dc_state :: DhcpState
  dc_xid :: u32
  dc_offered_ip :: "u8 list"
  dc_server_ip :: "u8 list"
  dc_lease_secs :: u32
  dc_t1_secs :: u32
  dc_bound_tick :: u32
  dc_retry_count :: nat
  dc_next_action_tick :: u32

record UdpState = NetState +
  HANDLERS :: "UdpHandler list"
  CLIENT :: DhcpClient

definition udp_register :: "nat \<Rightarrow> UdpHandlerFn \<Rightarrow> 'a UdpState_scheme \<Rightarrow> 'a UdpState_scheme \<times> bool" where
  "udp_register port f s =
    (let hs = HANDLERS s in
     case find_index (\<lambda>i. h_valid (hs ! i) \<and> h_port (hs ! i) = port) (length hs) of
       Some i \<Rightarrow> (s\<lparr>HANDLERS := hs[i := (hs ! i)\<lparr>h_handler := f\<rparr>]\<rparr>, True)
     | None \<Rightarrow>
         (case find_index (\<lambda>i. \<not> h_valid (hs ! i)) (length hs) of
            Some i \<Rightarrow> (s\<lparr>HANDLERS := hs[i := \<lparr>h_port = port, h_handler = f, h_valid = True\<rparr>]\<rparr>, True)
          | None \<Rightarrow> (s, False)))"

definition udp_unregister :: "nat \<Rightarrow> 'a UdpState_scheme \<Rightarrow> 'a UdpState_scheme" where
  "udp_unregister port s =
    s\<lparr>HANDLERS := map (\<lambda>h. if h_valid h \<and> h_port h = port then h\<lparr>h_valid := False\<rparr> else h) (HANDLERS s)\<rparr>"

section \<open>DHCP messages\<close>

definition FALLBACK_IP :: "u8 list" where "FALLBACK_IP = [10, 0, 2, 15]"
definition FALLBACK_MASK :: "u8 list" where "FALLBACK_MASK = [255, 255, 255, 0]"
definition FALLBACK_GW :: "u8 list" where "FALLBACK_GW = [10, 0, 2, 2]"
definition RETRY_TICKS :: u32 where "RETRY_TICKS = 100"
definition MAX_RETRIES :: nat where "MAX_RETRIES = 3"

definition dhcp_message :: "u32 \<Rightarrow> u8 list \<Rightarrow> u8 list \<Rightarrow> u8 list" where
  "dhcp_message xid mac opts =
    [1, 1, 6, 0] @ put32 xid @ [0, 0, 0x80, 0] @ replicate 16 0 @ mac @ replicate 202 0 @ [99, 130, 83, 99] @ opts"

definition make_xid :: "'a UdpState_scheme \<Rightarrow> u32" where "make_xid s = TICKS s XOR 0xAE010000"

definition send_discover :: "'a UdpState_scheme \<Rightarrow> 'a UdpState_scheme" where
  "send_discover s =
    (let s = s\<lparr>CLIENT := (CLIENT s)\<lparr>dc_xid := make_xid s, dc_state := Discovering, dc_retry_count := 0,
                                     dc_next_action_tick := TICKS s + RETRY_TICKS\<rparr>\<rparr>
     in fst (udp_send (replicate 4 255) 67 68 (dhcp_message (dc_xid (CLIENT s)) (NET_MAC s) [53, 1, 1, 255]) s))"

definition send_request :: "u8 list \<Rightarrow> u8 list \<Rightarrow> 'a UdpState_scheme \<Rightarrow> 'a UdpState_scheme" where
  "send_request offered server s =
    fst (udp_send (replicate 4 255) 67 68
      (dhcp_message (dc_xid (CLIENT s)) (NET_MAC s) ([53, 1, 3, 50, 4] @ offered @ [54, 4] @ server @ [255])) s)"

definition dhcp_init :: "'a UdpState_scheme \<Rightarrow> 'a UdpState_scheme" where
  "dhcp_init s = send_discover (fst (udp_register 68 handle_dhcp_packet_fn s))"

section \<open>Receiving\<close>

text \<open>The options the client reads, with the values it assumes when they are absent.\<close>

record DhcpOptions =
  do_msg_type :: u8
  do_server_ip :: "u8 list"
  do_lease_time :: u32
  do_subnet :: "u8 list"
  do_gw :: "u8 list"
  do_t1 :: u32

definition dhcp_defaults :: DhcpOptions where
  "dhcp_defaults = \<lparr>do_msg_type = 0, do_server_ip = ZERO4, do_lease_time = 3600,
                     do_subnet = [255, 255, 255, 0], do_gw = ZERO4, do_t1 = 0\<rparr>"

definition dhcp_option :: "u8 \<Rightarrow> u8 list \<Rightarrow> DhcpOptions \<Rightarrow> DhcpOptions" where
  "dhcp_option tag v r =
    (if tag = 1 \<and> length v \<ge> 4 then r\<lparr>do_subnet := take 4 v\<rparr>
     else if tag = 3 \<and> length v \<ge> 4 then r\<lparr>do_gw := take 4 v\<rparr>
     else if tag = 51 \<and> length v \<ge> 4 then r\<lparr>do_lease_time := be32 v 0\<rparr>
     else if tag = 53 \<and> length v \<ge> 1 then r\<lparr>do_msg_type := v ! 0\<rparr>
     else if tag = 54 \<and> length v \<ge> 4 then r\<lparr>do_server_ip := take 4 v\<rparr>
     else if tag = 58 \<and> length v \<ge> 4 then r\<lparr>do_t1 := be32 v 0\<rparr>
     else r)"

function dhcp_options :: "u8 list \<Rightarrow> DhcpOptions \<Rightarrow> DhcpOptions" where
  "dhcp_options d r =
    (if length d < 2 \<or> d ! 0 = 255 then r
     else if d ! 0 = 0 then dhcp_options (drop 1 d) r
     else let len = unat (d ! 1) in
          if 2 + len > length d then r
          else dhcp_options (drop (2 + len) d) (dhcp_option (d ! 0) (sub_bytes 2 len d) r))"
  by pat_completeness auto
termination
  by (relation "measure (\<lambda>(d, r). length d)") auto

declare dhcp_options.simps [simp del]

definition dhcp_offer :: "u8 list \<Rightarrow> DhcpOptions \<Rightarrow> 'a UdpState_scheme \<Rightarrow> 'a UdpState_scheme" where
  "dhcp_offer yiaddr r s =
    send_request yiaddr (do_server_ip r)
      (s\<lparr>CLIENT := (CLIENT s)\<lparr>dc_offered_ip := yiaddr, dc_server_ip := do_server_ip r, dc_state := Requesting,
                               dc_retry_count := 0, dc_next_action_tick := TICKS s + RETRY_TICKS\<rparr>\<rparr>)"

definition dhcp_ack :: "u8 list \<Rightarrow> DhcpOptions \<Rightarrow> 'a UdpState_scheme \<Rightarrow> 'a UdpState_scheme" where
  "dhcp_ack yiaddr r s =
    (let t1 = (if do_t1 r > 0 then do_t1 r else do_lease_time r div 2) in
     s\<lparr>NET_IP := yiaddr, NET_MASK := do_subnet r,
        NET_GW := (if do_gw r = ZERO4 then take 3 yiaddr @ [2] else do_gw r),
        CLIENT := (CLIENT s)\<lparr>dc_state := Bound, dc_lease_secs := do_lease_time r, dc_t1_secs := t1,
                              dc_bound_tick := TICKS s, dc_next_action_tick := TICKS s + t1 * 100\<rparr>\<rparr>)"

definition handle_dhcp_packet :: "nat \<Rightarrow> u8 list \<Rightarrow> 'a UdpState_scheme \<Rightarrow> 'a UdpState_scheme" where
  "handle_dhcp_packet src_port d s =
    (if src_port \<noteq> 67 \<or> length d < 240 \<or> d ! 0 \<noteq> 2 \<or> be32 d 4 \<noteq> dc_xid (CLIENT s) then s
     else let yiaddr = sub_bytes 16 4 d; r = dhcp_options (drop 240 d) dhcp_defaults; st = dc_state (CLIENT s) in
          if do_msg_type r = 2 \<and> st = Discovering then dhcp_offer yiaddr r s
          else if do_msg_type r = 5 \<and> (st = Requesting \<or> st = Renewing) then dhcp_ack yiaddr r s
          else s)"

section \<open>The timer\<close>

definition dhcp_retry :: "DhcpClient \<Rightarrow> u32 \<Rightarrow> DhcpClient" where
  "dhcp_retry c now = c\<lparr>dc_retry_count := dc_retry_count c + 1, dc_next_action_tick := now + RETRY_TICKS\<rparr>"

definition dhcp_tick :: "'a UdpState_scheme \<Rightarrow> 'a UdpState_scheme" where
  "dhcp_tick s =
    (let now = TICKS s; c = CLIENT s; retry = dc_retry_count c in
     if now < dc_next_action_tick c then s
     else case dc_state c of
       Discovering \<Rightarrow>
         if retry \<ge> MAX_RETRIES
         then s\<lparr>NET_IP := FALLBACK_IP, NET_MASK := FALLBACK_MASK, NET_GW := FALLBACK_GW,
                 CLIENT := c\<lparr>dc_state := Bound, dc_next_action_tick := now + 360000\<rparr>\<rparr>
         else send_discover (s\<lparr>CLIENT := dhcp_retry c now\<rparr>)
     | Requesting \<Rightarrow>
         if retry \<ge> MAX_RETRIES then send_discover s
         else send_request (dc_offered_ip c) (dc_server_ip c) (s\<lparr>CLIENT := dhcp_retry c now\<rparr>)
     | Bound \<Rightarrow>
         send_request (NET_IP s) (dc_server_ip c)
           (s\<lparr>CLIENT := c\<lparr>dc_state := Renewing, dc_retry_count := 0, dc_next_action_tick := now + RETRY_TICKS\<rparr>\<rparr>)
     | Renewing \<Rightarrow>
         if retry \<ge> MAX_RETRIES then send_discover s
         else send_request (NET_IP s) (dc_server_ip c) (s\<lparr>CLIENT := dhcp_retry c now\<rparr>)
     | Idle \<Rightarrow> s)"

text \<open>The timer interrupt at the given tick counts, with no packet received in between.\<close>

definition dhcp_ticks :: "u32 list \<Rightarrow> 'a UdpState_scheme \<Rightarrow> 'a UdpState_scheme" where
  "dhcp_ticks = fold (\<lambda>t s. dhcp_tick (s\<lparr>TICKS := t\<rparr>))"

section \<open>Sending changes nothing but the log\<close>

lemma net_send_frame_sends: "\<exists>fs. fst (net_send_frame b s) = s\<lparr>SENT := SENT s @ fs\<rparr>"
  by (auto simp: net_send_frame_def)

lemma resolve_mac_sends: "\<exists>fs. fst (resolve_mac_nonblocking dst s) = s\<lparr>SENT := SENT s @ fs\<rparr>"
proof -
  have "\<exists>fs. s = s\<lparr>SENT := SENT s @ fs\<rparr>" by (rule exI [of _ "[]"]) simp
  then show ?thesis
    using net_send_frame_sends
    by (auto simp: resolve_mac_nonblocking_def send_arp_request_def split: option.split)
qed

lemma udp_send_sends: "\<exists>fs. fst (udp_send ip dp sp d s) = s\<lparr>SENT := SENT s @ fs\<rparr>"
proof (cases "\<not> NET_UP s \<or> 14 + 20 + 8 + length d > TX_BUF_LEN")
  case True
  then have "fst (udp_send ip dp sp d s) = s\<lparr>SENT := SENT s @ []\<rparr>" by (auto simp: udp_send_def)
  then show ?thesis by blast
next
  case False
  obtain t m where t: "resolve_mac_nonblocking ip s = (t, m)" by force
  then obtain fs where fs: "t = s\<lparr>SENT := SENT s @ fs\<rparr>" using resolve_mac_sends [of ip s] by auto
  show ?thesis using False t
    by (auto simp: udp_send_def net_send_frame_def fs)
qed

lemma udp_send_keeps [simp]:
  "CLIENT (fst (udp_send ip dp sp d s)) = CLIENT s" "NET_IP (fst (udp_send ip dp sp d s)) = NET_IP s"
  "HANDLERS (fst (udp_send ip dp sp d s)) = HANDLERS s"
  using udp_send_sends [of ip dp sp d s] by auto

lemma send_discover_client:
  "CLIENT (send_discover s) = (CLIENT s)\<lparr>dc_xid := make_xid s, dc_state := Discovering, dc_retry_count := 0,
     dc_next_action_tick := TICKS s + RETRY_TICKS\<rparr>"
  "NET_IP (send_discover s) = NET_IP s"
  by (simp_all add: send_discover_def Let_def)

lemma dhcp_tick_discovering:
  assumes "dc_state (CLIENT s) = Discovering" "dc_retry_count (CLIENT s) = 0"
  shows "dc_state (CLIENT (dhcp_tick s)) = Discovering \<and> dc_retry_count (CLIENT (dhcp_tick s)) = 0
    \<and> NET_IP (dhcp_tick s) = NET_IP s"
  using assms by (simp add: dhcp_tick_def Let_def MAX_RETRIES_def send_discover_client)

text \<open>
  C36. The DHCP client never falls back to its static address: however long the timer runs after it starts with no
  server answering, it keeps discovering and the address of the interface does not change, because every discovery
  message resets the retry counter that the fallback waits for.
\<close>

theorem dhcp_never_falls_back:
  "dc_state (CLIENT (dhcp_ticks ts (dhcp_init s))) = Discovering \<and> NET_IP (dhcp_ticks ts (dhcp_init s)) = NET_IP s"
proof -
  have "dc_state (CLIENT (dhcp_ticks ts t)) = Discovering \<and> NET_IP (dhcp_ticks ts t) = NET_IP t"
    if "dc_state (CLIENT t) = Discovering" "dc_retry_count (CLIENT t) = 0" for t :: "'a UdpState_scheme"
    using that
  proof (induction ts arbitrary: t)
    case (Cons x ts)
    then show ?case
      using dhcp_tick_discovering [of "t\<lparr>TICKS := x\<rparr>"] by (simp add: dhcp_ticks_def)
  qed (simp add: dhcp_ticks_def)
  moreover have "NET_IP (fst (udp_register p f s)) = NET_IP s" for p f
    by (simp add: udp_register_def Let_def split: option.split)
  ultimately show ?thesis by (simp add: dhcp_init_def send_discover_client)
qed

end
