(* ===== verification/Dns.thy ===== *)
theory Dns
  imports Dhcp
begin

text \<open>
  The DNS resolver, \<^verbatim>\<open>kernel/src/net/dns.rs\<close>: its cache, queries, the parser of responses and of dotted addresses, and
  the resolving loop.  What the loop's polls of the network do is an argument, a list with one function for each
  poll; the loop times out at its end.  Names are byte lists.
\<close>

section \<open>State\<close>

definition CACHE_SIZE :: nat where "CACHE_SIZE = 16"
definition DNS_SERVER :: "u8 list" where "DNS_SERVER = [10, 0, 2, 3]"
definition DNS_SRC_PORT :: nat where "DNS_SRC_PORT = 5300"
definition DNS_DST_PORT :: nat where "DNS_DST_PORT = 53"

record DnsEntry =
  de_name :: "u8 list"
  de_name_len :: nat
  de_addr :: IpAddr
  de_ttl_end :: nat

record DnsState = UdpState +
  DNS_CACHE :: "DnsEntry list"
  CACHE_CURSOR :: nat
  PENDING_TXN :: nat
  PENDING_ADDR :: "IpAddr option"

definition dns_init :: "'a DnsState_scheme \<Rightarrow> 'a DnsState_scheme" where
  "dns_init s = fst (udp_register DNS_SRC_PORT handle_dns_response_fn s)"

section \<open>Cache\<close>

text \<open>The scan clears the entries that have expired on its way.\<close>

fun cache_scan :: "u8 list \<Rightarrow> nat \<Rightarrow> DnsEntry list \<Rightarrow> DnsEntry list \<times> IpAddr option" where
  "cache_scan nm now [] = ([], None)"
| "cache_scan nm now (e # es) =
    (if de_ttl_end e = 0 then (let (es', r) = cache_scan nm now es in (e # es', r))
     else if de_ttl_end e < now then (let (es', r) = cache_scan nm now es in (e\<lparr>de_ttl_end := 0\<rparr> # es', r))
     else if de_name_len e = length nm \<and> take (de_name_len e) (de_name e) = nm then (e # es, Some (de_addr e))
     else (let (es', r) = cache_scan nm now es in (e # es', r)))"

definition cache_lookup :: "u8 list \<Rightarrow> 'a DnsState_scheme \<Rightarrow> 'a DnsState_scheme \<times> IpAddr option" where
  "cache_lookup nm s = (let (es, r) = cache_scan nm (unat (TICKS s)) (DNS_CACHE s) in (s\<lparr>DNS_CACHE := es\<rparr>, r))"

definition cache_insert :: "u8 list \<Rightarrow> IpAddr \<Rightarrow> nat \<Rightarrow> 'a DnsState_scheme \<Rightarrow> 'a DnsState_scheme" where
  "cache_insert nm addr ttl_secs s =
    (let len = min (length nm) 63; i = CACHE_CURSOR s mod CACHE_SIZE; e = DNS_CACHE s ! i;
         top = 2 ^ 32 - 1; ttl_ticks = min (ttl_secs * 100) top
     in s\<lparr>DNS_CACHE := (DNS_CACHE s)[i := e\<lparr>de_name := take len nm @ drop len (de_name e), de_name_len := len,
                                            de_addr := addr, de_ttl_end := min (unat (TICKS s) + ttl_ticks) top\<rparr>],
           CACHE_CURSOR := (CACHE_CURSOR s + 1) mod 2 ^ 64\<rparr>)"

section \<open>Queries\<close>

fun split_dots :: "u8 list \<Rightarrow> u8 list list" where
  "split_dots [] = [[]]"
| "split_dots (b # bs) = (if b = 46 then [] # split_dots bs else case split_dots bs of l # ls \<Rightarrow> (b # l) # ls | [] \<Rightarrow> [[b]])"

fun query_labels :: "nat \<Rightarrow> u8 list list \<Rightarrow> u8 list" where
  "query_labels off [] = []"
| "query_labels off (l # ls) =
    (let n = min (length l) 63 in
     if off + 1 + n \<ge> 480 then [] else of_nat n # take n l @ query_labels (off + 1 + n) ls)"

definition build_dns_query :: "u8 list \<Rightarrow> nat \<Rightarrow> nat \<Rightarrow> u8 list" where
  "build_dns_query nm txn qtype =
    put16 txn @ [1, 0, 0, 1, 0, 0, 0, 0, 0, 0] @ query_labels 12 (split_dots nm) @ [0] @ put16 qtype @ [0, 1]"

definition send_query :: "u8 list \<Rightarrow> 'a DnsState_scheme \<Rightarrow> 'a DnsState_scheme" where
  "send_query nm s = fst (udp_send DNS_SERVER DNS_DST_PORT DNS_SRC_PORT (build_dns_query nm (PENDING_TXN s) 1) s)"

section \<open>Responses\<close>

text \<open>Skipping a name; \<open>ptrs\<close> says whether a compression pointer ends it.  \<open>None\<close> leaves the message.\<close>

function skip_name :: "bool \<Rightarrow> u8 list \<Rightarrow> nat \<Rightarrow> nat option" where
  "skip_name ptrs d off =
    (if off \<ge> length d then None
     else let l = unat (d ! off) in
     if l = 0 then Some (off + 1)
     else if ptrs \<and> l \<ge> 0xC0 then Some (off + 2)
     else skip_name ptrs d (off + 1 + l))"
  by pat_completeness auto
termination
  by (relation "measure (\<lambda>(p, d, off). length d - off)") auto

declare skip_name.simps [simp del]

fun skip_questions :: "nat \<Rightarrow> u8 list \<Rightarrow> nat \<Rightarrow> nat option" where
  "skip_questions 0 d off = Some off"
| "skip_questions (Suc n) d off = Option.bind (skip_name True d off) (\<lambda>o'. skip_questions n d (o' + 4))"

text \<open>The answers: the first A record wins; an AAAA record is kept if nothing is.\<close>

fun scan_answers :: "nat \<Rightarrow> u8 list \<Rightarrow> nat \<Rightarrow> IpAddr option \<Rightarrow> IpAddr option" where
  "scan_answers 0 d off r = r"
| "scan_answers (Suc n) d off r =
    (if off \<ge> length d then r
     else case (if unat (d ! off) \<ge> 0xC0 then Some (off + 2) else skip_name False d off) of
       None \<Rightarrow> r
     | Some p \<Rightarrow>
         if p + 10 > length d then r
         else let rtype = be16 d p; rdlen = be16 d (p + 8); rdata = sub_bytes (p + 10) rdlen d in
         if p + 10 + rdlen > length d then r
         else if rtype = 1 \<and> rdlen = 4 then Some (V4 rdata)
         else scan_answers n d (p + 10 + rdlen) (if rtype = 28 \<and> rdlen = 16 \<and> r = None then Some (V6 rdata) else r))"

definition handle_dns_response :: "u8 list \<Rightarrow> 'a DnsState_scheme \<Rightarrow> 'a DnsState_scheme" where
  "handle_dns_response d s =
    (if length d < 12 \<or> be16 d 0 \<noteq> PENDING_TXN s \<or> be16 d 2 div 2 ^ 15 = 0 \<or> be16 d 2 mod 16 \<noteq> 0 \<or> be16 d 6 = 0 then s
     else case skip_questions (be16 d 4) d 12 of
       None \<Rightarrow> s
     | Some off \<Rightarrow> s\<lparr>PENDING_ADDR := scan_answers (be16 d 6) d off (PENDING_ADDR s)\<rparr>)"

section \<open>Resolving\<close>

fun parse_octets :: "u8 list \<Rightarrow> u8 list \<Rightarrow> nat \<Rightarrow> bool \<Rightarrow> u8 list option" where
  "parse_octets [] os cur has_digit = (if \<not> has_digit \<or> length os \<noteq> 3 then None else Some (os @ [of_nat cur]))"
| "parse_octets (b # bs) os cur has_digit =
    (if b = 46 then (if \<not> has_digit \<or> length os \<ge> 3 then None else parse_octets bs (os @ [of_nat cur]) 0 False)
     else if 48 \<le> b \<and> b \<le> 57 then
       (let cur = cur * 10 + unat (b - 48) in if cur > 255 then None else parse_octets bs os cur True)
     else None)"

definition parse_dotted_ip :: "u8 list \<Rightarrow> u8 list option" where "parse_dotted_ip t = parse_octets t [] 0 False"

fun dns_wait :: "('a DnsState_scheme \<Rightarrow> 'a DnsState_scheme) list \<Rightarrow> u8 list \<Rightarrow> 'a DnsState_scheme \<Rightarrow>
    'a DnsState_scheme \<times> IpAddr option" where
  "dns_wait [] nm s = (s, None)"
| "dns_wait (poll # polls) nm s =
    (let s = poll s in
     case PENDING_ADDR s of
       Some addr \<Rightarrow> (cache_insert nm addr 300 (s\<lparr>PENDING_ADDR := None\<rparr>), Some addr)
     | None \<Rightarrow> dns_wait polls nm s)"

definition dns_resolve :: "('a DnsState_scheme \<Rightarrow> 'a DnsState_scheme) list \<Rightarrow> u8 list \<Rightarrow> 'a DnsState_scheme \<Rightarrow>
    'a DnsState_scheme \<times> IpAddr option" where
  "dns_resolve polls nm s =
    (case parse_dotted_ip nm of
       Some ip \<Rightarrow> (s, Some (V4 ip))
     | None \<Rightarrow>
         (case cache_lookup nm s of
            (s, Some addr) \<Rightarrow> (s, Some addr)
          | (s, None) \<Rightarrow> dns_wait polls nm (send_query nm (s\<lparr>PENDING_TXN := TIMER s mod 2 ^ 16, PENDING_ADDR := None\<rparr>))))"

end
