(* ===== verification/Tcp_Ring.thy ===== *)
theory Tcp_Ring
  imports Fifo
begin

text \<open>
  The ring buffers of \<^verbatim>\<open>kernel/src/net/tcp.rs\<close>.  A ring of capacity \<open>BUF_SIZE\<close> is a bounded byte stream; besides
  reading and writing, the sender peeks at bytes that are not yet acknowledged and discards those that are.
\<close>

definition BUF_SIZE :: nat where "BUF_SIZE = 32 * 1024"

record RingBuf =
  rb_buf :: "u8 list"
  rb_head :: nat
  rb_tail :: nat
  rb_len :: nat

definition RingBuf_new :: "nat \<Rightarrow> RingBuf" where
  "RingBuf_new cap = \<lparr>rb_buf = replicate cap 0, rb_head = 0, rb_tail = 0, rb_len = 0\<rparr>"

definition RingBuf_cap :: "RingBuf \<Rightarrow> nat" where "RingBuf_cap r = length (rb_buf r)"
definition RingBuf_avail :: "RingBuf \<Rightarrow> nat" where "RingBuf_avail r = rb_len r"
definition RingBuf_free :: "RingBuf \<Rightarrow> nat" where "RingBuf_free r = RingBuf_cap r - rb_len r"

definition RingBuf_push :: "u8 list \<Rightarrow> RingBuf \<Rightarrow> RingBuf \<times> nat" where
  "RingBuf_push d r =
    (let n = min (length d) (RingBuf_free r);
         (b, t) = ring_put (RingBuf_cap r) (rb_buf r) (rb_tail r) (take n d)
     in (r\<lparr>rb_buf := b, rb_tail := t, rb_len := rb_len r + n\<rparr>, n))"

definition RingBuf_pop :: "nat \<Rightarrow> RingBuf \<Rightarrow> RingBuf \<times> u8 list" where
  "RingBuf_pop k r =
    (let n = min k (rb_len r); (out, h) = ring_get (RingBuf_cap r) (rb_buf r) (rb_head r) n
     in (r\<lparr>rb_head := h, rb_len := rb_len r - n\<rparr>, out))"

definition RingBuf_peek :: "nat \<Rightarrow> RingBuf \<Rightarrow> u8 list" where
  "RingBuf_peek k r = map (\<lambda>i. rb_buf r ! ((rb_head r + i) mod RingBuf_cap r)) [0..<min k (rb_len r)]"

definition RingBuf_peek_from :: "nat \<Rightarrow> nat \<Rightarrow> RingBuf \<Rightarrow> u8 list" where
  "RingBuf_peek_from off k r =
    map (\<lambda>i. rb_buf r ! ((rb_head r + off + i) mod RingBuf_cap r)) [0..<min k (rb_len r - off)]"

definition RingBuf_discard :: "nat \<Rightarrow> RingBuf \<Rightarrow> RingBuf" where
  "RingBuf_discard k r =
    (let n = min k (rb_len r) in r\<lparr>rb_head := (rb_head r + n) mod RingBuf_cap r, rb_len := rb_len r - n\<rparr>)"

section \<open>The ring as a byte stream\<close>

definition ring_wf :: "RingBuf \<Rightarrow> bool" where
  "ring_wf r \<longleftrightarrow> ring_ok BUF_SIZE (rb_buf r) (rb_head r) (rb_tail r) (rb_len r)"

definition ring_bytes :: "RingBuf \<Rightarrow> u8 list" where
  "ring_bytes r = ring_window (rb_buf r) (rb_head r) (rb_len r)"

lemma length_ring_bytes [simp]: "length (ring_bytes r) = rb_len r"
  by (simp add: ring_bytes_def)

lemma ring_wf_new: "ring_wf (RingBuf_new BUF_SIZE)" and ring_bytes_new: "ring_bytes (RingBuf_new BUF_SIZE) = []"
  by (simp_all add: ring_wf_def ring_bytes_def RingBuf_new_def ring_ok_def BUF_SIZE_def)

lemma ring_wf_cap: "ring_wf r \<Longrightarrow> RingBuf_cap r = BUF_SIZE"
  by (simp add: ring_wf_def ring_ok_def RingBuf_cap_def)

lemma ring_push:
  assumes "ring_wf r" "RingBuf_push d r = (r', n)"
  shows "ring_wf r'" "n = min (length d) (BUF_SIZE - rb_len r)" "ring_bytes r' = ring_bytes r @ take n d"
proof -
  have ok: "ring_ok BUF_SIZE (rb_buf r) (rb_head r) (rb_tail r) (rb_len r)" using assms(1) by (simp add: ring_wf_def)
  show n: "n = min (length d) (BUF_SIZE - rb_len r)"
    using assms(2) ring_wf_cap [OF assms(1)] by (auto simp: RingBuf_push_def RingBuf_free_def Let_def split: prod.splits)
  have "rb_len r + length (take n d) \<le> BUF_SIZE" using ok n by (auto simp: ring_ok_def)
  from ring_put_ok [OF ok this] n assms(2) ring_wf_cap [OF assms(1)]
  show "ring_wf r'" "ring_bytes r' = ring_bytes r @ take n d"
    by (auto simp: RingBuf_push_def RingBuf_free_def ring_wf_def ring_bytes_def Let_def split: prod.splits)
qed

lemma ring_pop:
  assumes "ring_wf r" "RingBuf_pop k r = (r', out)"
  shows "ring_wf r'" "out = take k (ring_bytes r)" "ring_bytes r' = drop k (ring_bytes r)"
proof -
  have ok: "ring_ok BUF_SIZE (rb_buf r) (rb_head r) (rb_tail r) (rb_len r)" using assms(1) by (simp add: ring_wf_def)
  from ring_get_ok [OF ok, of "min k (rb_len r)"] assms(2) ring_wf_cap [OF assms(1)]
  show "ring_wf r'" "out = take k (ring_bytes r)" "ring_bytes r' = drop k (ring_bytes r)"
    by (auto simp: RingBuf_pop_def ring_wf_def ring_bytes_def Let_def min_def split: prod.splits if_splits)
qed

text \<open>Peeking shows a window of the contents, and discarding drops a prefix of them.\<close>

lemma ring_peek_from: "RingBuf_peek_from off k r = take k (drop off (ring_bytes r))"
  by (rule nth_equalityI) (auto simp: RingBuf_peek_from_def RingBuf_cap_def ring_bytes_def add.assoc)

lemma ring_peek: "RingBuf_peek k r = take k (ring_bytes r)"
  by (rule nth_equalityI) (auto simp: RingBuf_peek_def RingBuf_cap_def ring_bytes_def)

lemma ring_discard:
  assumes "ring_wf r"
  shows "ring_wf (RingBuf_discard k r)" "ring_bytes (RingBuf_discard k r) = drop k (ring_bytes r)"
proof -
  obtain r' out where p: "RingBuf_pop k r = (r', out)" by force
  have "rb_head r < length (rb_buf r)" using assms by (simp add: ring_wf_def ring_ok_def)
  then have "RingBuf_discard k r = r'" using p ring_get_eq [of "rb_head r" "rb_buf r" "min k (rb_len r)"]
    by (simp add: RingBuf_discard_def RingBuf_pop_def RingBuf_cap_def Let_def)
  then show "ring_wf (RingBuf_discard k r)" "ring_bytes (RingBuf_discard k r) = drop k (ring_bytes r)"
    using ring_pop [OF assms p] by simp_all
qed

interpretation tcpr: byte_stream RingBuf_push RingBuf_pop ring_wf ring_bytes BUF_SIZE
proof unfold_locales
  fix r :: RingBuf and xs :: "u8 list" and k :: nat
  assume r: "ring_wf r"
  obtain r1 n where w: "RingBuf_push xs r = (r1, n)" by force
  obtain r2 out where g: "RingBuf_pop k r = (r2, out)" by force
  show "ring_wf (fst (RingBuf_push xs r))" "snd (RingBuf_push xs r) = min (length xs) (BUF_SIZE - length (ring_bytes r))"
    "ring_bytes (fst (RingBuf_push xs r)) = ring_bytes r @ take (BUF_SIZE - length (ring_bytes r)) xs"
    using ring_push [OF r w] w by (simp_all add: min_def)
  show "ring_wf (fst (RingBuf_pop k r))" "snd (RingBuf_pop k r) = take k (ring_bytes r)"
    "ring_bytes (fst (RingBuf_pop k r)) = drop k (ring_bytes r)" using ring_pop [OF r g] g by simp_all
  show "length (ring_bytes r) \<le> BUF_SIZE" using r by (simp add: ring_wf_def ring_ok_def)
qed

end
