(* ===== verification/Tcp.thy ===== *)
theory Tcp
  imports Dns Tcp_Ring
begin

text \<open>
  TCP, \<^verbatim>\<open>kernel/src/net/tcp.rs\<close>: the connection table, segments, the interface to programs, the handler of incoming
  segments and the timer.  Sequence numbers and ticks are 32-bit words; windows and counters are
  natural numbers, cut off where the code saturates.  An operation that can index a slice out of range gives an
  option, \<open>None\<close> when the kernel panics.
\<close>

section \<open>Connections\<close>

definition MAX_CONNS :: nat where "MAX_CONNS = 16"
definition MSS_DEFAULT :: nat where "MSS_DEFAULT = 1460"
definition TCP_FIN :: u8 where "TCP_FIN = 0x01"
definition TCP_SYN :: u8 where "TCP_SYN = 0x02"
definition TCP_RST :: u8 where "TCP_RST = 0x04"
definition TCP_ACK :: u8 where "TCP_ACK = 0x10"
definition RETX_INIT :: u32 where "RETX_INIT = 50"
definition RETX_MAX :: nat where "RETX_MAX = 5"
definition TIMEWAIT_TICKS :: u32 where "TIMEWAIT_TICKS = 100"
definition CWND_INIT :: nat where "CWND_INIT = MSS_DEFAULT * 2"
definition SSTHRESH_INIT :: nat where "SSTHRESH_INIT = 64 * 1024"
definition PERSIST_INIT :: nat where "PERSIST_INIT = 100"
definition PERSIST_MAX :: nat where "PERSIST_MAX = 6000"
definition LASTACK_TIMEOUT :: u32 where "LASTACK_TIMEOUT = 600"
definition MAX_FLUSH_SEGS :: nat where "MAX_FLUSH_SEGS = 8"

datatype TcpState = Free | SynSent | Listen | SynRcvd | Established | FinWait1 | FinWait2 | Closing
  | CloseWait | LastAck | TimeWait | Closed

record TcpConn =
  tc_state :: TcpState
  remote_ip :: IpAddr
  remote_port :: nat
  local_port :: nat
  snd_nxt :: u32
  snd_una :: u32
  snd_cur :: nat
  rcv_nxt :: u32
  snd_wnd :: nat
  mss :: nat
  retx_ticks :: u32
  retx_count :: nat
  retx_backoff :: nat
  state_tick :: u32
  cwnd :: nat
  ssthresh :: nat
  dup_acks :: nat
  last_ack_rcvd :: u32
  persist_ticks :: u32
  persist_arm :: bool
  is_server :: bool
  accept_port :: nat
  rx :: "RingBuf option"
  tx :: "RingBuf option"

definition TcpConn_zeroed :: TcpConn where
  "TcpConn_zeroed = \<lparr>tc_state = Free, remote_ip = V4 ZERO4, remote_port = 0, local_port = 0,
     snd_nxt = 0, snd_una = 0, snd_cur = 0, rcv_nxt = 0, snd_wnd = 8192, mss = MSS_DEFAULT,
     retx_ticks = 0, retx_count = 0, retx_backoff = 1, state_tick = 0,
     cwnd = CWND_INIT, ssthresh = SSTHRESH_INIT, dup_acks = 0, last_ack_rcvd = 0,
     persist_ticks = 0, persist_arm = False, is_server = False, accept_port = 0, rx = None, tx = None\<rparr>"

record TcpNet = DnsState +
  CONNS :: "TcpConn list"
  NEXT_PORT :: nat

definition upd_conn :: "nat \<Rightarrow> (TcpConn \<Rightarrow> TcpConn) \<Rightarrow> 'a TcpNet_scheme \<Rightarrow> 'a TcpNet_scheme" where
  "upd_conn i f s = s\<lparr>CONNS := (CONNS s)[i := f (CONNS s ! i)]\<rparr>"

definition find_conn :: "(TcpConn \<Rightarrow> bool) \<Rightarrow> 'a TcpNet_scheme \<Rightarrow> nat option" where
  "find_conn P s = find_index (\<lambda>i. P (CONNS s ! i)) (length (CONNS s))"

definition sat32 :: "nat \<Rightarrow> nat" where "sat32 n = min n (2 ^ 32 - 1)"

section \<open>Segments\<close>

definition tcp_checksum :: "u8 list \<Rightarrow> u8 list \<Rightarrow> u8 list \<Rightarrow> nat" where
  "tcp_checksum src dst d = 2 ^ 16 - 1 - fold16 (be_sum src + be_sum dst + 6 + length d + be_sum d)"

definition has_flag :: "u8 \<Rightarrow> u8 \<Rightarrow> bool" where "has_flag flags f \<longleftrightarrow> flags AND f \<noteq> 0"

definition build_tcp_header :: "TcpConn \<Rightarrow> u8 \<Rightarrow> u8 list \<Rightarrow> u8 list" where
  "build_tcp_header c flags d =
    put16 (local_port c) @ put16 (remote_port c) @ put32 (snd_nxt c) @ put32 (rcv_nxt c)
      @ [if has_flag flags TCP_SYN then 0x60 else 0x50, flags]
      @ put16 (case rx c of Some r \<Rightarrow> min (RingBuf_free r) 65535 | None \<Rightarrow> 8192) @ [0, 0, 0, 0]
      @ (if has_flag flags TCP_SYN then [2, 4] @ put16 MSS_DEFAULT else []) @ d"

definition send_segment :: "nat \<Rightarrow> u8 \<Rightarrow> u8 list \<Rightarrow> 'a TcpNet_scheme \<Rightarrow> 'a TcpNet_scheme" where
  "send_segment i flags d s =
    (let c = CONNS s ! i; seg = build_tcp_header c flags d in
     case remote_ip c of
       V4 dst \<Rightarrow>
         (let (s, dst_mac) = resolve_mac_nonblocking dst s in
          if 14 + 20 + length seg > TX_BUF_LEN then s
          else fst (net_send_frame (eth_header dst_mac (NET_MAC s) 0x0800 @ ip4_header (20 + length seg) 0 6 (NET_IP s) dst
                 @ put_csum 16 (tcp_checksum (NET_IP s) dst seg) seg) s))
     | V6 dst \<Rightarrow>
         (let my_ip6 = (if NET_IP6G s \<noteq> ZERO16 then NET_IP6G s else NET_IP6 s) in
          case ndp_lookup dst s of
            None \<Rightarrow> s
          | Some dst_mac \<Rightarrow>
              if 14 + 40 + length seg > TX_BUF_LEN then s
              else fst (net_send_frame (eth_header dst_mac (NET_MAC s) 0x86DD @ ip6_header (length seg) 6 64 my_ip6 dst
                     @ put_csum 16 (ipv6_upper_checksum my_ip6 dst 6 seg) seg) s)))"

definition send_rst_raw :: "IpAddr \<Rightarrow> nat \<Rightarrow> nat \<Rightarrow> u32 \<Rightarrow> 'a TcpNet_scheme \<Rightarrow> 'a TcpNet_scheme" where
  "send_rst_raw dst_ip dst_port src_port seq s =
    (case dst_ip of
       V4 dst \<Rightarrow>
         (let (s, dst_mac) = resolve_mac_nonblocking dst s;
              seg = put16 src_port @ put16 dst_port @ put32 seq @ [0, 0, 0, 0, 0x50, TCP_RST, 0, 0, 0, 0, 0, 0]
          in fst (net_send_frame (eth_header dst_mac (NET_MAC s) 0x0800 @ ip4_header 40 0 6 (NET_IP s) dst
               @ put_csum 16 (tcp_checksum (NET_IP s) dst seg) seg) s))
     | V6 _ \<Rightarrow> s)"

section \<open>Sending data\<close>

text \<open>
  \<^verbatim>\<open>flush_tx\<close> sends at most \<open>MAX_FLUSH_SEGS\<close> segments of the bytes not yet sent, within the smaller of the peer's and
  the congestion window.  Its buffer has 1460 bytes, and a larger segment panics.
\<close>

definition tcp_flush_size :: "TcpConn \<Rightarrow> nat" where
  "tcp_flush_size c =
    (let avail = (case tx c of Some t \<Rightarrow> RingBuf_avail t | None \<Rightarrow> 0); eff = min (snd_wnd c) (cwnd c)
     in min (min (avail - snd_cur c) (mss c)) (eff - snd_cur c))"

definition flush_sent :: "nat \<Rightarrow> u32 \<Rightarrow> TcpConn \<Rightarrow> TcpConn" where
  "flush_sent n now c =
    (let c' = c\<lparr>snd_nxt := snd_nxt c + of_nat n, snd_cur := snd_cur c + n\<rparr>
     in if snd_cur c = 0 \<and> snd_una c = snd_nxt c
        then c'\<lparr>retx_ticks := now + RETX_INIT, retx_count := 0, retx_backoff := 1\<rparr> else c')"

definition peek_tx :: "nat \<Rightarrow> nat \<Rightarrow> TcpConn \<Rightarrow> u8 list" where
  "peek_tx off n c = (case tx c of Some t \<Rightarrow> RingBuf_peek_from off n t | None \<Rightarrow> [])"

fun flush_loop :: "nat \<Rightarrow> nat \<Rightarrow> 'a TcpNet_scheme \<Rightarrow> 'a TcpNet_scheme option" where
  "flush_loop 0 i s = Some s"
| "flush_loop (Suc k) i s =
    (let c = CONNS s ! i; n = tcp_flush_size c; d = peek_tx (snd_cur c) n c in
     if n = 0 then Some s
     else if n > 1460 then None
     else if d = [] then Some s
     else flush_loop k i (upd_conn i (flush_sent (length d) (TICKS s)) (send_segment i TCP_ACK d s)))"

definition flush_tx :: "nat \<Rightarrow> 'a TcpNet_scheme \<Rightarrow> 'a TcpNet_scheme option" where
  "flush_tx i s = flush_loop MAX_FLUSH_SEGS i s"

definition tcp_write :: "nat \<Rightarrow> u8 list \<Rightarrow> 'a TcpNet_scheme \<Rightarrow> ('a TcpNet_scheme \<times> nat) option" where
  "tcp_write i d s =
    (if i \<ge> MAX_CONNS \<or> tc_state (CONNS s ! i) \<notin> {Established, CloseWait} then Some (s, 0)
     else case tx (CONNS s ! i) of
       None \<Rightarrow> Some (s, 0)
     | Some t \<Rightarrow>
         (let (t', pushed) = RingBuf_push d t
          in map_option (\<lambda>s. (s, pushed)) (flush_tx i (upd_conn i (\<lambda>c. c\<lparr>tx := Some t'\<rparr>) s))))"

section \<open>Opening, reading and closing\<close>

text \<open>
  The slot is chosen before the address is resolved.  The blocking resolution, \<^verbatim>\<open>arp_resolve_blocking\<close> or
  \<^verbatim>\<open>ndp_resolve_blocking\<close>, handles received frames while it waits; it is the argument \<open>resolve\<close>.
\<close>

definition tcp_connect ::
  "(IpAddr \<Rightarrow> 'a TcpNet_scheme \<Rightarrow> 'a TcpNet_scheme \<times> bool) \<Rightarrow> IpAddr \<Rightarrow> nat \<Rightarrow> 'a TcpNet_scheme \<Rightarrow>
   'a TcpNet_scheme \<times> nat option" where
  "tcp_connect resolve dst_ip dst_port s =
    (case find_conn (\<lambda>c. tc_state c = Free) s of
       None \<Rightarrow> (s, None)
     | Some i \<Rightarrow>
         (case resolve dst_ip s of
            (s, False) \<Rightarrow> (s, None)
          | (s, True) \<Rightarrow>
              let isn = of_nat (TIMER s); now = TICKS s;
                  c = TcpConn_zeroed\<lparr>tc_state := SynSent, remote_ip := dst_ip, remote_port := dst_port,
                        local_port := NEXT_PORT s, snd_nxt := isn, snd_una := isn, retx_ticks := now + RETX_INIT,
                        state_tick := now, last_ack_rcvd := isn,
                        rx := Some (RingBuf_new BUF_SIZE), tx := Some (RingBuf_new BUF_SIZE)\<rparr>;
                  s = s\<lparr>NEXT_PORT := (if NEXT_PORT s \<ge> 65535 then 49152 else NEXT_PORT s + 1)\<rparr>;
                  s = send_segment i TCP_SYN [] (upd_conn i (\<lambda>_. c) s)
              in (upd_conn i (\<lambda>c. c\<lparr>snd_nxt := snd_nxt c + 1\<rparr>) s, Some i)))"

definition tcp_read :: "nat \<Rightarrow> nat \<Rightarrow> 'a TcpNet_scheme \<Rightarrow> 'a TcpNet_scheme \<times> u8 list" where
  "tcp_read i n s =
    (if i \<ge> MAX_CONNS then (s, [])
     else case rx (CONNS s ! i) of
       None \<Rightarrow> (s, [])
     | Some r \<Rightarrow> (let (r', d) = RingBuf_pop n r in (upd_conn i (\<lambda>c. c\<lparr>rx := Some r'\<rparr>) s, d)))"

definition tcp_readable :: "nat \<Rightarrow> 'a TcpNet_scheme \<Rightarrow> nat" where
  "tcp_readable i s = (if i \<ge> MAX_CONNS then 0 else case rx (CONNS s ! i) of Some r \<Rightarrow> RingBuf_avail r | None \<Rightarrow> 0)"

definition tcp_state :: "nat \<Rightarrow> 'a TcpNet_scheme \<Rightarrow> TcpState" where
  "tcp_state i s = (if i \<ge> MAX_CONNS then Free else tc_state (CONNS s ! i))"

definition drop_conn :: "TcpState \<Rightarrow> TcpConn \<Rightarrow> TcpConn" where
  "drop_conn st c = c\<lparr>rx := None, tx := None, tc_state := st\<rparr>"

definition tcp_close :: "nat \<Rightarrow> 'a TcpNet_scheme \<Rightarrow> 'a TcpNet_scheme" where
  "tcp_close i s =
    (let fin = (\<lambda>st. upd_conn i (\<lambda>c. c\<lparr>snd_nxt := snd_nxt c + 1, tc_state := st, state_tick := TICKS s\<rparr>)
                  (send_segment i (TCP_FIN OR TCP_ACK) [] s)) in
     if i \<ge> MAX_CONNS then s
     else case tc_state (CONNS s ! i) of
       Established \<Rightarrow> fin FinWait1
     | CloseWait \<Rightarrow> fin LastAck
     | _ \<Rightarrow> upd_conn i (drop_conn Free) s)"

definition tcp_listen :: "nat \<Rightarrow> 'a TcpNet_scheme \<Rightarrow> 'a TcpNet_scheme \<times> nat option" where
  "tcp_listen port s =
    (case find_conn (\<lambda>c. tc_state c = Free) s of
       None \<Rightarrow> (s, None)
     | Some i \<Rightarrow>
         (upd_conn i (\<lambda>_. TcpConn_zeroed\<lparr>tc_state := Listen, local_port := port, state_tick := TICKS s\<rparr>) s, Some i))"

section \<open>Incoming segments\<close>

record Segment =
  sg_src :: IpAddr
  sg_src_port :: nat
  sg_dst_port :: nat
  sg_seq :: u32
  sg_ack :: u32
  sg_doff :: nat
  sg_flags :: u8
  sg_wnd :: nat
  sg_data :: "u8 list"

definition parse_segment :: "IpAddr \<Rightarrow> u8 list \<Rightarrow> Segment" where
  "parse_segment src p =
    (let doff = unat (p ! 12) div 16 * 4 in
     \<lparr>sg_src = src, sg_src_port = be16 p 0, sg_dst_port = be16 p 2, sg_seq = be32 p 4, sg_ack = be32 p 8,
       sg_doff = doff, sg_flags = p ! 13, sg_wnd = be16 p 14,
       sg_data = (if doff \<le> length p then drop doff p else [])\<rparr>)"

text \<open>A segment for which there is no connection: a request to a listening port, or a reset.\<close>

definition accept_syn :: "Segment \<Rightarrow> nat \<Rightarrow> 'a TcpNet_scheme \<Rightarrow> 'a TcpNet_scheme" where
  "accept_syn g i s =
    (let isn = of_nat (TIMER s) XOR of_nat (sg_dst_port g * 2 ^ 16); now = TICKS s;
         c = TcpConn_zeroed\<lparr>tc_state := SynRcvd, remote_ip := sg_src g, remote_port := sg_src_port g,
               local_port := sg_dst_port g, snd_nxt := isn, snd_una := isn, rcv_nxt := sg_seq g + 1,
               snd_wnd := sg_wnd g, retx_ticks := now + RETX_INIT, state_tick := now, last_ack_rcvd := isn,
               is_server := True, accept_port := sg_dst_port g,
               rx := Some (RingBuf_new BUF_SIZE), tx := Some (RingBuf_new BUF_SIZE)\<rparr>
     in upd_conn i (\<lambda>c. c\<lparr>snd_nxt := snd_nxt c + 1\<rparr>)
          (send_segment i (TCP_SYN OR TCP_ACK) [] (upd_conn i (\<lambda>_. c) s)))"

definition no_conn :: "Segment \<Rightarrow> 'a TcpNet_scheme \<Rightarrow> 'a TcpNet_scheme" where
  "no_conn g s =
    (let f = sg_flags g in
     if has_flag f TCP_SYN \<and> \<not> has_flag f TCP_RST \<and> \<not> has_flag f TCP_ACK
        \<and> find_conn (\<lambda>c. tc_state c = Listen \<and> local_port c = sg_dst_port g) s \<noteq> None
     then (case find_conn (\<lambda>c. tc_state c = Free) s of None \<Rightarrow> s | Some i \<Rightarrow> accept_syn g i s)
     else if \<not> has_flag f TCP_RST then send_rst_raw (sg_src g) (sg_src_port g) (sg_dst_port g) (sg_ack g) s
     else s)"

text \<open>In-order data goes to the receive ring, as much as fits, and is acknowledged.\<close>

definition push_rx :: "u8 list \<Rightarrow> TcpConn \<Rightarrow> TcpConn" where
  "push_rx d c =
    (case rx c of
       None \<Rightarrow> c
     | Some r \<Rightarrow> (let (r', n) = RingBuf_push d r in c\<lparr>rx := Some r', rcv_nxt := rcv_nxt c + of_nat n\<rparr>))"

definition deliver :: "Segment \<Rightarrow> nat \<Rightarrow> 'a TcpNet_scheme \<Rightarrow> 'a TcpNet_scheme" where
  "deliver g i s =
    (if sg_data g \<noteq> [] \<and> sg_seq g = rcv_nxt (CONNS s ! i)
     then send_segment i TCP_ACK [] (upd_conn i (push_rx (sg_data g)) s) else s)"

definition in_syn_rcvd :: "Segment \<Rightarrow> nat \<Rightarrow> 'a TcpNet_scheme \<Rightarrow> 'a TcpNet_scheme" where
  "in_syn_rcvd g i s =
    (if has_flag (sg_flags g) TCP_ACK \<and> sg_ack g = snd_nxt (CONNS s ! i)
     then deliver g i (upd_conn i (\<lambda>c. c\<lparr>snd_una := sg_ack g, tc_state := Established, retx_count := 0, retx_backoff := 1\<rparr>) s)
     else s)"

function peer_mss :: "u8 list \<Rightarrow> nat \<Rightarrow> nat" where
  "peer_mss opts m =
    (if length opts < 2 \<or> opts ! 0 = 0 then m
     else if opts ! 0 = 1 then peer_mss (drop 1 opts) m
     else if opts ! 0 = 2 \<and> length opts > 3 then peer_mss (drop 4 opts) (be16 opts 2)
     else peer_mss (drop (2 + unat (opts ! 1)) opts) m)"
  by pat_completeness auto
termination
  by (relation "measure (\<lambda>(opts, m). length opts)") auto

declare peer_mss.simps [simp del]

definition in_syn_sent :: "Segment \<Rightarrow> u8 list \<Rightarrow> nat \<Rightarrow> 'a TcpNet_scheme \<Rightarrow> 'a TcpNet_scheme option" where
  "in_syn_sent g p i s =
    (if \<not> (has_flag (sg_flags g) TCP_SYN \<and> has_flag (sg_flags g) TCP_ACK) then Some s
     else let e = min (sg_doff g) (length p) in
     if e < 20 then None
     else Some (send_segment i TCP_ACK []
       (upd_conn i (\<lambda>c. c\<lparr>rcv_nxt := sg_seq g + 1, snd_una := sg_ack g, retx_count := 0, retx_backoff := 1,
                           mss := peer_mss (sub_bytes 20 (e - 20) p) (mss c), tc_state := Established\<rparr>) s)))"

text \<open>An acknowledgement in a connection that is established or half closed: new data, or a duplicate.\<close>

definition grow_cwnd :: "nat \<Rightarrow> TcpConn \<Rightarrow> TcpConn" where
  "grow_cwnd acked c =
    (if cwnd c < ssthresh c then c\<lparr>cwnd := sat32 (cwnd c + min acked (mss c))\<rparr>
     else c\<lparr>cwnd := sat32 (cwnd c + max (sat32 (mss c * acked) div max (cwnd c) 1) 1)\<rparr>)"

definition slide :: "nat \<Rightarrow> u32 \<Rightarrow> TcpConn \<Rightarrow> TcpConn" where
  "slide acked una c =
    c\<lparr>snd_una := una, tx := map_option (RingBuf_discard acked) (tx c), snd_cur := snd_cur c - acked,
       retx_count := 0, retx_backoff := 1, dup_acks := 0, last_ack_rcvd := una,
       persist_arm := (if snd_wnd c > 0 then False else persist_arm c)\<rparr>"

definition fast_retransmit :: "TcpConn \<Rightarrow> TcpConn" where
  "fast_retransmit c =
    (let th = max (unat (snd_nxt c - snd_una c) div 2) (mss c * 2)
     in c\<lparr>ssthresh := th, cwnd := sat32 (th + mss c * 3), snd_nxt := snd_una c, snd_cur := 0\<rparr>)"

definition take_ack :: "Segment \<Rightarrow> nat \<Rightarrow> 'a TcpNet_scheme \<Rightarrow> 'a TcpNet_scheme option" where
  "take_ack g i s =
    (let c = CONNS s ! i; acked = unat (sg_ack g - snd_una c) in
     if acked > 0 \<and> acked \<le> snd_cur c + 1 then flush_tx i (upd_conn i (slide acked (sg_ack g) \<circ> grow_cwnd acked) s)
     else if acked = 0 \<and> sg_ack g = last_ack_rcvd c \<and> sg_data g = [] then
       let k = min (dup_acks c + 1) 255; s = upd_conn i (\<lambda>c. c\<lparr>dup_acks := k\<rparr>) s in
       if k = 3 then flush_tx i (upd_conn i fast_retransmit s)
       else if k > 3 then flush_tx i (upd_conn i (\<lambda>c. c\<lparr>cwnd := sat32 (cwnd c + mss c)\<rparr>) s)
       else Some s
     else Some s)"

definition arm_persist :: "u32 \<Rightarrow> TcpConn \<Rightarrow> TcpConn" where
  "arm_persist now c =
    (if snd_wnd c = 0 \<and> \<not> persist_arm c then c\<lparr>persist_ticks := now + of_nat PERSIST_INIT, persist_arm := True\<rparr> else c)"

definition peer_fin :: "u32 \<Rightarrow> TcpConn \<Rightarrow> TcpConn" where
  "peer_fin now c =
    (case tc_state c of
       Established \<Rightarrow> c\<lparr>tc_state := CloseWait\<rparr>
     | FinWait1 \<Rightarrow> c\<lparr>tc_state := Closing\<rparr>
     | FinWait2 \<Rightarrow> c\<lparr>tc_state := TimeWait, state_tick := now\<rparr>
     | _ \<Rightarrow> c)"

definition take_fin :: "Segment \<Rightarrow> nat \<Rightarrow> 'a TcpNet_scheme \<Rightarrow> 'a TcpNet_scheme" where
  "take_fin g i s =
    (if has_flag (sg_flags g) TCP_FIN
     then upd_conn i (peer_fin (TICKS s)) (send_segment i TCP_ACK [] (upd_conn i (\<lambda>c. c\<lparr>rcv_nxt := rcv_nxt c + 1\<rparr>) s))
     else s)"

definition fin_acked :: "Segment \<Rightarrow> TcpConn \<Rightarrow> TcpConn" where
  "fin_acked g c =
    (if tc_state c = FinWait1 \<and> has_flag (sg_flags g) TCP_ACK \<and> sg_ack g = snd_nxt c then c\<lparr>tc_state := FinWait2\<rparr> else c)"

definition in_established :: "Segment \<Rightarrow> nat \<Rightarrow> 'a TcpNet_scheme \<Rightarrow> 'a TcpNet_scheme option" where
  "in_established g i s =
    map_option (\<lambda>s. upd_conn i (fin_acked g) (take_fin g i (deliver g i s)))
      (if has_flag (sg_flags g) TCP_ACK
       then map_option (\<lambda>t. upd_conn i (arm_persist (TICKS t)) t) (take_ack g i s) else Some s)"

definition tcp_handle_segment :: "IpAddr \<Rightarrow> u8 list \<Rightarrow> 'a TcpNet_scheme \<Rightarrow> 'a TcpNet_scheme option" where
  "tcp_handle_segment src p s =
    (if length p < 20 then Some s
     else let g = parse_segment src p in
     case find_conn (\<lambda>c. tc_state c \<noteq> Free \<and> remote_ip c = src \<and> remote_port c = sg_src_port g
                         \<and> local_port c = sg_dst_port g) s of
       None \<Rightarrow> Some (no_conn g s)
     | Some i \<Rightarrow>
         if has_flag (sg_flags g) TCP_RST then Some (upd_conn i (drop_conn Closed) s)
         else let s = upd_conn i (\<lambda>c. c\<lparr>snd_wnd := sg_wnd g\<rparr>) s; st = tc_state (CONNS s ! i) in
         if st = SynRcvd then Some (in_syn_rcvd g i s)
         else if st = SynSent then in_syn_sent g p i s
         else if st \<in> {Established, FinWait1, FinWait2} then in_established g i s
         else if st = LastAck \<and> has_flag (sg_flags g) TCP_ACK \<and> sg_ack g = snd_nxt (CONNS s ! i)
         then Some (upd_conn i (drop_conn Free) s)
         else Some s)"

section \<open>The timer\<close>

text \<open>A handshake or closing segment that was not answered is sent again, at most \<open>RETX_MAX\<close> times.\<close>

definition retry_control :: "u8 \<Rightarrow> nat \<Rightarrow> 'a TcpNet_scheme \<Rightarrow> 'a TcpNet_scheme" where
  "retry_control flags i s =
    (if retx_count (CONNS s ! i) \<ge> RETX_MAX then upd_conn i (drop_conn Free) s
     else upd_conn i (\<lambda>c. c\<lparr>retx_count := retx_count c + 1, state_tick := TICKS s\<rparr>) (send_segment i flags [] s))"

definition persist_probe :: "nat \<Rightarrow> 'a TcpNet_scheme \<Rightarrow> 'a TcpNet_scheme" where
  "persist_probe i s =
    upd_conn i (\<lambda>c. c\<lparr>retx_backoff := min (retx_backoff c * 2) 64,
                       persist_ticks := TICKS s + of_nat (min (PERSIST_INIT * retx_backoff c) PERSIST_MAX)\<rparr>)
      (send_segment i TCP_ACK (peek_tx 0 1 (CONNS s ! i)) s)"

definition retransmit_start :: "TcpConn \<Rightarrow> TcpConn" where
  "retransmit_start c =
    c\<lparr>ssthresh := max (unat (snd_nxt c - snd_una c) div 2) (mss c * 2), cwnd := mss c, snd_nxt := snd_una c, snd_cur := 0\<rparr>"

text \<open>The counters are those of the connection \<open>c\<close> before the probe of the same tick.\<close>

definition retransmit :: "TcpConn \<Rightarrow> nat \<Rightarrow> 'a TcpNet_scheme \<Rightarrow> 'a TcpNet_scheme option" where
  "retransmit c i s =
    (if retx_count c \<ge> RETX_MAX then Some (upd_conn i (drop_conn Closed) s)
     else
       let s = upd_conn i retransmit_start s;
           avail = (case tx (CONNS s ! i) of Some t \<Rightarrow> min (RingBuf_avail t) (mss c) | None \<Rightarrow> 0);
           d = peek_tx 0 avail (CONNS s ! i); bo = min (retx_backoff c * 2) 16 in
       if avail > 1460 then None
       else Some (upd_conn i (\<lambda>x. x\<lparr>snd_nxt := snd_nxt x + of_nat (length d), snd_cur := length d,
                    retx_count := retx_count c + 1, retx_backoff := bo, retx_ticks := TICKS s + RETX_INIT * of_nat bo\<rparr>)
                  (send_segment i (if tc_state c = FinWait1 then TCP_FIN OR TCP_ACK else TCP_ACK) d s)))"

definition tick_data :: "nat \<Rightarrow> 'a TcpNet_scheme \<Rightarrow> 'a TcpNet_scheme option" where
  "tick_data i s =
    (let c = CONNS s ! i; s = (if persist_arm c \<and> TICKS s \<ge> persist_ticks c then persist_probe i s else s) in
     if snd_nxt c \<noteq> snd_una c \<and> TICKS s \<ge> retx_ticks c then retransmit c i s else Some s)"

definition tick_conn :: "nat \<Rightarrow> 'a TcpNet_scheme \<Rightarrow> 'a TcpNet_scheme option" where
  "tick_conn i s =
    (let c = CONNS s ! i; waited = TICKS s - state_tick c in
     case tc_state c of
       SynRcvd \<Rightarrow> Some (if waited \<ge> RETX_INIT * 10 then retry_control (TCP_SYN OR TCP_ACK) i s else s)
     | TimeWait \<Rightarrow> Some (if waited \<ge> TIMEWAIT_TICKS then upd_conn i (drop_conn Free) s else s)
     | Closing \<Rightarrow> Some (if waited \<ge> TIMEWAIT_TICKS then upd_conn i (drop_conn Free) s else s)
     | LastAck \<Rightarrow> Some (if waited \<ge> LASTACK_TIMEOUT then retry_control (TCP_FIN OR TCP_ACK) i s else s)
     | Established \<Rightarrow> tick_data i s
     | FinWait1 \<Rightarrow> tick_data i s
     | FinWait2 \<Rightarrow> tick_data i s
     | _ \<Rightarrow> Some s)"

definition tcp_tick :: "'a TcpNet_scheme \<Rightarrow> 'a TcpNet_scheme option" where
  "tcp_tick s = fold (\<lambda>i r. Option.bind r (tick_conn i)) [0..<MAX_CONNS] (Some s)"

section \<open>Frames\<close>

text \<open>
  The dispatcher of \<^verbatim>\<open>mod.rs\<close>: a datagram goes to the handlers of its port, a packet to the handler of its protocol, a
  frame to the handler of its type.  Slices with their bounds in the wrong order panic.
\<close>

definition run_handler :: "nat \<Rightarrow> u8 list \<Rightarrow> nat \<Rightarrow> UdpHandler \<Rightarrow> 'a TcpNet_scheme \<Rightarrow> 'a TcpNet_scheme" where
  "run_handler src_port d dst_port h s =
    (if h_valid h \<and> h_port h = dst_port
     then (case h_handler h of handle_dhcp_packet_fn \<Rightarrow> handle_dhcp_packet src_port d s | handle_dns_response_fn \<Rightarrow> handle_dns_response d s)
     else s)"

definition handle_udp_dispatch :: "u8 list \<Rightarrow> 'a TcpNet_scheme \<Rightarrow> 'a TcpNet_scheme option" where
  "handle_udp_dispatch p s =
    (if length p < 8 then Some s
     else let e = min (be16 p 4) (length p) in
     if e < 8 then None
     else Some (fold (run_handler (be16 p 0) (sub_bytes 8 (e - 8) p) (be16 p 2)) (HANDLERS s) s))"

definition handle_ipv4 :: "u8 list \<Rightarrow> u8 list \<Rightarrow> 'a TcpNet_scheme \<Rightarrow> 'a TcpNet_scheme option" where
  "handle_ipv4 src_mac p s =
    (if length p < 20 \<or> unat (p ! 0) div 16 \<noteq> 4 then Some s
     else let ihl = unat (p ! 0) mod 16 * 4; total_len = be16 p 2; src_ip = sub_bytes 12 4 p; dst_ip = sub_bytes 16 4 p in
     if length p < ihl \<or> total_len > length p then Some s
     else if dst_ip \<noteq> NET_IP s \<and> dst_ip \<noteq> replicate 4 255 \<and> NET_IP s \<noteq> ZERO4 then Some s
     else let s = arp_learn src_ip src_mac s; d = sub_bytes ihl (total_len - ihl) p in
     if total_len < ihl then None
     else if p ! 9 = 1 then Some (handle_icmp src_mac src_ip d s)
     else if p ! 9 = 6 then tcp_handle_segment (V4 src_ip) d s
     else if p ! 9 = 17 then handle_udp_dispatch d s
     else Some s)"

definition handle_ipv6 :: "u8 list \<Rightarrow> u8 list \<Rightarrow> 'a TcpNet_scheme \<Rightarrow> 'a TcpNet_scheme option" where
  "handle_ipv6 src_mac p s =
    (if length p < 40 \<or> unat (p ! 0) div 16 \<noteq> 6 then Some s
     else let n = be16 p 4; src_ip = sub_bytes 8 16 p; dst_ip = sub_bytes 24 16 p; d = sub_bytes 40 n p in
     if length p < 40 + n then Some s
     else if \<not> (dst_ip = NET_IP6 s \<or> NET_IP6G s \<noteq> ZERO16 \<and> dst_ip = NET_IP6G s \<or> dst_ip ! 0 = 0xFF) then Some s
     else let s = ndp_learn src_ip src_mac s in
     if p ! 6 = 58 then Some (handle_icmpv6 src_mac src_ip dst_ip d s)
     else if p ! 6 = 6 then tcp_handle_segment (V6 src_ip) d s
     else Some s)"

definition handle_frame :: "u8 list \<Rightarrow> 'a TcpNet_scheme \<Rightarrow> 'a TcpNet_scheme option" where
  "handle_frame f s =
    (let dst = take 6 f; typ = be16 f 12; p = drop 14 f; src_mac = sub_bytes 6 6 f in
     if length f < 14 then Some s
     else if \<not> (dst = NET_MAC s \<or> dst = BROADCAST \<or> dst ! 0 = 0x33 \<and> dst ! 1 = 0x33) then Some s
     else if typ = 0x0806 then Some (handle_arp p s)
     else if typ = 0x0800 then handle_ipv4 src_mac p s
     else if typ = 0x86DD then handle_ipv6 src_mac p s
     else Some s)"

text \<open>The frames the card has received at one poll.\<close>

definition poll_rx_only :: "u8 list list \<Rightarrow> 'a TcpNet_scheme \<Rightarrow> 'a TcpNet_scheme option" where
  "poll_rx_only fs s = (if \<not> NET_UP s then Some s else fold (\<lambda>f r. Option.bind r (handle_frame f)) fs (Some s))"

definition net_poll :: "u8 list list \<Rightarrow> 'a TcpNet_scheme \<Rightarrow> 'a TcpNet_scheme option" where
  "net_poll fs s =
    (if \<not> NET_UP s then Some s
     else Option.bind (poll_rx_only fs s) (\<lambda>s.
       map_option ndp_tick (tcp_tick (dhcp_tick (arp_tick s)))))"

end
