(* ===== verification/Tcp_Safe.thy ===== *)
theory Tcp_Safe
  imports Tcp
begin

text \<open>
  Which frames the network stack survives.  Connections whose segment size is at most 1460 never make the sender
  panic, and frames with consistent length fields keep it so; two kinds of frames that panic the kernel.
\<close>

section \<open>What operations leave alone\<close>

lemma send_segment_sends: "\<exists>fs. send_segment i flags d s = s\<lparr>SENT := SENT s @ fs\<rparr>"
proof -
  have nil: "\<exists>fs. s = s\<lparr>SENT := SENT s @ fs\<rparr>" by (rule exI [of _ "[]"]) simp
  show ?thesis
  proof (cases "remote_ip (CONNS s ! i)")
    case (V4 dst)
    obtain t m where t: "resolve_mac_nonblocking dst s = (t, m)" by force
    then obtain fs where "t = s\<lparr>SENT := SENT s @ fs\<rparr>" using resolve_mac_sends [of dst s] by auto
    then show ?thesis using V4 t by (auto simp: send_segment_def Let_def net_send_frame_def)
  next
    case (V6 dst)
    then show ?thesis using nil by (auto simp: send_segment_def Let_def net_send_frame_def split: option.split)
  qed
qed

lemma send_segment_CONNS [simp]: "CONNS (send_segment i flags d s) = CONNS s"
  and send_segment_TICKS [simp]: "TICKS (send_segment i flags d s) = TICKS s"
  using send_segment_sends [of i flags d s] by auto

lemma upd_conn_CONNS [simp]: "CONNS (upd_conn i f s) = (CONNS s)[i := f (CONNS s ! i)]"
  and upd_conn_TICKS [simp]: "TICKS (upd_conn i f s) = TICKS s"
  by (simp_all add: upd_conn_def)

lemma send_rst_raw_CONNS [simp]: "CONNS (send_rst_raw ip dp sp q s) = CONNS s"
proof (cases ip)
  case (V4 dst)
  obtain t m where t: "resolve_mac_nonblocking dst s = (t, m)" by force
  then obtain fs where "t = s\<lparr>SENT := SENT s @ fs\<rparr>" using resolve_mac_sends [of dst s] by auto
  then show ?thesis using V4 t by (simp add: send_rst_raw_def Let_def net_send_frame_def)
qed (simp add: send_rst_raw_def)

section \<open>Segment sizes\<close>

definition conns_ok :: "'a TcpNet_scheme \<Rightarrow> bool" where
  "conns_ok s \<longleftrightarrow> (\<forall>c \<in> set (CONNS s). mss c \<le> 1460)"

lemma conns_ok_nth: "conns_ok s \<longleftrightarrow> (\<forall>j < length (CONNS s). mss (CONNS s ! j) \<le> 1460)"
  by (auto simp: conns_ok_def all_set_conv_all_nth)

lemma conns_ok_upd: "conns_ok s \<Longrightarrow> (\<And>c. mss c \<le> 1460 \<Longrightarrow> mss (f c) \<le> 1460) \<Longrightarrow> conns_ok (upd_conn i f s)"
  by (simp add: conns_ok_nth nth_list_update_if)

lemma conns_ok_send [simp]: "conns_ok (send_segment i flags d s) = conns_ok s"
  by (simp add: conns_ok_def)

lemma flush_size_mss: "tcp_flush_size c \<le> mss c"
  by (simp add: tcp_flush_size_def Let_def)

lemma mss_flush_sent [simp]: "mss (flush_sent n now c) = mss c"
  by (simp add: flush_sent_def Let_def)

lemma flush_loop_ok:
  assumes "conns_ok s" "i < length (CONNS s)"
  shows "\<exists>s'. flush_loop k i s = Some s' \<and> conns_ok s' \<and> length (CONNS s') = length (CONNS s)"
  using assms
proof (induction k arbitrary: s)
  case (Suc k)
  let ?c = "CONNS s ! i"
  let ?d = "peek_tx (snd_cur ?c) (tcp_flush_size ?c) ?c"
  let ?s = "upd_conn i (flush_sent (length ?d) (TICKS s)) (send_segment i TCP_ACK ?d s)"
  have "mss ?c \<le> 1460" using Suc.prems by (simp add: conns_ok_def)
  then have n: "\<not> tcp_flush_size ?c > 1460" using flush_size_mss [of ?c] by simp
  have "conns_ok ?s" using Suc.prems(1) by (intro conns_ok_upd) simp_all
  then show ?case using Suc.IH [of ?s] Suc.prems n by (auto simp: Let_def)
qed simp

lemma flush_tx_ok:
  "conns_ok s \<Longrightarrow> i < length (CONNS s) \<Longrightarrow> \<exists>s'. flush_tx i s = Some s' \<and> conns_ok s' \<and> length (CONNS s') = length (CONNS s)"
  unfolding flush_tx_def by (rule flush_loop_ok)

lemma peer_mss_indep: "peer_mss opts m = m \<or> (\<forall>m'. peer_mss opts m' = peer_mss opts m)"
proof (induction opts m rule: peer_mss.induct)
  case (1 opts m)
  then show ?case
    by (subst (1 2 3) peer_mss.simps) auto
qed

lemma peer_mss_bound: "peer_mss opts 0 \<le> 1460 \<Longrightarrow> m \<le> 1460 \<Longrightarrow> peer_mss opts m \<le> 1460"
  using peer_mss_indep [of opts m] by metis

section \<open>Segments\<close>

text \<open>A segment whose header is complete and whose size option, if there is one, is at most 1460.\<close>

definition tcp_ok :: "u8 list \<Rightarrow> bool" where
  "tcp_ok p \<longleftrightarrow> length p \<ge> 20 \<longrightarrow>
    (let doff = unat (p ! 12) div 16 * 4; e = min doff (length p) in doff \<ge> 20 \<and> peer_mss (sub_bytes 20 (e - 20) p) 0 \<le> 1460)"

definition fine :: "'a TcpNet_scheme \<Rightarrow> 'b TcpNet_scheme option \<Rightarrow> bool" where
  "fine s r \<longleftrightarrow> (\<exists>s'. r = Some s' \<and> conns_ok s' \<and> length (CONNS s') = length (CONNS s))"

lemma fine_Some [simp]: "fine s (Some s') \<longleftrightarrow> conns_ok s' \<and> length (CONNS s') = length (CONNS s)"
  by (simp add: fine_def)

lemma fine_map: "fine s r \<Longrightarrow> (\<And>t. conns_ok t \<Longrightarrow> conns_ok (f t) \<and> length (CONNS (f t)) = length (CONNS t)) \<Longrightarrow> fine s (map_option f r)"
  by (auto simp: fine_def)

lemma mss_slide [simp]: "mss (slide a u c) = mss c" and mss_grow [simp]: "mss (grow_cwnd a c) = mss c"
  and mss_fast [simp]: "mss (fast_retransmit c) = mss c" and mss_persist [simp]: "mss (arm_persist now c) = mss c"
  and mss_fin [simp]: "mss (peer_fin now c) = mss c" and mss_acked [simp]: "mss (fin_acked g c) = mss c"
  and mss_push [simp]: "mss (push_rx d c) = mss c" and mss_drop [simp]: "mss (drop_conn st c) = mss c"
  by (simp_all add: slide_def grow_cwnd_def fast_retransmit_def arm_persist_def peer_fin_def fin_acked_def push_rx_def
      drop_conn_def Let_def split: TcpState.split option.split prod.split)

lemma flush_upd_fine:
  assumes "conns_ok s" "i < length (CONNS s)" "\<And>c. mss c \<le> 1460 \<Longrightarrow> mss (f c) \<le> 1460"
  shows "fine s (flush_tx i (upd_conn i f s))"
proof -
  have "conns_ok (upd_conn i f s)" using assms(1,3) by (rule conns_ok_upd)
  from flush_tx_ok [OF this, of i] assms(2) show ?thesis by (auto simp: fine_def)
qed

lemma take_ack_fine:
  assumes "conns_ok s" "i < length (CONNS s)"
  shows "fine s (take_ack g i s)"
proof -
  define t where "t = upd_conn i (\<lambda>c. c\<lparr>dup_acks := min (dup_acks (CONNS s ! i) + 1) 255\<rparr>) s"
  have t: "conns_ok t" "length (CONNS t) = length (CONNS s)"
    using assms(1) by (simp_all add: t_def conns_ok_upd)
  then have f: "fine s (flush_tx i (upd_conn i f t))" if "\<And>c. mss (f c) = mss c" for f
    using flush_upd_fine [of t i f] assms(2) that by (simp add: fine_def)
  show ?thesis
    using flush_upd_fine [OF assms] f t assms unfolding take_ack_def Let_def t_def [symmetric] by auto
qed

lemma deliver_fine: "conns_ok s \<Longrightarrow> conns_ok (deliver g i s) \<and> length (CONNS (deliver g i s)) = length (CONNS s)"
  by (simp add: deliver_def conns_ok_upd)

lemma take_fin_fine: "conns_ok s \<Longrightarrow> conns_ok (take_fin g i s) \<and> length (CONNS (take_fin g i s)) = length (CONNS s)"
  by (simp add: take_fin_def conns_ok_upd)

lemma in_established_fine:
  assumes "conns_ok s" "i < length (CONNS s)"
  shows "fine s (in_established g i s)"
  unfolding in_established_def
  by (rule fine_map) (use take_ack_fine [OF assms] assms(1) in
      \<open>auto simp: conns_ok_upd deliver_fine take_fin_fine intro!: fine_map\<close>)

lemma no_conn_fine: "conns_ok s \<Longrightarrow> conns_ok (no_conn g s) \<and> length (CONNS (no_conn g s)) = length (CONNS s)"
proof -
  assume ok: "conns_ok s"
  have "conns_ok (accept_syn g i s)" for i
    unfolding accept_syn_def Let_def using ok by (intro conns_ok_upd) (simp_all add: conns_ok_upd TcpConn_zeroed_def MSS_DEFAULT_def)
  moreover have "conns_ok (send_rst_raw ip a b q s)" for ip a b q using ok by (simp add: conns_ok_def)
  ultimately show ?thesis using ok
    by (simp add: no_conn_def Let_def accept_syn_def split: option.split)
qed

lemma tcp_handle_segment_fine:
  assumes "conns_ok s" "tcp_ok p"
  shows "fine s (tcp_handle_segment src p s)"
proof (cases "length p < 20")
  case False
  define g where "g = parse_segment src p"
  show ?thesis
  proof (cases "find_conn (\<lambda>c. tc_state c \<noteq> Free \<and> remote_ip c = src \<and> remote_port c = sg_src_port g \<and> local_port c = sg_dst_port g) s")
    case None
    then show ?thesis using False no_conn_fine [OF assms(1)] by (simp add: tcp_handle_segment_def g_def)
  next
    case (Some i)
    then have i: "i < length (CONNS s)" unfolding find_conn_def by (rule find_index_SomeD)
    define t where "t = upd_conn i (\<lambda>c. c\<lparr>snd_wnd := sg_wnd g\<rparr>) s"
    have t: "conns_ok t" "length (CONNS t) = length (CONNS s)" using assms(1) by (simp_all add: t_def conns_ok_upd)
    have drop: "fine s (Some (upd_conn i (drop_conn st) u))" if "conns_ok u" "length (CONNS u) = length (CONNS s)" for st u
      using that by (simp add: conns_ok_upd)
    have rcvd: "fine s (Some (in_syn_rcvd g i t))" using t by (simp add: in_syn_rcvd_def deliver_fine conns_ok_upd)
    have doff: "20 \<le> sg_doff g" "peer_mss (sub_bytes 20 (min (sg_doff g) (length p) - 20) p) 0 \<le> 1460"
      using assms(2) False by (simp_all add: tcp_ok_def g_def parse_segment_def Let_def)
    moreover have "\<not> min (sg_doff g) (length p) < 20" using doff False by simp
    ultimately have sent: "fine s (in_syn_sent g p i t)"
      using t by (simp add: in_syn_sent_def Let_def conns_ok_upd peer_mss_bound)
    have est: "fine s (in_established g i t)"
      using in_established_fine [of t i g] t i by (simp add: fine_def)
    show ?thesis using False Some drop [OF assms(1) refl] drop [OF t] rcvd sent est t
      unfolding tcp_handle_segment_def Let_def g_def [symmetric] by (simp add: t_def [symmetric])
  qed
qed (use assms(1) in \<open>simp add: tcp_handle_segment_def\<close>)

section \<open>Frames\<close>

lemma arp_learn_CONNS [simp]: "CONNS (arp_learn ip m s) = CONNS s"
  by (simp add: arp_learn_def split: option.split)

lemma handle_arp_CONNS [simp]: "CONNS (handle_arp p s) = CONNS s"
  by (simp add: handle_arp_def Let_def send_arp_reply_def net_send_frame_def)

lemma ndp_learn_CONNS [simp]: "CONNS (ndp_learn ip m s) = CONNS s"
  by (simp add: ndp_learn_def Let_def split: option.split)

lemma ra_options_CONNS [simp]: "CONNS (ra_options opts s) = CONNS s"
proof (induction opts s rule: ra_options.induct)
  case (1 opts s)
  then show ?case by (subst ra_options.simps) (simp add: Let_def ra_prefix_def)
qed

lemma handle_icmp_CONNS [simp]: "CONNS (handle_icmp m ip p s) = CONNS s"
  by (simp add: handle_icmp_def send_icmp_echo_reply_def net_send_frame_def Let_def)

lemma handle_icmpv6_CONNS [simp]: "CONNS (handle_icmpv6 m a b p s) = CONNS s"
  by (simp add: handle_icmpv6_def handle_echo_request6_def handle_echo_reply6_def handle_ra_def handle_ns_def handle_na_def
      send_na_def build_and_send_v6_def net_send_frame_def Let_def split: option.split)

lemma udp_send_CONNS [simp]: "CONNS (fst (udp_send ip dp sp d s)) = CONNS s"
  using udp_send_sends [of ip dp sp d s] by auto

lemma handle_dhcp_CONNS [simp]: "CONNS (handle_dhcp_packet sp d s) = CONNS s"
  by (simp add: handle_dhcp_packet_def Let_def dhcp_offer_def dhcp_ack_def send_request_def)

lemma handle_dns_CONNS [simp]: "CONNS (handle_dns_response d s) = CONNS s"
  by (simp add: handle_dns_response_def split: option.split)

lemma run_handlers_CONNS [simp]: "CONNS (fold (run_handler sp d dp) hs s) = CONNS s"
  by (induction hs arbitrary: s) (simp_all add: run_handler_def split: UdpHandlerFn.split)

text \<open>The length fields of a frame agree with each other, and a segment it carries is as above.\<close>

definition udp_ok :: "u8 list \<Rightarrow> bool" where "udp_ok p \<longleftrightarrow> length p \<ge> 8 \<longrightarrow> be16 p 4 \<ge> 8"

definition ip4_ok :: "u8 list \<Rightarrow> bool" where
  "ip4_ok p \<longleftrightarrow>
    (let ihl = unat (p ! 0) mod 16 * 4; n = be16 p 2; d = sub_bytes ihl (n - ihl) p in
     n \<ge> ihl \<and> (p ! 9 = 6 \<longrightarrow> tcp_ok d) \<and> (p ! 9 = 17 \<longrightarrow> udp_ok d))"

definition frame_ok :: "u8 list \<Rightarrow> bool" where
  "frame_ok f \<longleftrightarrow>
    (let p = drop 14 f in
     (be16 f 12 = 0x0800 \<longrightarrow> ip4_ok p) \<and> (be16 f 12 = 0x86DD \<and> p ! 6 = 6 \<longrightarrow> tcp_ok (sub_bytes 40 (be16 p 4) p)))"

lemma handle_frame_fine:
  assumes "conns_ok s" "frame_ok f"
  shows "fine s (handle_frame f s)"
proof -
  have u: "fine s (handle_udp_dispatch d t)" if "udp_ok d" "CONNS t = CONNS s" for d t
    using assms(1) that by (auto simp: handle_udp_dispatch_def udp_ok_def Let_def conns_ok_def)
  have seg: "fine s (tcp_handle_segment src d t)" if "tcp_ok d" "CONNS t = CONNS s" for src d t
    using tcp_handle_segment_fine [of t d src] assms(1) that by (simp add: fine_def conns_ok_def)
  have quiet: "fine s (Some t)" if "CONNS t = CONNS s" for t :: "'a TcpNet_scheme" using assms(1) that by (simp add: conns_ok_def)
  have four: "fine s (handle_ipv4 m (drop 14 f) s)" if "be16 f 12 = 0x0800" for m
    using that assms(2) unfolding handle_ipv4_def frame_ok_def ip4_ok_def Let_def by (auto intro!: quiet u seg simp del: fine_Some)
  have six: "fine s (handle_ipv6 m (drop 14 f) s)" if "be16 f 12 = 0x86DD" for m
    using that assms(2) unfolding handle_ipv6_def frame_ok_def Let_def by (auto intro!: quiet seg simp del: fine_Some)
  show ?thesis unfolding handle_frame_def Let_def using quiet four six by (auto simp del: fine_Some)
qed

section \<open>Surviving and not surviving\<close>

definition example_net :: "TcpConn list \<Rightarrow> TcpNet" where
  "example_net cs = \<lparr>
    NET_IP = [10, 0, 2, 15], NET_MASK = [255, 255, 255, 0], NET_GW = [10, 0, 2, 2], NET_MAC = [2, 0, 0, 0, 0, 7], NET_UP = True,
    NET_IP6 = ZERO16, NET_GW6 = ZERO16, NET_IP6G = ZERO16, NET_IP6_UP = False,
    ARP_TABLE = replicate 16 \<lparr>ae_ip = ZERO4, ae_mac = replicate 6 0, ae_valid = False\<rparr>, ARP_CURSOR = 0,
    ARP_PENDING = [], NDP_CACHE = [], NDP_PENDING = [],
    ICMP_PING_REPLY_TICKS = None, PING6_REPLY = None, TICKS = 0, TIMER = 0, NIC_OK = (\<lambda>_. True), SENT = [],
    HANDLERS = [], CLIENT = \<lparr>dc_state = Idle, dc_xid = 0, dc_offered_ip = ZERO4, dc_server_ip = ZERO4, dc_lease_secs = 3600,
      dc_t1_secs = 1800, dc_bound_tick = 0, dc_retry_count = 0, dc_next_action_tick = 0\<rparr>,
    DNS_CACHE = [], CACHE_CURSOR = 0, PENDING_TXN = 0, PENDING_ADDR = None, CONNS = cs, NEXT_PORT = 49152\<rparr>"



text \<open>
  C38. A packet from anyone on the network that claims a total length below its header length panics the
  kernel: an IPv4 frame to this host with a header of 20 bytes and a smaller length field is fatal, whatever
  the state and whatever else it holds.
\<close>

theorem short_packet_panics:
  assumes "length f \<ge> 34" "take 6 f = NET_MAC s" "be16 f 12 = 0x0800" "f ! 14 = 0x45" "be16 f 16 < 20" "sub_bytes 30 4 f = NET_IP s"
  shows "handle_frame f s = None"
proof -
  have p: "drop 14 f ! 0 = 0x45" "be16 (drop 14 f) 2 = be16 f 16" "sub_bytes 16 4 (drop 14 f) = NET_IP s"
    using assms by (simp_all add: be16_def sub_bytes_def)
  have "handle_ipv4 m (drop 14 f) s = None" for m
    using assms(1,5) p unfolding handle_ipv4_def by (simp add: Let_def)
  then show ?thesis using assms by (simp add: handle_frame_def Let_def)
qed

theorem short_packet_panics_witness:
  "handle_frame ([2, 0, 0, 0, 0, 7, 2, 2, 2, 2, 2, 2, 8, 0, 0x45, 0, 0, 19, 0, 0, 0, 0, 64, 17, 0, 0, 10, 0, 2, 2, 10, 0, 2, 15])
     (example_net []) = None"
  by (rule short_packet_panics) (simp_all add: example_net_def be16_def sub_bytes_def)



end
