(* ===== verification/Tcp_Receive.thy ===== *)
theory Tcp_Receive
  imports Tcp_Safe "HOL-Library.Sublist"
begin

text \<open>
  The receiving direction of a TCP connection.  Whatever the order, loss, duplication and overlap of the segments of a
  peer that sends the bytes of one stream, and whatever happens on other connections, what a program reads is
  a prefix of that stream.
\<close>

section \<open>The part of a connection that receiving depends on\<close>

definition rview :: "TcpConn \<Rightarrow> RingBuf option \<times> u32 \<times> TcpState \<times> IpAddr \<times> nat \<times> nat" where
  "rview c = (rx c, rcv_nxt c, tc_state c, remote_ip c, remote_port c, local_port c)"

definition same_view :: "'a TcpNet_scheme \<Rightarrow> 'b TcpNet_scheme \<Rightarrow> bool" where
  "same_view s t \<longleftrightarrow> length (CONNS t) = length (CONNS s) \<and> (\<forall>j < length (CONNS s). rview (CONNS t ! j) = rview (CONNS s ! j))"

lemma same_view_refl [simp]: "same_view s s"
  by (simp add: same_view_def)

lemma same_view_trans: "same_view s t \<Longrightarrow> same_view t u \<Longrightarrow> same_view s u"
  by (simp add: same_view_def)

lemma same_view_upd: "(\<And>c. rview (f c) = rview c) \<Longrightarrow> same_view s (upd_conn i f s)"
  by (simp add: same_view_def nth_list_update_if)

lemma same_view_send [simp]: "same_view s (send_segment i flags d t) \<longleftrightarrow> same_view s t"
  by (simp add: same_view_def)

lemma rview_simps [simp]:
  "rview (flush_sent n now c) = rview c" "rview (slide a u c) = rview c" "rview (grow_cwnd a c) = rview c"
  "rview (fast_retransmit c) = rview c" "rview (arm_persist now c) = rview c" "rview (c\<lparr>dup_acks := k\<rparr>) = rview c"
  "rview (c\<lparr>cwnd := w\<rparr>) = rview c" "rview (c\<lparr>snd_wnd := w\<rparr>) = rview c"
  by (simp_all add: rview_def flush_sent_def slide_def grow_cwnd_def fast_retransmit_def arm_persist_def Let_def)

lemma flush_loop_view: "flush_loop k i s = Some s' \<Longrightarrow> same_view s s'"
proof (induction k arbitrary: s)
  case (Suc k)
  let ?c = "CONNS s ! i"
  let ?d = "peek_tx (snd_cur ?c) (tcp_flush_size ?c) ?c"
  let ?t = "upd_conn i (flush_sent (length ?d) (TICKS s)) (send_segment i TCP_ACK ?d s)"
  have "same_view s ?t" using same_view_upd [of "flush_sent (length ?d) (TICKS s)" "send_segment i TCP_ACK ?d s" i]
    by (simp add: same_view_def)
  then show ?case using Suc.IH [of ?t] Suc.prems same_view_trans [of s ?t s']
    by (simp add: Let_def split: if_splits)
qed simp

lemma flush_tx_view: "flush_tx i (upd_conn i f s) = Some s' \<Longrightarrow> (\<And>c. rview (f c) = rview c) \<Longrightarrow> same_view s s'"
  unfolding flush_tx_def by (meson flush_loop_view same_view_trans same_view_upd)

lemma take_ack_view: "take_ack g i s = Some s' \<Longrightarrow> same_view s s'"
proof -
  let ?t = "upd_conn i (\<lambda>c. c\<lparr>dup_acks := min (dup_acks (CONNS s ! i) + 1) 255\<rparr>) s"
  have t: "same_view s ?t" by (rule same_view_upd) simp
  have f: "same_view s s'" if "flush_tx i (upd_conn i f ?t) = Some s'" "\<And>c. rview (f c) = rview c" for f
    by (rule same_view_trans [OF t flush_tx_view [OF that]])
  assume "take_ack g i s = Some s'"
  then show ?thesis
    using f [of fast_retransmit] f [of "\<lambda>c. c\<lparr>cwnd := sat32 (cwnd c + mss c)\<rparr>"] t
      flush_tx_view [of i "slide (unat (sg_ack g - snd_una (CONNS s ! i))) (sg_ack g) \<circ> grow_cwnd (unat (sg_ack g - snd_una (CONNS s ! i)))" s s']
    unfolding take_ack_def Let_def by (auto split: if_splits)
qed

text \<open>An established connection first takes the acknowledgement, which does not touch the view, then the data and the end.\<close>

lemma in_established_view:
  assumes "in_established g i s = Some s'"
  obtains t where "same_view s t" "s' = upd_conn i (fin_acked g) (take_fin g i (deliver g i t))"
proof -
  have "\<exists>t. same_view s t \<and> s' = upd_conn i (fin_acked g) (take_fin g i (deliver g i t))"
  proof (cases "has_flag (sg_flags g) TCP_ACK")
    case True
    then obtain u where u: "take_ack g i s = Some u"
      "s' = upd_conn i (fin_acked g) (take_fin g i (deliver g i (upd_conn i (arm_persist (TICKS u)) u)))"
      using assms by (auto simp: in_established_def)
    have "same_view s (upd_conn i (arm_persist (TICKS u)) u)"
      by (rule same_view_trans [OF take_ack_view [OF u(1)] same_view_upd]) simp
    with u(2) show ?thesis by blast
  next
    case False
    then have "s' = upd_conn i (fin_acked g) (take_fin g i (deliver g i s))" using assms by (simp add: in_established_def)
    then show ?thesis using same_view_refl by blast
  qed
  then show ?thesis using that by blast
qed

section \<open>The invariant\<close>

text \<open>
  The peer sends the stream \<open>R\<close>, whose first byte has the sequence number \<open>base\<close>; \<open>del\<close> is what was read so far.
\<close>

definition rcv_inv :: "u8 list \<Rightarrow> u32 \<Rightarrow> u8 list \<Rightarrow> TcpConn \<Rightarrow> bool" where
  "rcv_inv R base del c \<longleftrightarrow> tc_state c \<in> {Established, CloseWait, Closed} \<and>
    (case rx c of
       None \<Rightarrow> tc_state c \<noteq> Established \<and> prefix del R
     | Some r \<Rightarrow> ring_wf r \<and> prefix (del @ ring_bytes r) R \<and>
         (tc_state c = Established \<longrightarrow> rcv_nxt c = base + of_nat (length del + rb_len r)))"

definition honest_segment :: "u8 list \<Rightarrow> u32 \<Rightarrow> Segment \<Rightarrow> bool" where
  "honest_segment R base g \<longleftrightarrow>
    (\<exists>q \<le> length R. sg_seq g = base + of_nat q \<and> prefix (sg_data g) (drop q R))"

lemma rcv_inv_view: "rview c = rview c' \<Longrightarrow> rcv_inv R base del c \<longleftrightarrow> rcv_inv R base del c'"
  by (cases "rx c'") (simp_all add: rcv_inv_def rview_def)

lemma of_nat_u32_inj:
  assumes "a < 2 ^ 32" "b < 2 ^ 32" "(of_nat a :: u32) = of_nat b"
  shows "a = b"
proof -
  have "(2 :: nat) ^ LENGTH(32) = 2 ^ 32" by simp
  then have "unat (of_nat a :: u32) = a" "unat (of_nat b :: u32) = b"
    using unat_of_nat_small [of a, where 'a = 32] unat_of_nat_small [of b, where 'a = 32] assms(1,2) by metis+
  then show ?thesis using assms(3) by metis
qed

lemma push_rx_inv:
  assumes "rcv_inv R base del c" "honest_segment R base g" "sg_seq g = rcv_nxt c" "length R < 2 ^ 32" "tc_state c = Established"
  shows "rcv_inv R base del (push_rx (sg_data g) c)"
proof -
  obtain r where r: "rx c = Some r" "ring_wf r" "prefix (del @ ring_bytes r) R" "rcv_nxt c = base + of_nat (length del + rb_len r)"
    using assms(1,5) by (auto simp: rcv_inv_def split: option.splits)
  obtain q where q: "q \<le> length R" "sg_seq g = base + of_nat q" "prefix (sg_data g) (drop q R)"
    using assms(2) by (auto simp: honest_segment_def)
  have n: "length del + rb_len r \<le> length R" using prefix_length_le [OF r(3)] by simp
  have "(of_nat q :: u32) = of_nat (length del + rb_len r)" using assms(3) q(2) r(4) by simp
  then have "q = length del + rb_len r" using of_nat_u32_inj [of q "length del + rb_len r"] q(1) n assms(4) by linarith
  moreover obtain z where z: "R = (del @ ring_bytes r) @ z" using r(3) by (auto elim: prefixE)
  ultimately have "prefix (sg_data g) z" using q(3) by simp
  moreover obtain r' k where p: "RingBuf_push (sg_data g) r = (r', k)" by force
  ultimately have "prefix (del @ ring_bytes r @ take k (sg_data g)) R"
    using z by (auto intro: prefix_order.trans [OF take_is_prefix])
  moreover have len: "rb_len r' = rb_len r + k"
    using ring_push [OF r(2) p] length_ring_bytes [of r'] by simp
  ultimately show ?thesis
    using ring_push [OF r(2) p] r assms(1,5) p by (simp add: push_rx_def rcv_inv_def algebra_simps)
qed

lemma deliver_inv:
  assumes "rcv_inv R base del (CONNS s ! i)" "i < length (CONNS s)" "tc_state (CONNS s ! i) = Established"
    "honest_segment R base g" "length R < 2 ^ 32"
  shows "rcv_inv R base del (CONNS (deliver g i s) ! i)" "tc_state (CONNS (deliver g i s) ! i) = Established"
  using assms push_rx_inv [OF assms(1,4)]
  by (auto simp: deliver_def push_rx_def split: option.split prod.split)

lemma finish_inv:
  assumes "rcv_inv R base del (CONNS s ! i)" "i < length (CONNS s)" "tc_state (CONNS s ! i) = Established"
  shows "rcv_inv R base del (CONNS (upd_conn i (fin_acked g) (take_fin g i s)) ! i)"
  using assms by (auto simp: take_fin_def peer_fin_def fin_acked_def rcv_inv_def split: option.splits)

lemma in_established_inv:
  assumes "in_established g i s = Some s'" "rcv_inv R base del (CONNS s ! i)" "i < length (CONNS s)"
    "tc_state (CONNS s ! i) = Established" "honest_segment R base g" "length R < 2 ^ 32"
  shows "rcv_inv R base del (CONNS s' ! i)"
proof -
  obtain t where t: "same_view s t" "s' = upd_conn i (fin_acked g) (take_fin g i (deliver g i t))"
    using in_established_view [OF assms(1)] .
  then have v: "rview (CONNS t ! i) = rview (CONNS s ! i)" "i < length (CONNS t)" using assms(3) by (simp_all add: same_view_def)
  then have "rcv_inv R base del (CONNS t ! i)" "tc_state (CONNS t ! i) = Established"
    using assms(2,4) rcv_inv_view [OF v(1)] by (simp_all add: rview_def)
  note d = deliver_inv [OF this(1) v(2) this(2) assms(5,6)]
  have "i < length (CONNS (deliver g i t))" using v(2) by (simp add: deliver_def)
  from finish_inv [OF d(1) this d(2)] show ?thesis by (simp add: t(2))
qed

section \<open>Segments for this and for other connections\<close>

definition from_peer :: "TcpConn \<Rightarrow> IpAddr \<Rightarrow> u8 list \<Rightarrow> bool" where
  "from_peer c src p \<longleftrightarrow>
    (let g = parse_segment src p in remote_ip c = src \<and> remote_port c = sg_src_port g \<and> local_port c = sg_dst_port g)"

abbreviation lookup_conn :: "IpAddr \<Rightarrow> u8 list \<Rightarrow> 'a TcpNet_scheme \<Rightarrow> nat option" where
  "lookup_conn src p s \<equiv> find_conn (\<lambda>c. tc_state c \<noteq> Free \<and> remote_ip c = src \<and>
     remote_port c = sg_src_port (parse_segment src p) \<and> local_port c = sg_dst_port (parse_segment src p)) s"

lemma lookup_conn_SomeD: "lookup_conn src p s = Some i \<Longrightarrow> i < length (CONNS s) \<and> from_peer (CONNS s ! i) src p"
  unfolding find_conn_def by (auto simp: find_index_Some_iff from_peer_def Let_def)

lemma in_established_other:
  assumes "in_established g j s = Some s'" "i \<noteq> j" "i < length (CONNS s)"
  shows "rview (CONNS s' ! i) = rview (CONNS s ! i)"
proof -
  obtain t where t: "same_view s t" "s' = upd_conn j (fin_acked g) (take_fin g j (deliver g j t))"
    using in_established_view [OF assms(1)] .
  have "CONNS s' ! i = CONNS t ! i" using assms(2) by (simp add: t(2) take_fin_def deliver_def)
  then show ?thesis using t(1) assms(3) by (simp add: same_view_def)
qed

lemma no_conn_other:
  assumes "tc_state (CONNS s ! i) \<noteq> Free"
  shows "CONNS (no_conn g s) ! i = CONNS s ! i"
proof -
  have "j \<noteq> i" if "find_conn (\<lambda>c. tc_state c = Free) s = Some j" for j
    using assms that unfolding find_conn_def by (auto dest: find_index_SomeD(2))
  then show ?thesis by (simp add: no_conn_def Let_def accept_syn_def split: option.split)
qed

lemma handle_other:
  assumes "tcp_handle_segment src p s = Some s'" "lookup_conn src p s \<noteq> Some i" "i < length (CONNS s)" "tc_state (CONNS s ! i) \<noteq> Free"
  shows "rview (CONNS s' ! i) = rview (CONNS s ! i)"
proof (cases "length p < 20 \<or> lookup_conn src p s = None")
  case True
  then show ?thesis using assms(1) no_conn_other [OF assms(4)] unfolding tcp_handle_segment_def Let_def
    by (cases "length p < 20") auto
next
  case False
  then obtain j where j: "lookup_conn src p s = Some j" "\<not> length p < 20" by auto
  then have ij: "i \<noteq> j" using assms(2) by auto
  let ?g = "parse_segment src p"
  let ?t = "upd_conn j (\<lambda>c. c\<lparr>snd_wnd := sg_wnd ?g\<rparr>) s"
  have "rview (CONNS s' ! i) = rview (CONNS ?t ! i)" if "in_established ?g j ?t = Some s'"
    by (rule in_established_other [OF that ij]) (simp add: assms(3))
  then show ?thesis using assms(1) j ij unfolding tcp_handle_segment_def Let_def
    by (auto simp: in_syn_rcvd_def in_syn_sent_def deliver_def Let_def split: if_splits)
qed

lemma handle_own:
  assumes "tcp_handle_segment src p s = Some s'" "lookup_conn src p s = Some i" "rcv_inv R base del (CONNS s ! i)"
    "honest_segment R base (parse_segment src p)" "length R < 2 ^ 32"
  shows "rcv_inv R base del (CONNS s' ! i)"
proof (cases "length p < 20")
  case False
  let ?g = "parse_segment src p"
  let ?t = "upd_conn i (\<lambda>c. c\<lparr>snd_wnd := sg_wnd ?g\<rparr>) s"
  have i: "i < length (CONNS s)" using lookup_conn_SomeD [OF assms(2)] by simp
  then have t: "rview (CONNS ?t ! i) = rview (CONNS s ! i)" by simp
  then have inv: "rcv_inv R base del (CONNS ?t ! i)" using assms(3) rcv_inv_view by blast
  have reset: "rcv_inv R base del (drop_conn Closed (CONNS s ! i))"
    using assms(3) append_prefixD by (fastforce simp: rcv_inv_def drop_conn_def split: option.splits)
  have st: "tc_state (CONNS s ! i) \<in> {Established, CloseWait, Closed}" using assms(3) by (simp add: rcv_inv_def)
  have est: "rcv_inv R base del (CONNS s' ! i)" if "in_established ?g i ?t = Some s'" "tc_state (CONNS s ! i) = Established"
    using in_established_inv [OF that(1) inv _ _ assms(4,5)] i that(2) by simp
  show ?thesis using assms(1,2) False i inv reset est st
    unfolding tcp_handle_segment_def Let_def by (auto split: if_splits)
qed (use assms in \<open>simp add: tcp_handle_segment_def\<close>)

definition ports :: "TcpConn \<Rightarrow> IpAddr \<times> nat \<times> nat" where "ports c = (remote_ip c, remote_port c, local_port c)"

lemma ports_view: "rview c = rview c' \<Longrightarrow> ports c = ports c'"
  by (simp add: rview_def ports_def)

lemma ports_simps [simp]:
  "ports (push_rx d c) = ports c" "ports (peer_fin now c) = ports c" "ports (fin_acked g c) = ports c" "ports (drop_conn st c) = ports c"
  "ports (c\<lparr>rcv_nxt := n\<rparr>) = ports c" "ports (c\<lparr>snd_wnd := w\<rparr>) = ports c" "ports (c\<lparr>rx := r\<rparr>) = ports c"
  by (simp_all add: ports_def push_rx_def peer_fin_def fin_acked_def drop_conn_def split: option.split prod.split TcpState.split)

lemma in_established_ports:
  assumes "in_established g i s = Some s'" "i < length (CONNS s)"
  shows "ports (CONNS s' ! i) = ports (CONNS s ! i)"
proof -
  obtain t where t: "same_view s t" "s' = upd_conn i (fin_acked g) (take_fin g i (deliver g i t))"
    using in_established_view [OF assms(1)] .
  then have v: "i < length (CONNS t)" "rview (CONNS t ! i) = rview (CONNS s ! i)"
    using assms(2) by (simp_all add: same_view_def)
  with ports_view [OF v(2)] show ?thesis by (simp add: t(2) take_fin_def deliver_def)
qed

lemma handle_own_ports:
  assumes "tcp_handle_segment src p s = Some s'" "lookup_conn src p s = Some i" "rcv_inv R base del (CONNS s ! i)"
  shows "ports (CONNS s' ! i) = ports (CONNS s ! i)"
proof (cases "length p < 20")
  case False
  let ?t = "upd_conn i (\<lambda>c. c\<lparr>snd_wnd := sg_wnd (parse_segment src p)\<rparr>) s"
  have i: "i < length (CONNS s)" using lookup_conn_SomeD [OF assms(2)] by simp
  have "ports (CONNS s' ! i) = ports (CONNS ?t ! i)" if "in_established (parse_segment src p) i ?t = Some s'"
    using in_established_ports [OF that] i by simp
  then have est: "ports (CONNS s' ! i) = ports (CONNS s ! i)" if "in_established (parse_segment src p) i ?t = Some s'"
    using that i by simp
  have "tc_state (CONNS s ! i) \<in> {Established, CloseWait, Closed}" using assms(3) by (simp add: rcv_inv_def)
  then consider "tc_state (CONNS s ! i) = Established" | "tc_state (CONNS s ! i) = CloseWait" | "tc_state (CONNS s ! i) = Closed"
    by blast
  then show ?thesis using assms(1,2) False i est unfolding tcp_handle_segment_def Let_def
    by cases (simp_all split: if_splits, auto)
qed (use assms in \<open>simp add: tcp_handle_segment_def\<close>)

section \<open>The stream\<close>

datatype RcvEvent = Seg IpAddr "u8 list" | Read nat

fun rcv_run :: "nat \<Rightarrow> RcvEvent list \<Rightarrow> 'a TcpNet_scheme \<Rightarrow> ('a TcpNet_scheme \<times> u8 list) option" where
  "rcv_run i [] s = Some (s, [])"
| "rcv_run i (Seg src p # es) s = Option.bind (tcp_handle_segment src p s) (rcv_run i es)"
| "rcv_run i (Read n # es) s =
    (let (s', d) = tcp_read i n s in map_option (\<lambda>(t, ds). (t, d @ ds)) (rcv_run i es s'))"

definition honest_event :: "u8 list \<Rightarrow> u32 \<Rightarrow> TcpConn \<Rightarrow> RcvEvent \<Rightarrow> bool" where
  "honest_event R base c e \<longleftrightarrow>
    (case e of Seg src p \<Rightarrow> tcp_ok p \<and> (from_peer c src p \<longrightarrow> honest_segment R base (parse_segment src p)) | Read n \<Rightarrow> True)"

lemma honest_event_ports: "ports c = ports c' \<Longrightarrow> honest_event R base c e = honest_event R base c' e"
  by (simp add: honest_event_def from_peer_def ports_def Let_def split: RcvEvent.split)

lemma read_inv:
  assumes "rcv_inv R base del (CONNS s ! i)" "i < length (CONNS s)" "tcp_read i n s = (s', d)"
  shows "rcv_inv R base (del @ d) (CONNS s' ! i)" "ports (CONNS s' ! i) = ports (CONNS s ! i)"
    "length (CONNS s') = length (CONNS s)" "conns_ok s \<Longrightarrow> conns_ok s'"
proof -
  have "rcv_inv R base (del @ d) (CONNS s' ! i) \<and> ports (CONNS s' ! i) = ports (CONNS s ! i) \<and>
    length (CONNS s') = length (CONNS s) \<and> (conns_ok s \<longrightarrow> conns_ok s')"
  proof (cases "i \<ge> MAX_CONNS \<or> rx (CONNS s ! i) = None")
    case True
    then show ?thesis using assms by (auto simp: tcp_read_def split: option.splits)
  next
    case False
    then obtain r where r: "rx (CONNS s ! i) = Some r" by auto
    obtain r' out where p: "RingBuf_pop n r = (r', out)" by force
    have wf: "ring_wf r" using assms(1) r by (simp add: rcv_inv_def)
    note pop = ring_pop [OF wf p]
    have d: "d = out" "s' = upd_conn i (\<lambda>c. c\<lparr>rx := Some r'\<rparr>) s" using assms(3) False r p by (auto simp: tcp_read_def)
    have out: "out @ ring_bytes r' = ring_bytes r" using pop by simp
    then have "length out + rb_len r' = rb_len r" by (metis length_append length_ring_bytes)
    with out show ?thesis using assms(1,2) r pop(1)
      by (simp add: d rcv_inv_def conns_ok_upd add.assoc)
  qed
  then show "rcv_inv R base (del @ d) (CONNS s' ! i)" "ports (CONNS s' ! i) = ports (CONNS s ! i)"
    "length (CONNS s') = length (CONNS s)" "conns_ok s \<Longrightarrow> conns_ok s'" by simp_all
qed

lemma handle_step:
  assumes "rcv_inv R base del (CONNS s ! i)" "i < length (CONNS s)" "conns_ok s" "length R < 2 ^ 32"
    "honest_event R base (CONNS s ! i) (Seg src p)"
  shows "\<exists>s'. tcp_handle_segment src p s = Some s' \<and> rcv_inv R base del (CONNS s' ! i) \<and> conns_ok s' \<and>
    length (CONNS s') = length (CONNS s) \<and> ports (CONNS s' ! i) = ports (CONNS s ! i)"
proof -
  have "tcp_ok p" and hon: "from_peer (CONNS s ! i) src p \<Longrightarrow> honest_segment R base (parse_segment src p)"
    using assms(5) by (simp_all add: honest_event_def)
  then obtain s' where s': "tcp_handle_segment src p s = Some s'" "conns_ok s'" "length (CONNS s') = length (CONNS s)"
    using tcp_handle_segment_fine [OF assms(3), of p src] by (auto simp: fine_def)
  have "rcv_inv R base del (CONNS s' ! i) \<and> ports (CONNS s' ! i) = ports (CONNS s ! i)"
  proof (cases "lookup_conn src p s = Some i")
    case True
    then have "honest_segment R base (parse_segment src p)" using hon lookup_conn_SomeD by blast
    then show ?thesis using handle_own [OF s'(1) True assms(1) _ assms(4)] handle_own_ports [OF s'(1) True assms(1)] by simp
  next
    case False
    have "tc_state (CONNS s ! i) \<noteq> Free" using assms(1) by (auto simp: rcv_inv_def)
    note v = handle_other [OF s'(1) False assms(2) this]
    show ?thesis using rcv_inv_view [OF v] ports_view [OF v] assms(1) by simp
  qed
  with s' show ?thesis by blast
qed

lemma rcv_run_inv:
  assumes "rcv_inv R base del (CONNS s ! i)" "i < length (CONNS s)" "conns_ok s" "length R < 2 ^ 32"
    "\<forall>e \<in> set es. honest_event R base (CONNS s ! i) e"
  shows "\<exists>s' d. rcv_run i es s = Some (s', d) \<and> rcv_inv R base (del @ d) (CONNS s' ! i)"
  using assms
proof (induction es arbitrary: s del)
  case (Cons e es)
  show ?case
  proof (cases e)
    case (Seg src p)
    then obtain t where t: "tcp_handle_segment src p s = Some t" "rcv_inv R base del (CONNS t ! i)" "conns_ok t"
      "length (CONNS t) = length (CONNS s)" "ports (CONNS t ! i) = ports (CONNS s ! i)"
      using handle_step [OF Cons.prems(1-4), of src p] Cons.prems(5) by auto
    then show ?thesis using Cons.IH [OF t(2) _ t(3) Cons.prems(4)] Cons.prems(2,5) honest_event_ports [OF t(5)] by (simp add: Seg)
  next
    case (Read n)
    obtain t d where r: "tcp_read i n s = (t, d)" by force
    note ri = read_inv [OF Cons.prems(1,2) r]
    from Cons.IH [OF ri(1) _ ri(4) [OF Cons.prems(3)] Cons.prems(4)] Cons.prems(2,5) ri(3) honest_event_ports [OF ri(2)]
    obtain s' ds where "rcv_run i es t = Some (s', ds)" "rcv_inv R base ((del @ d) @ ds) (CONNS s' ! i)" by auto
    then show ?thesis using r by (simp add: Read)
  qed
qed simp


definition example_conn :: TcpConn where
  "example_conn = TcpConn_zeroed\<lparr>tc_state := Established, remote_ip := V4 [10, 0, 2, 2], remote_port := 80, local_port := 49152,
     rcv_nxt := 5, rx := Some (RingBuf_new BUF_SIZE), tx := Some (RingBuf_new BUF_SIZE)\<rparr>"


end
