(* ===== verification/Tcp_Send.thy ===== *)
theory Tcp_Send
  imports Tcp_Receive Net_Props
begin

text \<open>
  The sending direction of a TCP connection over IPv4.  Every data segment put on the wire, first
  transmissions and repetitions, carries the bytes a program wrote at the place its sequence number says; and the
  one exception, the probe of a closed window.
\<close>

section \<open>What a frame carries\<close>

text \<open>
  A frame agrees with the stream \<open>W\<close>, whose first byte has the sequence number \<open>base\<close>, if it is not an IPv4 frame or
  its payload is the part of the stream that starts at its sequence number.
\<close>

definition at_offset :: "u8 list \<Rightarrow> u32 \<Rightarrow> u32 \<Rightarrow> u8 list \<Rightarrow> bool" where
  "at_offset W base n d \<longleftrightarrow> (\<exists>q. n = base + of_nat q \<and> q + length d \<le> length W \<and> d = take (length d) (drop q W))"

definition honest_frame :: "u8 list \<Rightarrow> u32 \<Rightarrow> u8 list \<Rightarrow> bool" where
  "honest_frame W base f \<longleftrightarrow> (be16 f 12 = 0x0800 \<longrightarrow>
    (\<exists>n. sub_bytes 38 4 f = put32 n \<and> at_offset W base n (drop 54 f)))"

lemma at_offset_append: "at_offset W base n d \<Longrightarrow> at_offset (W @ V) base n d"
  by (auto simp: at_offset_def)

lemma at_offset_take: "q \<le> length W \<Longrightarrow> at_offset W base (base + of_nat q) (take n (drop q W))"
  unfolding at_offset_def by (intro exI [of _ q]) (cases "n \<le> length W - q"; simp)

definition sized :: "'a TcpNet_scheme \<Rightarrow> bool" where
  "sized s \<longleftrightarrow> length (NET_MAC s) = 6 \<and> length (NET_IP s) = 4 \<and> (\<forall>e \<in> set (ARP_TABLE s). length (ae_mac e) = 6)"

definition over_ip4 :: "TcpConn \<Rightarrow> bool" where
  "over_ip4 c \<longleftrightarrow> (\<exists>dst. remote_ip c = V4 dst \<and> length dst = 4)"

definition env :: "'a TcpNet_scheme \<Rightarrow> u8 list \<times> u8 list \<times> ArpEntry list" where
  "env s = (NET_MAC s, NET_IP s, ARP_TABLE s)"

lemma sized_env: "env s = env t \<Longrightarrow> sized s = sized t"
  by (simp add: env_def sized_def)

lemma length_ip4_header: "length (ip4_header n ident proto src dst) = 12 + length src + length dst"
  by (simp add: ip4_header_def Let_def)

lemma resolve_mac_sized:
  assumes "sized s" "resolve_mac_nonblocking dst s = (t, m)"
  shows "length m = 6" "\<exists>fs. t = s\<lparr>SENT := SENT s @ fs\<rparr> \<and> (\<forall>f \<in> set fs. be16 f 12 = 0x0806)"
proof -
  have arp: "be16 (arp_frame BROADCAST oper a b s) 12 = 0x0806" for oper a b
    using assms(1) be16_put16 [of "0x0806"]
    by (simp add: arp_frame_def eth_header_def BROADCAST_def sized_def be16_append)
  have "length m = 6" if "arp_lookup ip s = Some m" for ip m
    using that assms(1) by (auto simp: arp_lookup_def sized_def find_Some_iff)
  then show "length m = 6" using assms(2)
    by (auto simp: resolve_mac_nonblocking_def BROADCAST_def split: if_splits option.splits)
  have nil: "\<exists>fs. s = s\<lparr>SENT := SENT s @ fs\<rparr> \<and> (\<forall>f \<in> set fs. be16 f 12 = 0x0806)" by (rule exI [of _ "[]"]) simp
  have req: "send_arp_request ip s = s\<lparr>SENT := SENT s @ [arp_frame BROADCAST 1 (replicate 6 0) ip s]\<rparr>" for ip
    by (simp add: send_arp_request_def net_send_frame_def)
  show "\<exists>fs. t = s\<lparr>SENT := SENT s @ fs\<rparr> \<and> (\<forall>f \<in> set fs. be16 f 12 = 0x0806)"
  proof (cases "t = s")
    case False
    then obtain ip where "t = send_arp_request ip s" using assms(2)
      by (auto simp: resolve_mac_nonblocking_def split: if_splits option.splits)
    then show ?thesis using req [of ip] arp by auto
  qed (use nil in simp)
qed

lemma seq_of_header:
  assumes "length a = 34"
  shows "sub_bytes 38 4 (a @ put_csum 16 k (build_tcp_header c flags d)) = put32 (snd_nxt c)"
    "\<not> has_flag flags TCP_SYN \<Longrightarrow> drop 54 (a @ put_csum 16 k (build_tcp_header c flags d)) = d"
    "\<not> has_flag flags TCP_SYN \<Longrightarrow> length (build_tcp_header c flags d) = 20 + length d"
proof -
  have "sub_bytes 38 4 (a @ put_csum 16 k (build_tcp_header c flags d)) = sub_bytes 4 4 (put_csum 16 k (build_tcp_header c flags d))"
    using assms by (simp add: sub_bytes_def)
  also have "\<dots> = sub_bytes 4 4 (build_tcp_header c flags d)"
    by (simp add: sub_bytes_def put_csum_def drop_update_swap take_update_swap list_update_beyond min.coboundedI2)
  also have "\<dots> = put32 (snd_nxt c)" by (simp add: sub_bytes_def build_tcp_header_def)
  finally show "sub_bytes 38 4 (a @ put_csum 16 k (build_tcp_header c flags d)) = put32 (snd_nxt c)" .
  assume f: "\<not> has_flag flags TCP_SYN"
  show "drop 54 (a @ put_csum 16 k (build_tcp_header c flags d)) = d"
    using assms f by (simp add: put_csum_def build_tcp_header_def)
  show "length (build_tcp_header c flags d) = 20 + length d" using f by (simp add: build_tcp_header_def)
qed

lemma send_segment_frames:
  assumes "sized s" "over_ip4 (CONNS s ! i)" "\<not> has_flag flags TCP_SYN"
  shows "\<exists>fs. send_segment i flags d s = s\<lparr>SENT := SENT s @ fs\<rparr> \<and>
    (\<forall>f \<in> set fs. be16 f 12 = 0x0800 \<longrightarrow> sub_bytes 38 4 f = put32 (snd_nxt (CONNS s ! i)) \<and> drop 54 f = d)"
proof -
  obtain dst where dst: "remote_ip (CONNS s ! i) = V4 dst" "length dst = 4" using assms(2) by (auto simp: over_ip4_def)
  obtain t m where t: "resolve_mac_nonblocking dst s = (t, m)" by force
  obtain fs where fs: "t = s\<lparr>SENT := SENT s @ fs\<rparr>" "\<forall>f \<in> set fs. be16 f 12 = 0x0806" and m: "length m = 6"
    using resolve_mac_sized [OF assms(1) t] by blast
  let ?seg = "build_tcp_header (CONNS s ! i) flags d"
  let ?a = "eth_header m (NET_MAC s) 0x0800 @ ip4_header (20 + length ?seg) 0 6 (NET_IP s) dst"
  let ?f = "?a @ put_csum 16 (tcp_checksum (NET_IP s) dst ?seg) ?seg"
  have "length ?a = 34" using assms(1) dst m by (simp add: eth_header_def length_ip4_header sized_def)
  note h = seq_of_header(1) [OF this] seq_of_header(2) [OF this assms(3)]
  show ?thesis
  proof (cases "14 + 20 + length ?seg > TX_BUF_LEN")
    case True
    then have "send_segment i flags d s = t" using dst t by (simp add: send_segment_def Let_def)
    then show ?thesis using fs by auto
  next
    case False
    then have "send_segment i flags d s = s\<lparr>SENT := SENT s @ (fs @ [?f])\<rparr>"
      using dst t fs(1) by (simp add: send_segment_def Let_def net_send_frame_def)
    moreover have "sub_bytes 38 4 ?f = put32 (snd_nxt (CONNS s ! i)) \<and> drop 54 ?f = d" using h by blast
    ultimately show ?thesis using fs(2) by (intro exI [of _ "fs @ [?f]"]) auto
  qed
qed

section \<open>The invariant\<close>

text \<open>
  The transmit ring holds the stream from the first unacknowledged byte on, and the next sequence number is that
  of the first byte not yet sent.
\<close>

definition snd_inv :: "u8 list \<Rightarrow> u32 \<Rightarrow> TcpConn \<Rightarrow> bool" where
  "snd_inv W base c \<longleftrightarrow> (\<exists>k t. tx c = Some t \<and> ring_wf t \<and> k \<le> length W \<and> ring_bytes t = drop k W \<and>
     snd_una c = base + of_nat k \<and> snd_cur c \<le> rb_len t \<and> snd_nxt c = snd_una c + of_nat (snd_cur c))"

definition sview :: "TcpConn \<Rightarrow> RingBuf option \<times> u32 \<times> nat \<times> u32" where
  "sview c = (tx c, snd_una c, snd_cur c, snd_nxt c)"

lemma snd_inv_view: "sview c = sview c' \<Longrightarrow> snd_inv W base c \<longleftrightarrow> snd_inv W base c'"
  by (simp add: snd_inv_def sview_def)

lemma snd_inv_peek:
  assumes "snd_inv W base c"
  shows "at_offset W base (snd_nxt c) (peek_tx (snd_cur c) n c)" "at_offset W base (snd_una c) (peek_tx 0 n c)"
    "length (peek_tx (snd_cur c) n c) \<le> (case tx c of Some t \<Rightarrow> rb_len t - snd_cur c | None \<Rightarrow> 0)"
proof -
  obtain k t where k: "tx c = Some t" "ring_wf t" "k \<le> length W" "ring_bytes t = drop k W" "snd_una c = base + of_nat k"
    "snd_cur c \<le> rb_len t" "snd_nxt c = snd_una c + of_nat (snd_cur c)" using assms by (auto simp: snd_inv_def)
  have len: "rb_len t = length W - k" using k(4) length_ring_bytes [of t] by simp
  have p: "peek_tx o' n c = take n (drop (k + o') W)" for o' using k(1,4) by (simp add: peek_tx_def ring_peek_from add.commute)
  show "at_offset W base (snd_una c) (peek_tx 0 n c)" using at_offset_take [OF k(3)] k(5) by (simp add: p)
  have "k + snd_cur c \<le> length W" "snd_nxt c = base + of_nat (k + snd_cur c)" using k(3,5,6,7) len by simp_all
  then show "at_offset W base (snd_nxt c) (peek_tx (snd_cur c) n c)" using at_offset_take [of "k + snd_cur c" W] by (simp only: p)
  show "length (peek_tx (snd_cur c) n c) \<le> (case tx c of Some t \<Rightarrow> rb_len t - snd_cur c | None \<Rightarrow> 0)"
    unfolding p using k(1) len by simp
qed

lemma snd_inv_empty: "snd_inv W base c \<Longrightarrow> at_offset W base (snd_nxt c) []"
  using snd_inv_peek(1) [of W base c 0] by (simp add: peek_tx_def RingBuf_peek_from_def split: option.splits)

lemma snd_inv_flush_sent:
  assumes "snd_inv W base c"
  shows "snd_inv W base (flush_sent (length (peek_tx (snd_cur c) n c)) now c)"
proof -
  obtain k t where k: "tx c = Some t" "ring_wf t" "k \<le> length W" "ring_bytes t = drop k W" "snd_una c = base + of_nat k"
    "snd_cur c \<le> rb_len t" "snd_nxt c = snd_una c + of_nat (snd_cur c)" using assms by (auto simp: snd_inv_def)
  define m where "m = length (peek_tx (snd_cur c) n c)"
  have "m \<le> rb_len t - snd_cur c" using snd_inv_peek(3) [OF assms, of n] k(1) by (simp add: m_def)
  then have "snd_cur c + m \<le> rb_len t" using k(6) by linarith
  then show ?thesis unfolding snd_inv_def m_def [symmetric] using k
    by (intro exI [of _ k] exI [of _ t]) (simp add: flush_sent_def Let_def)
qed

section \<open>Steps that keep it\<close>

definition advances :: "u8 list \<Rightarrow> u32 \<Rightarrow> nat \<Rightarrow> 'a TcpNet_scheme \<Rightarrow> 'a TcpNet_scheme \<Rightarrow> bool" where
  "advances W base i s s' \<longleftrightarrow> env s' = env s \<and> length (CONNS s') = length (CONNS s) \<and>
     remote_ip (CONNS s' ! i) = remote_ip (CONNS s ! i) \<and>
     (\<exists>fs. SENT s' = SENT s @ fs \<and> (\<forall>f \<in> set fs. honest_frame W base f))"

lemma advances_refl [simp]: "advances W base i s s"
  by (simp add: advances_def)

lemma advances_trans: "advances W base i s t \<Longrightarrow> advances W base i t u \<Longrightarrow> advances W base i s u"
  by (fastforce simp: advances_def)

lemma advances_upd:
  assumes "\<And>c. remote_ip (f c) = remote_ip c"
  shows "advances W base i s (upd_conn i f s)"
  using assms by (cases "i < length (CONNS s)") (simp_all add: advances_def env_def, simp_all add: upd_conn_def list_update_beyond)

lemma advances_send:
  assumes "sized s" "over_ip4 (CONNS s ! i)" "\<not> has_flag flags TCP_SYN" "at_offset W base (snd_nxt (CONNS s ! i)) d"
  shows "advances W base i s (send_segment i flags d s)"
proof -
  obtain fs where fs: "send_segment i flags d s = s\<lparr>SENT := SENT s @ fs\<rparr>"
    "\<forall>f \<in> set fs. be16 f 12 = 0x0800 \<longrightarrow> sub_bytes 38 4 f = put32 (snd_nxt (CONNS s ! i)) \<and> drop 54 f = d"
    using send_segment_frames [OF assms(1-3)] by blast
  then have "\<forall>f \<in> set fs. honest_frame W base f" using assms(4) by (auto simp: honest_frame_def)
  then show ?thesis using fs(1) by (auto simp: advances_def env_def)
qed

lemma flags_simps [simp]: "\<not> has_flag TCP_ACK TCP_SYN" "\<not> has_flag (TCP_FIN OR TCP_ACK) TCP_SYN"
  by (simp_all add: has_flag_def TCP_ACK_def TCP_SYN_def TCP_FIN_def)

lemma flush_loop_advances:
  assumes "flush_loop k i s = Some s'" "sized s" "over_ip4 (CONNS s ! i)" "i < length (CONNS s)" "snd_inv W base (CONNS s ! i)"
  shows "advances W base i s s' \<and> snd_inv W base (CONNS s' ! i)"
  using assms
proof (induction k arbitrary: s)
  case (Suc k)
  let ?c = "CONNS s ! i"
  let ?d = "peek_tx (snd_cur ?c) (tcp_flush_size ?c) ?c"
  let ?u = "send_segment i TCP_ACK ?d s"
  let ?t = "upd_conn i (flush_sent (length ?d) (TICKS s)) ?u"
  have "advances W base i s ?u" using Suc.prems snd_inv_peek(1) by (intro advances_send) auto
  moreover have "advances W base i ?u ?t" by (rule advances_upd) (simp_all add: flush_sent_def Let_def)
  ultimately have st: "advances W base i s ?t" by (rule advances_trans)
  then have "sized ?t" "over_ip4 (CONNS ?t ! i)"
    using Suc.prems(2,3) sized_env [of ?t s] by (simp_all add: advances_def over_ip4_def)
  moreover have "snd_inv W base (CONNS ?t ! i)" using Suc.prems(4,5) by (simp add: snd_inv_flush_sent)
  ultimately show ?case using Suc.IH [of ?t] Suc.prems st advances_trans [OF st, of s']
    by (auto simp: Let_def split: if_splits)
qed simp

text \<open>The conditions under which a connection can send, and steps that keep them.\<close>

definition ready :: "u8 list \<Rightarrow> u32 \<Rightarrow> nat \<Rightarrow> 'a TcpNet_scheme \<Rightarrow> bool" where
  "ready W base i s \<longleftrightarrow> sized s \<and> over_ip4 (CONNS s ! i) \<and> i < length (CONNS s) \<and> snd_inv W base (CONNS s ! i)"

definition goes :: "u8 list \<Rightarrow> u32 \<Rightarrow> nat \<Rightarrow> 'a TcpNet_scheme \<Rightarrow> 'a TcpNet_scheme \<Rightarrow> bool" where
  "goes W base i s s' \<longleftrightarrow> advances W base i s s' \<and> (snd_inv W base (CONNS s ! i) \<longrightarrow> snd_inv W base (CONNS s' ! i))"

lemma goes_ready: "ready W base i s \<Longrightarrow> goes W base i s s' \<Longrightarrow> ready W base i s'"
  using sized_env [of s' s] by (auto simp: ready_def goes_def advances_def over_ip4_def)

lemma goes_refl [simp]: "goes W base i s s"
  by (simp add: goes_def)

lemma goes_trans: "goes W base i s t \<Longrightarrow> goes W base i t u \<Longrightarrow> goes W base i s u"
  unfolding goes_def using advances_trans by blast

lemma goes_upd:
  assumes "i < length (CONNS s)" "\<And>c. remote_ip (f c) = remote_ip c" "\<And>c. snd_inv W base c \<Longrightarrow> snd_inv W base (f c)"
  shows "goes W base i s (upd_conn i f s)"
  using assms advances_upd [of f W base i s] by (simp add: goes_def)

lemma goes_send:
  "ready W base i s \<Longrightarrow> \<not> has_flag flags TCP_SYN \<Longrightarrow> at_offset W base (snd_nxt (CONNS s ! i)) d \<Longrightarrow>
    goes W base i s (send_segment i flags d s)"
  using advances_send [of s i flags W base d] by (simp add: goes_def ready_def)

lemma goes_ack: "ready W base i s \<Longrightarrow> goes W base i s (send_segment i TCP_ACK [] s)"
  by (rule goes_send) (auto simp: ready_def intro: snd_inv_empty)

lemma goes_flush: "ready W base i s \<Longrightarrow> flush_tx i s = Some s' \<Longrightarrow> goes W base i s s'"
  unfolding flush_tx_def using flush_loop_advances [of MAX_FLUSH_SEGS i s s' W base] by (simp add: goes_def ready_def)

lemma goes_flush_upd:
  assumes "ready W base i s" "flush_tx i (upd_conn i f s) = Some s'" "\<And>c. remote_ip (f c) = remote_ip c"
    "\<And>c. snd_inv W base c \<Longrightarrow> snd_inv W base (f c)"
  shows "goes W base i s s'"
proof -
  have u: "goes W base i s (upd_conn i f s)" using assms by (intro goes_upd) (simp_all add: ready_def)
  from goes_trans [OF u goes_flush [OF goes_ready [OF assms(1) u] assms(2)]] show ?thesis .
qed

section \<open>Acknowledgements\<close>

lemma snd_inv_slide:
  assumes "snd_inv W base c" "acked = unat (a - snd_una c)" "acked \<le> snd_cur c"
  shows "snd_inv W base (slide acked a c)"
proof -
  obtain k t where k: "tx c = Some t" "ring_wf t" "k \<le> length W" "ring_bytes t = drop k W" "snd_una c = base + of_nat k"
    "snd_cur c \<le> rb_len t" "snd_nxt c = snd_una c + of_nat (snd_cur c)" using assms(1) by (auto simp: snd_inv_def)
  have len: "rb_len t = length W - k" using k(4) length_ring_bytes [of t] by simp
  have a: "a = snd_una c + of_nat acked" by (simp add: assms(2))
  note d = ring_discard [OF k(2), of acked]
  have "rb_len (RingBuf_discard acked t) = rb_len t - acked" using d(2) length_ring_bytes [of "RingBuf_discard acked t"] by simp
  moreover have "snd_nxt c = a + of_nat (snd_cur c - acked)" using assms(3) k(7) by (simp add: a of_nat_diff)
  moreover have "acked + k \<le> length W" "snd_cur c - acked \<le> length W - (acked + k)" using k(3,6) assms(3) len by linarith+
  ultimately show ?thesis unfolding snd_inv_def using k assms(3) d len
    by (intro exI [of _ "k + acked"] exI [of _ "RingBuf_discard acked t"]) (simp add: slide_def a add.commute)
qed

lemma sview_simps [simp]:
  "sview (grow_cwnd n c) = sview c" "sview (arm_persist now c) = sview c" "sview (push_rx d c) = sview c" "sview (peer_fin now c) = sview c"
  "sview (fin_acked g c) = sview c" "sview (c\<lparr>dup_acks := k\<rparr>) = sview c" "sview (c\<lparr>cwnd := w\<rparr>) = sview c"
  "sview (c\<lparr>snd_wnd := w\<rparr>) = sview c" "sview (c\<lparr>rcv_nxt := x\<rparr>) = sview c"
  by (simp_all add: sview_def grow_cwnd_def arm_persist_def push_rx_def peer_fin_def fin_acked_def
      split: option.split prod.split TcpState.split)

lemma remote_simps [simp]:
  "remote_ip (grow_cwnd n c) = remote_ip c" "remote_ip (slide n a c) = remote_ip c" "remote_ip (fast_retransmit c) = remote_ip c"
  "remote_ip (arm_persist now c) = remote_ip c" "remote_ip (push_rx d c) = remote_ip c" "remote_ip (peer_fin now c) = remote_ip c"
  "remote_ip (fin_acked g c) = remote_ip c" "remote_ip (retransmit_start c) = remote_ip c"
  by (simp_all add: grow_cwnd_def slide_def fast_retransmit_def arm_persist_def push_rx_def peer_fin_def fin_acked_def
      retransmit_start_def Let_def split: option.split prod.split TcpState.split)

lemma snd_inv_restart: "snd_inv W base c \<Longrightarrow> snd_inv W base (fast_retransmit c)"
  "snd_inv W base c \<Longrightarrow> snd_inv W base (retransmit_start c)"
  by (auto simp: snd_inv_def fast_retransmit_def retransmit_start_def Let_def)

lemma snd_inv_same: "sview (f c) = sview c \<Longrightarrow> snd_inv W base c \<Longrightarrow> snd_inv W base (f c)"
  using snd_inv_view by blast

lemma goes_deliver: "ready W base i s \<Longrightarrow> goes W base i s (deliver g i s)"
proof -
  assume r: "ready W base i s"
  have u: "goes W base i s (upd_conn i (push_rx (sg_data g)) s)"
    using r by (intro goes_upd) (simp_all add: ready_def snd_inv_same)
  from goes_trans [OF u goes_ack [OF goes_ready [OF r u]]] show ?thesis by (simp add: deliver_def)
qed

lemma goes_take_fin: "ready W base i s \<Longrightarrow> goes W base i s (take_fin g i s)"
proof -
  assume r: "ready W base i s"
  let ?a = "upd_conn i (\<lambda>c. c\<lparr>rcv_nxt := rcv_nxt c + 1\<rparr>) s"
  let ?b = "send_segment i TCP_ACK [] ?a"
  have a: "goes W base i s ?a"
    using r by (intro goes_upd) (simp_all add: ready_def snd_inv_def)
  note b = goes_trans [OF a goes_ack [OF goes_ready [OF r a]]]
  have "goes W base i ?b (upd_conn i (peer_fin (TICKS s)) ?b)"
    using goes_ready [OF r b] by (intro goes_upd) (simp_all add: ready_def snd_inv_same)
  from goes_trans [OF b this] show ?thesis by (simp add: take_fin_def)
qed

lemma goes_take_ack:
  assumes "ready W base i s" "take_ack g i s = Some s'" "unat (sg_ack g - snd_una (CONNS s ! i)) \<noteq> snd_cur (CONNS s ! i) + 1"
  shows "goes W base i s s'"
proof -
  let ?c = "CONNS s ! i" and ?n = "unat (sg_ack g - snd_una (CONNS s ! i))"
  let ?t = "upd_conn i (\<lambda>c. c\<lparr>dup_acks := min (dup_acks ?c + 1) 255\<rparr>) s"
  have i: "i < length (CONNS s)" "snd_inv W base ?c" using assms(1) by (simp_all add: ready_def)
  have t: "goes W base i s ?t" using i by (intro goes_upd) (simp_all add: snd_inv_same)
  have dup: "goes W base i s s'" if "flush_tx i (upd_conn i f ?t) = Some s'" "\<And>c. remote_ip (f c) = remote_ip c"
      "\<And>c. snd_inv W base c \<Longrightarrow> snd_inv W base (f c)" for f
    by (rule goes_trans [OF t goes_flush_upd [OF goes_ready [OF assms(1) t] that]])
  have new: "goes W base i s s'" if "flush_tx i (upd_conn i (slide ?n (sg_ack g) \<circ> grow_cwnd ?n) s) = Some s'" "?n \<le> snd_cur ?c"
  proof -
    have v: "sview (grow_cwnd ?n ?c) = sview ?c" by simp
    then have g: "snd_inv W base (grow_cwnd ?n ?c)" "snd_una (grow_cwnd ?n ?c) = snd_una ?c" "snd_cur (grow_cwnd ?n ?c) = snd_cur ?c"
      using i(2) snd_inv_view [OF v] by (simp_all add: sview_def)
    have "snd_inv W base (slide ?n (sg_ack g) (grow_cwnd ?n ?c))" by (rule snd_inv_slide [OF g(1)]) (use g that(2) in simp_all)
    then have u: "goes W base i s (upd_conn i (slide ?n (sg_ack g) \<circ> grow_cwnd ?n) s)"
      using i(1) advances_upd [of "slide ?n (sg_ack g) \<circ> grow_cwnd ?n" W base i s] by (simp add: goes_def)
    from goes_trans [OF u goes_flush [OF goes_ready [OF assms(1) u] that(1)]] show ?thesis .
  qed
  show ?thesis
    using assms(2,3) new dup [of fast_retransmit] dup [of "\<lambda>c. c\<lparr>cwnd := sat32 (cwnd c + mss c)\<rparr>"] t snd_inv_restart(1) [of W base]
    unfolding take_ack_def Let_def by (auto simp: snd_inv_same split: if_splits)
qed

lemma goes_in_established:
  assumes "ready W base i s" "in_established g i s = Some s'" "unat (sg_ack g - snd_una (CONNS s ! i)) \<noteq> snd_cur (CONNS s ! i) + 1"
  shows "goes W base i s s'"
proof -
  have fin: "goes W base i t (upd_conn i (fin_acked g) (take_fin g i (deliver g i t)))" if r: "ready W base i t" for t :: "'a TcpNet_scheme"
  proof -
    note d = goes_deliver [OF r, of g]
    note f = goes_trans [OF d goes_take_fin [OF goes_ready [OF r d], of g]]
    have "goes W base i (take_fin g i (deliver g i t)) (upd_conn i (fin_acked g) (take_fin g i (deliver g i t)))"
      using goes_ready [OF r f] by (intro goes_upd) (simp_all add: ready_def snd_inv_same)
    from goes_trans [OF f this] show ?thesis .
  qed
  show ?thesis
  proof (cases "has_flag (sg_flags g) TCP_ACK")
    case True
    then obtain u where u: "take_ack g i s = Some u"
      "s' = upd_conn i (fin_acked g) (take_fin g i (deliver g i (upd_conn i (arm_persist (TICKS u)) u)))"
      using assms(2) by (auto simp: in_established_def)
    note a = goes_take_ack [OF assms(1) u(1) assms(3)]
    have "goes W base i u (upd_conn i (arm_persist (TICKS u)) u)"
      using goes_ready [OF assms(1) a] by (intro goes_upd) (simp_all add: ready_def snd_inv_same)
    note b = goes_trans [OF a this]
    from goes_trans [OF b fin [OF goes_ready [OF assms(1) b]]] show ?thesis by (simp add: u(2))
  qed (use fin [OF assms(1)] assms(2) in \<open>simp add: in_established_def\<close>)
qed

section \<open>The timer\<close>

definition closed :: "TcpConn \<Rightarrow> bool" where "closed c \<longleftrightarrow> tc_state c = Closed \<and> tx c = None"

lemma goes_probe:
  assumes "ready W base i s" "snd_cur (CONNS s ! i) = 0"
  shows "goes W base i s (persist_probe i s)"
proof -
  let ?c = "CONNS s ! i"
  have "at_offset W base (snd_nxt ?c) (peek_tx 0 1 ?c)"
    using snd_inv_peek(1) [of W base ?c 1] assms by (simp add: ready_def)
  then have a: "goes W base i s (send_segment i TCP_ACK (peek_tx 0 1 ?c) s)" using assms(1) by (intro goes_send) simp_all
  have "goes W base i (send_segment i TCP_ACK (peek_tx 0 1 ?c) s) (persist_probe i s)"
    unfolding persist_probe_def using assms(1) by (intro goes_upd) (simp_all add: ready_def snd_inv_def)
  from goes_trans [OF a this] show ?thesis .
qed

lemma retransmit_advances:
  assumes "ready W base i s" "retransmit c i s = Some s'"
  shows "advances W base i s s' \<and> (closed (CONNS s' ! i) \<or> snd_inv W base (CONNS s' ! i) \<and> tc_state (CONNS s' ! i) = tc_state (CONNS s ! i))"
proof (cases "retx_count c \<ge> RETX_MAX")
  case True
  then have "s' = upd_conn i (drop_conn Closed) s" using assms(2) by (simp add: retransmit_def)
  then show ?thesis using assms(1) advances_upd [of "drop_conn Closed" W base i s] by (simp add: ready_def closed_def drop_conn_def)
next
  case False
  let ?t = "upd_conn i retransmit_start s"
  define x where "x = CONNS ?t ! i"
  define n where "n = (case tx x of Some t \<Rightarrow> min (RingBuf_avail t) (mss c) | None \<Rightarrow> 0)"
  define flags where "flags = (if tc_state c = FinWait1 then TCP_FIN OR TCP_ACK else TCP_ACK)"
  let ?d = "peek_tx 0 n x" and ?bo = "min (retx_backoff c * 2) 16"
  let ?f = "\<lambda>x. x\<lparr>snd_nxt := snd_nxt x + of_nat (length ?d), snd_cur := length ?d, retx_count := retx_count c + 1,
              retx_backoff := ?bo, retx_ticks := TICKS s + RETX_INIT * of_nat ?bo\<rparr>"
  have i: "i < length (CONNS s)" using assms(1) by (simp add: ready_def)
  have s': "s' = upd_conn i ?f (send_segment i flags ?d ?t)"
    using assms(2) False unfolding retransmit_def Let_def x_def n_def flags_def by (simp split: if_splits)
  have t: "goes W base i s ?t" using i by (intro goes_upd) (simp_all add: snd_inv_restart)
  then have r: "ready W base i ?t" by (rule goes_ready [OF assms(1)])
  then have inv: "snd_inv W base x" unfolding ready_def x_def by blast
  have x: "snd_cur x = 0" "snd_nxt x = snd_una x" "tc_state x = tc_state (CONNS s ! i)" using i by (simp_all add: x_def retransmit_start_def)
  have "at_offset W base (snd_nxt x) ?d" using snd_inv_peek(2) [OF inv] x(2) by simp
  then have a: "goes W base i ?t (send_segment i flags ?d ?t)" using r by (intro goes_send) (simp_all add: flags_def x_def)
  have "advances W base i (send_segment i flags ?d ?t) s'" unfolding s' by (rule advances_upd) simp
  then have adv: "advances W base i s s'" using t a by (meson goes_def advances_trans)
  have "CONNS s' ! i = ?f x" using i by (simp add: s' x_def)
  moreover have "snd_inv W base (?f x)"
    using snd_inv_flush_sent [OF inv, of n 0] x(1,2) by (simp add: snd_inv_def flush_sent_def Let_def)
  ultimately show ?thesis using adv x(3) by simp
qed

lemma tick_data_advances:
  assumes "ready W base i s" "tick_data i s = Some s'"
    "\<not> (persist_arm (CONNS s ! i) \<and> persist_ticks (CONNS s ! i) \<le> TICKS s \<and> 0 < snd_cur (CONNS s ! i))"
  shows "advances W base i s s' \<and> (closed (CONNS s' ! i) \<or> snd_inv W base (CONNS s' ! i) \<and> tc_state (CONNS s' ! i) = tc_state (CONNS s ! i))"
proof -
  let ?c = "CONNS s ! i"
  define t where "t = (if persist_arm ?c \<and> persist_ticks ?c \<le> TICKS s then persist_probe i s else s)"
  have t: "goes W base i s t" "tc_state (CONNS t ! i) = tc_state ?c"
    using assms(1,3) goes_probe [of W base i s] by (auto simp: t_def persist_probe_def ready_def)
  note r = goes_ready [OF assms(1) t(1)]
  have "s' = t \<or> retransmit ?c i t = Some s'"
    using assms(2) unfolding tick_data_def Let_def t_def [symmetric] by (auto split: if_splits)
  then show ?thesis
  proof
    assume "retransmit ?c i t = Some s'"
    from retransmit_advances [OF r this] show ?thesis using t advances_trans [of W base i s t s'] by (auto simp: goes_def)
  qed (use t r in \<open>simp add: goes_def ready_def\<close>)
qed

section \<open>Writing\<close>

lemma write_advances:
  assumes "ready W base i s" "tcp_write i d s = Some (s', n)" "tc_state (CONNS s ! i) \<in> {Established, CloseWait}"
  shows "advances (W @ take n d) base i s s' \<and> snd_inv (W @ take n d) base (CONNS s' ! i) \<and> tc_state (CONNS s' ! i) = tc_state (CONNS s ! i)"
proof (cases "i \<ge> MAX_CONNS")
  case True
  then show ?thesis using assms by (simp add: tcp_write_def ready_def)
next
  case False
  obtain k t where k: "tx (CONNS s ! i) = Some t" "ring_wf t" "k \<le> length W" "ring_bytes t = drop k W"
    "snd_una (CONNS s ! i) = base + of_nat k" "snd_cur (CONNS s ! i) \<le> rb_len t"
    "snd_nxt (CONNS s ! i) = snd_una (CONNS s ! i) + of_nat (snd_cur (CONNS s ! i))"
    using assms(1) by (auto simp: ready_def snd_inv_def)
  obtain t' m where p: "RingBuf_push d t = (t', m)" by force
  note push = ring_push [OF k(2) p]
  let ?u = "upd_conn i (\<lambda>c. c\<lparr>tx := Some t'\<rparr>) s"
  have w: "flush_tx i ?u = Some s'" "n = m" using assms(2,3) False k(1) p by (auto simp: tcp_write_def)
  have i: "i < length (CONNS s)" using assms(1) by (simp add: ready_def)
  have "snd_cur (CONNS s ! i) \<le> rb_len t'" using push(3) k(6) length_ring_bytes [of t'] by simp
  then have "snd_inv (W @ take n d) base ((CONNS s ! i)\<lparr>tx := Some t'\<rparr>)"
    unfolding snd_inv_def using k push w(2) by (intro exI [of _ k] exI [of _ t']) simp
  moreover have a: "advances (W @ take n d) base i s ?u" by (rule advances_upd) simp
  ultimately have "ready (W @ take n d) base i ?u"
    using assms(1) i sized_env [of ?u s] by (simp add: ready_def advances_def over_ip4_def)
  note f = goes_flush [OF this w(1)] this
  have "same_view ?u s'" using w(1) flush_loop_view unfolding flush_tx_def by blast
  then have "tc_state (CONNS s' ! i) = tc_state (CONNS s ! i)" using i by (simp add: same_view_def rview_def)
  moreover have "advances (W @ take n d) base i s s'" "snd_inv (W @ take n d) base (CONNS s' ! i)"
    using f a advances_trans [OF a] unfolding goes_def ready_def by blast+
  ultimately show ?thesis by blast
qed

lemma advances_append: "advances W base i s s' \<Longrightarrow> advances (W @ V) base i s s'"
  unfolding advances_def honest_frame_def using at_offset_append by blast

section \<open>The stream\<close>

text \<open>
  The steps of connection \<open>i\<close>, with the bytes accepted from the program so far: a write; a segment of the peer, which
  does not acknowledge the byte after the last one sent; and a timer tick at which no window probe is due
  while bytes are in flight.
\<close>

inductive snd_step :: "nat \<Rightarrow> u8 list \<Rightarrow> 'a TcpNet_scheme \<Rightarrow> u8 list \<Rightarrow> 'a TcpNet_scheme \<Rightarrow> bool" for i where
  by_write: "tcp_write i d s = Some (s', n) \<Longrightarrow> snd_step i W s (W @ take n d) s'"
| by_segment: "tcp_handle_segment src p s = Some s' \<Longrightarrow> lookup_conn src p s = Some i \<Longrightarrow>
    unat (sg_ack (parse_segment src p) - snd_una (CONNS s ! i)) \<noteq> snd_cur (CONNS s ! i) + 1 \<Longrightarrow> snd_step i W s W s'"
| by_tick: "tick_conn i (s\<lparr>TICKS := now\<rparr>) = Some s' \<Longrightarrow>
    \<not> (persist_arm (CONNS s ! i) \<and> persist_ticks (CONNS s ! i) \<le> now \<and> 0 < snd_cur (CONNS s ! i)) \<Longrightarrow> snd_step i W s W s'"

inductive snd_steps :: "nat \<Rightarrow> u8 list \<Rightarrow> 'a TcpNet_scheme \<Rightarrow> u8 list \<Rightarrow> 'a TcpNet_scheme \<Rightarrow> bool" for i where
  start: "snd_steps i W s W s"
| further: "snd_steps i W s V t \<Longrightarrow> snd_step i V t U u \<Longrightarrow> snd_steps i W s U u"

definition snd_ok :: "u8 list \<Rightarrow> u32 \<Rightarrow> nat \<Rightarrow> 'a TcpNet_scheme \<Rightarrow> bool" where
  "snd_ok W base i s \<longleftrightarrow> sized s \<and> over_ip4 (CONNS s ! i) \<and> i < length (CONNS s) \<and>
    (closed (CONNS s ! i) \<or> snd_inv W base (CONNS s ! i) \<and> tc_state (CONNS s ! i) \<in> {Established, CloseWait})"

lemma snd_ok_advances:
  "snd_ok W base i s \<Longrightarrow> advances V base i s s' \<Longrightarrow>
    closed (CONNS s' ! i) \<or> snd_inv U base (CONNS s' ! i) \<and> tc_state (CONNS s' ! i) \<in> {Established, CloseWait} \<Longrightarrow> snd_ok U base i s'"
  using sized_env [of s' s] by (simp add: snd_ok_def advances_def over_ip4_def)

lemma closed_quiet:
  assumes "closed (CONNS s ! i)" "i < length (CONNS s)"
  shows "tcp_write i d s = Some (s', n) \<Longrightarrow> s' = s \<and> n = 0"
    "tick_conn i s = Some s' \<Longrightarrow> s' = s"
    "tcp_handle_segment src p s = Some s' \<Longrightarrow> lookup_conn src p s = Some i \<Longrightarrow> closed (CONNS s' ! i) \<and> advances W base i s s'"
proof -
  have st: "tc_state (CONNS s ! i) = Closed" "tx (CONNS s ! i) = None" using assms(1) by (simp_all add: closed_def)
  show "tcp_write i d s = Some (s', n) \<Longrightarrow> s' = s \<and> n = 0" using st by (simp add: tcp_write_def)
  show "tick_conn i s = Some s' \<Longrightarrow> s' = s" using st by (simp add: tick_conn_def Let_def)
  assume h: "tcp_handle_segment src p s = Some s'" "lookup_conn src p s = Some i"
  let ?w = "upd_conn i (\<lambda>c. c\<lparr>snd_wnd := sg_wnd (parse_segment src p)\<rparr>) s"
  have "s' = s \<or> s' = upd_conn i (drop_conn Closed) s \<or> s' = ?w"
    using h st assms(2) unfolding tcp_handle_segment_def Let_def by (simp split: if_splits)
  moreover have "advances W base i s (upd_conn i (drop_conn Closed) s)" by (rule advances_upd) (simp add: drop_conn_def)
  moreover have "advances W base i s ?w" by (rule advances_upd) simp
  ultimately show "closed (CONNS s' ! i) \<and> advances W base i s s'"
    using assms by (elim disjE) (simp_all add: closed_def drop_conn_def)
qed

lemma handled_cases:
  assumes "tcp_handle_segment src p s = Some s'" "lookup_conn src p s = Some i" "i < length (CONNS s)"
    "tc_state (CONNS s ! i) \<in> {Established, CloseWait}"
  defines "w \<equiv> upd_conn i (\<lambda>c. c\<lparr>snd_wnd := sg_wnd (parse_segment src p)\<rparr>) s"
  shows "s' = s \<or> s' = upd_conn i (drop_conn Closed) s \<or> s' = w \<or>
    in_established (parse_segment src p) i w = Some s' \<and> tc_state (CONNS s ! i) = Established"
proof (cases "tc_state (CONNS s ! i) = Established")
  case True
  then show ?thesis using assms(1-3) unfolding tcp_handle_segment_def Let_def w_def by (simp split: if_splits)
next
  case False
  then have "tc_state (CONNS s ! i) = CloseWait" using assms(4) by simp
  then show ?thesis using assms(1-3) unfolding tcp_handle_segment_def Let_def w_def by (simp split: if_splits)
qed

lemma segment_advances:
  assumes "ready W base i s" "tc_state (CONNS s ! i) \<in> {Established, CloseWait}" "tcp_handle_segment src p s = Some s'"
    "lookup_conn src p s = Some i" "unat (sg_ack (parse_segment src p) - snd_una (CONNS s ! i)) \<noteq> snd_cur (CONNS s ! i) + 1"
  shows "advances W base i s s' \<and>
    (closed (CONNS s' ! i) \<or> snd_inv W base (CONNS s' ! i) \<and> tc_state (CONNS s' ! i) \<in> {Established, CloseWait})"
proof -
  let ?g = "parse_segment src p"
  let ?w = "upd_conn i (\<lambda>c. c\<lparr>snd_wnd := sg_wnd ?g\<rparr>) s"
  have i: "i < length (CONNS s)" "snd_inv W base (CONNS s ! i)" using assms(1) by (simp_all add: ready_def)
  have w: "goes W base i s ?w" using i(1) by (intro goes_upd) (simp_all add: snd_inv_same)
  have reset: "advances W base i s (upd_conn i (drop_conn Closed) s)" by (rule advances_upd) (simp add: drop_conn_def)
  consider (id) "s' = s" | (rst) "s' = upd_conn i (drop_conn Closed) s" | (wait) "s' = ?w"
    | (est) "in_established ?g i ?w = Some s'" "tc_state (CONNS s ! i) = Established"
    using handled_cases [OF assms(3,4) i(1) assms(2)] by blast
  then show ?thesis
  proof cases
    case id
    then show ?thesis using i assms(2) by simp
  next
    case rst
    then show ?thesis using reset i by (simp add: closed_def drop_conn_def)
  next
    case wait
    then show ?thesis using w i assms(2) by (simp add: goes_def)
  next
    case est
    have "goes W base i ?w s'" by (rule goes_in_established [OF goes_ready [OF assms(1) w] est(1)]) (use assms(5) i in simp)
    note g = goes_trans [OF w this]
    obtain t where t: "same_view ?w t" "s' = upd_conn i (fin_acked ?g) (take_fin ?g i (deliver ?g i t))"
      using in_established_view [OF est(1)] .
    then have "tc_state (CONNS t ! i) = Established" "i < length (CONNS t)" using est(2) i(1) by (simp_all add: same_view_def rview_def)
    then have "tc_state (CONNS s' ! i) \<in> {Established, CloseWait}"
      by (auto simp: t(2) take_fin_def deliver_def peer_fin_def fin_acked_def push_rx_def split: option.split prod.split)
    then show ?thesis using g i(2) by (simp add: goes_def)
  qed
qed

lemma snd_step_ok:
  assumes "snd_step i W s V s'" "snd_ok W base i s"
  shows "snd_ok V base i s' \<and> advances V base i s s' \<and> (\<exists>X. V = W @ X)"
  using assms
proof (induction rule: snd_step.induct)
  case (by_write d s s' n W)
  then show ?case
  proof (cases "closed (CONNS s ! i)")
    case True
    then have "s' = s" "n = 0" using closed_quiet(1) [OF True _ by_write(1)] by_write(2) by (simp_all add: snd_ok_def)
    then show ?thesis using by_write(2) by simp
  next
    case False
    then have "ready W base i s" "tc_state (CONNS s ! i) \<in> {Established, CloseWait}" using by_write by (auto simp: snd_ok_def ready_def)
    note w = write_advances [OF this(1) by_write(1) this(2)] this(2)
    then show ?thesis using snd_ok_advances [OF by_write(2)] by auto
  qed
next
  case (by_segment src p s s' W)
  show ?case
  proof (cases "closed (CONNS s ! i)")
    case True
    then show ?thesis using by_segment closed_quiet(3) [OF True] snd_ok_advances [OF by_segment(4)] by (auto simp: snd_ok_def)
  next
    case False
    then have "ready W base i s" "tc_state (CONNS s ! i) \<in> {Established, CloseWait}" using by_segment by (auto simp: snd_ok_def ready_def)
    from segment_advances [OF this by_segment(1-3)] show ?thesis using snd_ok_advances [OF by_segment(4)] by auto
  qed
next
  case (by_tick now s s' W)
  let ?s = "s\<lparr>TICKS := now\<rparr>"
  have ok: "snd_ok W base i ?s" using by_tick(3) by (simp add: snd_ok_def sized_def)
  have adv: "advances W base i s t \<longleftrightarrow> advances W base i ?s t" for t by (simp add: advances_def env_def)
  show ?case
  proof (cases "tc_state (CONNS s ! i) = Established")
    case True
    then have r: "ready W base i ?s" "tick_data i ?s = Some s'" using ok by_tick(1) by (auto simp: snd_ok_def ready_def closed_def tick_conn_def Let_def)
    have "\<not> (persist_arm (CONNS ?s ! i) \<and> persist_ticks (CONNS ?s ! i) \<le> TICKS ?s \<and> 0 < snd_cur (CONNS ?s ! i))" using by_tick(2) by simp
    from tick_data_advances [OF r this] True show ?thesis using snd_ok_advances [OF ok] by (auto simp: adv)
  next
    case False
    then have "s' = ?s" using ok by_tick(1) by (auto simp: snd_ok_def closed_def tick_conn_def Let_def)
    then show ?thesis using ok by (simp add: adv)
  qed
qed

lemma snd_steps_ok:
  assumes "snd_steps i W s V t" "snd_ok W base i s"
  shows "snd_ok V base i t \<and> advances V base i s t \<and> (\<exists>X. V = W @ X)"
  using assms
proof (induction rule: snd_steps.induct)
  case (further W s V t U u)
  then have IH: "snd_ok V base i t" "advances V base i s t" "\<exists>X. V = W @ X" by blast+
  from snd_step_ok [OF further(2) IH(1)] obtain Y where Y: "snd_ok U base i u" "advances U base i t u" "U = V @ Y" by blast
  then have "advances U base i s u" using advances_append [OF IH(2), of Y] advances_trans [of U base i s t u] by simp
  then show ?case using Y IH(3) by auto
qed auto


lemma example_write: "\<exists>t. tcp_write 0 [104, 105] (example_net [example_conn]) = Some (t, 2)"
proof -
  let ?s = "example_net [example_conn]"
  obtain r n where r: "RingBuf_push [104, 105] (RingBuf_new BUF_SIZE) = (r, n)" by force
  have n: "n = 2" using ring_push(2) [OF ring_wf_new r] by (simp add: RingBuf_new_def BUF_SIZE_def)
  have "conns_ok (upd_conn 0 (\<lambda>c. c\<lparr>tx := Some r\<rparr>) ?s)"
    by (simp add: conns_ok_def example_net_def example_conn_def TcpConn_zeroed_def MSS_DEFAULT_def)
  then obtain t where "flush_tx 0 (upd_conn 0 (\<lambda>c. c\<lparr>tx := Some r\<rparr>) ?s) = Some t"
    using flush_tx_ok [of "upd_conn 0 (\<lambda>c. c\<lparr>tx := Some r\<rparr>) ?s" 0] by (auto simp: example_net_def)
  then show ?thesis using r n
    by (simp add: tcp_write_def MAX_CONNS_def example_conn_def) (simp add: example_net_def)
qed


section \<open>The window probe\<close>

lemma byte_pair: "x < 65536 \<Longrightarrow> 256 * (x div 256 mod 256) + x mod 256 = (x :: nat)"
  by (simp add: div_less_iff_less_mult)

lemma be32_put32: "be32 (put32 w) 0 = w"
proof -
  let ?x = "unat w"
  have x: "?x < 65536 * 65536" using unsigned_less [of w, where ?'a = nat] by simp
  have hi: "256 * (?x div 65536 div 256 mod 256) + ?x div 65536 mod 256 = ?x div 65536"
    using x by (intro byte_pair) (simp add: div_less_iff_less_mult)
  have lo: "256 * (?x div 256 mod 256) + ?x mod 256 = ?x mod 65536"
    using mod_mult2_eq [of ?x 256 256] by simp
  have "be32 (put16 (x div 65536) @ put16 x) 0 = of_nat (65536 * (256 * (x div 65536 div 256 mod 256) + x div 65536 mod 256)
      + (256 * (x div 256 mod 256) + x mod 256))" for x
    by (simp add: be32_def be16_def put16_def unsigned_of_nat take_bit_eq_mod)
  then have "be32 (put32 w) 0 = of_nat (65536 * (256 * (?x div 65536 div 256 mod 256) + ?x div 65536 mod 256)
      + (256 * (?x div 256 mod 256) + ?x mod 256))" by (simp only: put32_def power_numeral pow.simps num.simps) simp
  also have "\<dots> = of_nat ?x" unfolding hi lo by (simp add: mult_div_mod_eq)
  finally show ?thesis by simp
qed

lemma put32_inject: "put32 a = put32 b \<Longrightarrow> a = b"
  by (metis be32_put32)

lemma send_segment_last:
  assumes "sized s" "over_ip4 (CONNS s ! i)" "\<not> has_flag flags TCP_SYN" "54 + length d \<le> TX_BUF_LEN"
  shows "\<exists>fs f. send_segment i flags d s = s\<lparr>SENT := SENT s @ fs @ [f]\<rparr> \<and> be16 f 12 = 0x0800 \<and>
    sub_bytes 38 4 f = put32 (snd_nxt (CONNS s ! i)) \<and> drop 54 f = d"
proof -
  obtain dst where dst: "remote_ip (CONNS s ! i) = V4 dst" "length dst = 4" using assms(2) by (auto simp: over_ip4_def)
  obtain t m where t: "resolve_mac_nonblocking dst s = (t, m)" by force
  obtain fs where fs: "t = s\<lparr>SENT := SENT s @ fs\<rparr>" and m: "length m = 6" using resolve_mac_sized [OF assms(1) t] by blast
  let ?seg = "build_tcp_header (CONNS s ! i) flags d"
  let ?a = "eth_header m (NET_MAC s) 0x0800 @ ip4_header (20 + length ?seg) 0 6 (NET_IP s) dst"
  let ?f = "?a @ put_csum 16 (tcp_checksum (NET_IP s) dst ?seg) ?seg"
  have a: "length ?a = 34" using assms(1) dst m by (simp add: eth_header_def length_ip4_header sized_def)
  have "send_segment i flags d s = s\<lparr>SENT := SENT s @ fs @ [?f]\<rparr>"
    using dst t fs seq_of_header(3) [OF a assms(3), of "CONNS s ! i" d] assms(4)
    by (simp add: send_segment_def Let_def net_send_frame_def)
  moreover have "be16 ?f 12 = 0x0800"
    using assms(1) m be16_put16 [of "0x0800"] by (simp add: eth_header_def be16_append sized_def)
  ultimately show ?thesis using seq_of_header(1) [OF a] seq_of_header(2) [OF a assms(3)] by blast
qed

text \<open>
  C40. The probe of a closed window breaks the stream: with bytes in flight it sends the first unacknowledged byte
  under the sequence number of the first unsent one.  Unless the two bytes happen to be equal, the frame does not
  agree with what the program wrote.
\<close>

theorem probe_breaks_stream:
  assumes "sized s" "over_ip4 (CONNS s ! i)" "snd_inv W base (CONNS s ! i)" "length W < 2 ^ 32"
    "k = unat (snd_una (CONNS s ! i) - base)" "n = k + snd_cur (CONNS s ! i)" "k < length W" "n < length W \<longrightarrow> W ! n \<noteq> W ! k"
  shows "\<exists>fs f. SENT (persist_probe i s) = SENT s @ fs @ [f] \<and> \<not> honest_frame W base f"
proof -
  let ?c = "CONNS s ! i"
  obtain j t where j: "tx ?c = Some t" "j \<le> length W" "ring_bytes t = drop j W" "snd_una ?c = base + of_nat j"
    "snd_cur ?c \<le> rb_len t" "snd_nxt ?c = snd_una ?c + of_nat (snd_cur ?c)" using assms(3) by (auto simp: snd_inv_def)
  have "(of_nat k :: u32) = of_nat j" using assms(5) j(4) by simp
  then have kj: "k = j" using of_nat_u32_inj [of k j] assms(4,7) j(2) by linarith
  have d: "peek_tx 0 1 ?c = [W ! k]" using j(1,3) assms(7) kj by (simp add: peek_tx_def ring_peek_from take_Suc hd_drop_conv_nth)
  have nW: "n \<le> length W" using j(3,5) length_ring_bytes [of t] assms(6) kj j(2) by simp
  have nxt: "snd_nxt ?c = base + of_nat n" using j(4,6) kj assms(6) by simp
  obtain fs f where f: "send_segment i TCP_ACK [W ! k] s = s\<lparr>SENT := SENT s @ fs @ [f]\<rparr>" "be16 f 12 = 0x0800"
    "sub_bytes 38 4 f = put32 (base + of_nat n)" "drop 54 f = [W ! k]"
    using send_segment_last [OF assms(1,2) flags_simps(1), of "[W ! k]"] by (auto simp: TX_BUF_LEN_def nxt)
  have "\<not> at_offset W base (base + of_nat n) [W ! k]"
  proof
    assume "at_offset W base (base + of_nat n) [W ! k]"
    then obtain q where q: "(of_nat n :: u32) = of_nat q" "q < length W" "[W ! k] = take 1 (drop q W)" by (auto simp: at_offset_def)
    then have "n = q" using of_nat_u32_inj [of n q] nW assms(4) by linarith
    then show False using q(2,3) assms(8) by (simp add: take_Suc hd_drop_conv_nth)
  qed
  then have "\<not> honest_frame W base f" using f(2-4) put32_inject by (auto simp: honest_frame_def)
  then show ?thesis using f(1) d by (intro exI [of _ fs] exI [of _ f]) (simp add: persist_probe_def upd_conn_def del: One_nat_def)
qed

definition example_flight :: TcpConn where
  "example_flight = example_conn\<lparr>tx := Some (fst (RingBuf_push [104, 105] (RingBuf_new BUF_SIZE))), snd_cur := 1, snd_nxt := 1\<rparr>"

theorem probe_breaks_stream_witness:
  "\<exists>fs f. SENT (persist_probe 0 (example_net [example_flight])) = SENT (example_net [example_flight]) @ fs @ [f] \<and>
     \<not> honest_frame [104, 105] 0 f"
proof (rule probe_breaks_stream [OF _ _ _ _ refl refl])
  let ?s = "example_net [example_flight]"
  obtain r n where r: "RingBuf_push [104, 105] (RingBuf_new BUF_SIZE) = (r, n)" by force
  note p = ring_push [OF ring_wf_new r]
  have "n = 2" using p(2) by (simp add: RingBuf_new_def BUF_SIZE_def)
  then have b: "ring_bytes r = [104, 105]" using p(3) ring_bytes_new by simp
  then have "rb_len r = 2" using length_ring_bytes [of r] by simp
  then show "snd_inv [104, 105] 0 (CONNS ?s ! 0)" unfolding snd_inv_def using p(1) b r
    by (intro exI [of _ 0] exI [of _ r]) (simp add: example_net_def example_flight_def example_conn_def TcpConn_zeroed_def)
qed (simp_all add: example_net_def example_flight_def example_conn_def sized_def over_ip4_def TcpConn_zeroed_def)

end
