(* ===== verification/Wasm_Fuel.thy ===== *)
theory Wasm_Fuel
  imports Wasm_Interp
begin

text \<open>
  The fuel of the WebAssembly interpreter bounds how long it runs and nothing else: a result obtained with some
  amount is the result with every larger one.  The order \<open>defers\<close> on outcomes, undefined below everything, is carried
  through the definitions.
\<close>

definition defers :: "'a option \<Rightarrow> 'a option \<Rightarrow> bool" where
  "defers a b \<longleftrightarrow> a = None \<or> a = b"

lemma defers_refl [simp]: "defers a a" and defers_None [simp]: "defers None b"
  by (simp_all add: defers_def)

lemma defers_map: "defers a b \<Longrightarrow> defers (map_option f a) (map_option f b)"
  by (auto simp: defers_def)

lemma defers_case:
  assumes "defers a b" "\<And>x. defers (f x) (g x)"
  shows "defers (case a of None \<Rightarrow> None | Some x \<Rightarrow> f x) (case b of None \<Rightarrow> None | Some x \<Rightarrow> g x)"
  using assms by (auto simp: defers_def split: option.splits)

lemma defers_option:
  "defers a c \<Longrightarrow> (\<And>x. defers (b x) (d x)) \<Longrightarrow> defers (case z of None \<Rightarrow> a | Some x \<Rightarrow> b x) (case z of None \<Rightarrow> c | Some x \<Rightarrow> d x)"
  by (cases z) simp_all

lemma defers_prod: "(\<And>x y. defers (b x y) (d x y)) \<Longrightarrow> defers (case z of (x, y) \<Rightarrow> b x y) (case z of (x, y) \<Rightarrow> d x y)"
  by (cases z) simp

lemma defers_bool: "defers a c \<Longrightarrow> defers b d \<Longrightarrow> defers (case z of True \<Rightarrow> a | False \<Rightarrow> b) (case z of True \<Rightarrow> c | False \<Rightarrow> d)"
  by (cases z) simp_all

lemma defers_res:
  "(\<And>x. defers (a x) (a' x)) \<Longrightarrow> (\<And>e. defers (b e) (b' e)) \<Longrightarrow> defers c c' \<Longrightarrow>
    defers (case z of Ok x \<Rightarrow> a x | Err e \<Rightarrow> b e | Panic \<Rightarrow> c) (case z of Ok x \<Rightarrow> a' x | Err e \<Rightarrow> b' e | Panic \<Rightarrow> c')"
  by (cases z) simp_all

lemma defers_step:
  "defers a a' \<Longrightarrow> (\<And>v. defers (b v) (b' v)) \<Longrightarrow> (\<And>i v. defers (c i v) (c' i v)) \<Longrightarrow>
    defers (case z of Continue \<Rightarrow> a | Return v \<Rightarrow> b v | Call i v \<Rightarrow> c i v)
      (case z of Continue \<Rightarrow> a' | Return v \<Rightarrow> b' v | Call i v \<Rightarrow> c' i v)"
  by (cases z) simp_all

lemma defers_if: "defers a a' \<Longrightarrow> defers b b' \<Longrightarrow> defers (if z then a else b) (if z then a' else b')"
  by simp

lemmas defers_intros = defers_case defers_option defers_prod defers_bool defers_res defers_step defers_if defers_map defers_refl

lemma step_frame_defers: "defers (step_frame n m code fr it s) (step_frame (Suc n) m code fr it s)"
proof (induction n arbitrary: fr it s)
  case (Suc n)
  show ?case
    unfolding step_frame.simps(2) [of n m code fr it s] step_frame.simps(2) [of "Suc n" m code fr it s]
    by (intro defers_intros Suc)
qed simp

lemma ai_reply_defers: "defers (ai_reply n h cpu m p k s) (ai_reply (Suc n) h cpu m p k s)"
proof (induction n arbitrary: s)
  case (Suc n)
  obtain s' r where r: "recv_message cpu s = (s', r)" by force
  show ?case
  proof (cases "\<exists>reply. r = Some reply \<and> sender reply = 1")
    case True
    then show ?thesis using r by (auto simp: Let_def)
  next
    case False
    then show ?thesis using r Suc
      by (cases r) (simp_all add: ai_reply.simps(2) [of n] ai_reply.simps(2) [of "Suc n"] del: ai_reply.simps)
  qed
qed simp

lemma host_ai_infer_defers: "defers (host_ai_infer n h cpu it args s) (host_ai_infer (Suc n) h cpu it args s)"
proof (cases "lm_read_bytes (PMEM s) (i_mem it) (lo32 (arg_at 0 args)) (lo32 (arg_at 1 args))")
  case (Some prompt)
  obtain s1 ptr where 1: "h_buffer h prompt s = (s1, ptr)" by force
  let ?dat = "map (\<lambda>i. ucast (drop_bit (8 * (i mod 8))
      (if i < 8 then 2 else if i < 16 then of_nat ptr else if i < 24 then of_nat (length prompt) else 0 :: u64)) :: u8) [0..<32]"
  obtain s2 ok where 2: "send_message 1 \<lparr>sender = current_tid cpu s1, data = ?dat\<rparr> s1 = (s2, ok)" by force
  let ?r = "\<lambda>n. if ok then map_option (\<lambda>(s3, n). (s3, Ok [i32_ret n]))
      (ai_reply n h cpu (i_mem it) (lo32 (arg_at 2 args)) (unat (arg_at 3 args)) s2) else Some (s2, Ok [i32_ret (- 1)])"
  have "host_ai_infer n h cpu it args s = ?r n" for n
    unfolding host_ai_infer_def Some Let_def option.case 1 prod.case 2 by (cases ok) (simp_all only: bool.case if_True if_False)
  moreover have "defers (?r n) (?r (Suc n))" by (rule defers_if [OF defers_map [OF ai_reply_defers] defers_refl])
  ultimately show ?thesis by (simp only:)
qed (simp add: host_ai_infer_def)

lemma dispatch_host_import_defers:
  "defers (dispatch_host_import n h cpu mo nm args it s) (dispatch_host_import (Suc n) h cpu mo nm args it s)"
  unfolding dispatch_host_import_def by (intro defers_if defers_refl host_ai_infer_defers)

lemma call_host_defers: "defers (call_host n h cpu m i args it s) (call_host (Suc n) h cpu m i args it s)"
  by (simp add: call_host_def dispatch_host_import_defers split: option.split)

lemma push_results_defers:
  "(\<And>it. defers (k it) (k' it)) \<Longrightarrow> defers (push_results vals it s k) (push_results vals it s k')"
  unfolding push_results_def by (intro defers_res defers_refl)

lemma call_loop_defers: "defers (call_loop n h cpu m fs it s) (call_loop (Suc n) h cpu m fs it s)"
proof (induction n arbitrary: fs it s)
  case (Suc n)
  show ?case
    unfolding call_loop.simps(2) [of n h cpu m fs it s] call_loop.simps(2) [of "Suc n" h cpu m fs it s] Let_def
    by (intro defers_intros Suc step_frame_defers call_host_defers push_results_defers)
qed simp

lemma call_defers: "defers (call n h cpu m i args it s) (call (Suc n) h cpu m i args it s)"
  unfolding call_def Let_def lift_res_def
  by (intro defers_intros call_host_defers call_loop_defers)

lemma Interpreter_new_defers: "defers (Interpreter_new n h cpu m s) (Interpreter_new (Suc n) h cpu m s)"
  unfolding Interpreter_new_def Let_def by (intro defers_intros call_defers)

lemma call_export_defers: "defers (call_export n h cpu m nm args s) (call_export (Suc n) h cpu m nm args s)"
  unfolding call_export_def by (intro defers_intros Interpreter_new_defers call_defers)

text \<open>
  The fuel does not influence what a module computes: a result that \<open>call_export\<close> gives with some amount of fuel,
  error or not, it gives with every larger amount.
\<close>

theorem call_export_fuel:
  assumes "call_export n h cpu m nm args s = Some r" "n \<le> n'"
  shows "call_export n' h cpu m nm args s = Some r"
  using assms(2)
proof (induction rule: dec_induct)
  case (step k)
  then show ?case using call_export_defers [of k h cpu m nm args s] by (simp add: defers_def)
qed (rule assms(1))

end
