(* ===== verification/Config.thy ===== *)
theory Config
  imports Fat32 Syscall
begin

text \<open>
  The configuration store, \<^verbatim>\<open>kernel/src/config.rs\<close>: a table of at most 32 keys and values, its text form, and its
  file on the FAT32 volume.  An entry is the used part of its two arrays, and the table the entries in use.
\<close>

definition CONFIG_PATH :: "u8 list" where "CONFIG_PATH = [47, 99, 111, 110, 102, 105, 103]"
definition CONFIG_MAX_ENTRIES :: nat where "CONFIG_MAX_ENTRIES = 32"
definition KEY_MAX :: nat where "KEY_MAX = 32"
definition VAL_MAX :: nat where "VAL_MAX = 128"

record Entry =
  e_key :: "u8 list"
  e_val :: "u8 list"

definition from_utf8_or_empty :: "u8 list \<Rightarrow> u8 list" where "from_utf8_or_empty b = (if utf8_valid b then b else [])"
definition key_str :: "Entry \<Rightarrow> u8 list" where "key_str e = from_utf8_or_empty (e_key e)"
definition val_str :: "Entry \<Rightarrow> u8 list" where "val_str e = from_utf8_or_empty (e_val e)"

record ConfigState =
  TABLE :: "Entry list"
  LOADED :: bool
  CFG_FAT :: FatState

section \<open>Text form\<close>

text \<open>A line without its newline, a trailing carriage return removed; \<open>None\<close> when it is ignored.\<close>

definition parse_line :: "u8 list \<Rightarrow> Entry option" where
  "parse_line l =
    (let l = (if l \<noteq> [] \<and> last l = 13 then butlast l else l) in
     if 61 \<notin> set l then None
     else Some \<lparr>e_key = take KEY_MAX (takeWhile (\<lambda>b. b \<noteq> 61) l), e_val = take VAL_MAX (tl (dropWhile (\<lambda>b. b \<noteq> 61) l))\<rparr>)"

function parse_lines :: "u8 list \<Rightarrow> Entry list \<Rightarrow> Entry list" where
  "parse_lines d es =
    (if d = [] \<or> length es \<ge> CONFIG_MAX_ENTRIES then es
     else parse_lines (tl (dropWhile (\<lambda>b. b \<noteq> 10) d))
            (case parse_line (takeWhile (\<lambda>b. b \<noteq> 10) d) of Some e \<Rightarrow> es @ [e] | None \<Rightarrow> es))"
  by pat_completeness auto
termination
proof (relation "measure (\<lambda>(d, es). length d)")
  fix d :: "u8 list" and es :: "Entry list"
  assume "\<not> (d = [] \<or> length es \<ge> CONFIG_MAX_ENTRIES)"
  then have "length (tl (dropWhile (\<lambda>b. b \<noteq> 10) d)) < length d"
    using length_dropWhile_le [of "\<lambda>b. b \<noteq> 10" d] by (cases d) (auto simp: less_Suc_eq_le)
  then show "((tl (dropWhile (\<lambda>b. b \<noteq> 10) d),
      case parse_line (takeWhile (\<lambda>b. b \<noteq> 10) d) of Some e \<Rightarrow> es @ [e] | None \<Rightarrow> es), d, es) \<in> measure (\<lambda>(d, es). length d)" by simp
qed simp

declare parse_lines.simps [simp del]

definition parse_config :: "u8 list \<Rightarrow> Entry list" where "parse_config d = parse_lines d []"

definition entry_text :: "Entry \<Rightarrow> u8 list" where
  "entry_text e = (if e_key e = [] then [] else e_key e @ [61] @ e_val e @ [10])"

definition serialise :: "nat \<Rightarrow> Entry list \<Rightarrow> u8 list" where
  "serialise cap es = take cap (concat (map entry_text es))"

section \<open>The file\<close>

definition CONFIG_TMP :: "u8 list" where "CONFIG_TMP = CONFIG_PATH @ [46, 116]"
definition FILE_BUF_LEN :: nat where "FILE_BUF_LEN = 4096"

definition flush_to_disk :: "nat \<Rightarrow> ConfigState \<Rightarrow> ConfigState out" where
  "flush_to_disk fuel s =
    out_bind (fat_open_write fuel CONFIG_TMP (CFG_FAT s)) (\<lambda>(f, r).
      case r of
        None \<Rightarrow> Val (s\<lparr>CFG_FAT := f\<rparr>)
      | Some fd \<Rightarrow>
          out_bind (fat_write fuel fd (serialise FILE_BUF_LEN (TABLE s)) f) (\<lambda>(f, _).
          out_bind (fat_rename fuel CONFIG_TMP CONFIG_PATH (fat_close fd f)) (\<lambda>(f, _). Val (s\<lparr>CFG_FAT := f\<rparr>))))"

lemma fat_read_count: "fat_read fd k f = (f', n, bs) \<Longrightarrow> n \<le> int (length bs)"
  by (auto simp: fat_read_def Let_def split: if_splits prod.splits)

function read_all :: "nat \<Rightarrow> u8 list \<Rightarrow> FatState \<Rightarrow> FatState \<times> u8 list" where
  "read_all fd d f =
    (case fat_read fd (FILE_BUF_LEN - length d) f of
       (f', n, bs) \<Rightarrow>
         if n \<le> 0 then (f', d)
         else if length (d @ bs) \<ge> FILE_BUF_LEN then (f', d @ bs)
         else read_all fd (d @ bs) f')"
  by pat_completeness auto
termination
  by (relation "measure (\<lambda>(fd, d, f). FILE_BUF_LEN - length d)") (auto dest!: fat_read_count [OF sym])

declare read_all.simps [simp del]

definition config_init :: "nat \<Rightarrow> ConfigState \<Rightarrow> ConfigState out" where
  "config_init fuel s =
    out_bind (fat_open fuel CONFIG_PATH (CFG_FAT s)) (\<lambda>(f, r).
      case r of
        None \<Rightarrow> Val (s\<lparr>TABLE := [], LOADED := True, CFG_FAT := f\<rparr>)
      | Some fd \<Rightarrow>
          (let (f, d) = read_all fd [] f
           in Val (s\<lparr>TABLE := (if d \<noteq> [] then parse_config d else []), LOADED := True, CFG_FAT := fat_close fd f\<rparr>)))"

section \<open>Operations\<close>

definition entry_index :: "u8 list \<Rightarrow> Entry list \<Rightarrow> nat option" where
  "entry_index k es = find_index (\<lambda>i. key_str (es ! i) = k) (length es)"

definition config_get :: "u8 list \<Rightarrow> ConfigState \<Rightarrow> u8 list option" where
  "config_get k s = map_option (\<lambda>i. val_str (TABLE s ! i)) (entry_index k (TABLE s))"

definition table_set :: "u8 list \<Rightarrow> u8 list \<Rightarrow> Entry list \<Rightarrow> Entry list option" where
  "table_set k v es =
    (if length k > KEY_MAX \<or> length v > VAL_MAX then None
     else case entry_index k es of
       Some i \<Rightarrow> Some (es[i := (es ! i)\<lparr>e_val := v\<rparr>])
     | None \<Rightarrow> if length es \<ge> CONFIG_MAX_ENTRIES then None else Some (es @ [\<lparr>e_key = k, e_val = v\<rparr>]))"

definition config_set :: "nat \<Rightarrow> u8 list \<Rightarrow> u8 list \<Rightarrow> ConfigState \<Rightarrow> (ConfigState \<times> bool) out" where
  "config_set fuel k v s =
    (case table_set k v (TABLE s) of
       None \<Rightarrow> Val (s, False)
     | Some es \<Rightarrow> out_bind (flush_to_disk fuel (s\<lparr>TABLE := es\<rparr>)) (\<lambda>s. Val (s, True)))"

definition config_remove :: "nat \<Rightarrow> u8 list \<Rightarrow> ConfigState \<Rightarrow> (ConfigState \<times> bool) out" where
  "config_remove fuel k s =
    (case entry_index k (TABLE s) of
       None \<Rightarrow> Val (s, False)
     | Some i \<Rightarrow> out_bind (flush_to_disk fuel (s\<lparr>TABLE := take i (TABLE s) @ drop (i + 1) (TABLE s)\<rparr>)) (\<lambda>s. Val (s, True)))"

definition config_for_each :: "(u8 list \<Rightarrow> u8 list \<Rightarrow> 'a \<Rightarrow> 'a) \<Rightarrow> ConfigState \<Rightarrow> 'a \<Rightarrow> 'a" where
  "config_for_each f s = fold (\<lambda>e. f (key_str e) (val_str e)) (TABLE s)"

text \<open>The system calls read and write the memory of the caller, the first argument.\<close>

definition sys_config_get :: "memory \<Rightarrow> nat \<Rightarrow> nat \<Rightarrow> nat \<Rightarrow> nat \<Rightarrow> ConfigState \<Rightarrow> memory \<times> int" where
  "sys_config_get mem key_ptr key_len out_ptr out_len s =
    (if key_ptr = 0 \<or> key_len = 0 then (mem, - 1)
     else case config_get (from_utf8_or_empty (read_bytes mem key_ptr key_len)) s of
       Some v \<Rightarrow>
         if out_ptr \<noteq> 0 \<and> out_len > 0
         then let n = min (length v) out_len in (write_bytes_at out_ptr (take n v) mem, int n)
         else (mem, int (length v))
     | None \<Rightarrow> (mem, - 1))"

definition sys_config_set :: "nat \<Rightarrow> memory \<Rightarrow> nat \<Rightarrow> nat \<Rightarrow> nat \<Rightarrow> nat \<Rightarrow> ConfigState \<Rightarrow> (ConfigState \<times> int) out" where
  "sys_config_set fuel mem key_ptr key_len val_ptr val_len s =
    (if key_ptr = 0 \<or> key_len = 0 then Val (s, - 1)
     else let key_bytes = read_bytes mem key_ptr key_len;
              val_bytes = (if val_ptr \<noteq> 0 \<and> val_len > 0 then read_bytes mem val_ptr val_len else []) in
          out_bind (config_set fuel (from_utf8_or_empty key_bytes) (from_utf8_or_empty val_bytes) s)
            (\<lambda>(s, ok). Val (s, if ok then 0 else - 1)))"

section \<open>Looking up what was set\<close>

lemma flush_keeps_table: "flush_to_disk fuel s = Val s' \<Longrightarrow> TABLE s' = TABLE s"
  by (auto simp: flush_to_disk_def out_bind_def split: out.splits option.splits prod.splits)

lemma entry_index_set:
  assumes "utf8_valid k" "table_set k v es = Some es'"
  obtains i where "entry_index k es' = Some i" "i < length es'" "e_val (es' ! i) = v"
proof (cases "entry_index k es")
  case None
  then have es': "es' = es @ [\<lparr>e_key = k, e_val = v\<rparr>]" using assms(2) by (simp add: table_set_def split: if_splits)
  have k: "key_str \<lparr>e_key = k, e_val = v\<rparr> = k" using assms(1) by (simp add: key_str_def from_utf8_or_empty_def)
  have "\<forall>j < length es. key_str (es ! j) \<noteq> k" using None by (simp add: entry_index_def find_index_None_iff)
  then have "entry_index k es' = Some (length es)"
    using k by (simp add: es' entry_index_def find_index_Some_iff nth_append)
  then show thesis using that es' by simp
next
  case (Some i)
  then have es': "es' = es[i := (es ! i)\<lparr>e_val := v\<rparr>]" using assms(2) by (simp add: table_set_def split: if_splits)
  have i: "i < length es" "key_str (es ! i) = k" "\<forall>j < i. key_str (es ! j) \<noteq> k"
    using Some by (simp_all add: entry_index_def find_index_Some_iff)
  have "entry_index k es' = Some i"
    using i by (simp add: es' entry_index_def find_index_Some_iff key_str_def)
  then show thesis using that i(1) es' by simp
qed

text \<open>The value set last is the value found, whatever the file system does with the file.\<close>

theorem config_get_set:
  assumes "utf8_valid k" "utf8_valid v" "config_set fuel k v s = Val (s', True)"
  shows "config_get k s' = Some v"
proof -
  obtain es where es: "table_set k v (TABLE s) = Some es" "TABLE s' = es"
    using assms(3) by (auto simp: config_set_def out_bind_def dest!: flush_keeps_table split: option.splits out.splits)
  with entry_index_set [OF assms(1) es(1)] assms(2) show ?thesis
    by (auto simp: config_get_def val_str_def from_utf8_or_empty_def)
qed

section \<open>Reading back what was written\<close>

text \<open>An entry survives the text form if its bytes contain none of the separators where they would be read as such.\<close>

definition plain :: "Entry \<Rightarrow> bool" where
  "plain e \<longleftrightarrow> e_key e \<noteq> [] \<and> length (e_key e) \<le> KEY_MAX \<and> length (e_val e) \<le> VAL_MAX \<and>
    61 \<notin> set (e_key e) \<and> 10 \<notin> set (e_key e) \<and> 10 \<notin> set (e_val e) \<and> (e_val e \<noteq> [] \<longrightarrow> last (e_val e) \<noteq> 13)"

lemma takeWhile_upto: "c \<notin> set l \<Longrightarrow> takeWhile (\<lambda>b. b \<noteq> c) (l @ c # d) = l"
  by (induction l) auto

lemma dropWhile_upto: "c \<notin> set l \<Longrightarrow> dropWhile (\<lambda>b. b \<noteq> c) (l @ c # d) = c # d"
  by (induction l) auto

lemma parse_line_plain: "plain e \<Longrightarrow> parse_line (e_key e @ [61] @ e_val e) = Some e"
  unfolding plain_def parse_line_def
  by (cases "e_val e = []") (auto simp: Let_def takeWhile_append dropWhile_append takeWhile_eq_all_conv)

lemma parse_entry:
  assumes "plain e" "length es < CONFIG_MAX_ENTRIES"
  shows "parse_lines (entry_text e @ d) es = parse_lines d (es @ [e])"
proof -
  let ?l = "e_key e @ [61] @ e_val e"
  have n: "10 \<notin> set ?l" "entry_text e @ d = ?l @ 10 # d" "entry_text e \<noteq> []"
    using assms(1) by (auto simp: plain_def entry_text_def)
  have "takeWhile (\<lambda>b. b \<noteq> 10) (entry_text e @ d) = ?l" "tl (dropWhile (\<lambda>b. b \<noteq> 10) (entry_text e @ d)) = d"
    unfolding n(2) by (rule takeWhile_upto [OF n(1)]) (simp only: dropWhile_upto [OF n(1)] list.sel)
  then show ?thesis using assms n(3) parse_line_plain by (subst parse_lines.simps) simp
qed

text \<open>
  C37. The configuration file reads back as the table: parsing the text of a table gives the same entries in
  the same order, if there are at most 32, their text fits the buffer, and no key or value contains a separator.
\<close>

theorem config_roundtrip:
  assumes "length es \<le> CONFIG_MAX_ENTRIES" "\<forall>e \<in> set es. plain e" "length (concat (map entry_text es)) \<le> cap"
  shows "parse_config (serialise cap es) = es"
proof -
  have "parse_lines (concat (map entry_text es)) acc = acc @ es" if "length (acc @ es) \<le> CONFIG_MAX_ENTRIES" "\<forall>e \<in> set es. plain e" for acc
    using that
  proof (induction es arbitrary: acc)
    case Nil
    then show ?case by (subst parse_lines.simps) simp
  next
    case (Cons e es)
    then show ?case using parse_entry [of e acc "concat (map entry_text es)"] Cons.IH [of "acc @ [e]"] by simp
  qed
  from this [of "[]"] show ?thesis using assms by (simp add: parse_config_def serialise_def)
qed

theorem config_roundtrip_witness:
  "parse_config (serialise 4096 [\<lparr>e_key = [97], e_val = [49, 50]\<rparr>, \<lparr>e_key = [98], e_val = []\<rparr>])
    = [\<lparr>e_key = [97], e_val = [49, 50]\<rparr>, \<lparr>e_key = [98], e_val = []\<rparr>]"
  by (rule config_roundtrip) (simp_all add: plain_def KEY_MAX_def VAL_MAX_def CONFIG_MAX_ENTRIES_def entry_text_def)

text \<open>
  A value with a newline becomes a second key when the file is read again.
\<close>

theorem config_newline_injects:
  "map_option (\<lambda>es. parse_config (serialise 4096 es)) (table_set [97] [49, 10, 98, 61, 50] [])
    = Some [\<lparr>e_key = [97], e_val = [49]\<rparr>, \<lparr>e_key = [98], e_val = [50]\<rparr>]"
  by code_simp

end
