(* ===== verification/Spec2Isabelle.thy ===== *)
theory Spec2Isabelle
  imports Syscall_Props Wasm_Props Fat32_Props Vfs_Props Tcp_Send Wasm_Fuel Config
begin

text \<open>
  A verification library for the kernel of Aeglos OS, an AArch64 system written in Rust (\<^verbatim>\<open>src/kernel\<close>).

  \<^bold>\<open>The program.\<close>  A page allocator hands out physical frames; the virtual memory manager builds page tables in them;
  the scheduler keeps the tasks of up to four CPUs, their stacks, mailboxes and signals; the ELF loader turns a file
  into segments and a task; the system call layer checks an allowlist and capabilities and calls everything else.
  Beside these stand a WebAssembly engine, a FAT32 driver with a descriptor layer and pipes over it, and a
  network stack.

  \<^bold>\<open>State.\<close>  The statics of each Rust module are a record, and a module that builds on another extends its record:
  \<open>PageState\<close>, \<open>VmmState\<close>, \<open>SchedState\<close>, \<open>FsState\<close> in one chain, \<open>NetState\<close>, \<open>UdpState\<close>, \<open>DnsState\<close>,
  \<open>TcpNet\<close> in another.
  Operations are polymorphic in what extends their record, so a lemma about an allocator holds unchanged inside the
  scheduler.  A function of the source is a definition of the same name that takes and returns the state.  Panics, traps
  and error returns are values.  The kernel is built in release mode, so arithmetic wraps where widths matter.

  \<^bold>\<open>Theories, in the order of the code.\<close>
  \<^item> \<^verbatim>\<open>Prelude\<close>, \<^verbatim>\<open>Utf8\<close>: machine types, byte memory, text; \<^verbatim>\<open>Fifo\<close>: circular buffers and the locales
    \<open>fifo_machine\<close>, \<open>bounded_queue\<close> and \<open>byte_stream\<close>.
  \<^item> \<^verbatim>\<open>Ipc\<close> (\<^verbatim>\<open>ipc/mod.rs\<close>): the mailbox, an instance of \<open>bounded_queue\<close>: messages arrive once and in order.
  \<^item> \<^verbatim>\<open>Page\<close> (\<^verbatim>\<open>memory/page.rs\<close>): the bitmap allocator, an instance of \<open>frame_allocator\<close>: first fit, zeroed frames,
    disjoint live blocks.
  \<^item> \<^verbatim>\<open>Vmm\<close> (\<^verbatim>\<open>memory/vmm.rs\<close>), with \<^verbatim>\<open>Page_Table\<close> and \<^verbatim>\<open>Address_Space\<close>: \<open>walk\<close> is what the hardware does with
    the tables; mapping refines a function from addresses to translations, unmapping inverts it, and a new process
    table holds the pages of its segments and nothing else.
  \<^item> \<^verbatim>\<open>Task\<close>, \<^verbatim>\<open>Scheduler\<close> (\<^verbatim>\<open>process/task.rs\<close>, \<^verbatim>\<open>process/scheduler.rs\<close>), with \<^verbatim>\<open>Sched_Inv\<close>, \<^verbatim>\<open>Sched_Props\<close> and
    \<^verbatim>\<open>Spawn\<close>: a step relation with one rule for each entry point, any CPU at any moment; its invariant; what a tick, an
    exit, a message and a spawn do; where two CPUs can come to run one task.
  \<^item> \<^verbatim>\<open>Elf\<close>, \<^verbatim>\<open>Elf_Props\<close> (\<^verbatim>\<open>process/elf.rs\<close>): loading never reads outside the file and leaves the image the headers
    describe; the random slide stays in its window.
  \<^item> \<^verbatim>\<open>Syscall\<close>, \<^verbatim>\<open>Syscall_Props\<close> (\<^verbatim>\<open>syscall/mod.rs\<close>, \<^verbatim>\<open>arch/aarch64/exceptions.rs\<close>): the gate and every arm of
    \<open>dispatch\<close>.  No call creates a capability; senders are authentic; mapped memory is fresh; faults kill the task.
  \<^item> \<^verbatim>\<open>Wasm_Memory\<close>, \<^verbatim>\<open>Wasm_Module\<close>, \<^verbatim>\<open>Wasm_Num\<close>, \<^verbatim>\<open>Wasm_Exec\<close>, \<^verbatim>\<open>Wasm_Interp\<close> (\<^verbatim>\<open>wasm\<close>): the engine;
    \<^verbatim>\<open>Wasm_Sandbox\<close>: bytecode changes nothing outside its memory; \<^verbatim>\<open>Wasm_Props\<close>: arithmetic against the WebAssembly
    specification, the decoder, the loader; \<^verbatim>\<open>Wasm_Fuel\<close>: fuel does not influence results.
  \<^item> \<^verbatim>\<open>Fat32\<close> (\<^verbatim>\<open>fs/fat32.rs\<close>), with \<^verbatim>\<open>Fat32_Cache\<close> (the sector cache is transparent, by a simulation),
    \<^verbatim>\<open>Fat32_Files\<close> and \<^verbatim>\<open>Fat32_Props\<close> (round trips, and where the driver damages data).
  \<^item> \<^verbatim>\<open>Pipe\<close>, \<^verbatim>\<open>Vfs\<close>, \<^verbatim>\<open>Vfs_Props\<close> (\<^verbatim>\<open>fs/mod.rs\<close> and the file calls of \<^verbatim>\<open>syscall/mod.rs\<close>): the pipe is an
    instance of \<open>byte_stream\<close>; every descriptor refers to an open object of its kind after any sequence of calls.
  \<^item> \<^verbatim>\<open>Config\<close> (\<^verbatim>\<open>config.rs\<close>): the configuration table, its file and its system calls; a lookup finds what
    was set, and the text reads back as the table.
  \<^item> \<^verbatim>\<open>Net_Checksum\<close>, \<^verbatim>\<open>Net\<close>, \<^verbatim>\<open>Ndp\<close>, \<^verbatim>\<open>Neighbour\<close>, \<^verbatim>\<open>Net_Props\<close> (\<^verbatim>\<open>net/mod.rs\<close>, \<^verbatim>\<open>arp.rs\<close>, \<^verbatim>\<open>ndp.rs\<close>,
    \<^verbatim>\<open>icmp.rs\<close>, \<^verbatim>\<open>icmpv6.rs\<close>, \<^verbatim>\<open>udp.rs\<close>): packets verify at their receiver; the two address caches are instances
    of \<open>neighbour_cache\<close>; an ARP exchange resolves an address; two malformed messages.
  \<^item> \<^verbatim>\<open>Dhcp\<close> (\<^verbatim>\<open>net/dhcp.rs\<close>): the client's state machine, and that its static fallback is never reached; \<^verbatim>\<open>Dns\<close>
    (\<^verbatim>\<open>net/dns.rs\<close>): the resolver.
  \<^item> \<^verbatim>\<open>Tcp_Ring\<close>, \<^verbatim>\<open>Tcp\<close> (\<^verbatim>\<open>net/tcp.rs\<close> and the frame dispatcher of \<^verbatim>\<open>net/mod.rs\<close>): the rings are instances of
    \<open>byte_stream\<close>.  \<^verbatim>\<open>Tcp_Safe\<close>: which frames the stack survives, and two that panic it.  \<^verbatim>\<open>Tcp_Receive\<close>: reads give a prefix of
    the peer's stream under reordering, loss and duplication.  \<^verbatim>\<open>Tcp_Send\<close>: every frame carries the bytes written at its
    sequence number, by an invariant over a step relation; and the window probe that does not.

  \<^bold>\<open>How components meet.\<close>  Spawning joins allocator, page tables and scheduler (\<^verbatim>\<open>Spawn\<close>); messages pass from a system
  call on one CPU through the mailbox to one on another (\<^verbatim>\<open>Syscall_Props\<close>); file calls join descriptors, driver,
  pipes and the addresses of the network stack (\<^verbatim>\<open>Vfs_Props\<close>); frames pass from the dispatcher through ARP or neighbour discovery to
  DHCP, DNS and TCP (\<^verbatim>\<open>Tcp_Safe\<close>).

  \<^bold>\<open>Bounds and fuel.\<close>  Loops of the source that end are total functions.  Two kinds may not.  Chains of clusters on a
  damaged disk can be cyclic: the loops of \<^verbatim>\<open>Fat32\<close> that follow them take fuel and give \<open>Hangs\<close> when it ends, and the
  theorems there hold for every amount, or state the outcome.  Bytecode can loop: \<open>step_frame\<close> and \<open>call_loop\<close> take one
  unit for each instruction and give \<open>None\<close> when it ends; more fuel never changes a result (\<^verbatim>\<open>Wasm_Fuel\<close>), and the
  sandbox theorem holds at every amount.  Checksums are sums of natural numbers because a packet of at most 2048 bytes cannot
  overflow the 32 bits of the code.

  \<^bold>\<open>Environment.\<close>  What a component reaches outside the model is a parameter: the services behind the remaining arms of
  \<open>dispatch\<close>, the host functions of the WebAssembly engine, the random word of the ELF loader, the actions of other CPUs
  during a poll, the frames a poll receives, the blocking address resolution of \<open>tcp_connect\<close>, the answer of the network card.  The disk is ideal and synchronous.  Scheduler entry points are atomic
  because the code holds its lock with interrupts masked.

  \<^bold>\<open>Not modelled.\<close>  The device drivers, the boot code and the interrupt controllers, because their effect is
  defined by hardware; the C++ inference engine; the heap and the cryptography, which wrap third-party crates; TLS, HTTP
  and WebSocket above them; the loops of ARP, neighbour discovery, ping and TCP that block on the timer while frames
  arrive; the semantic store, which searches in floating point; the user programs and the
  assistant, which draw on the screen.  The text printed on the serial console is left out everywhere.
\<close>

end
